(* ===== verification/Prelude.thy ===== *)
theory Prelude
  imports Main "HOL-Library.Word" "HOL-Library.Monad_Syntax"
begin

text \<open>
  Shared ground of the development: Go's byte slices and fixed-width integers, the error values
  of the repository, and the encodings of \<^verbatim>\<open>encoding/binary\<close>.

  Conventions used by every theory.
  \<^item> A Go function that may panic (index or slice out of range, nil dereference, explicit
    \<^verbatim>\<open>panic\<close>) or that may not return has a result of type \<^typ>\<open>'a option\<close>; \<^const>\<open>None\<close> means
    that the call does not return to its caller.
  \<^item> A Go function that returns an \<^verbatim>\<open>error\<close> has a result of type \<open>err + 'a\<close>, with \<^const>\<open>Inl\<close> for
    the error.
  \<^item> Byte slices are lists whose capacity is their length. Slice bounds and the Go type
    \<^verbatim>\<open>int\<close> are \<^typ>\<open>int\<close>, so that a negative bound is a panic and not a truncated number.
\<close>

unbundle bit_operations_syntax

type_synonym byte = "8 word"
type_synonym u16 = "16 word"
type_synonym u32 = "32 word"
type_synonym u64 = "64 word"
type_synonym bytes = "byte list"

named_theorems slice_laws "facts about slices of and copies into byte buffers"
named_theorems field_defs "definitions of the accessors of packet headers"
named_theorems len_laws "lengths of buffers, hashes and ciphertexts"

section \<open>Error values\<close>

text \<open>
  The sentinel errors of the repository, one constructor each; \<open>Errorf\<close> is an error made by
  \<^verbatim>\<open>fmt.Errorf\<close> (its constant text), \<open>ErrExternal\<close> one returned by a library outside the
  repository.
\<close>

datatype err =
    ErrZeroECDH | ErrAEADOpen
  | UnknownIndexError | SessionStateError
  | ErrPrevHopUnknown | ErrNextHopUnknown | ErrSelfUnknown
  | ErrZeroLenRoute | ErrRouteTooLong | ErrLoopRoute
  | ErrUnknownPeerID
  | ErrRunning | ErrNotRunning
  | ErrServiceUnknown | ErrServiceRunning | ErrServiceNotRunning
  | Errorf string
  | ErrExternal string

section \<open>Repeated operations\<close>

text \<open>An operation that may block or fail, on one element of a list after the other.\<close>

fun run_list :: "('s \<Rightarrow> 'a \<Rightarrow> 's option) \<Rightarrow> 's \<Rightarrow> 'a list \<Rightarrow> 's option" where
  "run_list f s [] = Some s"
| "run_list f s (x # xs) = do { s \<leftarrow> f s x; run_list f s xs }"

section \<open>What holds after a call that returns\<close>

text \<open>\<open>yields m P\<close>: if \<open>m\<close> returns, its result satisfies \<open>P\<close>. The rules take a body apart.\<close>

definition yields :: "'a option \<Rightarrow> ('a \<Rightarrow> bool) \<Rightarrow> bool" where
  "yields m P \<longleftrightarrow> (\<forall>x. m = Some x \<longrightarrow> P x)"

named_theorems yields_rules "rules that decompose a postcondition along a body"

lemma yieldsD: "yields m P \<Longrightarrow> m = Some x \<Longrightarrow> P x"
  by (simp add: yields_def)

lemma yields_bind [yields_rules]: "(\<And>x. m = Some x \<Longrightarrow> yields (f x) P) \<Longrightarrow> yields (Option.bind m f) P"
  by (cases m) (auto simp: yields_def)

lemma yields_Some [yields_rules]: "P x \<Longrightarrow> yields (Some x) P"
  by (simp add: yields_def)

lemma yields_None [yields_rules]: "yields None P"
  by (simp add: yields_def)

lemma yields_if [yields_rules]: "(c \<Longrightarrow> yields a P) \<Longrightarrow> (\<not> c \<Longrightarrow> yields b P) \<Longrightarrow> yields (if c then a else b) P"
  by simp

lemma yields_prod [yields_rules]: "(\<And>a b. p = (a, b) \<Longrightarrow> yields (f a b) P) \<Longrightarrow> yields (case p of (a, b) \<Rightarrow> f a b) P"
  by (cases p) simp

lemma yields_sum [yields_rules]:
  "(\<And>a. s = Inl a \<Longrightarrow> yields (f a) P) \<Longrightarrow> (\<And>b. s = Inr b \<Longrightarrow> yields (g b) P) \<Longrightarrow>
     yields (case s of Inl a \<Rightarrow> f a | Inr b \<Rightarrow> g b) P"
  by (cases s) simp_all

lemma yields_option [yields_rules]:
  "(z = None \<Longrightarrow> yields a P) \<Longrightarrow> (\<And>x. z = Some x \<Longrightarrow> yields (f x) P) \<Longrightarrow>
     yields (case z of None \<Rightarrow> a | Some x \<Rightarrow> f x) P"
  by (cases z) simp_all

section \<open>Strings as bytes\<close>

text \<open>The Go conversion \<^verbatim>\<open>[]byte(s)\<close>.\<close>

definition str_bytes :: "string \<Rightarrow> bytes" where
  "str_bytes s = map (\<lambda>c. of_nat (of_char c)) s"

section \<open>Slices\<close>

text \<open>\<open>slice_of b i j\<close> is the Go expression \<^verbatim>\<open>b[i:j]\<close>.\<close>

definition slice_of :: "bytes \<Rightarrow> int \<Rightarrow> int \<Rightarrow> bytes option" where
  "slice_of b i j =
     (if 0 \<le> i \<and> i \<le> j \<and> j \<le> int (length b)
      then Some (take (nat (j - i)) (drop (nat i) b)) else None)"

text \<open>Overwriting the bytes from position \<open>i\<close> on, in place.\<close>

definition splice :: "bytes \<Rightarrow> nat \<Rightarrow> bytes \<Rightarrow> bytes" where
  "splice b i xs = take i b @ xs @ drop (i + length xs) b"

text \<open>\<open>copy_at b i j xs\<close> is \<^verbatim>\<open>copy(b[i:j], xs)\<close>: the shorter of the two lengths is copied.\<close>

definition copy_at :: "bytes \<Rightarrow> int \<Rightarrow> int \<Rightarrow> bytes \<Rightarrow> bytes option" where
  "copy_at b i j xs =
     (if 0 \<le> i \<and> i \<le> j \<and> j \<le> int (length b)
      then Some (splice b (nat i) (take (nat (j - i)) xs)) else None)"

text \<open>Reading and writing one element.\<close>

definition idx :: "bytes \<Rightarrow> int \<Rightarrow> byte option" where
  "idx b i = (if 0 \<le> i \<and> i < int (length b) then Some (b ! nat i) else None)"

definition upd :: "bytes \<Rightarrow> int \<Rightarrow> byte \<Rightarrow> bytes option" where
  "upd b i v = (if 0 \<le> i \<and> i < int (length b) then Some (b[nat i := v]) else None)"

text \<open>
  A callee that appends its output to \<^verbatim>\<open>arr[:0]\<close>, for an array of \<open>n\<close> zero bytes: the output
  lands in the array when it fits, and in freshly allocated memory otherwise.
\<close>

definition into_array :: "nat \<Rightarrow> bytes \<Rightarrow> bytes" where
  "into_array n xs = (if length xs \<le> n then xs @ replicate (n - length xs) 0 else replicate n 0)"

text \<open>Copying a slice into a zeroed array of \<open>n\<close> bytes, \<^verbatim>\<open>copy(arr[:], xs)\<close>.\<close>

definition to_array :: "nat \<Rightarrow> bytes \<Rightarrow> bytes" where
  "to_array n xs = take n xs @ replicate (n - length xs) 0"

lemma to_array_id [simp]: "length xs = n \<Longrightarrow> to_array n xs = xs"
  by (simp add: to_array_def)

lemma length_to_array [simp]: "length (to_array n xs) = n"
  by (simp add: to_array_def)

lemma into_array_id [simp]: "length xs = n \<Longrightarrow> into_array n xs = xs"
  by (simp add: into_array_def)

lemma length_into_array [simp]: "length (into_array n xs) = n"
  by (simp add: into_array_def)

lemma unat_byte_less: "unat (b :: byte) < 256"
  using unsigned_less [of b, where ?'a = nat] by simp

section \<open>Laws of slices\<close>

lemma length_splice [simp]:
  "i + length xs \<le> length b \<Longrightarrow> length (splice b i xs) = length b"
  by (simp add: splice_def)

lemma nth_splice:
  assumes "i + length xs \<le> length b"
  shows "splice b i xs ! k = (if i \<le> k \<and> k < i + length xs then xs ! (k - i) else b ! k)"
  using assms by (auto simp: splice_def nth_append)

lemma slice_Some_iff:
  "slice_of b i j = Some xs \<longleftrightarrow>
     0 \<le> i \<and> i \<le> j \<and> j \<le> int (length b) \<and> xs = take (nat (j - i)) (drop (nat i) b)"
  by (auto simp: slice_of_def)

lemma slice_total [slice_laws]:
  "0 \<le> i \<Longrightarrow> i \<le> j \<Longrightarrow> j \<le> int (length b) \<Longrightarrow> \<exists>xs. slice_of b i j = Some xs"
  by (simp add: slice_of_def)

lemma slice_length [len_laws]:
  "slice_of b i j = Some xs \<Longrightarrow> length xs = nat (j - i)"
  by (auto simp: slice_of_def split: if_splits)

lemma slice_cong:
  assumes "length b = length c"
    and "\<And>k. i \<le> k \<Longrightarrow> k < j \<Longrightarrow> 0 \<le> k \<Longrightarrow> k < int (length b) \<Longrightarrow> b ! nat k = c ! nat k"
  shows "slice_of b i j = slice_of c i j"
proof (cases "0 \<le> i \<and> i \<le> j \<and> j \<le> int (length b)")
  case True
  have "take (nat (j - i)) (drop (nat i) b) = take (nat (j - i)) (drop (nat i) c)"
  proof (rule nth_equalityI)
    fix k assume k: "k < length (take (nat (j - i)) (drop (nat i) b))"
    with True have "b ! nat (i + int k) = c ! nat (i + int k)"
      by (intro assms(2)) auto
    moreover have "nat i \<le> length b" using True by linarith
    ultimately show "take (nat (j - i)) (drop (nat i) b) ! k
        = take (nat (j - i)) (drop (nat i) c) ! k"
      using True k assms(1) by (simp add: nat_add_distrib)
  qed (use assms(1) in simp)
  with True assms(1) show ?thesis by (simp add: slice_of_def)
next
  case False
  with assms(1) show ?thesis by (auto simp: slice_of_def)
qed

lemma copy_at_length [len_laws]:
  assumes "copy_at b i j xs = Some c"
  shows "length c = length b"
  using assms by (auto simp: copy_at_def split: if_splits)

lemma copy_at_total [slice_laws]:
  "0 \<le> i \<Longrightarrow> i \<le> j \<Longrightarrow> j \<le> int (length b) \<Longrightarrow> \<exists>c. copy_at b i j xs = Some c"
  by (simp add: copy_at_def)

lemma copy_at_nth:
  assumes "copy_at b i j xs = Some c"
  shows "c ! k = (if nat i \<le> k \<and> k < nat i + min (nat (j - i)) (length xs) then xs ! (k - nat i)
                  else b ! k)"
proof -
  from assms have b: "0 \<le> i" "i \<le> j" "j \<le> int (length b)"
    and c: "c = splice b (nat i) (take (nat (j - i)) xs)"
    by (auto simp: copy_at_def split: if_splits)
  show ?thesis
    unfolding c using b by (subst nth_splice) (auto simp: min_def)
qed

text \<open>What was copied is read back; the rest of the buffer is untouched.\<close>

lemma slice_copy_same [slice_laws]:
  assumes "copy_at b i j xs = Some c" and "length xs = nat (j - i)"
  shows "slice_of c i j = Some xs"
proof -
  from assms(1) have b: "0 \<le> i" "i \<le> j" "j \<le> int (length b)"
    by (auto simp: copy_at_def split: if_splits)
  have "take (nat (j - i)) (drop (nat i) c) = xs"
  proof (rule nth_equalityI)
    show "length (take (nat (j - i)) (drop (nat i) c)) = length xs"
      using b assms copy_at_length [OF assms(1)] by simp
  next
    fix k assume "k < length (take (nat (j - i)) (drop (nat i) c))"
    then show "take (nat (j - i)) (drop (nat i) c) ! k = xs ! k"
      using b assms(2) copy_at_length [OF assms(1)] by (simp add: copy_at_nth [OF assms(1)])
  qed
  then show ?thesis
    using b copy_at_length [OF assms(1)] by (simp add: slice_of_def)
qed

lemma slice_copy_other [slice_laws]:
  assumes "copy_at b i j xs = Some c" and "j' \<le> i \<or> j \<le> i'"
  shows "slice_of c i' j' = slice_of b i' j'"
proof (rule slice_cong)
  show len: "length c = length b" by (rule copy_at_length [OF assms(1)])
  fix k assume k: "i' \<le> k" "k < j'" "0 \<le> k" "k < int (length c)"
  from assms(1) have b: "0 \<le> i" "i \<le> j" "j \<le> int (length b)"
    by (auto simp: copy_at_def split: if_splits)
  show "c ! nat k = b ! nat k"
    using k b assms(2) by (auto simp: copy_at_nth [OF assms(1)])
qed

lemma idx_copy_other [slice_laws]:
  assumes "copy_at b i j xs = Some c" and "k < i \<or> j \<le> k"
  shows "idx c k = idx b k"
  using assms copy_at_length [OF assms(1)]
  by (auto simp: idx_def copy_at_nth [OF assms(1)] copy_at_def split: if_splits)

lemma upd_length [len_laws]: "upd b i v = Some c \<Longrightarrow> length c = length b"
  by (auto simp: upd_def split: if_splits)

lemma idx_upd [slice_laws]:
  "upd b i v = Some c \<Longrightarrow> idx c k = (if k = i then Some v else idx b k)"
  by (auto simp: upd_def idx_def nth_list_update split: if_splits)

lemma slice_upd_other [slice_laws]:
  assumes "upd b i v = Some c" and "j' \<le> i \<or> i < i'"
  shows "slice_of c i' j' = slice_of b i' j'"
  using assms
  by (intro slice_cong) (auto simp: upd_def nth_list_update split: if_splits)

lemma slice_split:
  assumes "slice_of b i k = Some xs" and "i \<le> j" and "j \<le> k"
  shows "slice_of b i j = Some (take (nat (j - i)) xs)" "slice_of b j k = Some (drop (nat (j - i)) xs)"
proof -
  from assms have *: "0 \<le> i" "k \<le> int (length b)" "xs = take (nat (k - i)) (drop (nat i) b)"
    by (auto simp: slice_of_def split: if_splits)
  have "nat (k - i) - nat (j - i) = nat (k - j)" "nat (j - i) + nat i = nat j"
    using assms(2,3) *(1) by auto
  with * assms(2,3) show "slice_of b j k = Some (drop (nat (j - i)) xs)"
    by (simp add: slice_of_def drop_take)
  from * assms(2,3) show "slice_of b i j = Some (take (nat (j - i)) xs)"
    by (simp add: slice_of_def min_def)
qed

lemma slice_inner:
  assumes "slice_of b i k = Some xs" and "slice_of c i k = Some xs" and "i \<le> i'" and "i' \<le> j" and "j \<le> k"
  shows "slice_of b i' j = slice_of c i' j"
  using slice_split(1) [OF slice_split(2) [OF assms(1), of i'], of j]
    slice_split(1) [OF slice_split(2) [OF assms(2), of i'], of j] assms(3-5) by simp

section \<open>Windows\<close>

text \<open>
  A buffer written as \<open>pre @ h @ post\<close>: the operations at an offset inside the window are the
  operations on \<open>h\<close>.
\<close>

lemma idx_window:
  assumes "off = int (length pre)" and "0 \<le> i" and "i < int (length h)"
  shows "idx (pre @ h @ post) (off + i) = Some (h ! nat i)"
  using assms by (auto simp: idx_def nth_append nat_add_distrib)

lemma upd_window:
  assumes "off = int (length pre)" and "0 \<le> i" and "i < int (length h)"
  shows "upd (pre @ h @ post) (off + i) v = Some (pre @ h[nat i := v] @ post)"
  using assms by (auto simp: upd_def list_update_append nat_add_distrib)

lemma slice_window:
  assumes "off = int (length pre)" and "0 \<le> i" and "i \<le> j" and "j \<le> int (length h)"
  shows "slice_of (pre @ h @ post) (off + i) (off + j) = slice_of h i j"
  using assms by (auto simp: slice_of_def nat_add_distrib)

lemma copy_window:
  assumes "off = int (length pre)" and "0 \<le> i" and "i \<le> j" and "j \<le> int (length h)"
  shows "copy_at (pre @ h @ post) (off + i) (off + j) xs = map_option (\<lambda>h'. pre @ h' @ post) (copy_at h i j xs)"
proof -
  have "nat i + length (take (nat (j - i)) xs) \<le> length h" using assms by auto
  with assms show ?thesis by (auto simp: copy_at_def splice_def nat_add_distrib)
qed

lemma copy_at_fill:
  assumes "length xs = nat (j - i)" and "0 \<le> i" and "i \<le> j" and "j \<le> int (length b)"
  shows "copy_at b i j xs = Some (take (nat i) b @ xs @ drop (nat j) b)"
proof -
  have "nat i + nat (j - i) = nat j" using assms by auto
  with assms show ?thesis by (simp add: copy_at_def splice_def)
qed

lemma window_split:
  assumes "0 \<le> off" and "off + int n \<le> int (length b)"
  obtains pre h post where "b = pre @ h @ post" "off = int (length pre)" "length h = n"
proof
  show "b = take (nat off) b @ take n (drop (nat off) b) @ drop n (drop (nat off) b)"
    by (metis append_take_drop_id)
  show "off = int (length (take (nat off) b))" "length (take n (drop (nat off) b)) = n"
    using assms by auto
qed

end
