(* ===== verification/Binary.thy ===== *)
theory Binary
  imports Prelude
begin

text \<open>
  The parts of Go's \<^verbatim>\<open>encoding/binary\<close> that the repository uses: fixed-width integers in either
  byte order. A decoder panics on a slice that is too short, as Go's bounds check does.
\<close>

section \<open>encoding/binary\<close>

definition be_bytes16 :: "u16 \<Rightarrow> bytes" where
  "be_bytes16 v = [ucast (drop_bit 8 v), ucast v]"

definition be_bytes32 :: "u32 \<Rightarrow> bytes" where
  "be_bytes32 v = [ucast (drop_bit 24 v), ucast (drop_bit 16 v), ucast (drop_bit 8 v), ucast v]"

definition le_bytes32 :: "u32 \<Rightarrow> bytes" where
  "le_bytes32 v = [ucast v, ucast (drop_bit 8 v), ucast (drop_bit 16 v), ucast (drop_bit 24 v)]"

definition be_bytes64 :: "u64 \<Rightarrow> bytes" where
  "be_bytes64 v =
     [ucast (drop_bit 56 v), ucast (drop_bit 48 v), ucast (drop_bit 40 v), ucast (drop_bit 32 v),
      ucast (drop_bit 24 v), ucast (drop_bit 16 v), ucast (drop_bit 8 v), ucast v]"

fun be_uint16 :: "bytes \<Rightarrow> u16 option" where
  "be_uint16 (a # b # _) = Some (ucast b OR push_bit 8 (ucast a))"
| "be_uint16 _ = None"

fun be_uint32 :: "bytes \<Rightarrow> u32 option" where
  "be_uint32 (a # b # c # d # _) =
     Some (ucast d OR push_bit 8 (ucast c) OR push_bit 16 (ucast b) OR push_bit 24 (ucast a))"
| "be_uint32 _ = None"

fun le_uint32 :: "bytes \<Rightarrow> u32 option" where
  "le_uint32 (a # b # c # d # _) =
     Some (ucast a OR push_bit 8 (ucast b) OR push_bit 16 (ucast c) OR push_bit 24 (ucast d))"
| "le_uint32 _ = None"

lemma length_be_bytes [simp]:
  "length (be_bytes16 a) = 2" "length (be_bytes32 v) = 4" "length (le_bytes32 v) = 4"
  "length (be_bytes64 w) = 8"
  by (simp_all add: be_bytes16_def be_bytes32_def le_bytes32_def be_bytes64_def)

section \<open>Round trips\<close>

text \<open>One more byte above the lowest \<open>k\<close> bits: the step every decoder repeats.\<close>

lemma take_bit_join:
  fixes v :: "'a::len word"
  shows "take_bit k v OR push_bit k (take_bit 8 (drop_bit k v)) = take_bit (k + 8) v"
  by (rule bit_word_eqI) (auto simp: bit_simps)

lemma ucast_byte_take_bit: "ucast (ucast v :: byte) = take_bit 8 (v :: 'a::len word)"
  by (rule bit_word_eqI) (auto simp: bit_simps)

lemma bit_byte_beyond: "8 \<le> n \<Longrightarrow> bit (b :: byte) n \<longleftrightarrow> False"
  using bit_imp_le_length [of b n] by auto

lemma take_bit_all:
  "take_bit 16 (v16 :: u16) = v16" "take_bit 32 (v32 :: u32) = v32" "take_bit 64 (v64 :: u64) = v64"
  using take_bit_word_eq_self [of 16 v16] take_bit_word_eq_self [of 32 v32]
    take_bit_word_eq_self [of 64 v64] by simp_all

lemmas decode_chain = or.assoc [symmetric] ucast_byte_take_bit take_bit_join [where k = 8]
  take_bit_join [where k = 16] take_bit_join [where k = 24] take_bit_join [where k = 32]
  take_bit_join [where k = 40] take_bit_join [where k = 48] take_bit_join [where k = 56]

lemma be_uint16_bytes [simp]: "be_uint16 (be_bytes16 v @ xs) = Some v"
  by (simp add: be_bytes16_def decode_chain take_bit_all)

lemma be_uint32_bytes [simp]: "be_uint32 (be_bytes32 v @ xs) = Some v"
  by (simp add: be_bytes32_def decode_chain take_bit_all)

lemma le_uint32_bytes [simp]: "le_uint32 (le_bytes32 v @ xs) = Some v"
  by (simp add: le_bytes32_def decode_chain take_bit_all)

lemmas uint_of_bytes [simp] =
  be_uint16_bytes [where xs = "[]", simplified] be_uint32_bytes [where xs = "[]", simplified]
  le_uint32_bytes [where xs = "[]", simplified]

end
