(* ===== verification/Keys.thy ===== *)
theory Keys
  imports Binary
begin

text \<open>
  \<^verbatim>\<open>key.go\<close>: private and public keys, key generation, and the IPv6 address of a key.

  The cryptographic primitives (blake2s, curve25519, ChaCha20-Poly1305) come from packages outside
  the repository. They are the fields of the record \<open>crypto\<close>, which every definition that
  uses them takes as an argument; \<open>crypto_ok\<close> collects the documented behaviour the code
  relies on.
\<close>

section \<open>External primitives\<close>

record crypto =
  blake2s :: "bytes \<Rightarrow> bytes"                          \<comment> \<open>\<^verbatim>\<open>blake2s.Sum256\<close>, \<^verbatim>\<open>blake2s.New256(nil)\<close>\<close>
  base_mult :: "bytes \<Rightarrow> bytes"                        \<comment> \<open>\<^verbatim>\<open>curve25519.ScalarBaseMult\<close>\<close>
  dh_mult :: "bytes \<Rightarrow> bytes \<Rightarrow> bytes"                 \<comment> \<open>\<^verbatim>\<open>curve25519.ScalarMult\<close>: scalar, point\<close>
  aead_new_ok :: "bytes \<Rightarrow> bool"                       \<comment> \<open>\<^verbatim>\<open>chacha20poly1305.New\<close> accepts the key\<close>
  aead_seal :: "bytes \<Rightarrow> bytes \<Rightarrow> bytes \<Rightarrow> bytes \<Rightarrow> bytes"         \<comment> \<open>key, nonce, plaintext, additional data\<close>
  aead_open :: "bytes \<Rightarrow> bytes \<Rightarrow> bytes \<Rightarrow> bytes \<Rightarrow> bytes option"  \<comment> \<open>key, nonce, ciphertext, additional data\<close>

definition crypto_ok :: "crypto \<Rightarrow> bool" where
  "crypto_ok C \<longleftrightarrow>
     (\<forall>x. length (blake2s C x) = 32) \<and>
     (\<forall>a. length (base_mult C a) = 32) \<and>
     (\<forall>a p. length (dh_mult C a p) = 32) \<and>
     (\<forall>a b. length a = 32 \<longrightarrow> length b = 32 \<longrightarrow>
        dh_mult C a (base_mult C b) = dh_mult C b (base_mult C a)) \<and>
     (\<forall>k. length k = 32 \<longrightarrow> aead_new_ok C k) \<and>
     (\<forall>k n p a. length k = 32 \<longrightarrow> length n = 12 \<longrightarrow>
        length (aead_seal C k n p a) = length p + 16 \<and>
        aead_open C k n (aead_seal C k n p a) a = Some p) \<and>
     (\<forall>k n c a p. aead_open C k n c a = Some p \<longrightarrow> length c = length p + 16)"

lemma crypto_okD:
  assumes "crypto_ok C"
  shows "length (blake2s C x) = 32" "length (base_mult C a) = 32" "length (dh_mult C a p) = 32"
    "length a = 32 \<Longrightarrow> length b = 32 \<Longrightarrow> dh_mult C a (base_mult C b) = dh_mult C b (base_mult C a)"
    "length k = 32 \<Longrightarrow> aead_new_ok C k"
    "length k = 32 \<Longrightarrow> length n = 12 \<Longrightarrow> length (aead_seal C k n pt ad) = length pt + 16"
    "length k = 32 \<Longrightarrow> length n = 12 \<Longrightarrow> aead_open C k n (aead_seal C k n pt ad) ad = Some pt"
    "aead_open C k n ct ad = Some pt \<Longrightarrow> length ct = length pt + 16"
  using assms unfolding crypto_ok_def by blast+

section \<open>net/netip addresses\<close>

text \<open>\<^verbatim>\<open>netip.Addr\<close>: the zero value, an IPv4 address, an IPv6 address with its zone.\<close>

datatype Addr = AddrZero | Addr4 bytes | Addr6 bytes string

definition AddrFromSlice :: "bytes \<Rightarrow> Addr \<times> bool" where
  "AddrFromSlice b =
     (if length b = 4 then (Addr4 b, True)
      else if length b = 16 then (Addr6 b [], True) else (AddrZero, False))"

fun As16 :: "Addr \<Rightarrow> bytes" where
  "As16 AddrZero = replicate 16 0"
| "As16 (Addr4 b) = replicate 10 0 @ [0xff, 0xff] @ b"
| "As16 (Addr6 b z) = b"

fun AsSlice :: "Addr \<Rightarrow> bytes" where
  "AsSlice AddrZero = []"
| "AsSlice (Addr4 b) = b"
| "AsSlice (Addr6 b z) = b"

section \<open>Keys\<close>

definition PrivateKeySize :: nat where "PrivateKeySize = 32"
definition PublicKeySize :: nat where "PublicKeySize = 32"

definition prefix :: bytes where "prefix = [0xfc]"

record PrivateKey = priv_bytes :: bytes
record PublicKey = pub_bytes :: bytes

definition NewPrivateKey :: "bytes \<Rightarrow> PrivateKey option" where
  "NewPrivateKey b = do {
     src \<leftarrow> slice_of b 0 (int PrivateKeySize);
     Some \<lparr>priv_bytes = to_array PrivateKeySize src\<rparr> }"

definition NewPublicKey :: "bytes \<Rightarrow> PublicKey" where
  "NewPublicKey b = \<lparr>pub_bytes = to_array PublicKeySize b\<rparr>"

definition PublicKey_Bytes :: "PublicKey \<Rightarrow> bytes" where
  "PublicKey_Bytes pubkey = pub_bytes pubkey"

definition PublicKey_IPAddr :: "crypto \<Rightarrow> PublicKey \<Rightarrow> Addr" where
  "PublicKey_IPAddr C pubkey =
     (let h1 = blake2s C (pub_bytes pubkey);
          h2 = blake2s C h1;
          (ip, _) = AddrFromSlice (take 16 (drop 16 h2))
      in ip)"

text \<open>
  \<^verbatim>\<open>clamp\<close> has a value receiver: it changes its own copy of the key. The definition is the value
  of that copy when the method returns.
\<close>

definition clamp :: "PrivateKey \<Rightarrow> PrivateKey" where
  "clamp privkey =
     (let b = priv_bytes privkey;
          b = b[0 := b ! 0 AND 248];
          b = b[31 := (b ! 31 AND 127) OR 64]
      in privkey\<lparr>priv_bytes := b\<rparr>)"

definition PrivateKey_PublicKey :: "crypto \<Rightarrow> PrivateKey \<Rightarrow> PublicKey" where
  "PrivateKey_PublicKey C privkey = \<lparr>pub_bytes = base_mult C (priv_bytes privkey)\<rparr>"

definition SharedSecret :: "crypto \<Rightarrow> PrivateKey \<Rightarrow> PublicKey \<Rightarrow> bytes" where
  "SharedSecret C privkey remote = dh_mult C (priv_bytes privkey) (pub_bytes remote)"

text \<open>
  \<^verbatim>\<open>GeneratePrivateKey\<close> draws until the address of the key lies in \<open>fc00::/8\<close>. The draws of
  \<^verbatim>\<open>rand.Read\<close> are an argument; \<^const>\<open>None\<close> means that the draws given do not suffice.
\<close>

fun GeneratePrivateKey :: "crypto \<Rightarrow> (err + bytes) list \<Rightarrow> (err + PrivateKey) option" where
  "GeneratePrivateKey C [] = None"
| "GeneratePrivateKey C (Inl e # draws) = Some (Inl e)"
| "GeneratePrivateKey C (Inr r # draws) =
     (let privkey = \<lparr>priv_bytes = to_array PrivateKeySize r\<rparr>;
          _ = clamp privkey;
          ipv6 = As16 (PublicKey_IPAddr C (PrivateKey_PublicKey C privkey))
      in if take (length prefix) ipv6 = prefix then Some (Inr privkey)
         else GeneratePrivateKey C draws)"

text \<open>\<^verbatim>\<open>MustGeneratePrivateKey\<close> panics where \<^verbatim>\<open>GeneratePrivateKey\<close> returns an error.\<close>

definition MustGeneratePrivateKey :: "crypto \<Rightarrow> (err + bytes) list \<Rightarrow> PrivateKey option" where
  "MustGeneratePrivateKey C draws = do {
     r \<leftarrow> GeneratePrivateKey C draws;
     (case r of Inl _ \<Rightarrow> None | Inr privkey \<Rightarrow> Some privkey) }"

text \<open>The multibase decoder is an argument: it belongs to a package outside the repository.\<close>

definition ParsePrivateKey :: "(string \<Rightarrow> err + bytes) \<Rightarrow> string \<Rightarrow> (err + PrivateKey) option" where
  "ParsePrivateKey multibase_Decode str =
     (case multibase_Decode str of
        Inl e \<Rightarrow> Some (Inl e)
      | Inr b \<Rightarrow> do { k \<leftarrow> NewPrivateKey b; Some (Inr k) })"

definition MustParsePrivateKey :: "(string \<Rightarrow> err + bytes) \<Rightarrow> string \<Rightarrow> PrivateKey option" where
  "MustParsePrivateKey multibase_Decode str = do {
     r \<leftarrow> ParsePrivateKey multibase_Decode str;
     (case r of Inl _ \<Rightarrow> None | Inr privkey \<Rightarrow> Some privkey) }"

definition PrivateKey_String :: "(bytes \<Rightarrow> string) \<Rightarrow> PrivateKey \<Rightarrow> string" where
  "PrivateKey_String multibase_Encode privkey = multibase_Encode (priv_bytes privkey)"

section \<open>Well-formed keys\<close>

text \<open>Go's array types fix the length of a key; here it is an invariant.\<close>

definition wf_priv :: "PrivateKey \<Rightarrow> bool" where
  "wf_priv k \<longleftrightarrow> length (priv_bytes k) = 32"

definition wf_pub :: "PublicKey \<Rightarrow> bool" where
  "wf_pub k \<longleftrightarrow> length (pub_bytes k) = 32"

lemma wf_NewPublicKey [simp]: "wf_pub (NewPublicKey b)"
  by (simp add: wf_pub_def NewPublicKey_def PublicKeySize_def)

lemma NewPublicKey_id: "wf_pub k \<Longrightarrow> NewPublicKey (pub_bytes k) = k"
  by (simp add: wf_pub_def NewPublicKey_def PublicKeySize_def)

lemma wf_PublicKey: "crypto_ok C \<Longrightarrow> wf_pub (PrivateKey_PublicKey C k)"
  by (simp add: wf_pub_def PrivateKey_PublicKey_def crypto_okD)

lemma SharedSecret_comm:
  assumes "crypto_ok C" and "wf_priv a" and "wf_priv b"
  shows "SharedSecret C a (PrivateKey_PublicKey C b) = SharedSecret C b (PrivateKey_PublicKey C a)"
  using assms by (simp add: SharedSecret_def PrivateKey_PublicKey_def wf_priv_def crypto_okD(4))

lemma length_SharedSecret: "crypto_ok C \<Longrightarrow> length (SharedSecret C a b) = 32"
  by (simp add: SharedSecret_def crypto_okD)

text \<open>Whether a draw is one that \<^verbatim>\<open>GeneratePrivateKey\<close> keeps.\<close>

definition in_fc00 :: "crypto \<Rightarrow> bytes \<Rightarrow> bool" where
  "in_fc00 C r \<longleftrightarrow>
     take 1 (As16 (PublicKey_IPAddr C (PrivateKey_PublicKey C \<lparr>priv_bytes = to_array 32 r\<rparr>))) = [0xfc]"

lemma GeneratePrivateKey_step:
  "GeneratePrivateKey C (Inr r # draws) =
     (if in_fc00 C r then Some (Inr \<lparr>priv_bytes = to_array 32 r\<rparr>) else GeneratePrivateKey C draws)"
  by (simp add: Let_def in_fc00_def prefix_def PrivateKeySize_def)

declare GeneratePrivateKey.simps(3) [simp del]

lemma GeneratePrivateKey_skip:
  "(\<And>r. r \<in> set rs \<Longrightarrow> \<not> in_fc00 C r) \<Longrightarrow>
     GeneratePrivateKey C (map Inr rs @ draws) = GeneratePrivateKey C draws"
  by (induction rs) (auto simp: GeneratePrivateKey_step)

lemma GeneratePrivateKey_cases:
  "GeneratePrivateKey C draws = Some (Inr k) \<Longrightarrow>
     \<exists>r. Inr r \<in> set draws \<and> in_fc00 C r \<and> k = \<lparr>priv_bytes = to_array 32 r\<rparr>"
proof (induction draws)
  case (Cons d draws)
  then show ?case by (cases d) (auto simp: GeneratePrivateKey_step split: if_splits)
qed simp

lemma wf_GeneratePrivateKey:
  "GeneratePrivateKey C draws = Some (Inr k) \<Longrightarrow> wf_priv k"
  by (auto dest: GeneratePrivateKey_cases simp: wf_priv_def)

lemma NewPrivateKey_Some: "wf_priv k \<Longrightarrow> NewPrivateKey (priv_bytes k) = Some k"
  by (simp add: NewPrivateKey_def wf_priv_def slice_of_def PrivateKeySize_def)

end
