(* ===== verification/PeerIds.thy ===== *)
theory PeerIds
  imports Keys
begin

text \<open>
  \<^verbatim>\<open>peerid.go\<close>: the identity of a node, its public key packed into four 64-bit integers, and the
  conversions from and to content identifiers.

  The CID and multihash packages are outside the repository: the functions of them that the
  code calls are the fields of the record \<open>cidlib\<close>, over an abstract type of CIDs, and
  \<open>cid_ok\<close> states what their documentation promises.
\<close>

definition RovyKeyMulticodec :: u64 where "RovyKeyMulticodec = 0x73"

record PeerID =
  b1 :: u64
  b2 :: u64
  b3 :: u64
  b4 :: u64

definition emptyPeerID :: PeerID where
  "emptyPeerID = \<lparr>b1 = 0, b2 = 0, b3 = 0, b4 = 0\<rparr>"

section \<open>Big-endian 64-bit integers\<close>

text \<open>Every caller passes a slice of eight bytes, so the bounds hint \<^verbatim>\<open>_ = b[7]\<close> holds.\<close>

definition beUint64 :: "bytes \<Rightarrow> u64" where
  "beUint64 b =
     ucast (b ! 7) OR push_bit 8 (ucast (b ! 6)) OR push_bit 16 (ucast (b ! 5)) OR
     push_bit 24 (ucast (b ! 4)) OR push_bit 32 (ucast (b ! 3)) OR push_bit 40 (ucast (b ! 2)) OR
     push_bit 48 (ucast (b ! 1)) OR push_bit 56 (ucast (b ! 0))"

definition bePutUint64 :: "u64 \<Rightarrow> bytes" where
  "bePutUint64 v =
     [ucast (drop_bit 56 v), ucast (drop_bit 48 v), ucast (drop_bit 40 v), ucast (drop_bit 32 v),
      ucast (drop_bit 24 v), ucast (drop_bit 16 v), ucast (drop_bit 8 v), ucast v]"

lemma length_bePutUint64 [simp]: "length (bePutUint64 v) = 8"
  by (simp add: bePutUint64_def)

lemma beUint64_put [simp]: "beUint64 (bePutUint64 v) = v"
  by (simp add: beUint64_def bePutUint64_def decode_chain take_bit_all)

lemma bePut_Uint64 [simp]: "length b = 8 \<Longrightarrow> bePutUint64 (beUint64 b) = b"
proof -
  assume "length b = 8"
  then obtain b0 b1 b2 b3 b4 b5 b6 b7 where bs: "b = [b0, b1, b2, b3, b4, b5, b6, b7]"
    by (auto simp: length_Suc_conv numeral_eq_Suc)
  show ?thesis
    unfolding bs beUint64_def bePutUint64_def
    by (auto intro!: bit_word_eqI simp: bit_simps bit_byte_beyond)
qed

section \<open>From and to public keys\<close>

definition NewPeerID :: "PublicKey \<Rightarrow> PeerID" where
  "NewPeerID pk =
     (let b = PublicKey_Bytes pk in
      \<lparr>b1 = beUint64 (take 8 b), b2 = beUint64 (take 8 (drop 8 b)),
       b3 = beUint64 (take 8 (drop 16 b)), b4 = beUint64 (drop 24 b)\<rparr>)"

definition PeerID_PublicKey :: "PeerID \<Rightarrow> PublicKey" where
  "PeerID_PublicKey pid =
     NewPublicKey (bePutUint64 (b1 pid) @ bePutUint64 (b2 pid) @ bePutUint64 (b3 pid) @ bePutUint64 (b4 pid))"

definition PeerID_RawBytesTo :: "PeerID \<Rightarrow> bytes \<Rightarrow> bytes option" where
  "PeerID_RawBytesTo pid b = do {
     _ \<leftarrow> idx b 31;
     b \<leftarrow> copy_at b 0 8 (bePutUint64 (b1 pid));
     b \<leftarrow> copy_at b 8 16 (bePutUint64 (b2 pid));
     b \<leftarrow> copy_at b 16 24 (bePutUint64 (b3 pid));
     copy_at b 24 32 (bePutUint64 (b4 pid)) }"

definition PeerID_Empty :: "PeerID \<Rightarrow> bool" where
  "PeerID_Empty pid \<longleftrightarrow> pid = emptyPeerID"

definition PeerID_Equal :: "PeerID \<Rightarrow> PeerID \<Rightarrow> bool" where
  "PeerID_Equal pid other \<longleftrightarrow> pid = other"

section \<open>Content identifiers\<close>

record DecodedMultihash =
  mh_Code :: u64
  mh_Length :: int
  mh_Digest :: bytes

record 'cid cidlib =
  cid_Type :: "'cid \<Rightarrow> u64"
  cid_Hash :: "'cid \<Rightarrow> bytes"
  cid_NewCidV1 :: "u64 \<Rightarrow> bytes \<Rightarrow> 'cid"
  cid_Bytes :: "'cid \<Rightarrow> bytes"
  cid_String :: "'cid \<Rightarrow> string"
  cid_Cast :: "bytes \<Rightarrow> err + 'cid"            \<comment> \<open>\<^verbatim>\<open>cid.Cast\<close>, \<^verbatim>\<open>Cid.UnmarshalBinary\<close>\<close>
  cid_Decode :: "string \<Rightarrow> err + 'cid"
  cid_Parse :: "string \<Rightarrow> err + 'cid"          \<comment> \<open>as \<^verbatim>\<open>cid.Decode\<close>, and paths that contain \<^verbatim>\<open>/ipfs/\<close>\<close>
  mh_Decode :: "bytes \<Rightarrow> err + DecodedMultihash"
  mh_Sum :: "bytes \<Rightarrow> u64 \<Rightarrow> int \<Rightarrow> err + bytes"
  mh_IDENTITY :: u64

text \<open>The type \<open>'cid\<close> is that of defined CIDs; \<^verbatim>\<open>cid.Undef\<close> has no place in it.\<close>

definition cid_ok :: "'cid cidlib \<Rightarrow> bool" where
  "cid_ok L \<longleftrightarrow>
     (\<forall>t h. cid_Type L (cid_NewCidV1 L t h) = t \<and> cid_Hash L (cid_NewCidV1 L t h) = h) \<and>
     (\<forall>c. cid_Cast L (cid_Bytes L c) = Inr c) \<and>
     (\<forall>c. cid_Decode L (cid_String L c) = Inr c) \<and>
     (\<forall>c. cid_Parse L (cid_String L c) = Inr c) \<and>
     (\<forall>b. length b = 32 \<longrightarrow> (\<exists>m. mh_Sum L b (mh_IDENTITY L) 32 = Inr m \<and>
        mh_Decode L m = Inr \<lparr>mh_Code = mh_IDENTITY L, mh_Length = 32, mh_Digest = b\<rparr>))"

definition PeerIDFromCid :: "'cid cidlib \<Rightarrow> 'cid \<Rightarrow> err + PeerID" where
  "PeerIDFromCid L c =
     (if cid_Type L c \<noteq> RovyKeyMulticodec then Inl (Errorf ''peerid can't be cid with type'')
      else case mh_Decode L (cid_Hash L c) of
        Inl e \<Rightarrow> Inl e
      | Inr mhash \<Rightarrow>
          if mh_Code mhash \<noteq> mh_IDENTITY L then Inl (Errorf ''public key mishhashed'')
          else if mh_Length mhash \<noteq> int PublicKeySize then Inl (Errorf ''invalid public key size'')
          else Inr (NewPeerID (NewPublicKey (mh_Digest mhash))))"

definition PeerID_Cid :: "'cid cidlib \<Rightarrow> PeerID \<Rightarrow> 'cid" where
  "PeerID_Cid L pid =
     (let mhash = (case mh_Sum L (PublicKey_Bytes (PeerID_PublicKey pid)) (mh_IDENTITY L) (int PublicKeySize)
                   of Inl _ \<Rightarrow> [] | Inr m \<Rightarrow> m)
      in cid_NewCidV1 L 0x73 mhash)"

definition PeerID_Bytes :: "'cid cidlib \<Rightarrow> PeerID \<Rightarrow> bytes" where
  "PeerID_Bytes L pid = cid_Bytes L (PeerID_Cid L pid)"

definition PeerID_String :: "'cid cidlib \<Rightarrow> PeerID \<Rightarrow> string" where
  "PeerID_String L pid =
     (if PeerID_Empty pid then ''<empty>'' else cid_String L (PeerID_Cid L pid))"

definition PeerID_MarshalBinary :: "'cid cidlib \<Rightarrow> PeerID \<Rightarrow> err + bytes" where
  "PeerID_MarshalBinary L pid = Inr (cid_Bytes L (PeerID_Cid L pid))"

text \<open>The digest is sliced here, not copied: a short one panics.\<close>

definition PeerID_UnmarshalBinary :: "'cid cidlib \<Rightarrow> bytes \<Rightarrow> (err + PeerID) option" where
  "PeerID_UnmarshalBinary L b =
     (case cid_Cast L b of
        Inl e \<Rightarrow> Some (Inl e)
      | Inr c \<Rightarrow>
          if cid_Type L c \<noteq> RovyKeyMulticodec then Some (Inl (Errorf ''peerid can't be cid with type''))
          else case mh_Decode L (cid_Hash L c) of
            Inl e \<Rightarrow> Some (Inl e)
          | Inr mhash \<Rightarrow>
              if mh_Code mhash \<noteq> mh_IDENTITY L then Some (Inl (Errorf ''public key mishhashed''))
              else if mh_Length mhash \<noteq> int PublicKeySize then Some (Inl (Errorf ''invalid public key size''))
              else do {
                d1 \<leftarrow> slice_of (mh_Digest mhash) 0 8;
                d2 \<leftarrow> slice_of (mh_Digest mhash) 8 16;
                d3 \<leftarrow> slice_of (mh_Digest mhash) 16 24;
                d4 \<leftarrow> slice_of (mh_Digest mhash) 24 (int (length (mh_Digest mhash)));
                _ \<leftarrow> idx d4 7;
                Some (Inr \<lparr>b1 = beUint64 d1, b2 = beUint64 d2, b3 = beUint64 d3, b4 = beUint64 d4\<rparr>) })"

section \<open>Lemmas\<close>

lemma length_PeerID_key:
  "length (bePutUint64 a @ bePutUint64 b @ bePutUint64 c @ bePutUint64 d) = 32"
  by simp

lemma PeerID_PublicKey_bytes:
  "pub_bytes (PeerID_PublicKey pid) =
     bePutUint64 (b1 pid) @ bePutUint64 (b2 pid) @ bePutUint64 (b3 pid) @ bePutUint64 (b4 pid)"
  by (simp add: PeerID_PublicKey_def NewPublicKey_def PublicKeySize_def)

lemma wf_PeerID_PublicKey [simp]: "wf_pub (PeerID_PublicKey pid)"
  by (simp add: PeerID_PublicKey_def)

lemma NewPeerID_PublicKey [simp]: "NewPeerID (PeerID_PublicKey pid) = pid"
  by (simp add: NewPeerID_def PublicKey_Bytes_def PeerID_PublicKey_bytes Let_def)

lemma PublicKey_NewPeerID [simp]:
  assumes "wf_pub pk"
  shows "PeerID_PublicKey (NewPeerID pk) = pk"
proof -
  let ?b = "pub_bytes pk"
  from assms have len: "length ?b = 32" by (simp add: wf_pub_def)
  have "take 8 ?b @ take 8 (drop 8 ?b) @ take 8 (drop 16 ?b) @ drop 24 ?b = ?b"
    using append_take_drop_id [of 8 ?b] append_take_drop_id [of 8 "drop 8 ?b"]
      append_take_drop_id [of 8 "drop 16 ?b"] by simp
  with assms len show ?thesis
    by (simp add: PeerID_PublicKey_def NewPeerID_def PublicKey_Bytes_def Let_def NewPublicKey_id)
qed

lemma NewPeerID_inject:
  "wf_pub a \<Longrightarrow> wf_pub b \<Longrightarrow> NewPeerID a = NewPeerID b \<longleftrightarrow> a = b"
  by (metis PublicKey_NewPeerID)

lemma PeerID_Cid_props:
  assumes "cid_ok L"
  shows "cid_Type L (PeerID_Cid L pid) = RovyKeyMulticodec"
    and "mh_Decode L (cid_Hash L (PeerID_Cid L pid)) =
      Inr \<lparr>mh_Code = mh_IDENTITY L, mh_Length = 32, mh_Digest = pub_bytes (PeerID_PublicKey pid)\<rparr>"
proof -
  let ?b = "pub_bytes (PeerID_PublicKey pid)"
  have "length ?b = 32" using wf_PeerID_PublicKey [of pid] by (simp add: wf_pub_def)
  with assms obtain m where "mh_Sum L ?b (mh_IDENTITY L) 32 = Inr m"
    and "mh_Decode L m = Inr \<lparr>mh_Code = mh_IDENTITY L, mh_Length = 32, mh_Digest = ?b\<rparr>"
    unfolding cid_ok_def by blast
  with assms show "cid_Type L (PeerID_Cid L pid) = RovyKeyMulticodec"
    and "mh_Decode L (cid_Hash L (PeerID_Cid L pid)) =
      Inr \<lparr>mh_Code = mh_IDENTITY L, mh_Length = 32, mh_Digest = ?b\<rparr>"
    by (simp_all add: PeerID_Cid_def cid_ok_def PublicKey_Bytes_def PublicKeySize_def RovyKeyMulticodec_def)
qed

lemma PeerIDFromCid_Cid: "cid_ok L \<Longrightarrow> PeerIDFromCid L (PeerID_Cid L pid) = Inr pid"
  by (simp add: PeerIDFromCid_def PeerID_Cid_props PublicKeySize_def NewPublicKey_id)

lemma PeerID_Unmarshal_Marshal:
  assumes "cid_ok L" and "PeerID_MarshalBinary L pid = Inr b"
  shows "PeerID_UnmarshalBinary L b = Some (Inr pid)"
proof -
  have "cid_Cast L b = Inr (PeerID_Cid L pid)"
    using assms by (auto simp: PeerID_MarshalBinary_def cid_ok_def)
  then show ?thesis
    using assms(1)
    by (simp add: PeerID_UnmarshalBinary_def PeerID_Cid_props PublicKeySize_def
        PeerID_PublicKey_bytes slice_of_def idx_def)
qed

end
