(* ===== verification/Multiaddrs.thy ===== *)
theory Multiaddrs
  imports PeerIds
begin

text \<open>
  \<^verbatim>\<open>multiaddr.go\<close>: the address of a peer, an optional IP address with a UDP port, an optional
  identity, and whatever else the textual address held.

  The rest, \<^verbatim>\<open>ma.More\<close>, is a value of the go-multiaddr package; it is immutable and determined by
  its binary form, so the model keeps that form (\<^const>\<open>None\<close> for the nil interface).
\<close>

definition RovyMultiaddrCodec :: nat where "RovyMultiaddrCodec = 0x1a6"
definition ProtoMultiaddrCodec :: nat where "ProtoMultiaddrCodec = 0x34"
definition IP4MultiaddrCodec :: nat where "IP4MultiaddrCodec = 0x4"
definition IP6MultiaddrCodec :: nat where "IP6MultiaddrCodec = 0x29"
definition UDPMultiaddrCodec :: nat where "UDPMultiaddrCodec = 0x111"

record Multiaddr =
  IP :: Addr
  Port :: u16
  MaPeerID :: PeerID
  More :: "bytes option"

definition emptyMultiaddr :: Multiaddr where
  "emptyMultiaddr = \<lparr>IP = AddrZero, Port = 0, MaPeerID = emptyPeerID, More = None\<rparr>"

definition FromAddrPort :: "Addr \<times> u16 \<Rightarrow> Multiaddr" where
  "FromAddrPort ip = emptyMultiaddr\<lparr>IP := fst ip, Port := snd ip\<rparr>"

definition Multiaddr_AddrPort :: "Multiaddr \<Rightarrow> Addr \<times> u16" where
  "Multiaddr_AddrPort ma = (IP ma, Port ma)"

definition Multiaddr_Empty :: "Multiaddr \<Rightarrow> bool" where
  "Multiaddr_Empty ma \<longleftrightarrow> ma = emptyMultiaddr"

fun IsValid :: "Addr \<Rightarrow> bool" where
  "IsValid AddrZero = False"
| "IsValid _ = True"

fun Is4 :: "Addr \<Rightarrow> bool" where
  "Is4 (Addr4 _) = True"
| "Is4 _ = False"

fun Is6 :: "Addr \<Rightarrow> bool" where
  "Is6 (Addr6 _ _) = True"
| "Is6 _ = False"

section \<open>Binary form\<close>

text \<open>The length computed in the first half of \<^verbatim>\<open>Bytes\<close>.\<close>

definition Multiaddr_bytes_len :: "Multiaddr \<Rightarrow> int" where
  "Multiaddr_bytes_len ma =
     (if IsValid (IP ma) then (if Is4 (IP ma) then 9 else 21) else 0) +
     (case More ma of None \<Rightarrow> 0 | Some mb \<Rightarrow> int (length mb)) +
     (if MaPeerID ma \<noteq> emptyPeerID then 36 else 0)"

definition Multiaddr_Bytes :: "Multiaddr \<Rightarrow> bytes option" where
  "Multiaddr_Bytes ma = do {
     let l = Multiaddr_bytes_len ma;
     let buf = replicate (nat l) 0;
     (buf, n) \<leftarrow>
       (if IsValid (IP ma) then do {
          (buf, n) \<leftarrow>
            (if Is4 (IP ma) then do {
               buf \<leftarrow> upd buf 0 0x4;
               buf \<leftarrow> copy_at buf 1 5 (AsSlice (IP ma));
               Some (buf, 5) }
             else do {
               buf \<leftarrow> upd buf 0 0x29;
               buf \<leftarrow> copy_at buf 1 17 (AsSlice (IP ma));
               Some (buf, 17) });
          buf \<leftarrow> upd buf (n + 0) 0x91;
          buf \<leftarrow> upd buf (n + 1) 0x02;
          buf \<leftarrow> upd buf (n + 2) (ucast (drop_bit 8 (Port ma)));
          buf \<leftarrow> upd buf (n + 3) (ucast (Port ma));
          Some (buf, n + 4) }
        else Some (buf, 0));
     (buf, n) \<leftarrow>
       (case More ma of
          None \<Rightarrow> Some (buf, n)
        | Some mb \<Rightarrow> do {
            buf \<leftarrow> copy_at buf n (n + int (length mb)) mb;
            Some (buf, n + int (length mb)) });
     (buf, n) \<leftarrow>
       (if MaPeerID ma \<noteq> emptyPeerID then do {
          mb \<leftarrow> More ma;
          buf \<leftarrow> copy_at buf n (n + 36) mb;
          Some (buf, n + 36) }
        else Some (buf, n));
     if l \<noteq> n then None else slice_of buf 0 n }"

definition Multiaddr_Equal :: "Multiaddr \<Rightarrow> bytes \<Rightarrow> bool option" where
  "Multiaddr_Equal ma other_bytes = do {
     mb \<leftarrow> Multiaddr_Bytes ma;
     Some (mb = other_bytes) }"

section \<open>Protocols\<close>

text \<open>
  A \<^verbatim>\<open>multiaddr.Protocol\<close> is represented by its code. The protocols and the values of the part
  kept in \<^verbatim>\<open>More\<close> are those the go-multiaddr package returns, arguments here.
\<close>

definition Multiaddr_Protocols :: "(bytes \<Rightarrow> nat list) \<Rightarrow> Multiaddr \<Rightarrow> nat list" where
  "Multiaddr_Protocols more_Protocols ma =
     (let protos = (if IsValid (IP ma) then
                      (if Is4 (IP ma) then [IP4MultiaddrCodec, UDPMultiaddrCodec]
                       else [IP6MultiaddrCodec, UDPMultiaddrCodec])
                    else []);
          protos = (case More ma of None \<Rightarrow> protos | Some mb \<Rightarrow> protos @ more_Protocols mb)
      in if MaPeerID ma \<noteq> emptyPeerID then protos @ [RovyMultiaddrCodec] else protos)"

section \<open>Lemmas\<close>

text \<open>Well-formed addresses: as many bytes as their family has.\<close>

fun wf_addr :: "Addr \<Rightarrow> bool" where
  "wf_addr AddrZero = True"
| "wf_addr (Addr4 b) = (length b = 4)"
| "wf_addr (Addr6 b z) = (length b = 16)"

text \<open>The IP and port part of the binary form.\<close>

definition ip_part :: "Multiaddr \<Rightarrow> bytes" where
  "ip_part ma =
     (case IP ma of
        AddrZero \<Rightarrow> []
      | Addr4 b \<Rightarrow> 0x4 # b @ [0x91, 0x02] @ be_bytes16 (Port ma)
      | Addr6 b z \<Rightarrow> 0x29 # b @ [0x91, 0x02] @ be_bytes16 (Port ma))"

lemma Multiaddr_Bytes_nil_More:
  assumes "MaPeerID ma \<noteq> emptyPeerID" and "More ma = None"
  shows "Multiaddr_Bytes ma = None"
  using assms by (auto simp: Multiaddr_Bytes_def Let_def split: Option.bind_splits)

end
