(* ===== verification/Netip.thy ===== *)
theory Netip
  imports Multiaddrs
begin

text \<open>
  What the repository uses of the package \<^verbatim>\<open>net/netip\<close> beyond the type of addresses: prefixes, zones
  and the class of link-local addresses.
\<close>

section \<open>Prefixes\<close>

record Prefix =
  pfx_addr :: Addr
  pfx_bits :: nat

text \<open>The first \<open>n\<close> bits of two byte sequences agree.\<close>

definition same_bits :: "nat \<Rightarrow> bytes \<Rightarrow> bytes \<Rightarrow> bool" where
  "same_bits n a b \<longleftrightarrow>
     take (n div 8) a = take (n div 8) b \<and>
     (n mod 8 = 0 \<or> drop_bit (8 - n mod 8) (a ! (n div 8)) = drop_bit (8 - n mod 8) (b ! (n div 8)))"

text \<open>No prefix contains an address with a zone, or one of the other family.\<close>

fun Contains :: "Prefix \<Rightarrow> Addr \<Rightarrow> bool" where
  "Contains p (Addr4 b) = (case pfx_addr p of Addr4 a \<Rightarrow> same_bits (pfx_bits p) a b | _ \<Rightarrow> False)"
| "Contains p (Addr6 b z) = (case pfx_addr p of Addr6 a _ \<Rightarrow> z = [] \<and> same_bits (pfx_bits p) a b | _ \<Rightarrow> False)"
| "Contains p AddrZero = False"

fun WithZone :: "Addr \<Rightarrow> string \<Rightarrow> Addr" where
  "WithZone (Addr6 b _) zone = Addr6 b zone"
| "WithZone a zone = a"

fun Addr_Zone :: "Addr \<Rightarrow> string" where
  "Addr_Zone (Addr6 _ z) = z"
| "Addr_Zone _ = []"

text \<open>\<open>169.254.0.0/16\<close> and \<open>fe80::/10\<close>.\<close>

fun IsLinkLocalUnicast :: "Addr \<Rightarrow> bool" where
  "IsLinkLocalUnicast (Addr4 b) = (b ! 0 = 169 \<and> b ! 1 = 254)"
| "IsLinkLocalUnicast (Addr6 b _) = (b ! 0 = 0xfe \<and> drop_bit 6 (b ! 1) = 2)"
| "IsLinkLocalUnicast AddrZero = False"

end
