(* ===== verification/Routes.thy ===== *)
theory Routes
  imports Prelude
begin

text \<open>
  \<^verbatim>\<open>route.go\<close>: a route is the list of slot numbers a packet follows, one byte per hop.
\<close>

record Route = hops :: bytes

definition NewRoute :: "bytes \<Rightarrow> Route" where
  "NewRoute hs = \<lparr>hops = hs\<rparr>"

definition EmptyRoute :: Route where
  "EmptyRoute = \<lparr>hops = []\<rparr>"

definition Route_Bytes :: "Route \<Rightarrow> bytes" where
  "Route_Bytes r = hops r"

definition Route_Len :: "Route \<Rightarrow> int" where
  "Route_Len r = int (length (hops r))"

definition Route_Empty :: "Route \<Rightarrow> bool" where
  "Route_Empty r \<longleftrightarrow> length (hops r) = 0"

definition Route_Equal :: "Route \<Rightarrow> Route \<Rightarrow> bool" where
  "Route_Equal r other \<longleftrightarrow> Route_Bytes r = Route_Bytes other"

definition Route_Join :: "Route \<Rightarrow> Route \<Rightarrow> Route" where
  "Route_Join r other = NewRoute (Route_Bytes r @ Route_Bytes other)"

text \<open>The loop of \<^verbatim>\<open>Reverse\<close>: \<open>i\<close> bytes are left, the last of them is appended next.\<close>

fun reverse_loop :: "bytes \<Rightarrow> nat \<Rightarrow> bytes \<Rightarrow> bytes" where
  "reverse_loop hs 0 acc = acc"
| "reverse_loop hs (Suc i) acc = reverse_loop hs i (acc @ [hs ! i])"

definition Route_Reverse :: "Route \<Rightarrow> Route" where
  "Route_Reverse r = NewRoute (reverse_loop (hops r) (length (hops r)) [])"

text \<open>\<^verbatim>\<open>fmt.Sprintf("%.2x", b)\<close>: two lower-case hexadecimal digits.\<close>

definition hex_digit :: "nat \<Rightarrow> char" where
  "hex_digit n = ''0123456789abcdef'' ! n"

definition hex2 :: "byte \<Rightarrow> string" where
  "hex2 b = [hex_digit (unat b div 16), hex_digit (unat b mod 16)]"

text \<open>\<^verbatim>\<open>strings.Join\<close>\<close>

fun join_strings :: "string \<Rightarrow> string list \<Rightarrow> string" where
  "join_strings sep [] = []"
| "join_strings sep [s] = s"
| "join_strings sep (s # t # ts) = s @ sep @ join_strings sep (t # ts)"

definition RouteSeparator :: string where "RouteSeparator = ''.''"

definition Route_String :: "Route \<Rightarrow> string" where
  "Route_String r = join_strings RouteSeparator (map hex2 (hops r))"

section \<open>Lemmas\<close>

lemma reverse_loop_eq: "i \<le> length hs \<Longrightarrow> reverse_loop hs i acc = acc @ rev (take i hs)"
  by (induction i arbitrary: acc) (auto simp: take_Suc_conv_app_nth)

lemma Route_Reverse_eq [simp]: "hops (Route_Reverse r) = rev (hops r)"
  by (simp add: Route_Reverse_def NewRoute_def reverse_loop_eq)

lemma hops_NewRoute [simp]: "hops (NewRoute hs) = hs"
  by (simp add: NewRoute_def)

lemma hops_Join [simp]: "hops (Route_Join r s) = hops r @ hops s"
  by (simp add: Route_Join_def NewRoute_def Route_Bytes_def)

lemma Route_eq_iff: "(r :: Route) = s \<longleftrightarrow> hops r = hops s"
  by (cases r; cases s) simp

lemma Route_Equal_iff: "Route_Equal r s \<longleftrightarrow> r = s"
  by (simp add: Route_Equal_def Route_Bytes_def Route_eq_iff)

lemma hex_digit_inject:
  assumes "m < 16" and "n < 16" and "hex_digit m = hex_digit n"
  shows "m = n"
proof -
  have "distinct ''0123456789abcdef''" by simp
  with assms show ?thesis by (simp add: hex_digit_def nth_eq_iff_index_eq)
qed

lemma hex2_inject: "hex2 a = hex2 b \<longleftrightarrow> a = b"
proof
  assume eq: "hex2 a = hex2 b"
  have bound: "unat x div 16 < 16" for x :: byte
    using unat_byte_less [of x] by simp
  from eq have "unat a div 16 = unat b div 16" "unat a mod 16 = unat b mod 16"
    using bound [of a] bound [of b] by (auto simp: hex2_def intro!: hex_digit_inject)
  then have "unat a = unat b"
    by (metis div_mult_mod_eq)
  then show "a = b" by (simp add: word_unat_eq_iff)
qed simp

lemma length_hex2 [simp]: "length (hex2 b) = 2"
  by (simp add: hex2_def)

lemma Route_String_Cons:
  "Route_String \<lparr>hops = b # bs\<rparr> =
     hex2 b @ (if bs = [] then [] else RouteSeparator @ Route_String \<lparr>hops = bs\<rparr>)"
  by (cases bs) (simp_all add: Route_String_def)

lemma Route_String_inject_hops:
  "Route_String \<lparr>hops = xs\<rparr> = Route_String \<lparr>hops = ys\<rparr> \<Longrightarrow> xs = ys"
proof (induction xs arbitrary: ys)
  case Nil
  then show ?case
    by (cases ys) (auto simp: Route_String_Cons hex2_def, simp add: Route_String_def)
next
  case (Cons x xs)
  show ?case
  proof (cases ys)
    case Nil
    with Cons.prems show ?thesis
      by (auto simp: Route_String_Cons hex2_def) (simp add: Route_String_def)
  next
    case (Cons y ys')
    with Cons.prems have "hex2 x = hex2 y"
      and rest: "(if xs = [] then [] else RouteSeparator @ Route_String \<lparr>hops = xs\<rparr>) =
                 (if ys' = [] then [] else RouteSeparator @ Route_String \<lparr>hops = ys'\<rparr>)"
      by (auto simp: Route_String_Cons)
    from rest have "xs = ys'"
      using Cons.IH [of ys'] by (auto simp: RouteSeparator_def split: if_splits)
    with \<open>hex2 x = hex2 y\<close> Cons show ?thesis by (simp add: hex2_inject)
  qed
qed

end
