(* ===== verification/AddrRoundTrip.thy ===== *)
theory AddrRoundTrip
  imports NetipText
begin

text \<open>Parsing undoes printing, for numbers, for IPv4 and IPv6 addresses, and for an address with a port.\<close>

section \<open>Numbers\<close>

lemma digit_vals:
  assumes "n < 10"
  shows "dec_val (digit_char n) = Some n"
  using assms by (simp add: dec_val_def digit_char_def)

lemma hex_digit_vals:
  assumes "n < 16"
  shows "hex_val (digit_char n) = Some n"
  using assms by (auto simp: hex_val_def digit_char_def)

lemma digit_chars:
  assumes "n < 16"
  shows "digit_char n \<noteq> CHR ''.''" "digit_char n \<noteq> CHR '':''" "digit_char n \<noteq> CHR ''%''" "digit_char n \<noteq> CHR ''/''"
    "digit_char n \<noteq> CHR ''[''"
proof -
  have "of_char (digit_char n) = (if n < 10 then 48 + n else 87 + n)" using assms by (simp add: digit_char_def)
  moreover have "of_char CHR ''.'' = (46 :: nat)" "of_char CHR '':'' = (58 :: nat)" "of_char CHR ''%'' = (37 :: nat)"
    "of_char CHR ''/'' = (47 :: nat)" "of_char CHR ''['' = (91 :: nat)" by simp_all
  ultimately show "digit_char n \<noteq> CHR ''.''" "digit_char n \<noteq> CHR '':''" "digit_char n \<noteq> CHR ''%''" "digit_char n \<noteq> CHR ''/''"
    "digit_char n \<noteq> CHR ''[''"
    using assms by (force split: if_splits)+
qed

lemma digits_step:
  "n < b \<Longrightarrow> digits b n = [digit_char n]" "2 \<le> b \<Longrightarrow> b \<le> n \<Longrightarrow> digits b n = digits b (n div b) @ [digit_char (n mod b)]"
  by (subst digits.simps, simp)+

lemma digits_not_empty [simp]: "digits b n \<noteq> []"
  by (subst digits.simps) simp

lemma digits_set: "2 \<le> b \<Longrightarrow> set (digits b n) \<subseteq> digit_char ` {..<b}"
proof (induction b n rule: digits.induct)
  case (1 b n)
  then show ?case by (subst digits.simps) (auto simp: not_less)
qed

lemma digits_plain:
  assumes "c \<in> set (digits b n)" and "2 \<le> b" and "b \<le> 16"
  shows "c \<noteq> CHR ''.'' \<and> c \<noteq> CHR '':'' \<and> c \<noteq> CHR ''%'' \<and> c \<noteq> CHR ''/'' \<and> c \<noteq> CHR ''[''"
proof -
  obtain k where "c = digit_char k" "k < 16" using digits_set [OF assms(2), of n] assms(1,3) by auto
  with digit_chars [of k] show ?thesis by simp
qed

lemma dec_loop_digits: "dec_loop (digits 10 n @ rest) 0 = dec_loop rest n"
proof (induction "10 :: nat" n arbitrary: rest rule: digits.induct)
  case (1 n)
  show ?case
  proof (cases "n < 10")
    case False
    then show ?thesis using 1 [of "digit_char (n mod 10) # rest"] by (simp add: digits_step(2) digit_vals)
  qed (simp add: digits_step(1) digit_vals)
qed

lemma ParseUint16_Format: "ParseUint16 (FormatUint v) = Some v"
proof -
  have "unat v \<le> 65535" using unsigned_less [of v, where ?'a = nat] by simp
  then show ?thesis using dec_loop_digits [of "unat v" "[]"] by (simp add: ParseUint16_def FormatUint_def)
qed

section \<open>IPv4\<close>

lemma ipv4_digits: "n \<le> 255 \<Longrightarrow> \<exists>dl>0. ipv4_loop (digits 10 n @ rest) fs 0 0 = ipv4_loop rest fs n dl"
proof (induction "10 :: nat" n arbitrary: rest rule: digits.induct)
  case (1 n)
  show ?case
  proof (cases "n < 10")
    case False
    have le: "n div 10 \<le> 255" using 1(2) by (rule order.trans [OF div_le_dividend])
    from False obtain dl where "dl > 0" "ipv4_loop (digits 10 (n div 10) @ digit_char (n mod 10) # rest) fs 0 0 =
        ipv4_loop (digit_char (n mod 10) # rest) fs (n div 10) dl"
      using 1(1) [OF _ le, of "digit_char (n mod 10) # rest"] by (auto simp del: ipv4_loop.simps)
    moreover have "n div 10 \<noteq> 0" using False by (simp add: div_eq_0_iff)
    ultimately show ?thesis using False 1(2) by (intro exI [of _ "dl + 1"]) (simp add: digits_step(2) digit_vals)
  qed (use 1(2) in \<open>simp add: digits_step(1) digit_vals exI [of _ 1]\<close>)
qed

lemma dot_val [simp]: "dec_val CHR ''.'' = None" "hex_val CHR ''.'' = None" "hex_val CHR '':'' = None"
  by (simp_all add: dec_val_def hex_val_def)

lemma ipv4_field:
  assumes "n \<le> 255" and "length fs < 3" and "rest \<noteq> []"
  shows "ipv4_loop (digits 10 n @ CHR ''.'' # rest) fs 0 0 = ipv4_loop rest (fs @ [n]) 0 0"
  using ipv4_digits [OF assms(1), of "CHR ''.'' # rest" fs] assms(2,3) by auto

lemma ipv4_last:
  assumes "n \<le> 255" and "length fs = 3"
  shows "ipv4_loop (digits 10 n) fs 0 0 = Some (Addr4 (map of_nat (fs @ [n])))"
  using ipv4_digits [OF assms(1), of "[]" fs] assms(2) by auto

lemma unat_byte_255: "unat (b :: byte) \<le> 255"
  using unat_byte_less [of b] by simp

lemma parseIPv4_string4:
  assumes "length b = 4"
  shows "parseIPv4 (string4 b) = Some (Addr4 b)"
proof -
  obtain w x y z where b: "b = [w, x, y, z]" using assms by (auto simp: length_Suc_conv numeral_eq_Suc)
  show ?thesis
    by (simp add: parseIPv4_def string4_def b ipv4_field ipv4_last unat_byte_255)
qed

section \<open>IPv6\<close>

lemma read_hex_digits: "n \<le> 65535 \<Longrightarrow> read_hex (digits 16 n @ rest) 0 off = read_hex rest n (off + length (digits 16 n))"
proof (induction "16 :: nat" n arbitrary: rest rule: digits.induct)
  case (1 n)
  show ?case
  proof (cases "n < 16")
    case False
    have le: "n div 16 \<le> 65535" using 1(2) by (rule order.trans [OF div_le_dividend])
    from False have "read_hex (digits 16 (n div 16) @ digit_char (n mod 16) # rest) 0 off =
        read_hex (digit_char (n mod 16) # rest) (n div 16) (off + length (digits 16 (n div 16)))"
      using 1(1) [OF _ le, of "digit_char (n mod 16) # rest"] by (simp del: read_hex.simps)
    with False 1(2) show ?thesis by (simp add: digits_step(2) hex_digit_vals)
  qed (use 1(2) in \<open>simp add: digits_step(1) hex_digit_vals\<close>)
qed

text \<open>The bytes of a list of groups.\<close>

definition ungroup :: "nat list \<Rightarrow> bytes" where
  "ungroup gs = concat (map (\<lambda>g. [of_nat (g div 256), of_nat (g mod 256)]) gs)"

lemma ungroup_simps [simp]:
  "ungroup [] = []" "ungroup (g # gs) = of_nat (g div 256) # of_nat (g mod 256) # ungroup gs"
  "ungroup (gs @ hs) = ungroup gs @ ungroup hs" "length (ungroup gs) = 2 * length gs"
  by (simp_all add: ungroup_def) (induction gs, simp_all add: ungroup_def)

lemma ungroup_groups: "even (length b) \<Longrightarrow> ungroup (groups b) = b"
proof (induction b rule: groups.induct)
  case (1 a b rest)
  then show ?case
    using unat_byte_less [of b] by (simp add: div_add1_eq)
qed auto

lemma groups_bound: "g \<in> set (groups b) \<Longrightarrow> g \<le> 65535"
proof (induction b rule: groups.induct)
  case (1 a b rest)
  have "256 * unat a + unat b \<le> 65535" using unat_byte_less [of a] unat_byte_less [of b] by simp
  with 1 show ?case by auto
qed auto

lemma ungroup_zeros: "ungroup (replicate n 0) = replicate (2 * n) 0"
  by (induction n) (simp_all add: ungroup_def)

abbreviation hex_join :: "nat list \<Rightarrow> string" where
  "hex_join gs \<equiv> join_strings '':'' (map (digits 16) gs)"

lemma hex_join_Cons: "gs \<noteq> [] \<Longrightarrow> join_strings '':'' (digits 16 g # map (digits 16) gs) = digits 16 g @ '':'' @ hex_join gs"
  by (cases gs) simp_all

text \<open>What a text that starts with a group looks like to the loop.\<close>

lemma hex_join_hd:
  assumes "gs \<noteq> []"
  obtains c cs where "hex_join gs = c # cs" "c \<noteq> CHR '':''"
proof -
  obtain g gs' where gs: "gs = g # gs'" using assms by (cases gs) auto
  obtain c cs where d: "digits 16 g = c # cs" by (cases "digits 16 g") auto
  then have "c \<noteq> CHR '':''" using digits_plain [of c 16 g] by simp
  moreover have "\<exists>cs. hex_join gs = c # cs" using gs d by (cases gs') simp_all
  ultimately show thesis using that by blast
qed

text \<open>One group, and what may follow it.\<close>

lemma ipv6_group:
  assumes "g \<le> 65535" and "length ip < 16"
  shows "ipv6_loop (digits 16 g) ip ell = Some (ip @ ungroup [g], ell, [])"
    "c \<noteq> CHR '':'' \<Longrightarrow> ipv6_loop (digits 16 g @ '':'' @ c # s) ip ell = ipv6_loop (c # s) (ip @ ungroup [g]) ell"
    "ipv6_loop (digits 16 g @ ''::'' @ s) ip None =
       (if s = [] then Some (ip @ ungroup [g], Some (length ip + 2), [])
        else ipv6_loop s (ip @ ungroup [g]) (Some (length ip + 2)))"
  using assms read_hex_digits [OF assms(1), of "[]" 0] read_hex_digits [OF assms(1), of "CHR '':'' # _" 0]
  by (subst ipv6_loop.simps, simp)+

lemma ipv6_groups:
  assumes "gs \<noteq> []" and "\<forall>g\<in>set gs. g \<le> 65535" and "length ip + 2 * length gs \<le> 16"
  shows "ipv6_loop (hex_join gs) ip ell = Some (ip @ ungroup gs, ell, [])"
  using assms
proof (induction gs arbitrary: ip)
  case (Cons g gs)
  show ?case
  proof (cases "gs = []")
    case False
    obtain c cs where hd: "hex_join gs = c # cs" "c \<noteq> CHR '':''" by (rule hex_join_hd [OF False])
    have "ipv6_loop (hex_join (g # gs)) ip ell = ipv6_loop (hex_join gs) (ip @ ungroup [g]) ell"
      using ipv6_group(2) [of g ip c cs ell] Cons.prems False hd by (simp add: hex_join_Cons)
    then show ?thesis using Cons.IH [of "ip @ ungroup [g]"] False Cons.prems by simp
  qed (use Cons.prems ipv6_group(1) [of g ip ell] in simp)
qed simp

lemma ipv6_groups_ellipsis:
  assumes "gs \<noteq> []" and "\<forall>g\<in>set gs. g \<le> 65535" and "length ip + 2 * length gs \<le> 16"
  shows "ipv6_loop (hex_join gs @ ''::'' @ s) ip None =
    (if s = [] then Some (ip @ ungroup gs, Some (length ip + 2 * length gs), [])
     else ipv6_loop s (ip @ ungroup gs) (Some (length ip + 2 * length gs)))"
  using assms
proof (induction gs arbitrary: ip)
  case (Cons g gs)
  show ?case
  proof (cases "gs = []")
    case False
    obtain c cs where hd: "hex_join gs = c # cs" "c \<noteq> CHR '':''" by (rule hex_join_hd [OF False])
    have "ipv6_loop (hex_join (g # gs) @ ''::'' @ s) ip None = ipv6_loop (hex_join gs @ ''::'' @ s) (ip @ ungroup [g]) None"
      using ipv6_group(2) [of g ip c "cs @ ''::'' @ s" None] Cons.prems False hd by (simp add: hex_join_Cons)
    then show ?thesis using Cons.IH [of "ip @ ungroup [g]"] False Cons.prems by simp
  qed (use Cons.prems ipv6_group(3) [of g ip s] in simp)
qed simp

text \<open>The run that is left out, if any, consists of zeros.\<close>

lemma run_zeros: "k < run_at gs i \<Longrightarrow> i + k < length gs \<and> gs ! (i + k) = 0"
proof -
  assume k: "k < run_at gs i"
  then have "k < length (drop i gs)" unfolding run_at_def using length_takeWhile_le le_trans less_le_trans by blast
  moreover have "drop i gs ! k = 0"
    using k nth_mem [of k "takeWhile (\<lambda>g. g = 0) (drop i gs)"] takeWhile_nth [of k "\<lambda>g. g = 0" "drop i gs"]
    by (auto simp: run_at_def dest: set_takeWhileD)
  ultimately show ?thesis by simp
qed

definition zero_run :: "nat list \<Rightarrow> nat \<times> nat \<Rightarrow> bool" where
  "zero_run gs r = (case r of (zs, ze) \<Rightarrow>
     (zs = 255 \<and> ze = 255) \<or> (zs + 2 \<le> ze \<and> ze \<le> length gs \<and> (\<forall>k. zs \<le> k \<and> k < ze \<longrightarrow> gs ! k = 0)))"

lemma best_run_zeros: "zero_run gs (best_run gs)"
proof -
  have "zero_run gs (fold (\<lambda>i (zs, ze). if 2 \<le> run_at gs i \<and> ze - zs < run_at gs i then (i, i + run_at gs i) else (zs, ze)) js r)"
    if "zero_run gs r" for js r
    using that
  proof (induction js arbitrary: r)
    case (Cons i js)
    have "zero_run gs (i, i + run_at gs i)" if "2 \<le> run_at gs i"
    proof -
      have "gs ! k = 0" if "i \<le> k" "k < i + run_at gs i" for k
        using run_zeros [of "k - i" gs i] that by simp
      moreover have "i + run_at gs i \<le> length gs"
        using run_zeros [of "run_at gs i - 1" gs i] that by auto
      ultimately show ?thesis using that by (simp add: zero_run_def)
    qed
    then show ?case using Cons by (cases r) simp
  qed simp
  then show ?thesis unfolding best_run_def by (simp add: zero_run_def)
qed

lemma split_at_run:
  assumes "zero_run gs (zs, ze)" and "zs \<noteq> 255"
  shows "gs = take zs gs @ replicate (ze - zs) 0 @ drop ze gs" "zs + 2 \<le> ze" "ze \<le> length gs"
proof -
  show le: "zs + 2 \<le> ze" "ze \<le> length gs" using assms by (auto simp: zero_run_def)
  have "take (ze - zs) (drop zs gs) = replicate (ze - zs) 0"
    by (rule nth_equalityI) (use assms le in \<open>auto simp: zero_run_def\<close>)
  then have "drop zs gs = replicate (ze - zs) 0 @ drop ze gs"
    using append_take_drop_id [of "ze - zs" "drop zs gs"] le by simp
  then show "gs = take zs gs @ replicate (ze - zs) 0 @ drop ze gs"
    using append_take_drop_id [of zs gs] by simp
qed

text \<open>The text of an address without its zone.\<close>

definition parse_plain :: "string \<Rightarrow> bytes option" where
  "parse_plain s = do {
     let lead = (take 2 s = ''::'');
     let s = (if lead then drop 2 s else s);
     if lead \<and> s = [] then Some (replicate 16 0)
     else do {
       (ip, ell, rest) \<leftarrow> ipv6_loop s [] (if lead then Some 0 else None);
       if rest \<noteq> [] then None else expand_ellipsis ip ell } }"

lemma parseIPv6_core:
  assumes "takeWhile (\<lambda>c. c \<noteq> CHR ''%'') txt = s" and "drop (length s + 1) txt = zone" and "zone = [] \<Longrightarrow> length s = length txt"
  shows "parseIPv6 txt = map_option (\<lambda>ip. Addr6 ip zone) (parse_plain s)"
proof -
  define lead where "lead \<longleftrightarrow> take 2 s = ''::''"
  define s' ell where "s' = (if lead then drop 2 s else s)" and "ell = (if lead then Some (0 :: nat) else None)"
  have 1: "parse_plain s = (if lead \<and> s' = [] then Some (replicate 16 0) else do {
       (ip, ell, rest) \<leftarrow> ipv6_loop s' [] ell;
       if rest \<noteq> [] then None else expand_ellipsis ip ell })"
    unfolding parse_plain_def Let_def lead_def s'_def ell_def ..
  have 2: "parseIPv6 txt = (if lead \<and> s' = [] then Some (Addr6 (replicate 16 0) zone) else do {
         (ip, ell, rest) \<leftarrow> ipv6_loop s' [] ell;
         if rest \<noteq> [] then None
         else do {
           ip \<leftarrow> expand_ellipsis ip ell;
           Some (Addr6 ip zone) } })"
    using assms(3) unfolding parseIPv6_def Let_def lead_def s'_def ell_def assms(1,2) by auto
  show ?thesis unfolding 1 2
    by (cases "ipv6_loop s' [] ell") (auto simp: map_option_case split: option.split if_splits)
qed

lemma parseIPv6_plain:
  assumes "\<forall>c\<in>set s. c \<noteq> CHR ''%''"
  shows "parseIPv6 s = map_option (\<lambda>ip. Addr6 ip []) (parse_plain s)"
    "zone \<noteq> [] \<Longrightarrow> parseIPv6 (s @ CHR ''%'' # zone) = map_option (\<lambda>ip. Addr6 ip zone) (parse_plain s)"
proof -
  have tw: "takeWhile (\<lambda>c. c \<noteq> CHR ''%'') s = s" using assms by (simp add: takeWhile_eq_all_conv)
  then show "parseIPv6 s = map_option (\<lambda>ip. Addr6 ip []) (parse_plain s)" by (intro parseIPv6_core) simp_all
  show "parseIPv6 (s @ CHR ''%'' # zone) = map_option (\<lambda>ip. Addr6 ip zone) (parse_plain s)" if "zone \<noteq> []"
    by (rule parseIPv6_core) (use assms that in \<open>simp_all add: takeWhile_append\<close>)
qed

lemma hex_join_no_lead:
  assumes "gs \<noteq> []"
  shows "take 2 (hex_join gs @ s) \<noteq> ''::''"
  by (rule hex_join_hd [OF assms]) (auto simp: numeral_2_eq_2)

lemma expand_run:
  assumes "length pre + length post < 16" and "n + length pre + length post = 16"
  shows "expand_ellipsis (pre @ post) (Some (length pre)) = Some (pre @ replicate n 0 @ post)"
  using assms by (simp add: expand_ellipsis_def)

lemma parse_string6:
  assumes "length b = 16"
  shows "parse_plain (string6 b) = Some b"
proof -
  define gs where "gs = groups b"
  have gs: "ungroup gs = b" "\<And>g. g \<in> set gs \<Longrightarrow> g \<le> 65535" using assms ungroup_groups [of b] groups_bound by (auto simp: gs_def)
  have len: "length gs = 8" using arg_cong [OF gs(1), of length] assms by simp
  obtain zs ze where run: "best_run gs = (zs, ze)" by fastforce
  show ?thesis
  proof (cases "zs = 255")
    case True
    then have s: "string6 b = hex_join gs" using run by (simp add: string6_def gs_def [symmetric])
    have "gs \<noteq> []" using len by auto
    moreover have "ipv6_loop (hex_join gs) [] None = Some (b, None, [])"
      using ipv6_groups [of gs "[]" None] gs len \<open>gs \<noteq> []\<close> by simp
    ultimately show ?thesis
      using hex_join_no_lead [of gs "[]"] assms unfolding s by (simp add: parse_plain_def expand_ellipsis_def)
  next
    case False
    define as cs where "as = take zs gs" and "cs = drop ze gs"
    note split = split_at_run [OF best_run_zeros [of gs, unfolded run] False, folded as_def cs_def]
    have s: "string6 b = hex_join as @ ''::'' @ hex_join cs"
      using run False by (simp add: string6_def gs_def [symmetric] as_def cs_def Let_def)
    have la: "length as = zs" "length cs = 8 - ze" using split(2,3) len by (simp_all add: as_def cs_def)
    have ok: "\<forall>g\<in>set as. g \<le> 65535" "\<forall>g\<in>set cs. g \<le> 65535"
      using gs(2) by (auto simp: as_def cs_def dest: in_set_takeD in_set_dropD)
    have b: "b = ungroup as @ replicate (2 * (ze - zs)) 0 @ ungroup cs"
      using arg_cong [OF split(1), of ungroup] gs(1) by (simp add: ungroup_zeros)
    have ex: "expand_ellipsis (ungroup as @ ungroup cs) (Some (2 * zs)) = Some b"
      using expand_run [of "ungroup as" "ungroup cs" "2 * (ze - zs)"] la split(2,3) len unfolding b by simp
    have post: "ipv6_loop (hex_join cs) (ungroup as) (Some (2 * zs)) = Some (ungroup as @ ungroup cs, Some (2 * zs), [])" if "cs \<noteq> []"
      by (rule ipv6_groups [OF that ok(2)]) (use la split(2,3) len in simp)
    have rest: "hex_join cs = [] \<longleftrightarrow> cs = []" using hex_join_hd [of cs] by fastforce
    show ?thesis
    proof (cases "as = []")
      case True
      then have "zs = 0" using la by simp
      then show ?thesis
        using True post ex la b split(3) len rest unfolding s parse_plain_def
        by (cases "cs = []") (simp_all add: Let_def)
    next
      case False
      have "ipv6_loop (hex_join as @ ''::'' @ hex_join cs) [] None = Some (ungroup as @ ungroup cs, Some (2 * zs), [])"
        using ipv6_groups_ellipsis [OF False ok(1), of "[]" "hex_join cs"] post la split(2,3) len rest by (cases "cs = []") simp_all
      then show ?thesis
        using hex_join_no_lead [OF False, of "''::'' @ hex_join cs"] ex unfolding s parse_plain_def Let_def by simp
    qed
  qed
qed

text \<open>An IPv4 address in the last four bytes.\<close>

lemma read_hex_dec:
  "set ds \<subseteq> digit_char ` {..<10} \<Longrightarrow> acc < 16 ^ (4 - length ds) \<Longrightarrow> length ds \<le> 4 \<Longrightarrow>
     \<exists>acc'. read_hex (ds @ CHR ''.'' # rest) acc off = Some (acc', off + length ds, CHR ''.'' # rest)"
proof (induction ds arbitrary: acc off)
  case (Cons c ds)
  then obtain d where d: "c = digit_char d" "d < 10" by auto
  have "16 * acc + d < 16 ^ (4 - length ds)"
  proof -
    have "4 - length ds = Suc (4 - length (c # ds))" using Cons.prems(3) by simp
    then have "(16 :: nat) ^ (4 - length ds) = 16 * 16 ^ (4 - length (c # ds))" by (simp only: power_Suc)
    then show ?thesis using Cons.prems(2) d(2) by simp
  qed
  moreover have "(16 :: nat) ^ (4 - length ds) \<le> 16 ^ 4" by (rule power_increasing) simp_all
  ultimately show ?case
    using Cons.IH [of "16 * acc + d" "off + 1"] Cons.prems d by (simp add: hex_digit_vals)
qed simp

lemma digits10_length: "n \<le> 255 \<Longrightarrow> length (digits 10 n) \<le> 3"
  by (subst digits.simps, simp, subst digits.simps, simp, subst digits.simps, simp)

lemma parse_mapped:
  assumes "length b = 16" and "Is4In6 b"
  shows "parse_plain (''::ffff:'' @ string4 (drop 12 b)) = Some b"
proof -
  define q where "q = drop 12 b"
  have l4: "length q = 4" using assms(1) by (simp add: q_def)
  obtain w x y z where q: "q = [w, x, y, z]" using l4 by (auto simp: length_Suc_conv numeral_eq_Suc)
  define s where "s = string4 q"
  obtain rest where s: "s = digits 10 (unat w) @ CHR ''.'' # rest" by (simp add: s_def q string4_def)
  have dl: "length (digits 10 (unat w)) \<le> 3" by (rule digits10_length [OF unat_byte_255])
  have "\<exists>acc'. read_hex s 0 0 = Some (acc', 0 + length (digits 10 (unat w)), CHR ''.'' # rest)"
    unfolding s by (rule read_hex_dec) (use digits_set [of 10] dl in auto)
  then obtain acc where rd: "read_hex s 0 0 = Some (acc, length (digits 10 (unat w)), CHR ''.'' # rest)" by auto
  have p4: "parseIPv4 s = Some (Addr4 q)" unfolding s_def by (rule parseIPv4_string4 [OF l4])
  have last4: "ipv6_loop s [0xff, 0xff] (Some 0) = Some ([0xff, 0xff] @ q, Some 0, [])"
    using rd p4 by (subst ipv6_loop.simps) simp
  have hd: "\<exists>c cs. s = c # cs \<and> c \<noteq> CHR '':''"
    using digits_plain [of _ 10 "unat w"] unfolding s by (cases "digits 10 (unat w)") auto
  have f: "digit_char 15 = CHR ''f''" by code_simp
  have ffff: "digits 16 65535 = ''ffff''" by (simp add: digits.simps f)
  have "ipv6_loop (''ffff:'' @ s) [] (Some 0) = ipv6_loop s [0xff, 0xff] (Some 0)"
  proof -
    obtain c cs where "s = c # cs" "c \<noteq> CHR '':''" using hd by blast
    then show ?thesis using ipv6_group(2) [of 65535 "[]" c cs "Some 0"] by (simp add: ffff)
  qed
  then have loop: "ipv6_loop (''ffff:'' @ s) [] (Some 0) = Some ([0xff, 0xff] @ q, Some 0, [])" using last4 by simp
  have "b = replicate 10 0 @ [0xff, 0xff] @ q"
    using assms(2) append_take_drop_id [of 12 b] by (simp add: Is4In6_def q_def)
  then have "expand_ellipsis ([0xff, 0xff] @ q) (Some 0) = Some b"
    using l4 by (simp add: expand_ellipsis_def)
  then show ?thesis using loop unfolding q_def [symmetric] s_def [symmetric] by (simp add: parse_plain_def)
qed

section \<open>Addresses\<close>

abbreviation plain :: "char \<Rightarrow> bool" where
  "plain c \<equiv> c \<noteq> CHR ''.'' \<and> c \<noteq> CHR '':'' \<and> c \<noteq> CHR ''%''"

lemma string4_chars: "c \<in> set (string4 b) \<Longrightarrow> c \<noteq> CHR ''%'' \<and> c \<noteq> CHR ''/'' \<and> c \<noteq> CHR '':'' \<and> c \<noteq> CHR ''[''"
proof -
  have "c \<in> set (join_strings ''.'' xs) \<Longrightarrow> c = CHR ''.'' \<or> (\<exists>x\<in>set xs. c \<in> set x)" for c xs
    by (induction "''.''" xs rule: join_strings.induct) auto
  then show "c \<in> set (string4 b) \<Longrightarrow> c \<noteq> CHR ''%'' \<and> c \<noteq> CHR ''/'' \<and> c \<noteq> CHR '':'' \<and> c \<noteq> CHR ''[''"
    using digits_plain [of c 10] unfolding string4_def by fastforce
qed

lemma hex_join_chars: "c \<in> set (hex_join gs) \<Longrightarrow> c \<noteq> CHR ''%'' \<and> c \<noteq> CHR ''/''"
proof -
  have "c \<in> set (join_strings '':'' xs) \<Longrightarrow> c = CHR '':'' \<or> (\<exists>x\<in>set xs. c \<in> set x)" for c xs
    by (induction "'':''" xs rule: join_strings.induct) auto
  then show "c \<in> set (hex_join gs) \<Longrightarrow> c \<noteq> CHR ''%'' \<and> c \<noteq> CHR ''/''"
    using digits_plain [of c 16] by fastforce
qed

lemma string6_chars: "c \<in> set (string6 b) \<Longrightarrow> c \<noteq> CHR ''%'' \<and> c \<noteq> CHR ''/''"
  using hex_join_chars by (auto simp: string6_def Let_def split: prod.splits if_splits)

text \<open>The first separator of a text tells which kind of address it is.\<close>

lemma string4_shape:
  assumes "length b = 4"
  obtains ds rest where "string4 b = ds @ CHR ''.'' # rest" "\<forall>c\<in>set ds. plain c" "ds \<noteq> []"
proof -
  obtain w x y z where b: "b = [w, x, y, z]" using assms by (auto simp: length_Suc_conv numeral_eq_Suc)
  show thesis
    by (rule that [of "digits 10 (unat w)"]) (use digits_plain [of _ 10] in \<open>auto simp: string4_def b\<close>)
qed

lemma hex_join_shape:
  assumes "2 \<le> length gs \<or> (gs \<noteq> [] \<and> take 1 s = '':'')"
  shows "\<exists>ds rest. hex_join gs @ s = ds @ CHR '':'' # rest \<and> (\<forall>c\<in>set ds. plain c)"
proof -
  obtain g gs' where gs: "gs = g # gs'" using assms by (cases gs) auto
  have "\<exists>rest. hex_join gs @ s = digits 16 g @ CHR '':'' # rest"
  proof (cases "gs' = []")
    case True
    then obtain s' where "s = CHR '':'' # s'" using assms gs by (cases s) simp_all
    then show ?thesis using True gs by simp
  next
    case False
    then show ?thesis using gs by (simp add: hex_join_Cons)
  qed
  then obtain rest where "hex_join gs @ s = digits 16 g @ CHR '':'' # rest" by blast
  then show ?thesis using digits_plain [of _ 16 g] by (intro exI [of _ "digits 16 g"] exI [of _ rest]) simp
qed

lemma string6_shape:
  assumes "length b = 16"
  shows "\<exists>ds rest. string6 b = ds @ CHR '':'' # rest \<and> (\<forall>c\<in>set ds. plain c)"
proof -
  define gs where "gs = groups b"
  have "length gs = 8" using arg_cong [OF ungroup_groups [of b], of length] assms by (simp add: gs_def)
  obtain zs ze where run: "best_run gs = (zs, ze)" by fastforce
  show ?thesis
  proof (cases "zs = 255")
    case True
    then have "string6 b = hex_join gs @ []" using run by (simp add: string6_def gs_def [symmetric])
    then show ?thesis using hex_join_shape [of gs "[]"] \<open>length gs = 8\<close> by simp
  next
    case False
    then have s: "string6 b = hex_join (take zs gs) @ ''::'' @ hex_join (drop ze gs)"
      using run by (simp add: string6_def gs_def [symmetric] Let_def)
    show ?thesis
    proof (cases "take zs gs = []")
      case True
      have "string6 b = [] @ CHR '':'' # CHR '':'' # hex_join (drop ze gs)" unfolding s True by simp
      then show ?thesis by (intro exI [of _ "[]"] exI [of _ "CHR '':'' # hex_join (drop ze gs)"]) simp
    qed (use s hex_join_shape [of "take zs gs" "''::'' @ hex_join (drop ze gs)"] in auto)
  qed
qed

lemma first_separator:
  assumes "\<forall>c\<in>set ds. plain c"
  shows "dropWhile plain (ds @ CHR '':'' # rest) = CHR '':'' # rest" "dropWhile plain (ds @ CHR ''.'' # rest) = CHR ''.'' # rest"
  using assms by (simp_all add: dropWhile_append)

lemma ParseAddr_4:
  assumes "length b = 4"
  shows "ParseAddr (string4 b) = Some (Addr4 b)"
proof -
  obtain ds rest where s: "string4 b = ds @ CHR ''.'' # rest" "\<forall>c\<in>set ds. plain c"
    by (rule string4_shape [OF assms])
  show ?thesis
    unfolding ParseAddr_def using first_separator(2) [OF s(2), of rest] parseIPv4_string4 [OF assms] by (simp add: s(1) [symmetric])
qed

lemma ParseAddr_6:
  assumes "length b = 16"
  shows "ParseAddr (Addr_String (Addr6 b zone)) = Some (Addr6 b zone)"
proof -
  define s where "s = (if Is4In6 b then ''::ffff:'' @ string4 (drop 12 b) else string6 b)"
  have p: "parse_plain s = Some b" using parse_mapped [OF assms] parse_string6 [OF assms] by (simp add: s_def)
  have nz: "\<forall>c\<in>set s. c \<noteq> CHR ''%''" using string4_chars string6_chars by (auto simp: s_def split: if_splits)
  have "\<exists>ds rest. s = ds @ CHR '':'' # rest \<and> (\<forall>c\<in>set ds. plain c)"
  proof (cases "Is4In6 b")
    case True
    then show ?thesis by (intro exI [of _ "[]"] exI [of _ "'':ffff:'' @ string4 (drop 12 b)"]) (simp add: s_def)
  qed (use string6_shape [OF assms] in \<open>simp add: s_def\<close>)
  then obtain ds rest where shape: "s = ds @ CHR '':'' # rest" "\<forall>c\<in>set ds. plain c" by blast
  have text_eq: "Addr_String (Addr6 b zone) = s @ (if zone = [] then [] else CHR ''%'' # zone)" by (simp add: s_def)
  have "parseIPv6 (Addr_String (Addr6 b zone)) = Some (Addr6 b zone)"
    using parseIPv6_plain [OF nz] p unfolding text_eq by simp
  moreover have "\<exists>rest'. dropWhile plain (Addr_String (Addr6 b zone)) = CHR '':'' # rest'"
    unfolding text_eq shape(1) using first_separator(1) [OF shape(2)] by simp
  ultimately show ?thesis unfolding ParseAddr_def by auto
qed

section \<open>With a port\<close>

lemma after_last_colon_app: "\<forall>c\<in>set p. c \<noteq> CHR '':'' \<Longrightarrow> after_last_colon (x @ CHR '':'' # p) = p"
  by (simp add: after_last_colon_def takeWhile_append)

lemma FormatUint_chars: "\<forall>c\<in>set (FormatUint v). c \<noteq> CHR '':'' \<and> c \<noteq> CHR ''/''" "FormatUint v \<noteq> []"
  using digits_plain [of _ 10 "unat v"] by (auto simp: FormatUint_def)

lemma ParseAddrPort_4:
  assumes "length b = 4"
  shows "ParseAddrPort (string4 b @ '':'' @ FormatUint p) = Some (Addr4 b, p)"
proof -
  obtain ds rest where s: "string4 b = ds @ CHR ''.'' # rest" "ds \<noteq> []" by (rule string4_shape [OF assms])
  have "hd (string4 b) \<noteq> CHR ''[''" "string4 b \<noteq> []"
    using string4_chars [of "hd (string4 b)" b] s by auto
  then show ?thesis
    using after_last_colon_app [of "FormatUint p" "string4 b"] FormatUint_chars [of p] ParseAddr_4 [OF assms] ParseUint16_Format
    by (simp add: ParseAddrPort_def Let_def)
qed

lemma ParseAddrPort_6:
  assumes "length b = 16"
  shows "ParseAddrPort (''['' @ Addr_String (Addr6 b zone) @ '']:'' @ FormatUint p) = Some (Addr6 b zone, p)"
proof -
  let ?a = "Addr_String (Addr6 b zone)"
  have "after_last_colon ((''['' @ ?a @ '']'') @ CHR '':'' # FormatUint p) = FormatUint p"
    by (rule after_last_colon_app) (use FormatUint_chars in auto)
  then show ?thesis
    using FormatUint_chars [of p] ParseAddr_6 [OF assms, of zone] ParseUint16_Format
    by (simp add: ParseAddrPort_def Let_def del: Addr_String.simps)
qed

end
