(* ===== verification/Packets.thy ===== *)
theory Packets
  imports Multiaddrs Routes
begin

text \<open>
  \<^verbatim>\<open>packet.go\<close>: packets, the layout constants, and the accessors of the upper and lower headers.

  A packet is passed by value but its buffer is shared with every copy of it. The setters
  of the source write through that buffer; here a setter returns the packet with the new buffer,
  and a caller that goes on with its own copy of the packet takes the buffer from there.
\<close>

section \<open>Layout\<close>

definition LowerOffset :: int where "LowerOffset = 0"
definition LowerPadding :: int where "LowerPadding = 0"
definition FwdOffset :: int where "FwdOffset = 20"
definition UpperOffset :: int where "UpperOffset = 16 + 4 + 16"
definition UpperPadding :: int where "UpperPadding = 16"
definition UpperMTU :: int where "UpperMTU = 1500 - 48 - 20 - 16 - 20 - 16 - 16"
definition TptMTU :: nat where "TptMTU = 1500 - 48"

lemmas layout_defs = LowerOffset_def LowerPadding_def FwdOffset_def UpperOffset_def
  UpperPadding_def UpperMTU_def TptMTU_def

section \<open>Packets\<close>

record Packet =
  Buf :: bytes
  Length :: int
  TptSrc :: Multiaddr
  TptDst :: Multiaddr
  LowerSrc :: PeerID
  LowerDst :: PeerID
  UpperSrc :: PeerID
  UpperDst :: PeerID

definition NewPacket :: "bytes \<Rightarrow> Packet" where
  "NewPacket buf =
     \<lparr>Buf = buf, Length = int (length buf), TptSrc = emptyMultiaddr, TptDst = emptyMultiaddr,
      LowerSrc = emptyPeerID, LowerDst = emptyPeerID, UpperSrc = emptyPeerID, UpperDst = emptyPeerID\<rparr>"

definition Packet_Bytes :: "Packet \<Rightarrow> bytes option" where
  "Packet_Bytes pkt = slice_of (Buf pkt) 0 (Length pkt)"

definition Packet_MsgType :: "Packet \<Rightarrow> u32 option" where
  "Packet_MsgType pkt = do { s \<leftarrow> slice_of (Buf pkt) 0 4; le_uint32 s }"

definition Packet_SetMsgType :: "Packet \<Rightarrow> u32 \<Rightarrow> Packet option" where
  "Packet_SetMsgType pkt msgt = do {
     b \<leftarrow> copy_at (Buf pkt) 0 4 (le_bytes32 msgt);
     Some (pkt\<lparr>Buf := b\<rparr>) }"

text \<open>
  The packet structs of the source (\<^verbatim>\<open>UpperPacket\<close> here, the session packets and \<^verbatim>\<open>PingPacket\<close>
  elsewhere) all embed a \<^verbatim>\<open>Packet\<close> beside an offset and a padding: one record.
\<close>

record Framed =
  Offset :: int
  Padding :: int
  base :: Packet

type_synonym UpperPacket = Framed

abbreviation fbuf :: "Framed \<Rightarrow> bytes" where
  "fbuf p \<equiv> Buf (base p)"

definition with_buf :: "Framed \<Rightarrow> bytes \<Rightarrow> Framed" where
  "with_buf p b = p\<lparr>base := (base p)\<lparr>Buf := b\<rparr>\<rparr>"

definition with_length :: "Framed \<Rightarrow> int \<Rightarrow> Framed" where
  "with_length p n = p\<lparr>base := (base p)\<lparr>Length := n\<rparr>\<rparr>"

text \<open>The uvarint codec is a package outside the repository.\<close>

record varint =
  ToUvarint :: "u64 \<Rightarrow> bytes"
  FromUvarint :: "bytes \<Rightarrow> err + (u64 \<times> int)"

definition varint_ok :: "varint \<Rightarrow> bool" where
  "varint_ok V \<longleftrightarrow>
     (\<forall>c rest. c < 2 ^ 63 \<longrightarrow>
        FromUvarint V (ToUvarint V c @ rest) = Inr (c, int (length (ToUvarint V c)))) \<and>
     (\<forall>c. c < 2 ^ 28 \<longrightarrow> length (ToUvarint V c) \<le> 4)"

section \<open>Upper packets\<close>

definition NewUpperPacket :: "Packet \<Rightarrow> UpperPacket" where
  "NewUpperPacket basepkt = \<lparr>Offset = UpperOffset + 16, Padding = 32, base = basepkt\<rparr>"

definition UpperPacket_Route :: "UpperPacket \<Rightarrow> Route option" where
  "UpperPacket_Route pkt = do {
     let off = FwdOffset;
     l \<leftarrow> idx (fbuf pkt) (off + 1);
     hs \<leftarrow> slice_of (fbuf pkt) (off + 2) (off + 2 + int (unat l));
     Some (NewRoute hs) }"

definition UpperPacket_RouteLen :: "UpperPacket \<Rightarrow> int option" where
  "UpperPacket_RouteLen pkt = do {
     l \<leftarrow> idx (fbuf pkt) (FwdOffset + 1);
     Some (int (unat l)) }"

text \<open>The loop \<^verbatim>\<open>for i := 2 + length; i < 16; i++\<close> that clears the rest of the header.\<close>

function zero_fill :: "bytes \<Rightarrow> int \<Rightarrow> int \<Rightarrow> bytes option" where
  "zero_fill b off i =
     (if i < 16 then do { b \<leftarrow> upd b (off + i) 0; zero_fill b off (i + 1) } else Some b)"
  by pat_completeness auto
termination
  by (relation "measure (\<lambda>(b, off, i). nat (16 - i))") auto

declare zero_fill.simps [simp del]

text \<open>Both route setters of the source, over the position of the forwarder header.\<close>

definition put_route :: "bytes \<Rightarrow> int \<Rightarrow> Route \<Rightarrow> bytes option" where
  "put_route b off rt = do {
     let l = Route_Len rt;
     b \<leftarrow> upd b (off + 0) 0;
     b \<leftarrow> upd b (off + 1) (of_int l);
     b \<leftarrow> copy_at b (off + 2) (off + 2 + l) (Route_Bytes rt);
     zero_fill b off (2 + l) }"

definition UpperPacket_SetRoute :: "UpperPacket \<Rightarrow> Route \<Rightarrow> UpperPacket option" where
  "UpperPacket_SetRoute pkt rt = do {
     b \<leftarrow> put_route (fbuf pkt) FwdOffset rt;
     Some (with_buf pkt b) }"

definition UpperPacket_Codec :: "varint \<Rightarrow> UpperPacket \<Rightarrow> (err + u64) option" where
  "UpperPacket_Codec V pkt = do {
     let off = Offset pkt + 0;
     s \<leftarrow> slice_of (fbuf pkt) (off + 0) (off + 4);
     Some (case FromUvarint V s of Inl e \<Rightarrow> Inl e | Inr (codec, _) \<Rightarrow> Inr codec) }"

definition UpperPacket_SetCodec :: "varint \<Rightarrow> UpperPacket \<Rightarrow> u64 \<Rightarrow> UpperPacket option" where
  "UpperPacket_SetCodec V pkt codec = do {
     let off = Offset pkt + 0;
     let buf = ToUvarint V codec;
     if length buf > 4 then None else do {
       b \<leftarrow> copy_at (fbuf pkt) (off + 0) (off + 4) buf;
       Some (with_buf pkt b) } }"

definition UpperPacket_Payload :: "UpperPacket \<Rightarrow> bytes option" where
  "UpperPacket_Payload pkt =
     (let off = Offset pkt + 4 in slice_of (fbuf pkt) off (Length (base pkt) - Padding pkt))"

definition UpperPacket_SetPayload :: "UpperPacket \<Rightarrow> bytes \<Rightarrow> UpperPacket option" where
  "UpperPacket_SetPayload pkt pl = do {
     let off = Offset pkt + 4;
     let len = off + int (length pl) + Padding pkt;
     b \<leftarrow> copy_at (fbuf pkt) off (len - Padding pkt) pl;
     Some (with_length (with_buf pkt b) len) }"

section \<open>Lower packets\<close>

record LowerPacket =
  LOffset :: int
  lbase :: Packet

definition NewLowerPacket :: "Packet \<Rightarrow> LowerPacket" where
  "NewLowerPacket basepkt = \<lparr>LOffset = 16, lbase = basepkt\<rparr>"

definition LowerPacket_Codec :: "varint \<Rightarrow> LowerPacket \<Rightarrow> (err + u64) option" where
  "LowerPacket_Codec V pkt = do {
     let off = LOffset pkt + 0;
     s \<leftarrow> slice_of (Buf (lbase pkt)) (off + 0) (off + 4);
     Some (case FromUvarint V s of Inl e \<Rightarrow> Inl e | Inr (codec, _) \<Rightarrow> Inr codec) }"

definition LowerPacket_SetCodec :: "varint \<Rightarrow> LowerPacket \<Rightarrow> u64 \<Rightarrow> LowerPacket option" where
  "LowerPacket_SetCodec V pkt codec = do {
     let off = LOffset pkt + 0;
     let buf = ToUvarint V codec;
     if length buf > 4 then None else do {
       b \<leftarrow> copy_at (Buf (lbase pkt)) (off + 0) (off + 4) buf;
       Some (pkt\<lparr>lbase := (lbase pkt)\<lparr>Buf := b\<rparr>\<rparr>) } }"

definition LowerPacket_Payload :: "LowerPacket \<Rightarrow> bytes option" where
  "LowerPacket_Payload pkt =
     (let off = LOffset pkt + 4 in slice_of (Buf (lbase pkt)) off (Length (lbase pkt) - 16))"

definition LowerPacket_SetPayload :: "LowerPacket \<Rightarrow> bytes \<Rightarrow> LowerPacket option" where
  "LowerPacket_SetPayload pkt pl = do {
     let off = LOffset pkt + 4;
     let len = off + int (length pl) + 16;
     b \<leftarrow> copy_at (Buf (lbase pkt)) off (len - 16) pl;
     Some (pkt\<lparr>lbase := (lbase pkt)\<lparr>Buf := b, Length := len\<rparr>\<rparr>) }"

section \<open>Lemmas\<close>

lemma with_buf_simps [simp]:
  "Offset (with_buf p b) = Offset p" "Padding (with_buf p b) = Padding p"
  "fbuf (with_buf p b) = b" "base (with_buf p b) = (base p)\<lparr>Buf := b\<rparr>"
  "with_buf (with_buf p b) c = with_buf p c"
  by (simp_all add: with_buf_def)

lemma with_length_simps [simp]:
  "Offset (with_length p n) = Offset p" "Padding (with_length p n) = Padding p"
  "base (with_length p n) = (base p)\<lparr>Length := n\<rparr>"
  by (simp_all add: with_length_def)

end
