(* ===== verification/Instances.thy ===== *)
theory Instances
  imports Packets
begin

text \<open>
  Concrete instances of the external packages, small enough to compute with: a hash that
  repeats the first byte (so that the addresses of two keys differ), XOR as key
  agreement, a checksum tag as AEAD, LEB128 as uvarint codec, and CIDs as pairs.
  They meet the hypotheses \<^const>\<open>crypto_ok\<close>, \<^const>\<open>varint_ok\<close> and \<^const>\<open>cid_ok\<close>, which are therefore
  satisfiable; the concrete runs of the development use them. No theorem depends on them.
\<close>

section \<open>Cryptography\<close>

definition xor_sum :: "bytes \<Rightarrow> byte" where
  "xor_sum xs = fold (XOR) xs 0"

definition ref_hash :: "bytes \<Rightarrow> bytes" where
  "ref_hash xs = (let b = (case xs of [] \<Rightarrow> 0 | x # _ \<Rightarrow> x) in replicate 16 b @ [0xfc] @ replicate 15 b)"

definition ref_tag :: "bytes \<Rightarrow> bytes \<Rightarrow> bytes \<Rightarrow> bytes \<Rightarrow> bytes" where
  "ref_tag k n p a = replicate 16 (xor_sum (k @ n @ p @ a))"

definition ref_crypto :: crypto where
  "ref_crypto =
     \<lparr>blake2s = ref_hash, base_mult = to_array 32,
      dh_mult = (\<lambda>a p. map2 (XOR) (to_array 32 a) (to_array 32 p)),
      aead_new_ok = (\<lambda>k. length k = 32),
      aead_seal = (\<lambda>k n p a. p @ ref_tag k n p a),
      aead_open = (\<lambda>k n c a.
        if 16 \<le> length c \<and> drop (length c - 16) c = ref_tag k n (take (length c - 16) c) a
        then Some (take (length c - 16) c) else None)\<rparr>"

lemma map2_xor_comm: "length a = length b \<Longrightarrow> map2 (XOR) a b = map2 (XOR) b (a :: bytes)"
  by (induction a b rule: list_induct2) (simp_all add: xor.commute)

lemma ref_crypto_ok: "crypto_ok ref_crypto"
  by (auto simp: crypto_ok_def ref_crypto_def ref_hash_def Let_def ref_tag_def map2_xor_comm split: if_splits)

text \<open>Every draw of the random generator makes a key with an address in \<open>fc00::/8\<close>.\<close>

lemma ref_in_fc00: "in_fc00 ref_crypto r"
  by (simp add: in_fc00_def ref_crypto_def ref_hash_def PublicKey_IPAddr_def AddrFromSlice_def Let_def)

lemma ref_GeneratePrivateKey: "GeneratePrivateKey ref_crypto (Inr r # ds) = Some (Inr \<lparr>priv_bytes = to_array 32 r\<rparr>)"
  by (simp add: GeneratePrivateKey_step ref_in_fc00)

lemma ref_SharedSecret:
  "length a = 32 \<Longrightarrow> length b = 32 \<Longrightarrow>
     SharedSecret ref_crypto \<lparr>priv_bytes = a\<rparr> \<lparr>pub_bytes = b\<rparr> = map2 (XOR) a b"
  by (simp add: SharedSecret_def ref_crypto_def)

lemma ref_PublicKey:
  "length a = 32 \<Longrightarrow> PrivateKey_PublicKey ref_crypto \<lparr>priv_bytes = a\<rparr> = \<lparr>pub_bytes = a\<rparr>"
  by (simp add: PrivateKey_PublicKey_def ref_crypto_def)

section \<open>Uvarint\<close>

fun leb_encode :: "nat \<Rightarrow> bytes" where
  "leb_encode n = (if n < 128 then [of_nat n] else of_nat (n mod 128 + 128) # leb_encode (n div 128))"

declare leb_encode.simps [simp del]

fun leb_decode :: "bytes \<Rightarrow> (nat \<times> nat) option" where
  "leb_decode [] = None"
| "leb_decode (b # bs) =
     (if unat b < 128 then Some (unat b, 1)
      else map_option (\<lambda>(v, l). (unat b - 128 + 128 * v, Suc l)) (leb_decode bs))"

lemma leb_roundtrip: "leb_decode (leb_encode n @ rest) = Some (n, length (leb_encode n))"
proof (induction n rule: leb_encode.induct)
  case (1 n)
  have unat: "unat (of_nat k :: byte) = k" if "k < 256" for k
    using that by (simp add: unat_of_nat)
  show ?case
  proof (cases "n < 128")
    case True
    then show ?thesis by (simp add: leb_encode.simps [of n] unat)
  next
    case False
    with 1 unat [of "n mod 128 + 128"] show ?thesis by (simp add: leb_encode.simps [of n] del: of_nat_add)
  qed
qed

lemma leb_short: "n < 2 ^ (7 * k) \<Longrightarrow> 0 < k \<Longrightarrow> length (leb_encode n) \<le> k"
proof (induction k arbitrary: n)
  case (Suc k)
  show ?case
  proof (cases "n < 128")
    case False
    with Suc.prems have "0 < k" by (cases k) auto
    moreover have "n div 128 < 2 ^ (7 * k)"
      using Suc.prems(1) by (simp add: less_mult_imp_div_less power_add mult.commute)
    ultimately show ?thesis using Suc.IH False by (simp add: leb_encode.simps [of n])
  qed (simp add: leb_encode.simps [of n])
qed simp

definition ref_varint :: varint where
  "ref_varint =
     \<lparr>ToUvarint = (\<lambda>c. leb_encode (unat c)),
      FromUvarint = (\<lambda>bs. case leb_decode bs of
        None \<Rightarrow> Inl (ErrExternal ''varints malformed, could not reach the end'')
      | Some (v, l) \<Rightarrow> Inr (of_nat v, int l))\<rparr>"

lemma ref_varint_ok: "varint_ok ref_varint"
proof -
  have "length (leb_encode (unat c)) \<le> 4" if "c < 2 ^ 28" for c :: u64
  proof -
    from that have "unat c < 2 ^ 28" by (simp add: word_less_nat_alt)
    then show ?thesis using leb_short [of "unat c" 4] by simp
  qed
  then show ?thesis by (simp add: varint_ok_def ref_varint_def leb_roundtrip)
qed

section \<open>Content identifiers\<close>

definition ref_cid :: "(u64 \<times> bytes) cidlib" where
  "ref_cid =
     \<lparr>cid_Type = fst, cid_Hash = snd, cid_NewCidV1 = Pair,
      cid_Bytes = (\<lambda>(t, h). bePutUint64 t @ h),
      cid_String = (\<lambda>(t, h). map (\<lambda>b. char_of (unat b)) (bePutUint64 t @ h)),
      cid_Cast = (\<lambda>b. if length b < 8 then Inl (ErrExternal ''cid too short'')
                       else Inr (beUint64 (take 8 b), drop 8 b)),
      cid_Decode = (\<lambda>s. let b = str_bytes s in
                       if length b < 8 then Inl (ErrExternal ''cid too short'')
                       else Inr (beUint64 (take 8 b), drop 8 b)),
      cid_Parse = (\<lambda>s. let b = str_bytes s in
                       if length b < 8 then Inl (ErrExternal ''cid too short'')
                       else Inr (beUint64 (take 8 b), drop 8 b)),
      mh_Decode = (\<lambda>m. Inr \<lparr>mh_Code = beUint64 (take 8 m), mh_Length = int (length m) - 8, mh_Digest = drop 8 m\<rparr>),
      mh_Sum = (\<lambda>b c l. Inr (bePutUint64 c @ b)), mh_IDENTITY = 0\<rparr>"

lemma str_bytes_chars: "str_bytes (map (\<lambda>b. char_of (unat b)) bs) = bs"
proof -
  have "of_nat (of_char (char_of (unat b)) :: nat) = b" for b :: byte
    using unat_byte_less [of b] by (simp add: of_char_of)
  then show ?thesis by (simp add: str_bytes_def map_idI)
qed

lemma ref_cid_ok: "cid_ok ref_cid"
  by (auto simp: cid_ok_def ref_cid_def Let_def str_bytes_chars [unfolded map_append] simp flip: map_append)

end
