(* ===== verification/MultiaddrText.thy ===== *)
theory MultiaddrText
  imports AddrRoundTrip Instances
begin

text \<open>
  The textual form of multiaddrs (\<^verbatim>\<open>multiaddr.go\<close>). The package \<^verbatim>\<open>go-multiaddr\<close>, which parses and prints
  what follows the parts this package knows, is a parameter; nothing is assumed of it.
\<close>

record maddrlib =
  NewMultiaddr :: "string \<Rightarrow> err + bytes"
  maddr_String :: "bytes \<Rightarrow> string"
  maddr_ValueForProtocol :: "bytes \<Rightarrow> nat \<Rightarrow> err + string"

text \<open>\<^verbatim>\<open>strings.Split\<close> with a separator of one character.\<close>

fun split_on :: "char \<Rightarrow> string \<Rightarrow> string list" where
  "split_on sep [] = [[]]"
| "split_on sep (c # cs) =
     (if c = sep then [] # split_on sep cs
      else case split_on sep cs of [] \<Rightarrow> [[c]] | x # xs \<Rightarrow> (c # x) # xs)"

section \<open>Parsing\<close>

text \<open>The three optional parts, each taken off the list of segments if it is there.\<close>

definition part_ip6 :: "string list \<Rightarrow> Multiaddr \<Rightarrow> err + Multiaddr \<times> string list" where
  "part_ip6 a ma =
     (if length a \<ge> 4 \<and> a ! 0 = ''ip6'' \<and> a ! 2 = ''udp'' then
        (case ParseAddrPort (''['' @ a ! 1 @ '']:'' @ a ! 3) of
           None \<Rightarrow> Inl (ErrExternal ''netip.ParseAddrPort'')
         | Some (ip, port) \<Rightarrow> Inr (ma\<lparr>IP := ip, Port := port\<rparr>, drop 4 a))
      else Inr (ma, a))"

definition part_ip4 :: "string list \<Rightarrow> Multiaddr \<Rightarrow> err + Multiaddr \<times> string list" where
  "part_ip4 a ma =
     (if length a \<ge> 4 \<and> a ! 0 = ''ip4'' \<and> a ! 2 = ''udp'' then
        (case ParseAddrPort (a ! 1 @ '':'' @ a ! 3) of
           None \<Rightarrow> Inl (ErrExternal ''netip.ParseAddrPort'')
         | Some (ip, port) \<Rightarrow> Inr (ma\<lparr>IP := ip, Port := port\<rparr>, drop 4 a))
      else Inr (ma, a))"

definition part_rovy :: "'cid cidlib \<Rightarrow> string list \<Rightarrow> Multiaddr \<Rightarrow> err + Multiaddr \<times> string list" where
  "part_rovy L a ma =
     (if length a \<ge> 2 \<and> a ! 0 = ''rovy'' then
        (case cid_Parse L (a ! 1) of
           Inl e \<Rightarrow> Inl e
         | Inr c \<Rightarrow>
             (case PeerIDFromCid L c of
                Inl e \<Rightarrow> Inl e
              | Inr pid \<Rightarrow> Inr (ma\<lparr>MaPeerID := pid\<rparr>, drop 2 a)))
      else Inr (ma, a))"

definition part_more :: "maddrlib \<Rightarrow> string list \<Rightarrow> Multiaddr \<Rightarrow> err + Multiaddr" where
  "part_more M a ma =
     (if length a > 0 then
        (case NewMultiaddr M (''/'' @ join_strings ''/'' a) of
           Inl e \<Rightarrow> Inl e
         | Inr more_bytes \<Rightarrow> Inr (ma\<lparr>More := Some more_bytes\<rparr>))
      else Inr ma)"

definition ParseMultiaddr :: "'cid cidlib \<Rightarrow> maddrlib \<Rightarrow> string \<Rightarrow> err + Multiaddr" where
  "ParseMultiaddr L M addr =
     (let a = tl (split_on CHR ''/'' addr)
      in case part_ip6 a emptyMultiaddr of
           Inl e \<Rightarrow> Inl e
         | Inr (ma, a) \<Rightarrow>
             (case part_ip4 a ma of
                Inl e \<Rightarrow> Inl e
              | Inr (ma, a) \<Rightarrow>
                  (case part_rovy L a ma of
                     Inl e \<Rightarrow> Inl e
                   | Inr (ma, a) \<Rightarrow> part_more M a ma)))"

text \<open>It panics where \<^verbatim>\<open>ParseMultiaddr\<close> returns an error.\<close>

definition MustParseMultiaddr :: "'cid cidlib \<Rightarrow> maddrlib \<Rightarrow> string \<Rightarrow> Multiaddr option" where
  "MustParseMultiaddr L M addr = (case ParseMultiaddr L M addr of Inl _ \<Rightarrow> None | Inr ma \<Rightarrow> Some ma)"

section \<open>Printing\<close>

definition Multiaddr_String :: "'cid cidlib \<Rightarrow> maddrlib \<Rightarrow> Multiaddr \<Rightarrow> string" where
  "Multiaddr_String L M ma =
     (if IsValid (IP ma) then
        (if Is4 (IP ma) then ''/ip4/'' @ Addr_String (IP ma) else ''/ip6/'' @ Addr_String (IP ma)) @
        (if Port ma > 0 then ''/udp/'' @ FormatUint (Port ma) else [])
      else []) @
     (case More ma of None \<Rightarrow> [] | Some mb \<Rightarrow> maddr_String M mb) @
     (if MaPeerID ma \<noteq> emptyPeerID then ''/rovy/'' @ PeerID_String L (MaPeerID ma) else [])"

definition ValueForProtocol :: "'cid cidlib \<Rightarrow> maddrlib \<Rightarrow> Multiaddr \<Rightarrow> nat \<Rightarrow> err + string" where
  "ValueForProtocol L M ma code =
     (if code = IP4MultiaddrCodec \<and> Is4 (IP ma) then Inr (Addr_String (IP ma))
      else if code = IP6MultiaddrCodec \<and> Is6 (IP ma) then Inr (Addr_String (IP ma))
      else if code = UDPMultiaddrCodec \<and> IsValid (IP ma) then Inr (FormatUint (Port ma))
      else if code = RovyMultiaddrCodec \<and> MaPeerID ma \<noteq> emptyPeerID then Inr (PeerID_String L (MaPeerID ma))
      else case More ma of
             Some mb \<Rightarrow> maddr_ValueForProtocol M mb code
           | None \<Rightarrow> Inl (Errorf ''can't get address value for protocol''))"

definition Multiaddr_MarshalText :: "'cid cidlib \<Rightarrow> maddrlib \<Rightarrow> Multiaddr \<Rightarrow> err + bytes" where
  "Multiaddr_MarshalText L M ma = Inr (str_bytes (Multiaddr_String L M ma))"

definition bytes_str :: "bytes \<Rightarrow> string" where "bytes_str = map (\<lambda>b. char_of (unat b))"

definition Multiaddr_UnmarshalText :: "'cid cidlib \<Rightarrow> maddrlib \<Rightarrow> Multiaddr \<Rightarrow> bytes \<Rightarrow> Multiaddr \<times> err option" where
  "Multiaddr_UnmarshalText L M ma data =
     (case ParseMultiaddr L M (bytes_str data) of Inl e \<Rightarrow> (ma, Some e) | Inr new \<Rightarrow> (new, None))"

section \<open>The transcoders of the protocols\<close>

definition maddrStr2b :: "'cid cidlib \<Rightarrow> string \<Rightarrow> err + bytes" where
  "maddrStr2b L s =
     (case cid_Decode L s of
        Inl e \<Rightarrow> Inl (Errorf ''failed to parse rovy addr'')
      | Inr c \<Rightarrow>
          if cid_Type L c = RovyKeyMulticodec then Inr (cid_Bytes L c)
          else Inl (Errorf ''failed to parse rovy addr''))"

definition maddrB2Str :: "'cid cidlib \<Rightarrow> bytes \<Rightarrow> err + string" where
  "maddrB2Str L b =
     (case cid_Cast L b of
        Inl e \<Rightarrow> Inl e
      | Inr c \<Rightarrow> (case PeerIDFromCid L c of Inl e \<Rightarrow> Inl e | Inr pid \<Rightarrow> Inr (PeerID_String L pid)))"

definition maddrValid :: "'cid cidlib \<Rightarrow> bytes \<Rightarrow> err option" where
  "maddrValid L b = (case cid_Cast L b of Inl e \<Rightarrow> Some e | Inr _ \<Rightarrow> None)"

definition protoMaddrStr2b :: "string \<Rightarrow> err + bytes" where "protoMaddrStr2b s = Inr (str_bytes s)"
definition protoMaddrB2Str :: "bytes \<Rightarrow> err + string" where "protoMaddrB2Str b = Inr (bytes_str b)"

section \<open>Lemmas\<close>

lemma split_on_plain: "sep \<notin> set s \<Longrightarrow> split_on sep s = [s]"
  by (induction s) auto

lemma split_on_app: "sep \<notin> set s \<Longrightarrow> split_on sep (s @ sep # t) = s # split_on sep t"
  by (induction s) auto

lemma bytes_str_bytes [simp]: "bytes_str (str_bytes s) = s"
proof -
  have "char_of (unat (of_nat (of_char c :: nat) :: byte)) = c" for c
  proof -
    have "of_char c < (256 :: nat)" by (rule nat_of_char_less_256)
    then show ?thesis by (simp add: unsigned_of_nat take_bit_nat_eq_self)
  qed
  then show ?thesis by (simp add: bytes_str_def str_bytes_def map_idI)
qed

text \<open>The segment of a PeerID, and the list of segments it is the end of.\<close>

definition rovy_part :: "'cid cidlib \<Rightarrow> PeerID \<Rightarrow> string" where
  "rovy_part L pid = (if pid \<noteq> emptyPeerID then ''/rovy/'' @ PeerID_String L pid else [])"

definition rovy_segments :: "'cid cidlib \<Rightarrow> PeerID \<Rightarrow> string list" where
  "rovy_segments L pid = (if pid \<noteq> emptyPeerID then [''rovy'', PeerID_String L pid] else [])"

lemma split_rovy:
  assumes "CHR ''/'' \<notin> set x" and "CHR ''/'' \<notin> set (PeerID_String L pid)"
  shows "split_on CHR ''/'' (x @ rovy_part L pid) = x # rovy_segments L pid"
  using assms split_on_app [OF assms(1), of "''rovy/'' @ PeerID_String L pid"]
    split_on_app [of "CHR ''/''" "''rovy''" "PeerID_String L pid"]
  by (simp add: rovy_part_def rovy_segments_def split_on_plain)

lemma rovy_parsed:
  assumes "cid_ok L" and "MaPeerID ma = emptyPeerID"
  shows "part_rovy L (rovy_segments L pid) ma = Inr (ma\<lparr>MaPeerID := pid\<rparr>, [])"
proof (cases "pid = emptyPeerID")
  case False
  have "cid_Parse L (PeerID_String L pid) = Inr (PeerID_Cid L pid)"
    using assms(1) False by (simp add: PeerID_String_def PeerID_Empty_def cid_ok_def)
  moreover have "PeerIDFromCid L (PeerID_Cid L pid) = Inr pid"
    using PeerID_Cid_props [OF assms(1), of pid] by (simp add: PeerIDFromCid_def PublicKeySize_def NewPublicKey_id)
  ultimately show ?thesis using False by (simp add: part_rovy_def rovy_segments_def)
next
  case True
  have "ma\<lparr>MaPeerID := emptyPeerID\<rparr> = ma" using assms(2) by (cases ma) simp
  with True show ?thesis by (simp add: part_rovy_def rovy_segments_def)
qed

lemma rovy_segments_no_ip: "part_ip6 (rovy_segments L pid) ma = Inr (ma, rovy_segments L pid)"
  "part_ip4 (rovy_segments L pid) ma = Inr (ma, rovy_segments L pid)"
  by (simp_all add: part_ip6_def part_ip4_def rovy_segments_def)

section \<open>Properties\<close>

text \<open>What a text can hold: a zone without slashes, and a port exactly with an address.\<close>

fun printable :: "Addr \<Rightarrow> bool" where
  "printable (Addr6 b zone) = (CHR ''/'' \<notin> set zone)"
| "printable _ = True"

lemma Multiaddr_String_parsed:
  assumes L: "cid_ok L" and slash: "\<And>p. \<not> PeerID_Empty p \<Longrightarrow> CHR ''/'' \<notin> set (PeerID_String L p)"
    and ma: "wf_addr (IP ma)" "printable (IP ma)" "IsValid (IP ma) \<longleftrightarrow> Port ma \<noteq> 0" "More ma = None"
  shows "ParseMultiaddr L M (Multiaddr_String L M ma) = Inr ma"
proof -
  let ?rv = "rovy_part L (MaPeerID ma)" and ?sg = "rovy_segments L (MaPeerID ma)" and ?ip = "Addr_String (IP ma)" and ?port = "FormatUint (Port ma)"
  have ps: "CHR ''/'' \<notin> set (PeerID_String L (MaPeerID ma))"
    using slash [of "MaPeerID ma"] by (cases "PeerID_Empty (MaPeerID ma)") (simp_all add: PeerID_String_def)
  have port: "CHR ''/'' \<notin> set ?port" using FormatUint_chars by blast
  have more: "part_more M [] m = Inr m" for m by (simp add: part_more_def)
  have eq: "\<lparr>IP = IP ma, Port = Port ma, MaPeerID = MaPeerID ma, More = None\<rparr> = ma" using ma(4) by (cases ma) simp
  show ?thesis
  proof (cases "IP ma")
    case AddrZero
    then have "Port ma = 0" using ma(3) by simp
    have "Multiaddr_String L M ma = [] @ ?rv" using AddrZero ma(4) by (simp add: Multiaddr_String_def rovy_part_def)
    then have "split_on CHR ''/'' (Multiaddr_String L M ma) = [] # ?sg" using split_rovy [OF _ ps, of "[]"] by simp
    then show ?thesis
      using rovy_parsed [OF L, of emptyMultiaddr "MaPeerID ma"] more AddrZero eq \<open>Port ma = 0\<close>
      by (simp add: ParseMultiaddr_def rovy_segments_no_ip emptyMultiaddr_def)
  next
    case (Addr4 b)
    then have len: "length b = 4" and pz: "Port ma > 0" using ma by (simp_all add: word_gt_0)
    have "Multiaddr_String L M ma = [] @ CHR ''/'' # ''ip4'' @ CHR ''/'' # string4 b @ CHR ''/'' # ''udp'' @ CHR ''/'' # ?port @ ?rv"
      using Addr4 ma(4) pz by (simp add: Multiaddr_String_def rovy_part_def)
    moreover have "CHR ''/'' \<notin> set (string4 b)" using string4_chars by blast
    ultimately have "split_on CHR ''/'' (Multiaddr_String L M ma) = [] # ''ip4'' # string4 b # ''udp'' # ?port # ?sg"
      using split_rovy [OF port ps] by (simp only: split_on_app) (simp add: split_on_app)
    then show ?thesis
      using ParseAddrPort_4 [OF len, of "Port ma"] rovy_parsed [OF L] more Addr4 eq
      by (simp add: ParseMultiaddr_def rovy_segments_no_ip part_ip6_def [of "_ # _"] part_ip4_def [of "_ # _"] emptyMultiaddr_def)
  next
    case (Addr6 b zone)
    then have len: "length b = 16" and pz: "Port ma > 0" and z: "CHR ''/'' \<notin> set zone" using ma by (simp_all add: word_gt_0)
    have "Multiaddr_String L M ma = [] @ CHR ''/'' # ''ip6'' @ CHR ''/'' # ?ip @ CHR ''/'' # ''udp'' @ CHR ''/'' # ?port @ ?rv"
      using Addr6 ma(4) pz by (simp add: Multiaddr_String_def rovy_part_def)
    moreover have "CHR ''/'' \<notin> set ?ip" using Addr6 z string4_chars string6_chars by auto
    ultimately have "split_on CHR ''/'' (Multiaddr_String L M ma) = [] # ''ip6'' # ?ip # ''udp'' # ?port # ?sg"
      using split_rovy [OF port ps] by (simp only: split_on_app) (simp add: split_on_app)
    then show ?thesis
      using ParseAddrPort_6 [OF len, of zone "Port ma"] rovy_parsed [OF L] more Addr6 eq
      by (simp add: ParseMultiaddr_def rovy_segments_no_ip part_ip6_def [of "_ # _"] emptyMultiaddr_def del: Addr_String.simps)
  qed
qed

text \<open>
  C40. Text of multiaddrs. A multiaddr with an IPv4 or IPv6 address (with or without a zone) and a port that is not zero, or with neither, with or
  without an identity, and with no further part is parsed back from its text unchanged, as a string
  and through the text marshalling methods, the longest run of zeros in an IPv6 address and IPv4-mapped addresses included.
\<close>

theorem multiaddr_text:
  assumes L: "cid_ok L" and slash: "\<And>p. \<not> PeerID_Empty p \<Longrightarrow> CHR ''/'' \<notin> set (PeerID_String L p)"
    and ma: "wf_addr (IP ma)" "printable (IP ma)" "IsValid (IP ma) \<longleftrightarrow> Port ma \<noteq> 0" "More ma = None"
  shows "ParseMultiaddr L M (Multiaddr_String L M ma) = Inr ma \<and>
    (\<exists>b. Multiaddr_MarshalText L M ma = Inr b \<and> Multiaddr_UnmarshalText L M old b = (ma, None))"
  using Multiaddr_String_parsed [OF assms] by (simp add: Multiaddr_MarshalText_def Multiaddr_UnmarshalText_def)

text \<open>CIDs with a hexadecimal text, for the concrete run.\<close>

definition to_hex :: "bytes \<Rightarrow> string" where
  "to_hex bs = concat (map (\<lambda>b. [digit_char (unat b div 16), digit_char (unat b mod 16)]) bs)"

fun of_hex :: "string \<Rightarrow> bytes" where
  "of_hex (a # b # rest) =
     (case (hex_val a, hex_val b) of (Some x, Some y) \<Rightarrow> of_nat (16 * x + y) # of_hex rest | _ \<Rightarrow> [])"
| "of_hex _ = []"

definition hex_cid :: "(u64 \<times> bytes) cidlib" where
  "hex_cid = ref_cid\<lparr>cid_String := (\<lambda>c. to_hex (cid_Bytes ref_cid c)), 
     cid_Decode := (\<lambda>s. cid_Cast ref_cid (of_hex s)), cid_Parse := (\<lambda>s. cid_Cast ref_cid (of_hex s))\<rparr>"

lemma of_to_hex: "of_hex (to_hex bs) = bs"
proof (induction bs)
  case (Cons b bs)
  have "unat b div 16 < 16" using unat_byte_less [of b] by simp
  with Cons show ?case by (simp add: to_hex_def hex_digit_vals)
qed (simp add: to_hex_def)

lemma hex_cid_ok: "cid_ok hex_cid" "CHR ''/'' \<notin> set (PeerID_String hex_cid p)" if "\<not> PeerID_Empty p"
proof -
  show "cid_ok hex_cid" using ref_cid_ok by (simp add: cid_ok_def hex_cid_def of_to_hex)
  have "CHR ''/'' \<notin> set (to_hex bs)" for bs
  proof (induction bs)
    case (Cons b bs)
    have "unat b div 16 < 16" "unat b mod 16 < 16" using unat_byte_less [of b] by simp_all
    with Cons digit_chars(4) [of "unat b div 16"] digit_chars(4) [of "unat b mod 16"] show ?case by (auto simp: to_hex_def)
  qed (simp add: to_hex_def)
  then show "CHR ''/'' \<notin> set (PeerID_String hex_cid p)" using that by (simp add: PeerID_String_def hex_cid_def)
qed

definition ref_maddr :: maddrlib where
  "ref_maddr = \<lparr>NewMultiaddr = (\<lambda>s. Inr (str_bytes s)), maddr_String = bytes_str,
     maddr_ValueForProtocol = (\<lambda>_ _. Inl (ErrExternal ''multiaddr''))\<rparr>"

theorem multiaddr_text_witness:
  "ParseMultiaddr hex_cid ref_maddr (Multiaddr_String hex_cid ref_maddr
      \<lparr>IP = Addr6 ([0xfe, 0x80] @ replicate 13 0 @ [1]) ''eth0'', Port = 1312, MaPeerID = \<lparr>b1 = 7, b2 = 0, b3 = 0, b4 = 0\<rparr>, More = None\<rparr>) =
    Inr \<lparr>IP = Addr6 ([0xfe, 0x80] @ replicate 13 0 @ [1]) ''eth0'', Port = 1312, MaPeerID = \<lparr>b1 = 7, b2 = 0, b3 = 0, b4 = 0\<rparr>, More = None\<rparr>"
proof -
  have p: "\<not> PeerID_Empty \<lparr>b1 = 7, b2 = 0, b3 = 0, b4 = 0\<rparr>" by (simp add: PeerID_Empty_def emptyPeerID_def)
  show ?thesis
    using multiaddr_text [OF hex_cid_ok(1) [OF p] hex_cid_ok(2), where M = ref_maddr and
      ma = "\<lparr>IP = Addr6 ([0xfe, 0x80] @ replicate 13 0 @ [1]) ''eth0'', Port = 1312, MaPeerID = \<lparr>b1 = 7, b2 = 0, b3 = 0, b4 = 0\<rparr>, More = None\<rparr>"]
    by simp
qed

text \<open>
  With port zero the port is not printed, and the parser, which expects both, hands the address to the other
  package: it ends up in the further part.
\<close>

lemma multiaddr_port_zero:
  assumes "length b = 4" and "NewMultiaddr M (''/ip4/'' @ string4 b) = Inr mb"
  shows "ParseMultiaddr L M (Multiaddr_String L M (emptyMultiaddr\<lparr>IP := Addr4 b\<rparr>)) = Inr (emptyMultiaddr\<lparr>More := Some mb\<rparr>)"
proof -
  have no: "CHR ''/'' \<notin> set (string4 b)" using string4_chars by blast
  have "Multiaddr_String L M (emptyMultiaddr\<lparr>IP := Addr4 b\<rparr>) = [] @ CHR ''/'' # ''ip4'' @ CHR ''/'' # string4 b"
    by (simp add: Multiaddr_String_def emptyMultiaddr_def)
  then have "split_on CHR ''/'' (Multiaddr_String L M (emptyMultiaddr\<lparr>IP := Addr4 b\<rparr>)) = [[], ''ip4'', string4 b]"
    by (simp only: split_on_app) (simp add: split_on_app split_on_plain [OF no])
  then show ?thesis
    using assms(2) by (simp add: ParseMultiaddr_def part_ip6_def part_ip4_def part_rovy_def part_more_def emptyMultiaddr_def)
qed

end
