(* ===== verification/SessionPackets.thy ===== *)
theory SessionPackets
  imports Packets
begin

text \<open>
  \<^verbatim>\<open>node/session/packet.go\<close>: the four packets of the session layer and their accessors.

  Every header accessor is an instance of one contract, the locale \<open>packet_field\<close>: a setter
  writes only its own region of the buffer, the getter reads back what was set, and it depends on
  that region only. The contract is discharged for each pair of accessors below, and the round
  trips of whole headers are proved from it.
\<close>

section \<open>The accessor contract\<close>

text \<open>\<open>q\<close> is \<open>p\<close> after a write into the region from \<open>i\<close> to \<open>j\<close> of its frame.\<close>

definition wrote :: "int \<Rightarrow> int \<Rightarrow> Framed \<Rightarrow> Framed \<Rightarrow> bool" where
  "wrote i j p q \<longleftrightarrow>
     (\<exists>xs c. copy_at (fbuf p) (Offset p + i) (Offset p + j) xs = Some c \<and> q = with_buf p c)"

lemma wrote_keeps:
  assumes "wrote i j p q"
  shows "Offset q = Offset p" "Padding q = Padding p" "length (fbuf q) = length (fbuf p)"
    "Length (base q) = Length (base p)" "q = with_buf p (fbuf q)"
  using assms by (auto simp: wrote_def dest: copy_at_length)

lemma wrote_base: "wrote i j p q \<Longrightarrow> \<exists>c. base q = (base p)\<lparr>Buf := c\<rparr>"
  by (auto simp: wrote_def)

text \<open>\<open>q\<close> has the frame of \<open>p\<close> and the same bytes before position \<open>n\<close> of the frame.\<close>

definition keeps_upto :: "int \<Rightarrow> Framed \<Rightarrow> Framed \<Rightarrow> bool" where
  "keeps_upto n p q \<longleftrightarrow>
     Offset q = Offset p \<and> Padding q = Padding p \<and> length (fbuf q) = length (fbuf p) \<and>
     (\<forall>i j. j \<le> Offset p + n \<longrightarrow> slice_of (fbuf q) i j = slice_of (fbuf p) i j)"

locale packet_field =
  fixes get :: "Framed \<Rightarrow> 'a option"
    and put :: "Framed \<Rightarrow> 'a \<Rightarrow> Framed option"
    and lo hi :: int
    and ok :: "'a \<Rightarrow> bool"
  assumes put_wrote: "put p v = Some q \<Longrightarrow> wrote lo hi p q"
    and put_total: "0 \<le> Offset p \<Longrightarrow> Offset p + hi \<le> int (length (fbuf p)) \<Longrightarrow> \<exists>q. put p v = Some q"
    and get_put: "put p v = Some q \<Longrightarrow> ok v \<Longrightarrow> get q = Some v"
    and get_local: "Offset p = Offset q \<Longrightarrow>
      slice_of (fbuf p) (Offset p + lo) (Offset p + hi) = slice_of (fbuf q) (Offset q + lo) (Offset q + hi) \<Longrightarrow>
      get p = get q"
begin

lemma get_wrote:
  assumes "wrote i j p q" and "j \<le> lo \<or> hi \<le> i"
  shows "get q = get p"
proof -
  from assms(1) obtain xs c where c: "copy_at (fbuf p) (Offset p + i) (Offset p + j) xs = Some c"
    and q: "q = with_buf p c" by (auto simp: wrote_def)
  have "slice_of c (Offset p + lo) (Offset p + hi) = slice_of (fbuf p) (Offset p + lo) (Offset p + hi)"
    using c assms(2) by (intro slice_copy_other) auto
  with q show ?thesis by (intro get_local) simp_all
qed

lemma get_with_length: "get (with_length p n) = get p"
  by (rule get_local) simp_all

lemma put_fits: "put p v = Some q \<Longrightarrow> 0 \<le> Offset p + lo \<and> Offset p + hi \<le> int (length (fbuf p))"
  by (drule put_wrote) (auto simp: wrote_def copy_at_def split: if_splits)

lemmas put_keeps = wrote_keeps [OF put_wrote]

lemma get_kept:
  assumes "keeps_upto n p q" and "hi \<le> n"
  shows "get q = get p"
  using assms by (intro get_local) (auto simp: keeps_upto_def)

end

text \<open>
  The contract of a packet body: a setter stores the bytes behind the header, makes the length of
  the packet fit, and leaves the header alone. \<open>tag\<close> is the room it leaves for an
  authentication tag and \<open>pad_ok\<close> says for which paddings it works.
\<close>

locale packet_body =
  fixes get :: "Framed \<Rightarrow> bytes option"
    and put :: "Framed \<Rightarrow> bytes \<Rightarrow> Framed option"
    and lo tag :: int
    and pad_ok :: "int \<Rightarrow> bool"
  assumes put_keeps: "put p xs = Some q \<Longrightarrow> pad_ok (Padding p) \<Longrightarrow> keeps_upto lo p q"
    and put_length: "put p xs = Some q \<Longrightarrow> pad_ok (Padding p) \<Longrightarrow>
      Length (base q) = Offset p + lo + int (length xs) + tag + Padding p \<and>
      base q = (base p)\<lparr>Buf := fbuf q, Length := Length (base q)\<rparr>"
    and put_total: "pad_ok (Padding p) \<Longrightarrow> 0 \<le> Offset p \<Longrightarrow>
      Offset p + lo + int (length xs) + tag \<le> int (length (fbuf p)) \<Longrightarrow> \<exists>q. put p xs = Some q"
    and get_put: "put p xs = Some q \<Longrightarrow> pad_ok (Padding p) \<Longrightarrow> get q = Some xs"
    and get_region: "get p = slice_of (fbuf p) (Offset p + lo) (Length (base p) - Padding p - tag)"
begin

text \<open>Storing as many bytes as the packet had keeps its length.\<close>

lemma put_same_length:
  assumes "get p = Some xs" and "length ys = length xs" and "put p ys = Some q" and "pad_ok (Padding p)"
  shows "Length (base q) = Length (base p)"
  using assms put_length [OF assms(3,4)] by (auto simp: get_region slice_of_def split: if_splits)

lemma put_back_total:
  assumes "get p = Some xs" and "length ys = length xs" and "pad_ok (Padding p)" and "0 \<le> Offset p"
    and "Length (base p) - Padding p \<le> int (length (fbuf p))"
  shows "\<exists>q. put p ys = Some q"
  using assms by (intro put_total) (auto simp: get_region slice_of_def split: if_splits)

end

section \<open>Message types\<close>

definition HelloMsgType :: u32 where "HelloMsgType = 0x1"
definition ResponseMsgType :: u32 where "ResponseMsgType = 0x2"
definition DataMsgType :: u32 where "DataMsgType = 0x4"
definition PlaintextMsgType :: u32 where "PlaintextMsgType = 0x5"

definition emptyTag :: bytes where "emptyTag = replicate 16 0"

type_synonym HelloPacket = Framed
type_synonym ResponsePacket = Framed
type_synonym DataPacket = Framed
type_synonym PlaintextPacket = Framed

section \<open>Hello packets\<close>

definition Hello_MsgType :: "HelloPacket \<Rightarrow> u32 option" where [field_defs]:
  "Hello_MsgType pkt = do { s \<leftarrow> slice_of (fbuf pkt) (Offset pkt + 0) (Offset pkt + 4); le_uint32 s }"

definition Hello_SetMsgType :: "HelloPacket \<Rightarrow> u32 \<Rightarrow> HelloPacket option" where [field_defs]:
  "Hello_SetMsgType pkt msgt = do {
     b \<leftarrow> copy_at (fbuf pkt) (Offset pkt + 0) (Offset pkt + 4) (le_bytes32 msgt);
     Some (with_buf pkt b) }"

definition NewHelloPacket :: "Packet \<Rightarrow> int \<Rightarrow> int \<Rightarrow> HelloPacket option" where
  "NewHelloPacket basepkt offset padding =
     Hello_SetMsgType \<lparr>Offset = offset, Padding = padding, base = basepkt\<rparr> HelloMsgType"

definition Hello_SenderIndex :: "HelloPacket \<Rightarrow> u32 option" where [field_defs]:
  "Hello_SenderIndex pkt = do { s \<leftarrow> slice_of (fbuf pkt) (Offset pkt + 4) (Offset pkt + 8); be_uint32 s }"

definition Hello_SetSenderIndex :: "HelloPacket \<Rightarrow> u32 \<Rightarrow> HelloPacket option" where [field_defs]:
  "Hello_SetSenderIndex pkt ix = do {
     b \<leftarrow> copy_at (fbuf pkt) (Offset pkt + 4) (Offset pkt + 8) (be_bytes32 ix);
     Some (with_buf pkt b) }"

definition Hello_EphemeralKey :: "HelloPacket \<Rightarrow> PublicKey option" where [field_defs]:
  "Hello_EphemeralKey pkt = do {
     s \<leftarrow> slice_of (fbuf pkt) (Offset pkt + 8) (Offset pkt + 40);
     Some (NewPublicKey s) }"

definition Hello_SetEphemeralKey :: "HelloPacket \<Rightarrow> PublicKey \<Rightarrow> HelloPacket option" where [field_defs]:
  "Hello_SetEphemeralKey pkt key = do {
     b \<leftarrow> copy_at (fbuf pkt) (Offset pkt + 8) (Offset pkt + 40) (PublicKey_Bytes key);
     Some (with_buf pkt b) }"

definition Hello_StaticKey :: "HelloPacket \<Rightarrow> bytes option" where [field_defs]:
  "Hello_StaticKey pkt = do {
     s \<leftarrow> slice_of (fbuf pkt) (Offset pkt + 40) (Offset pkt + 88);
     Some (to_array 48 s) }"

definition Hello_SetStaticKey :: "HelloPacket \<Rightarrow> bytes \<Rightarrow> HelloPacket option" where [field_defs]:
  "Hello_SetStaticKey pkt key = do {
     b \<leftarrow> copy_at (fbuf pkt) (Offset pkt + 40) (Offset pkt + 88) key;
     Some (with_buf pkt b) }"

definition Hello_Timestamp :: "HelloPacket \<Rightarrow> bytes option" where [field_defs]:
  "Hello_Timestamp pkt = do {
     s \<leftarrow> slice_of (fbuf pkt) (Offset pkt + 88) (Offset pkt + 116);
     Some (to_array 28 s) }"

definition Hello_SetTimestamp :: "HelloPacket \<Rightarrow> bytes \<Rightarrow> HelloPacket option" where [field_defs]:
  "Hello_SetTimestamp pkt ts = do {
     b \<leftarrow> copy_at (fbuf pkt) (Offset pkt + 88) (Offset pkt + 116) ts;
     Some (with_buf pkt b) }"

definition Hello_Plaintext :: "HelloPacket \<Rightarrow> bytes option" where
  "Hello_Plaintext pkt =
     slice_of (fbuf pkt) (Offset pkt + 116) (Length (base pkt) - Padding pkt - 16)"

definition Hello_SetPlaintext :: "HelloPacket \<Rightarrow> bytes \<Rightarrow> HelloPacket option" where
  "Hello_SetPlaintext pkt pt = do {
     let len = Offset pkt + 116 + int (length pt) + 16 + Padding pkt;
     b \<leftarrow> copy_at (fbuf pkt) (Offset pkt + 116) (len - Padding pkt) pt;
     b \<leftarrow> copy_at b (len - 16) (len - Padding pkt) emptyTag;
     Some (with_length (with_buf pkt b) len) }"

definition Hello_Ciphertext :: "HelloPacket \<Rightarrow> bytes option" where
  "Hello_Ciphertext pkt =
     slice_of (fbuf pkt) (Offset pkt + 116) (Length (base pkt) - Padding pkt)"

definition Hello_SetCiphertext :: "HelloPacket \<Rightarrow> bytes \<Rightarrow> HelloPacket option" where
  "Hello_SetCiphertext pkt ct = do {
     let len = Offset pkt + 116 + int (length ct) + Padding pkt;
     b \<leftarrow> copy_at (fbuf pkt) (Offset pkt + 116) (len - Padding pkt) ct;
     Some (with_length (with_buf pkt b) len) }"

section \<open>Response packets\<close>

definition Response_MsgType :: "ResponsePacket \<Rightarrow> u32 option" where [field_defs]:
  "Response_MsgType pkt = do {
     s \<leftarrow> slice_of (fbuf pkt) (Offset pkt + 0) (Offset pkt + 4);
     le_uint32 s }"

definition Response_SetMsgType :: "ResponsePacket \<Rightarrow> u32 \<Rightarrow> ResponsePacket option" where [field_defs]:
  "Response_SetMsgType pkt msgt = do {
     b \<leftarrow> copy_at (fbuf pkt) (Offset pkt + 0) (Offset pkt + 4) (le_bytes32 msgt);
     Some (with_buf pkt b) }"

definition NewResponsePacket :: "Packet \<Rightarrow> int \<Rightarrow> int \<Rightarrow> ResponsePacket option" where
  "NewResponsePacket basepkt offset padding =
     Response_SetMsgType \<lparr>Offset = offset, Padding = padding, base = basepkt\<rparr> ResponseMsgType"

definition Response_SenderIndex :: "ResponsePacket \<Rightarrow> u32 option" where [field_defs]:
  "Response_SenderIndex pkt = do {
     s \<leftarrow> slice_of (fbuf pkt) (Offset pkt + 4) (Offset pkt + 8);
     be_uint32 s }"

definition Response_SetSenderIndex :: "ResponsePacket \<Rightarrow> u32 \<Rightarrow> ResponsePacket option" where [field_defs]:
  "Response_SetSenderIndex pkt ix = do {
     b \<leftarrow> copy_at (fbuf pkt) (Offset pkt + 4) (Offset pkt + 8) (be_bytes32 ix);
     Some (with_buf pkt b) }"

definition Response_SessionIndex :: "ResponsePacket \<Rightarrow> u32 option" where [field_defs]:
  "Response_SessionIndex pkt = do {
     s \<leftarrow> slice_of (fbuf pkt) (Offset pkt + 8) (Offset pkt + 12);
     be_uint32 s }"

definition Response_SetSessionIndex :: "ResponsePacket \<Rightarrow> u32 \<Rightarrow> ResponsePacket option" where [field_defs]:
  "Response_SetSessionIndex pkt ix = do {
     b \<leftarrow> copy_at (fbuf pkt) (Offset pkt + 8) (Offset pkt + 12) (be_bytes32 ix);
     Some (with_buf pkt b) }"

definition Response_EphemeralKey :: "ResponsePacket \<Rightarrow> PublicKey option" where [field_defs]:
  "Response_EphemeralKey pkt = do {
     s \<leftarrow> slice_of (fbuf pkt) (Offset pkt + 12) (Offset pkt + 44);
     Some (NewPublicKey s) }"

definition Response_SetEphemeralKey :: "ResponsePacket \<Rightarrow> PublicKey \<Rightarrow> ResponsePacket option" where [field_defs]:
  "Response_SetEphemeralKey pkt key = do {
     b \<leftarrow> copy_at (fbuf pkt) (Offset pkt + 12) (Offset pkt + 44) (PublicKey_Bytes key);
     Some (with_buf pkt b) }"

definition Response_Empty :: "ResponsePacket \<Rightarrow> bytes option" where [field_defs]:
  "Response_Empty pkt = do {
     s \<leftarrow> slice_of (fbuf pkt) (Offset pkt + 44) (Offset pkt + 60);
     Some (to_array 16 s) }"

definition Response_SetEmpty :: "ResponsePacket \<Rightarrow> bytes \<Rightarrow> ResponsePacket option" where [field_defs]:
  "Response_SetEmpty pkt tag = do {
     b \<leftarrow> copy_at (fbuf pkt) (Offset pkt + 44) (Offset pkt + 60) tag;
     Some (with_buf pkt b) }"

definition Response_Plaintext :: "ResponsePacket \<Rightarrow> bytes option" where
  "Response_Plaintext pkt =
     slice_of (fbuf pkt) (Offset pkt + 60) (Length (base pkt) - Padding pkt - 16)"

definition Response_SetPlaintext :: "ResponsePacket \<Rightarrow> bytes \<Rightarrow> ResponsePacket option" where
  "Response_SetPlaintext pkt pt = do {
     let len = Offset pkt + 60 + int (length pt) + 16 + Padding pkt;
     b \<leftarrow> copy_at (fbuf pkt) (Offset pkt + 60) (len - Padding pkt) pt;
     b \<leftarrow> copy_at b (len - Padding pkt - 16) (len - Padding pkt) emptyTag;
     Some (with_length (with_buf pkt b) len) }"

definition Response_Ciphertext :: "ResponsePacket \<Rightarrow> bytes option" where
  "Response_Ciphertext pkt =
     slice_of (fbuf pkt) (Offset pkt + 60) (Length (base pkt) - Padding pkt)"

definition Response_SetCiphertext :: "ResponsePacket \<Rightarrow> bytes \<Rightarrow> ResponsePacket option" where
  "Response_SetCiphertext pkt ct = do {
     let len = Offset pkt + 60 + int (length ct) + Padding pkt;
     b \<leftarrow> copy_at (fbuf pkt) (Offset pkt + 60) (len - Padding pkt) ct;
     Some (with_length (with_buf pkt b) len) }"

section \<open>Data packets\<close>

definition Data_MsgType :: "DataPacket \<Rightarrow> u32 option" where [field_defs]:
  "Data_MsgType pkt = do {
     s \<leftarrow> slice_of (fbuf pkt) (Offset pkt + 0) (Offset pkt + 4);
     le_uint32 s }"

definition Data_SetMsgType :: "DataPacket \<Rightarrow> u32 \<Rightarrow> DataPacket option" where [field_defs]:
  "Data_SetMsgType pkt msgt = do {
     b \<leftarrow> copy_at (fbuf pkt) (Offset pkt + 0) (Offset pkt + 4) (le_bytes32 msgt);
     Some (with_buf pkt b) }"

definition NewDataPacket :: "Packet \<Rightarrow> int \<Rightarrow> int \<Rightarrow> DataPacket option" where
  "NewDataPacket basepkt offset padding =
     Data_SetMsgType \<lparr>Offset = offset, Padding = padding, base = basepkt\<rparr> DataMsgType"

definition Data_SessionIndex :: "DataPacket \<Rightarrow> u32 option" where [field_defs]:
  "Data_SessionIndex pkt = do {
     s \<leftarrow> slice_of (fbuf pkt) (Offset pkt + 4) (Offset pkt + 8);
     be_uint32 s }"

definition Data_SetSessionIndex :: "DataPacket \<Rightarrow> u32 \<Rightarrow> DataPacket option" where [field_defs]:
  "Data_SetSessionIndex pkt ix = do {
     b \<leftarrow> copy_at (fbuf pkt) (Offset pkt + 4) (Offset pkt + 8) (be_bytes32 ix);
     Some (with_buf pkt b) }"

definition Data_Nonce :: "DataPacket \<Rightarrow> bytes option" where [field_defs]:
  "Data_Nonce pkt = do {
     s \<leftarrow> slice_of (fbuf pkt) (Offset pkt + 8) (Offset pkt + 16);
     Some (to_array 8 s) }"

definition Data_SetNonce :: "DataPacket \<Rightarrow> bytes \<Rightarrow> DataPacket option" where [field_defs]:
  "Data_SetNonce pkt nonce = do {
     b \<leftarrow> copy_at (fbuf pkt) (Offset pkt + 8) (Offset pkt + 16) nonce;
     Some (with_buf pkt b) }"

definition Data_Plaintext :: "DataPacket \<Rightarrow> bytes option" where
  "Data_Plaintext pkt =
     slice_of (fbuf pkt) (Offset pkt + 16) (Length (base pkt) - Padding pkt - 16)"

definition Data_SetPlaintext :: "DataPacket \<Rightarrow> bytes \<Rightarrow> DataPacket option" where
  "Data_SetPlaintext pkt pt = do {
     let len = Offset pkt + 16 + int (length pt) + 16 + Padding pkt;
     b \<leftarrow> copy_at (fbuf pkt) (Offset pkt + 16) (len - Padding pkt) pt;
     b \<leftarrow> copy_at b (len - Padding pkt - 16) (len - Padding pkt) emptyTag;
     Some (with_length (with_buf pkt b) len) }"

definition Data_Ciphertext :: "DataPacket \<Rightarrow> bytes option" where
  "Data_Ciphertext pkt =
     slice_of (fbuf pkt) (Offset pkt + 16) (Length (base pkt) - Padding pkt)"

definition Data_SetCiphertext :: "DataPacket \<Rightarrow> bytes \<Rightarrow> DataPacket option" where
  "Data_SetCiphertext pkt ct = do {
     let len = Offset pkt + 16 + int (length ct) + Padding pkt;
     b \<leftarrow> copy_at (fbuf pkt) (Offset pkt + 16) (len - Padding pkt) ct;
     Some (with_length (with_buf pkt b) len) }"

section \<open>Plaintext packets\<close>

definition stubSignature :: bytes where "stubSignature = replicate 8 0x42"
definition stubRandomizer :: bytes where "stubRandomizer = replicate 8 0x23"

definition Plain_MsgType :: "PlaintextPacket \<Rightarrow> u32 option" where [field_defs]:
  "Plain_MsgType pkt = do {
     s \<leftarrow> slice_of (fbuf pkt) (Offset pkt + 0) (Offset pkt + 4);
     le_uint32 s }"

definition Plain_SetMsgType :: "PlaintextPacket \<Rightarrow> u32 \<Rightarrow> PlaintextPacket option" where [field_defs]:
  "Plain_SetMsgType pkt msgt = do {
     b \<leftarrow> copy_at (fbuf pkt) (Offset pkt + 0) (Offset pkt + 4) (le_bytes32 msgt);
     Some (with_buf pkt b) }"

definition Plain_Signature :: "PlaintextPacket \<Rightarrow> bytes option" where [field_defs]:
  "Plain_Signature pkt = do {
     s \<leftarrow> slice_of (fbuf pkt) (Offset pkt + 4) (Offset pkt + 12);
     Some (to_array 8 s) }"

definition Plain_SetSignature :: "PlaintextPacket \<Rightarrow> bytes \<Rightarrow> PlaintextPacket option" where [field_defs]:
  "Plain_SetSignature pkt sig = do {
     b \<leftarrow> copy_at (fbuf pkt) (Offset pkt + 4) (Offset pkt + 12) sig;
     Some (with_buf pkt b) }"

definition Plain_Randomizer :: "PlaintextPacket \<Rightarrow> bytes option" where [field_defs]:
  "Plain_Randomizer pkt = do {
     s \<leftarrow> slice_of (fbuf pkt) (Offset pkt + 12) (Offset pkt + 20);
     Some (to_array 8 s) }"

definition Plain_SetRandomizer :: "PlaintextPacket \<Rightarrow> bytes \<Rightarrow> PlaintextPacket option" where [field_defs]:
  "Plain_SetRandomizer pkt rnd = do {
     b \<leftarrow> copy_at (fbuf pkt) (Offset pkt + 12) (Offset pkt + 20) rnd;
     Some (with_buf pkt b) }"

definition Plain_Sender :: "PlaintextPacket \<Rightarrow> PublicKey option" where [field_defs]:
  "Plain_Sender pkt = do {
     s \<leftarrow> slice_of (fbuf pkt) (Offset pkt + 20) (Offset pkt + 52);
     Some (NewPublicKey s) }"

definition Plain_SetSender :: "PlaintextPacket \<Rightarrow> PublicKey \<Rightarrow> PlaintextPacket option" where [field_defs]:
  "Plain_SetSender pkt key = do {
     b \<leftarrow> copy_at (fbuf pkt) (Offset pkt + 20) (Offset pkt + 52) (PublicKey_Bytes key);
     Some (with_buf pkt b) }"

definition NewPlaintextPacket :: "Packet \<Rightarrow> int \<Rightarrow> int \<Rightarrow> PlaintextPacket option" where
  "NewPlaintextPacket basepkt offset padding = do {
     pkt \<leftarrow> Plain_SetMsgType \<lparr>Offset = offset, Padding = padding, base = basepkt\<rparr> PlaintextMsgType;
     pkt \<leftarrow> Plain_SetSignature pkt stubSignature;
     Plain_SetRandomizer pkt stubRandomizer }"

definition Plain_Plaintext :: "PlaintextPacket \<Rightarrow> bytes option" where
  "Plain_Plaintext pkt =
     slice_of (fbuf pkt) (Offset pkt + 52) (Length (base pkt) - Padding pkt)"

definition Plain_SetPlaintext :: "PlaintextPacket \<Rightarrow> bytes \<Rightarrow> PlaintextPacket option" where
  "Plain_SetPlaintext pkt pt = do {
     let len = Offset pkt + 52 + int (length pt) + Padding pkt;
     b \<leftarrow> copy_at (fbuf pkt) (Offset pkt + 52) (len - Padding pkt) pt;
     Some (with_length (with_buf pkt b) len) }"

section \<open>Every accessor meets the contract\<close>

text \<open>The four shapes of accessors: little and big endian integers, keys, and byte arrays.\<close>

lemma wrote_copy:
  "copy_at (fbuf p) (Offset p + i) (Offset p + j) xs = Some c \<Longrightarrow> wrote i j p (with_buf p c)"
  by (auto simp: wrote_def)

lemma field_intro:
  assumes get: "\<And>p. get p = Option.bind (slice_of (fbuf p) (Offset p + lo) (Offset p + hi)) dec"
    and put: "\<And>p v. put p v = Option.bind (copy_at (fbuf p) (Offset p + lo) (Offset p + hi) (enc v))
                (\<lambda>b. Some (with_buf p b))"
    and region: "0 \<le> lo" "lo \<le> hi"
    and enc: "\<And>v. ok v \<Longrightarrow> length (enc v) = nat (hi - lo) \<and> dec (enc v) = Some v"
  shows "packet_field get put lo hi ok"
proof
  fix p q v assume "put p v = Some q"
  then obtain c where c: "copy_at (fbuf p) (Offset p + lo) (Offset p + hi) (enc v) = Some c"
    and q: "q = with_buf p c" by (auto simp: put split: Option.bind_splits)
  then show "wrote lo hi p q" by (auto intro: wrote_copy)
  assume "ok v"
  then have "slice_of c (Offset p + lo) (Offset p + hi) = Some (enc v)"
    using c enc by (intro slice_copy_same) auto
  with q \<open>ok v\<close> enc show "get q = Some v" by (simp add: get)
next
  fix p :: Framed and v assume "0 \<le> Offset p" "Offset p + hi \<le> int (length (fbuf p))"
  then obtain c where "copy_at (fbuf p) (Offset p + lo) (Offset p + hi) (enc v) = Some c"
    using region copy_at_total [of "Offset p + lo" "Offset p + hi" "fbuf p"] by auto
  then show "\<exists>q. put p v = Some q" by (simp add: put)
qed (simp add: get)

interpretation hello_mt: packet_field Hello_MsgType Hello_SetMsgType 0 4 "\<lambda>_. True"
  by (rule field_intro [where dec = le_uint32 and enc = le_bytes32]) (simp_all add: field_defs)

interpretation hello_sidx: packet_field Hello_SenderIndex Hello_SetSenderIndex 4 8 "\<lambda>_. True"
  by (rule field_intro [where dec = be_uint32 and enc = be_bytes32]) (simp_all add: field_defs)

interpretation hello_eph: packet_field Hello_EphemeralKey Hello_SetEphemeralKey 8 40 wf_pub
  by (rule field_intro [where dec = "\<lambda>s. Some (NewPublicKey s)" and enc = PublicKey_Bytes]) (simp_all add: field_defs wf_pub_def PublicKey_Bytes_def NewPublicKey_def PublicKeySize_def)

interpretation hello_static: packet_field Hello_StaticKey Hello_SetStaticKey 40 88 "\<lambda>v. length v = 48"
  by (rule field_intro [where dec = "\<lambda>s. Some (to_array 48 s)" and enc = "\<lambda>v. v"]) (simp_all add: field_defs)

interpretation hello_ts: packet_field Hello_Timestamp Hello_SetTimestamp 88 116 "\<lambda>v. length v = 28"
  by (rule field_intro [where dec = "\<lambda>s. Some (to_array 28 s)" and enc = "\<lambda>v. v"]) (simp_all add: field_defs)

interpretation resp_mt: packet_field Response_MsgType Response_SetMsgType 0 4 "\<lambda>_. True"
  by (rule field_intro [where dec = le_uint32 and enc = le_bytes32]) (simp_all add: field_defs)

interpretation resp_sidx: packet_field Response_SenderIndex Response_SetSenderIndex 4 8 "\<lambda>_. True"
  by (rule field_intro [where dec = be_uint32 and enc = be_bytes32]) (simp_all add: field_defs)

interpretation resp_idx: packet_field Response_SessionIndex Response_SetSessionIndex 8 12 "\<lambda>_. True"
  by (rule field_intro [where dec = be_uint32 and enc = be_bytes32]) (simp_all add: field_defs)

interpretation resp_eph: packet_field Response_EphemeralKey Response_SetEphemeralKey 12 44 wf_pub
  by (rule field_intro [where dec = "\<lambda>s. Some (NewPublicKey s)" and enc = PublicKey_Bytes]) (simp_all add: field_defs wf_pub_def PublicKey_Bytes_def NewPublicKey_def PublicKeySize_def)

interpretation resp_empty: packet_field Response_Empty Response_SetEmpty 44 60 "\<lambda>v. length v = 16"
  by (rule field_intro [where dec = "\<lambda>s. Some (to_array 16 s)" and enc = "\<lambda>v. v"]) (simp_all add: field_defs)

interpretation data_mt: packet_field Data_MsgType Data_SetMsgType 0 4 "\<lambda>_. True"
  by (rule field_intro [where dec = le_uint32 and enc = le_bytes32]) (simp_all add: field_defs)

interpretation data_idx: packet_field Data_SessionIndex Data_SetSessionIndex 4 8 "\<lambda>_. True"
  by (rule field_intro [where dec = be_uint32 and enc = be_bytes32]) (simp_all add: field_defs)

interpretation data_nonce: packet_field Data_Nonce Data_SetNonce 8 16 "\<lambda>v. length v = 8"
  by (rule field_intro [where dec = "\<lambda>s. Some (to_array 8 s)" and enc = "\<lambda>v. v"]) (simp_all add: field_defs)

interpretation plain_mt: packet_field Plain_MsgType Plain_SetMsgType 0 4 "\<lambda>_. True"
  by (rule field_intro [where dec = le_uint32 and enc = le_bytes32]) (simp_all add: field_defs)

interpretation plain_sig: packet_field Plain_Signature Plain_SetSignature 4 12 "\<lambda>v. length v = 8"
  by (rule field_intro [where dec = "\<lambda>s. Some (to_array 8 s)" and enc = "\<lambda>v. v"]) (simp_all add: field_defs)

interpretation plain_rnd: packet_field Plain_Randomizer Plain_SetRandomizer 12 20 "\<lambda>v. length v = 8"
  by (rule field_intro [where dec = "\<lambda>s. Some (to_array 8 s)" and enc = "\<lambda>v. v"]) (simp_all add: field_defs)

interpretation plain_sender: packet_field Plain_Sender Plain_SetSender 20 52 wf_pub
  by (rule field_intro [where dec = "\<lambda>s. Some (NewPublicKey s)" and enc = PublicKey_Bytes]) (simp_all add: field_defs wf_pub_def PublicKey_Bytes_def NewPublicKey_def PublicKeySize_def)

section \<open>Every body meets the contract\<close>

lemma body_intro:
  assumes get: "\<And>p. get p = slice_of (fbuf p) (Offset p + lo) (Length (base p) - Padding p - tag)"
    and put: "\<And>p xs q. put p xs = Some q \<Longrightarrow> pad_ok (Padding p) \<Longrightarrow>
      \<exists>b c. copy_at (fbuf p) (Offset p + lo) (Offset p + lo + int (length xs) + tag) xs = Some b \<and>
        length c = length b \<and>
        (\<forall>i j. j \<le> Offset p + lo + int (length xs) \<longrightarrow> slice_of c i j = slice_of b i j) \<and>
        q = with_length (with_buf p c) (Offset p + lo + int (length xs) + tag + Padding p)"
    and total: "\<And>p xs. pad_ok (Padding p) \<Longrightarrow> 0 \<le> Offset p \<Longrightarrow>
      Offset p + lo + int (length xs) + tag \<le> int (length (fbuf p)) \<Longrightarrow> \<exists>q. put p xs = Some q"
    and region: "0 \<le> lo" "0 \<le> tag"
  shows "packet_body get put lo tag pad_ok"
proof
  fix p q xs assume "put p xs = Some q" and "pad_ok (Padding p)"
  then obtain b c where b: "copy_at (fbuf p) (Offset p + lo) (Offset p + lo + int (length xs) + tag) xs = Some b"
    and c: "length c = length b"
      "\<And>i j. j \<le> Offset p + lo + int (length xs) \<Longrightarrow> slice_of c i j = slice_of b i j"
    and q: "q = with_length (with_buf p c) (Offset p + lo + int (length xs) + tag + Padding p)"
    using put by blast
  have keep: "slice_of c i j = slice_of (fbuf p) i j" if "j \<le> Offset p + lo" for i j
    using that c(2) [of j i] slice_copy_other [OF b, of j i] by simp
  with q b c show "keeps_upto lo p q"
    by (auto simp: keeps_upto_def dest: copy_at_length)
  show "Length (base q) = Offset p + lo + int (length xs) + tag + Padding p \<and>
      base q = (base p)\<lparr>Buf := fbuf q, Length := Length (base q)\<rparr>"
    by (simp add: q)
  have "slice_of b (Offset p + lo) (Offset p + lo + int (length xs)) = Some xs"
  proof -
    have "copy_at (fbuf p) (Offset p + lo) (Offset p + lo + int (length xs)) xs = Some b"
      using b region by (auto simp: copy_at_def split: if_splits)
    then show ?thesis by (rule slice_copy_same) simp
  qed
  with q c show "get q = Some xs" by (simp add: get)
qed (use get total in auto)

lemmas body_defs = Hello_Plaintext_def Hello_SetPlaintext_def Hello_Ciphertext_def Hello_SetCiphertext_def
  Response_Plaintext_def Response_SetPlaintext_def Response_Ciphertext_def Response_SetCiphertext_def
  Data_Plaintext_def Data_SetPlaintext_def Data_Ciphertext_def Data_SetCiphertext_def
  Plain_Plaintext_def Plain_SetPlaintext_def

lemma copy_ok:
  "0 \<le> i \<Longrightarrow> i \<le> j \<Longrightarrow> j \<le> int (length b) \<Longrightarrow>
    Option.bind (copy_at b i j xs) f = f (the (copy_at b i j xs)) \<and> length (the (copy_at b i j xs)) = length b"
  using copy_at_total [of i j b xs] by (auto dest: copy_at_length)

interpretation data_ct: packet_body Data_Ciphertext Data_SetCiphertext 16 0 "\<lambda>_. True"
  by (rule body_intro) (auto simp: body_defs Let_def copy_ok split: Option.bind_splits)

interpretation hello_ct: packet_body Hello_Ciphertext Hello_SetCiphertext 116 0 "\<lambda>_. True"
  by (rule body_intro) (auto simp: body_defs Let_def copy_ok split: Option.bind_splits)

interpretation resp_ct: packet_body Response_Ciphertext Response_SetCiphertext 60 0 "\<lambda>_. True"
  by (rule body_intro) (auto simp: body_defs Let_def copy_ok split: Option.bind_splits)

interpretation plain_pt: packet_body Plain_Plaintext Plain_SetPlaintext 52 0 "\<lambda>_. True"
  by (rule body_intro) (auto simp: body_defs Let_def copy_ok split: Option.bind_splits)

lemma put_tagged:
  assumes "copy_at b t t' ys = Some c" and "m \<le> t"
  shows "length c = length b \<and> (\<forall>i j. j \<le> m \<longrightarrow> slice_of c i j = slice_of b i j)"
  using assms slice_copy_other [OF assms(1)] by (auto dest: copy_at_length)

interpretation data_pt: packet_body Data_Plaintext Data_SetPlaintext 16 16 "\<lambda>_. True"
proof (rule body_intro)
  fix p q :: Framed and xs assume "Data_SetPlaintext p xs = Some q"
  then show "\<exists>b c. copy_at (fbuf p) (Offset p + 16) (Offset p + 16 + int (length xs) + 16) xs = Some b \<and>
        length c = length b \<and> (\<forall>i j. j \<le> Offset p + 16 + int (length xs) \<longrightarrow> slice_of c i j = slice_of b i j) \<and>
        q = with_length (with_buf p c) (Offset p + 16 + int (length xs) + 16 + Padding p)"
    by (auto simp: body_defs Let_def split: Option.bind_splits dest!: put_tagged [where m = "Offset p + 16 + int (length xs)"])
qed (auto simp: body_defs Let_def copy_ok)

interpretation resp_pt: packet_body Response_Plaintext Response_SetPlaintext 60 16 "\<lambda>_. True"
proof (rule body_intro)
  fix p q :: Framed and xs assume "Response_SetPlaintext p xs = Some q"
  then show "\<exists>b c. copy_at (fbuf p) (Offset p + 60) (Offset p + 60 + int (length xs) + 16) xs = Some b \<and>
        length c = length b \<and> (\<forall>i j. j \<le> Offset p + 60 + int (length xs) \<longrightarrow> slice_of c i j = slice_of b i j) \<and>
        q = with_length (with_buf p c) (Offset p + 60 + int (length xs) + 16 + Padding p)"
    by (auto simp: body_defs Let_def split: Option.bind_splits dest!: put_tagged [where m = "Offset p + 60 + int (length xs)"])
qed (auto simp: body_defs Let_def copy_ok)

text \<open>
  \<^verbatim>\<open>HelloPacket.SetPlaintext\<close> clears from \<open>Length - 16\<close> to \<open>Length - Padding\<close>: it works for
  paddings from 0 to 16 and panics beyond.
\<close>

interpretation hello_pt: packet_body Hello_Plaintext Hello_SetPlaintext 116 16 "\<lambda>n. 0 \<le> n \<and> n \<le> 16"
proof (rule body_intro)
  fix p q :: Framed and xs assume "Hello_SetPlaintext p xs = Some q" and "0 \<le> Padding p \<and> Padding p \<le> 16"
  then show "\<exists>b c. copy_at (fbuf p) (Offset p + 116) (Offset p + 116 + int (length xs) + 16) xs = Some b \<and>
        length c = length b \<and> (\<forall>i j. j \<le> Offset p + 116 + int (length xs) \<longrightarrow> slice_of c i j = slice_of b i j) \<and>
        q = with_length (with_buf p c) (Offset p + 116 + int (length xs) + 16 + Padding p)"
    by (auto simp: body_defs Let_def split: Option.bind_splits
        dest!: put_tagged [where m = "Offset p + 116 + int (length xs)"])
qed (auto simp: body_defs Let_def copy_ok)

section \<open>Whole headers\<close>

lemma keeps_uptoD:
  "keeps_upto n p q \<Longrightarrow> Offset q = Offset p \<and> Padding q = Padding p \<and> length (fbuf q) = length (fbuf p)"
  by (simp add: keeps_upto_def)

text \<open>The writes of \<^verbatim>\<open>Session.CreateHello\<close>, in their order.\<close>

lemma hello_written:
  assumes e: "Hello_SetEphemeralKey p0 eph = Some p1" and s: "Hello_SetStaticKey p1 static = Some p2"
    and t: "Hello_SetTimestamp p2 ts = Some p3" and c: "Hello_SetCiphertext p3 ct = Some p4"
    and wf: "wf_pub eph" "length static = 48" "length ts = 28"
  shows "Hello_EphemeralKey p4 = Some eph" "Hello_StaticKey p4 = Some static"
    "Hello_Timestamp p4 = Some ts" "Hello_Ciphertext p4 = Some ct"
    "Hello_SenderIndex p4 = Hello_SenderIndex p0" "Hello_MsgType p4 = Hello_MsgType p0"
    "Offset p4 = Offset p0" "Padding p4 = Padding p0" "length (fbuf p4) = length (fbuf p0)"
    "Length (base p4) = Offset p0 + 116 + int (length ct) + Padding p0"
proof -
  note w1 = hello_eph.put_wrote [OF e] and w2 = hello_static.put_wrote [OF s] and w3 = hello_ts.put_wrote [OF t]
  note k4 = hello_ct.put_keeps [OF c TrueI]
  show "Hello_EphemeralKey p4 = Some eph"
    using hello_eph.get_put [OF e wf(1)] hello_eph.get_wrote [OF w2] hello_eph.get_wrote [OF w3]
      hello_eph.get_kept [OF k4] by simp
  show "Hello_StaticKey p4 = Some static"
    using hello_static.get_put [OF s wf(2)] hello_static.get_wrote [OF w3] hello_static.get_kept [OF k4] by simp
  show "Hello_Timestamp p4 = Some ts"
    using hello_ts.get_put [OF t wf(3)] hello_ts.get_kept [OF k4] by simp
  show "Hello_Ciphertext p4 = Some ct" using hello_ct.get_put [OF c] by simp
  show "Hello_SenderIndex p4 = Hello_SenderIndex p0"
    using hello_sidx.get_wrote [OF w1] hello_sidx.get_wrote [OF w2] hello_sidx.get_wrote [OF w3]
      hello_sidx.get_kept [OF k4] by simp
  show "Hello_MsgType p4 = Hello_MsgType p0"
    using hello_mt.get_wrote [OF w1] hello_mt.get_wrote [OF w2] hello_mt.get_wrote [OF w3]
      hello_mt.get_kept [OF k4] by simp
  show "Offset p4 = Offset p0" "Padding p4 = Padding p0" "length (fbuf p4) = length (fbuf p0)"
    "Length (base p4) = Offset p0 + 116 + int (length ct) + Padding p0"
    using wrote_keeps [OF w1] wrote_keeps [OF w2] wrote_keeps [OF w3] keeps_uptoD [OF k4]
      hello_ct.put_length [OF c] by simp_all
qed

text \<open>The writes of \<^verbatim>\<open>Session.CreateResponse\<close> and, after them, of the session index.\<close>

lemma response_written:
  assumes e: "Response_SetEphemeralKey p0 eph = Some p1" and s: "Response_SetEmpty p1 tag = Some p2"
    and c: "Response_SetCiphertext p2 ct = Some p3" and x: "Response_SetSessionIndex p3 ix = Some p4"
    and wf: "wf_pub eph" "length tag = 16"
  shows "Response_EphemeralKey p4 = Some eph" "Response_Empty p4 = Some tag"
    "Response_Ciphertext p4 = Some ct" "Response_SessionIndex p4 = Some ix"
    "Response_SenderIndex p4 = Response_SenderIndex p0" "Response_MsgType p4 = Response_MsgType p0"
    "Offset p4 = Offset p0" "Padding p4 = Padding p0" "length (fbuf p4) = length (fbuf p0)"
    "Length (base p4) = Offset p0 + 60 + int (length ct) + Padding p0"
proof -
  note w1 = resp_eph.put_wrote [OF e] and w2 = resp_empty.put_wrote [OF s] and w4 = resp_idx.put_wrote [OF x]
  note k3 = resp_ct.put_keeps [OF c TrueI]
  show "Response_EphemeralKey p4 = Some eph"
    using resp_eph.get_put [OF e wf(1)] resp_eph.get_wrote [OF w2] resp_eph.get_kept [OF k3]
      resp_eph.get_wrote [OF w4] by simp
  show "Response_Empty p4 = Some tag"
    using resp_empty.get_put [OF s wf(2)] resp_empty.get_kept [OF k3] resp_empty.get_wrote [OF w4] by simp
  show "Response_SessionIndex p4 = Some ix" using resp_idx.get_put [OF x] by simp
  show "Response_SenderIndex p4 = Response_SenderIndex p0"
    using resp_sidx.get_wrote [OF w1] resp_sidx.get_wrote [OF w2] resp_sidx.get_kept [OF k3]
      resp_sidx.get_wrote [OF w4] by simp
  show "Response_MsgType p4 = Response_MsgType p0"
    using resp_mt.get_wrote [OF w1] resp_mt.get_wrote [OF w2] resp_mt.get_kept [OF k3]
      resp_mt.get_wrote [OF w4] by simp
  show keep: "Offset p4 = Offset p0" "Padding p4 = Padding p0" "length (fbuf p4) = length (fbuf p0)"
    "Length (base p4) = Offset p0 + 60 + int (length ct) + Padding p0"
    using wrote_keeps [OF w1] wrote_keeps [OF w2] wrote_keeps [OF w4] keeps_uptoD [OF k3]
      resp_ct.put_length [OF c] by simp_all
  obtain xs where "copy_at (fbuf p3) (Offset p3 + 8) (Offset p3 + 12) xs = Some (fbuf p4)"
    using w4 by (auto simp: wrote_def)
  then have "slice_of (fbuf p4) (Offset p3 + 60) j = slice_of (fbuf p3) (Offset p3 + 60) j" for j
    by (rule slice_copy_other) simp
  then show "Response_Ciphertext p4 = Some ct"
    using resp_ct.get_put [OF c TrueI] wrote_keeps [OF w4] by (simp add: resp_ct.get_region)
qed

text \<open>The writes of \<^verbatim>\<open>SessionManager.CreateData\<close>.\<close>

lemma data_written:
  assumes m: "Data_SetMsgType p0 mt = Some p1" and x: "Data_SetSessionIndex p1 ix = Some p2"
    and n: "Data_SetNonce p2 nonce = Some p3" and c: "Data_SetCiphertext p3 ct = Some p4"
    and wf: "length nonce = 8"
  shows "Data_MsgType p4 = Some mt" "Data_SessionIndex p4 = Some ix" "Data_Nonce p4 = Some nonce"
    "Data_Ciphertext p4 = Some ct" "keeps_upto 0 p0 p4"
    "Length (base p4) = Offset p0 + 16 + int (length ct) + Padding p0"
    "base p4 = (base p0)\<lparr>Buf := fbuf p4, Length := Length (base p4)\<rparr>"
proof -
  note w1 = data_mt.put_wrote [OF m] and w2 = data_idx.put_wrote [OF x] and w3 = data_nonce.put_wrote [OF n]
  note k4 = data_ct.put_keeps [OF c TrueI]
  show "Data_MsgType p4 = Some mt"
    using data_mt.get_put [OF m] data_mt.get_wrote [OF w2] data_mt.get_wrote [OF w3] data_mt.get_kept [OF k4] by simp
  show "Data_SessionIndex p4 = Some ix"
    using data_idx.get_put [OF x] data_idx.get_wrote [OF w3] data_idx.get_kept [OF k4] by simp
  show "Data_Nonce p4 = Some nonce"
    using data_nonce.get_put [OF n wf] data_nonce.get_kept [OF k4] by simp
  show "Data_Ciphertext p4 = Some ct" using data_ct.get_put [OF c] by simp
  have keep: "slice_of (fbuf q) i j = slice_of (fbuf p) i j"
    if "wrote a b p q" and "j \<le> Offset p" and "0 \<le> a" for a b p q i j
    using that by (auto simp: wrote_def intro: slice_copy_other)
  show "keeps_upto 0 p0 p4"
    using wrote_keeps [OF w1] wrote_keeps [OF w2] wrote_keeps [OF w3] k4
      keep [OF w1] keep [OF w2] keep [OF w3]
    by (auto simp: keeps_upto_def)
  show "Length (base p4) = Offset p0 + 16 + int (length ct) + Padding p0"
    using wrote_keeps(1,2) [OF w1] wrote_keeps(1,2) [OF w2] wrote_keeps(1,2) [OF w3] data_ct.put_length [OF c]
    by simp
  obtain c1 c2 c3 where "base p1 = (base p0)\<lparr>Buf := c1\<rparr>" "base p2 = (base p1)\<lparr>Buf := c2\<rparr>"
    "base p3 = (base p2)\<lparr>Buf := c3\<rparr>"
    using wrote_base [OF w1] wrote_base [OF w2] wrote_base [OF w3] by blast
  then have "base p3 = (base p0)\<lparr>Buf := c3\<rparr>" by simp
  moreover have "base p4 = (base p3)\<lparr>Buf := fbuf p4, Length := Length (base p4)\<rparr>"
    using data_ct.put_length [OF c TrueI] by blast
  ultimately show "base p4 = (base p0)\<lparr>Buf := fbuf p4, Length := Length (base p4)\<rparr>"
    by (metis Packet.surjective Packet.update_convs(1,2))
qed

end
