(* ===== verification/Handshake.thy ===== *)
theory Handshake
  imports PeerIds
begin

text \<open>
  \<^verbatim>\<open>node/session/ikpsk2\<close>: the Noise IKpsk2 handshake and the data messages that follow it.

  An AEAD object is represented by its key (\<^const>\<open>None\<close> for the nil interface). Where Go
  mutates the handshake before it returns an error, the definitions return the handshake as
  mutated so far. The timestamp of \<^verbatim>\<open>tai64n.Now\<close> and the draws of the random generator are
  arguments.
\<close>

section \<open>util.go\<close>

text \<open>\<^verbatim>\<open>subtle.ConstantTimeByteEq\<close>\<close>

definition ConstantTimeByteEq :: "byte \<Rightarrow> byte \<Rightarrow> int" where
  "ConstantTimeByteEq x y = (if x = y then 1 else 0)"

definition isZero :: "bytes \<Rightarrow> bool" where
  "isZero val = (foldl (\<lambda>acc b. acc AND ConstantTimeByteEq b 0) 1 val = 1)"

definition mixHash :: "crypto \<Rightarrow> bytes \<Rightarrow> bytes \<Rightarrow> bytes" where
  "mixHash C h data = blake2s C (h @ data)"

text \<open>\<^verbatim>\<open>crypto/hmac\<close> over blake2s, whose block size is 64 bytes.\<close>

definition hmac_key :: "crypto \<Rightarrow> bytes \<Rightarrow> bytes" where
  "hmac_key C key = to_array 64 (if length key > 64 then blake2s C key else key)"

definition hmac :: "crypto \<Rightarrow> bytes \<Rightarrow> bytes \<Rightarrow> bytes" where
  "hmac C key msg =
     (let k = hmac_key C key in
      blake2s C (map (\<lambda>b. b XOR 0x5c) k @ blake2s C (map (\<lambda>b. b XOR 0x36) k @ msg)))"

definition HMAC1 :: "crypto \<Rightarrow> bytes \<Rightarrow> bytes \<Rightarrow> bytes" where
  "HMAC1 C key in0 = hmac C key in0"

definition HMAC2 :: "crypto \<Rightarrow> bytes \<Rightarrow> bytes \<Rightarrow> bytes \<Rightarrow> bytes" where
  "HMAC2 C key in0 in1 = hmac C key (in0 @ in1)"

definition KDF1 :: "crypto \<Rightarrow> bytes \<Rightarrow> bytes \<Rightarrow> bytes" where
  "KDF1 C key inp = (let t0 = HMAC1 C key inp in HMAC1 C t0 [0x1])"

definition KDF2 :: "crypto \<Rightarrow> bytes \<Rightarrow> bytes \<Rightarrow> bytes \<times> bytes" where
  "KDF2 C key inp =
     (let prk = HMAC1 C key inp;
          t0 = HMAC1 C prk [0x1];
          t1 = HMAC2 C prk t0 [0x2]
      in (t0, t1))"

definition KDF3 :: "crypto \<Rightarrow> bytes \<Rightarrow> bytes \<Rightarrow> bytes \<times> bytes \<times> bytes" where
  "KDF3 C key inp =
     (let prk = HMAC1 C key inp;
          t0 = HMAC1 C prk [0x1];
          t1 = HMAC2 C prk t0 [0x2];
          t2 = HMAC2 C prk t1 [0x3]
      in (t0, t1, t2))"

definition mixKey :: "crypto \<Rightarrow> bytes \<Rightarrow> bytes \<Rightarrow> bytes" where
  "mixKey C c data = KDF1 C c data"

definition paddingMultiple :: int where "paddingMultiple = 16"

text \<open>Go's remainder truncates towards zero.\<close>

definition go_rem :: "int \<Rightarrow> int \<Rightarrow> int" where
  "go_rem a b = sgn a * (\<bar>a\<bar> mod \<bar>b\<bar>)"

definition calculatePaddingSize :: "int \<Rightarrow> int \<Rightarrow> int" where
  "calculatePaddingSize packetSize mtu =
     (let lastUnit = packetSize in
      if mtu = 0 then
        ((lastUnit + paddingMultiple - 1) AND NOT (paddingMultiple - 1)) - lastUnit
      else
        let lastUnit = (if lastUnit > mtu then go_rem lastUnit mtu else lastUnit);
            paddedSize = (lastUnit + paddingMultiple - 1) AND NOT (paddingMultiple - 1);
            paddedSize = (if paddedSize > mtu then mtu else paddedSize)
        in paddedSize - lastUnit)"

section \<open>Handshake state\<close>

definition NoiseConstruction :: string where
  "NoiseConstruction = ''Noise_IKpsk2_25519_ChaChaPoly_BLAKE2s''"

definition RovyIdentifier :: string where
  "RovyIdentifier = ''rovy.net/session v0''"

definition initialChainKey :: "crypto \<Rightarrow> bytes" where
  "initialChainKey C = blake2s C (str_bytes NoiseConstruction)"

definition initialHash :: "crypto \<Rightarrow> bytes" where
  "initialHash C = mixHash C (initialChainKey C) (str_bytes RovyIdentifier)"

definition zeroNonce :: bytes where "zeroNonce = replicate 12 0"

definition plNonce :: bytes where "plNonce = [0, 0, 0, 0, 0x42, 0, 0, 0, 0, 0, 0, 0]"

record HelloHeader =
  hh_Ephemeral :: PublicKey
  hh_Static :: bytes
  hh_Timestamp :: bytes

record ResponseHeader =
  rh_Ephemeral :: PublicKey
  rh_Empty :: bytes

record MessageHeader =
  mh_Nonce :: bytes

record Handshake =
  hs_hash :: bytes
  chainKey :: bytes
  presharedKey :: bytes
  localStatic :: PrivateKey
  localEphemeral :: PrivateKey
  remoteStatic :: PublicKey
  remoteEphemeral :: PublicKey
  precStaticStatic :: bytes
  send :: "bytes option"
  receive :: "bytes option"
  sendNonce :: u64
  hs_initiator :: bool

text \<open>The zero value of the fields that the constructors do not set.\<close>

definition newHandshake :: "crypto \<Rightarrow> bool \<Rightarrow> PrivateKey \<Rightarrow> PrivateKey \<Rightarrow> Handshake" where
  "newHandshake C init localSt epriv =
     \<lparr>hs_hash = initialHash C, chainKey = initialChainKey C, presharedKey = replicate 32 0,
      localStatic = localSt, localEphemeral = epriv,
      remoteStatic = \<lparr>pub_bytes = replicate 32 0\<rparr>, remoteEphemeral = \<lparr>pub_bytes = replicate 32 0\<rparr>,
      precStaticStatic = replicate 32 0, send = None, receive = None, sendNonce = 0,
      hs_initiator = init\<rparr>"

definition NewHandshakeInitiator ::
  "crypto \<Rightarrow> (err + bytes) list \<Rightarrow> PrivateKey \<Rightarrow> PublicKey \<Rightarrow> (err + Handshake) option" where
  "NewHandshakeInitiator C draws localSt remoteSt = do {
     r \<leftarrow> GeneratePrivateKey C draws;
     (case r of
        Inl e \<Rightarrow> Some (Inl e)
      | Inr epriv \<Rightarrow>
          let hs = (newHandshake C True localSt epriv)
                \<lparr>remoteStatic := remoteSt, precStaticStatic := SharedSecret C localSt remoteSt\<rparr>
          in if isZero (precStaticStatic hs) then Some (Inl ErrZeroECDH) else Some (Inr hs)) }"

definition NewHandshakeResponder ::
  "crypto \<Rightarrow> (err + bytes) list \<Rightarrow> PrivateKey \<Rightarrow> (err + Handshake) option" where
  "NewHandshakeResponder C draws localSt = do {
     r \<leftarrow> GeneratePrivateKey C draws;
     (case r of
        Inl e \<Rightarrow> Some (Inl e)
      | Inr epriv \<Rightarrow> Some (Inr (newHandshake C False localSt epriv))) }"

definition RemotePublicKey :: "Handshake \<Rightarrow> PublicKey" where
  "RemotePublicKey hs = remoteStatic hs"

text \<open>The error \<^verbatim>\<open>chacha20poly1305.New\<close> returns for a key of the wrong size.\<close>

definition ErrAEADKey :: err where "ErrAEADKey = ErrExternal ''chacha20poly1305: bad key length''"

section \<open>Hello\<close>

definition MakeHello ::
  "crypto \<Rightarrow> bytes \<Rightarrow> Handshake \<Rightarrow> bytes \<Rightarrow> Handshake \<times> (err + HelloHeader \<times> bytes)" where
  "MakeHello C timestamp hs payload =
     (if \<not> hs_initiator hs then (hs, Inl (Errorf ''responder can't send hello''))
      else
        let h0 = mixHash C (hs_hash hs) (PublicKey_Bytes (remoteStatic hs));
            eph = PrivateKey_PublicKey C (localEphemeral hs);
            ck0 = mixKey C (chainKey hs) (PublicKey_Bytes eph);
            h1 = mixHash C h0 (PublicKey_Bytes eph);
            ss = SharedSecret C (localEphemeral hs) (remoteStatic hs)
        in if isZero ss then (hs\<lparr>hs_hash := h1, chainKey := ck0\<rparr>, Inl ErrZeroECDH)
        else
          let (ck1, key1) = KDF2 C ck0 ss
          in if \<not> aead_new_ok C key1 then (hs\<lparr>hs_hash := h1, chainKey := ck1\<rparr>, Inl ErrAEADKey)
          else
            let static = into_array 48 (aead_seal C key1 zeroNonce
                  (PublicKey_Bytes (PrivateKey_PublicKey C (localStatic hs))) h1);
                h2 = mixHash C h1 static;
                (ck2, key2) = KDF2 C ck1 (precStaticStatic hs)
            in if \<not> aead_new_ok C key2 then (hs\<lparr>hs_hash := h2, chainKey := ck2\<rparr>, Inl ErrAEADKey)
            else
              let tstamp = into_array 28 (aead_seal C key2 zeroNonce timestamp h2);
                  h3 = mixHash C h2 tstamp;
                  payload2 = aead_seal C key2 plNonce payload h3;
                  h4 = mixHash C h3 payload2
              in (hs\<lparr>hs_hash := h4, chainKey := ck2\<rparr>,
                  Inr (\<lparr>hh_Ephemeral = eph, hh_Static = static, hh_Timestamp = tstamp\<rparr>, payload2)))"

definition ConsumeHello :: "crypto \<Rightarrow> Handshake \<Rightarrow> HelloHeader \<Rightarrow> bytes \<Rightarrow> Handshake \<times> (err + bytes)" where
  "ConsumeHello C hs hdr payload2 =
     (if hs_initiator hs then (hs, Inl (Errorf ''initiator can't consume hello''))
      else
        let h0 = mixHash C (initialHash C) (PublicKey_Bytes (PrivateKey_PublicKey C (localStatic hs)));
            h1 = mixHash C h0 (PublicKey_Bytes (hh_Ephemeral hdr));
            ck0 = mixKey C (initialChainKey C) (PublicKey_Bytes (hh_Ephemeral hdr));
            ss = SharedSecret C (localStatic hs) (hh_Ephemeral hdr)
        in if isZero ss then (hs, Inl ErrZeroECDH)
        else
          let (ck1, key1) = KDF2 C ck0 ss
          in if \<not> aead_new_ok C key1 then (hs, Inl ErrAEADKey)
          else case aead_open C key1 zeroNonce (hh_Static hdr) h1 of
            None \<Rightarrow> (hs, Inl (ErrExternal ''chacha20poly1305: message authentication failed''))
          | Some rs \<Rightarrow>
              let rsBuf = into_array 32 rs;
                  h2 = mixHash C h1 (hh_Static hdr);
                  remoteSt = NewPublicKey rsBuf;
                  prec = SharedSecret C (localStatic hs) remoteSt
              in if isZero prec then (hs, Inl ErrZeroECDH)
              else
                let (ck2, key2) = KDF2 C ck1 prec
                in if \<not> aead_new_ok C key2 then (hs, Inl ErrAEADKey)
                else case aead_open C key2 zeroNonce (hh_Timestamp hdr) h2 of
                  None \<Rightarrow> (hs, Inl ErrAEADOpen)
                | Some _ \<Rightarrow>
                    let h3 = mixHash C h2 (hh_Timestamp hdr)
                    in case aead_open C key2 plNonce payload2 h3 of
                      None \<Rightarrow> (hs, Inl ErrAEADOpen)
                    | Some payload \<Rightarrow>
                        (hs\<lparr>hs_hash := mixHash C h3 payload2, chainKey := ck2, remoteStatic := remoteSt,
                           remoteEphemeral := hh_Ephemeral hdr, precStaticStatic := prec\<rparr>, Inr payload))"

section \<open>Response\<close>

definition MakeResponse ::
  "crypto \<Rightarrow> Handshake \<Rightarrow> bytes \<Rightarrow> Handshake \<times> (err + ResponseHeader \<times> bytes)" where
  "MakeResponse C hs payload =
     (if hs_initiator hs then (hs, Inl (Errorf ''initiator can't send response''))
      else
        let eph = PrivateKey_PublicKey C (localEphemeral hs);
            h0 = mixHash C (hs_hash hs) (PublicKey_Bytes eph);
            ck0 = mixKey C (chainKey hs) (PublicKey_Bytes eph);
            sse = SharedSecret C (localEphemeral hs) (remoteEphemeral hs);
            ck1 = mixKey C ck0 sse;
            sss = SharedSecret C (localEphemeral hs) (remoteStatic hs);
            ck2 = mixKey C ck1 sss;
            (ck3, tau, key) = KDF3 C ck2 (presharedKey hs);
            h1 = mixHash C h0 tau
        in if \<not> aead_new_ok C key then (hs\<lparr>hs_hash := h1, chainKey := ck3\<rparr>, Inl ErrAEADKey)
        else
          let empty_tag = into_array 16 (aead_seal C key zeroNonce [] h1);
              h2 = mixHash C h1 empty_tag;
              payload2 = aead_seal C key plNonce payload h2;
              h3 = mixHash C h2 payload2;
              hs' = hs\<lparr>hs_hash := h3, chainKey := ck3\<rparr>;
              (recvKey, sendKey) = KDF2 C ck3 []
          in if \<not> aead_new_ok C sendKey then (hs', Inl ErrAEADKey)
          else if \<not> aead_new_ok C recvKey then (hs'\<lparr>send := Some sendKey\<rparr>, Inl ErrAEADKey)
          else (hs'\<lparr>send := Some sendKey, receive := Some recvKey\<rparr>,
                Inr (\<lparr>rh_Ephemeral = eph, rh_Empty = empty_tag\<rparr>, payload2)))"

definition ConsumeResponse ::
  "crypto \<Rightarrow> Handshake \<Rightarrow> ResponseHeader \<Rightarrow> bytes \<Rightarrow> Handshake \<times> (err + bytes)" where
  "ConsumeResponse C hs hdr payload2 =
     (if \<not> hs_initiator hs then (hs, Inl (Errorf ''responder can't consume response''))
      else
        let h0 = mixHash C (hs_hash hs) (PublicKey_Bytes (rh_Ephemeral hdr));
            ck0 = mixKey C (chainKey hs) (PublicKey_Bytes (rh_Ephemeral hdr));
            sse = SharedSecret C (localEphemeral hs) (rh_Ephemeral hdr);
            ck1 = mixKey C ck0 sse;
            sss = SharedSecret C (localStatic hs) (rh_Ephemeral hdr);
            ck2 = mixKey C ck1 sss;
            (ck3, tau, key) = KDF3 C ck2 (presharedKey hs);
            h1 = mixHash C h0 tau
        in if \<not> aead_new_ok C key then (hs, Inl ErrAEADKey)
        else case aead_open C key zeroNonce (rh_Empty hdr) h1 of
          None \<Rightarrow> (hs, Inl ErrAEADOpen)
        | Some _ \<Rightarrow>
            let h2 = mixHash C h1 (rh_Empty hdr)
            in case aead_open C key plNonce payload2 h2 of
              None \<Rightarrow> (hs, Inl ErrAEADOpen)
            | Some payload \<Rightarrow>
                let hs' = hs\<lparr>hs_hash := mixHash C h2 payload2, chainKey := ck3\<rparr>;
                    (sendKey, recvKey) = KDF2 C ck3 []
                in if \<not> aead_new_ok C sendKey then (hs', Inl ErrAEADKey)
                else if \<not> aead_new_ok C recvKey then (hs'\<lparr>send := Some sendKey\<rparr>, Inl ErrAEADKey)
                else (hs'\<lparr>send := Some sendKey, receive := Some recvKey\<rparr>, Inr payload))"

section \<open>Messages\<close>

text \<open>The 12-byte AEAD nonce: four zero bytes and the eight bytes of the header.\<close>

definition aead_nonce :: "MessageHeader \<Rightarrow> bytes" where
  "aead_nonce hdr = replicate 4 0 @ mh_Nonce hdr"

definition MakeMessage :: "crypto \<Rightarrow> Handshake \<Rightarrow> bytes \<Rightarrow> Handshake \<times> (err + MessageHeader \<times> bytes)" where
  "MakeMessage C hs payload =
     (case send hs of
        None \<Rightarrow> (hs, Inl (Errorf ''handshake not finished yet''))
      | Some sendKey \<Rightarrow>
          let hs' = hs\<lparr>sendNonce := sendNonce hs + 1\<rparr>;
              hdr = \<lparr>mh_Nonce = be_bytes64 (sendNonce hs')\<rparr>
          in (hs', Inr (hdr, aead_seal C sendKey (aead_nonce hdr) payload [])))"

definition ConsumeMessage :: "crypto \<Rightarrow> Handshake \<Rightarrow> MessageHeader \<Rightarrow> bytes \<Rightarrow> err + bytes" where
  "ConsumeMessage C hs hdr payload =
     (case receive hs of
        None \<Rightarrow> Inl (Errorf ''handshake not finished yet'')
      | Some recvKey \<Rightarrow>
          (case aead_open C recvKey (aead_nonce hdr) payload [] of
             None \<Rightarrow> Inl (ErrExternal ''chacha20poly1305: message authentication failed'')
           | Some payload2 \<Rightarrow> Inr payload2))"

section \<open>Lemmas on the primitives\<close>

lemma isZero_iff: "isZero val \<longleftrightarrow> (\<forall>b\<in>set val. b = 0)"
proof -
  have "foldl (\<lambda>acc b. acc AND ConstantTimeByteEq b 0) a val = 
      (if (\<forall>b\<in>set val. b = 0) then a else 0)" if "a = 0 \<or> a = 1" for a
    using that by (induction val arbitrary: a) (auto simp: ConstantTimeByteEq_def)
  from this [of 1] show ?thesis by (auto simp: isZero_def)
qed

lemma length_mixHash [len_laws]: "crypto_ok C \<Longrightarrow> length (mixHash C h d) = 32"
  by (simp add: mixHash_def crypto_okD)

lemma length_hmac: "crypto_ok C \<Longrightarrow> length (hmac C k m) = 32"
  by (simp add: hmac_def Let_def crypto_okD)

lemma length_KDF [len_laws]:
  assumes "crypto_ok C"
  shows "length (KDF1 C k i) = 32" "length (mixKey C k i) = 32"
    "length (fst (KDF2 C k i)) = 32" "length (snd (KDF2 C k i)) = 32"
    "length (fst (KDF3 C k i)) = 32" "length (fst (snd (KDF3 C k i))) = 32"
    "length (snd (snd (KDF3 C k i))) = 32"
  using assms
  by (simp_all add: KDF1_def KDF2_def KDF3_def mixKey_def HMAC1_def HMAC2_def Let_def length_hmac)

lemma length_nonces [simp]: "length zeroNonce = 12" "length plNonce = 12"
  by (simp_all add: zeroNonce_def plNonce_def)

section \<open>The handshake round trip\<close>

lemma aead_rules:
  assumes "crypto_ok C"
  shows "aead_new_ok C (fst (KDF2 C k i))" "aead_new_ok C (snd (KDF2 C k i))"
    "aead_new_ok C (snd (snd (KDF3 C k i)))"
    "aead_open C (snd (KDF2 C k i)) zeroNonce (aead_seal C (snd (KDF2 C k i)) zeroNonce p a) a = Some p"
    "aead_open C (snd (KDF2 C k i)) plNonce (aead_seal C (snd (KDF2 C k i)) plNonce p a) a = Some p"
    "aead_open C (snd (snd (KDF3 C k i))) zeroNonce (aead_seal C (snd (snd (KDF3 C k i))) zeroNonce p a) a = Some p"
    "aead_open C (snd (snd (KDF3 C k i))) plNonce (aead_seal C (snd (snd (KDF3 C k i))) plNonce p a) a = Some p"
    "length (aead_seal C (snd (KDF2 C k i)) zeroNonce p a) = length p + 16"
    "length (aead_seal C (snd (snd (KDF3 C k i))) zeroNonce p a) = length p + 16"
  using assms by (simp_all add: crypto_okD len_laws)

lemma length_PublicKey_Bytes: "crypto_ok C \<Longrightarrow> length (PublicKey_Bytes (PrivateKey_PublicKey C k)) = 32"
  using wf_PublicKey [of C k] by (simp add: PublicKey_Bytes_def wf_pub_def)

lemma NewPublicKey_PublicKey:
  "crypto_ok C \<Longrightarrow> NewPublicKey (PublicKey_Bytes (PrivateKey_PublicKey C k)) = PrivateKey_PublicKey C k"
  using wf_PublicKey [of C k] by (simp add: PublicKey_Bytes_def NewPublicKey_id)

text \<open>A handshake of the initiator before its hello, and one of the responder.\<close>

definition fresh_initiator :: "crypto \<Rightarrow> PublicKey \<Rightarrow> Handshake \<Rightarrow> bool" where
  "fresh_initiator C remote hs \<longleftrightarrow>
     hs_initiator hs \<and> hs_hash hs = initialHash C \<and> chainKey hs = initialChainKey C \<and>
     presharedKey hs = replicate 32 0 \<and> remoteStatic hs = remote \<and>
     precStaticStatic hs = SharedSecret C (localStatic hs) remote \<and>
     \<not> isZero (precStaticStatic hs) \<and> wf_priv (localStatic hs) \<and> wf_priv (localEphemeral hs) \<and>
     send hs = None \<and> receive hs = None"

definition fresh_responder :: "crypto \<Rightarrow> Handshake \<Rightarrow> bool" where
  "fresh_responder C hs \<longleftrightarrow>
     \<not> hs_initiator hs \<and> presharedKey hs = replicate 32 0 \<and>
     wf_priv (localStatic hs) \<and> wf_priv (localEphemeral hs) \<and> send hs = None \<and> receive hs = None"

lemma fresh_NewHandshakeInitiator:
  assumes "wf_priv ls" and "NewHandshakeInitiator C draws ls rs = Some (Inr hs)"
  shows "fresh_initiator C rs hs" "localStatic hs = ls" "sendNonce hs = 0"
  using assms by (auto simp: NewHandshakeInitiator_def fresh_initiator_def newHandshake_def Let_def
      split: Option.bind_splits sum.splits if_splits dest: wf_GeneratePrivateKey)

lemma fresh_NewHandshakeResponder:
  assumes "wf_priv ls" and "NewHandshakeResponder C draws ls = Some (Inr hs)"
  shows "fresh_responder C hs" "localStatic hs = ls" "sendNonce hs = 0"
  using assms by (auto simp: NewHandshakeResponder_def fresh_responder_def newHandshake_def
      split: Option.bind_splits sum.splits dest: wf_GeneratePrivateKey)

lemma hello_roundtrip:
  assumes C: "crypto_ok C" and len: "length ts = 12"
    and r: "fresh_responder C r"
    and i: "fresh_initiator C (PrivateKey_PublicKey C (localStatic r)) i"
    and mk: "MakeHello C ts i pl = (i', Inr (hdr, ct))"
  shows "\<exists>r'. ConsumeHello C r hdr ct = (r', Inr pl) \<and> hs_hash r' = hs_hash i' \<and> chainKey r' = chainKey i' \<and>
    r' = r\<lparr>hs_hash := hs_hash i', chainKey := chainKey i',
      remoteStatic := PrivateKey_PublicKey C (localStatic i),
      remoteEphemeral := PrivateKey_PublicKey C (localEphemeral i),
      precStaticStatic := precStaticStatic i\<rparr>"
    and "i' = i\<lparr>hs_hash := hs_hash i', chainKey := chainKey i'\<rparr>"
    and "wf_pub (hh_Ephemeral hdr)" "length (hh_Static hdr) = 48" "length (hh_Timestamp hdr) = 28"
      "length ct = length pl + 16"
  using mk i r len C
    SharedSecret_comm [OF C, of "localStatic r" "localEphemeral i"]
    SharedSecret_comm [OF C, of "localStatic r" "localStatic i"]
  by (auto simp: MakeHello_def ConsumeHello_def Let_def fresh_initiator_def fresh_responder_def
      case_prod_beta aead_rules length_PublicKey_Bytes NewPublicKey_PublicKey wf_PublicKey crypto_okD len_laws
      split: if_splits)

text \<open>The two ends of an established session: each sends with the key the other receives with.\<close>

definition matched :: "Handshake \<Rightarrow> Handshake \<Rightarrow> bool" where
  "matched a b \<longleftrightarrow>
     (\<exists>k k'. length k = 32 \<and> length k' = 32 \<and> send a = Some k \<and> receive b = Some k \<and>
        receive a = Some k' \<and> send b = Some k')"

text \<open>Both ends after the hello: the same transcript, and the keys of each other.\<close>

definition after_hello :: "crypto \<Rightarrow> Handshake \<Rightarrow> Handshake \<Rightarrow> bool" where
  "after_hello C i r \<longleftrightarrow>
     hs_initiator i \<and> \<not> hs_initiator r \<and> hs_hash r = hs_hash i \<and> chainKey r = chainKey i \<and>
     presharedKey r = presharedKey i \<and> remoteStatic r = PrivateKey_PublicKey C (localStatic i) \<and>
     remoteEphemeral r = PrivateKey_PublicKey C (localEphemeral i) \<and>
     wf_priv (localStatic i) \<and> wf_priv (localEphemeral i) \<and> wf_priv (localEphemeral r)"

lemma response_roundtrip:
  assumes C: "crypto_ok C" and ah: "after_hello C i r"
    and mk: "MakeResponse C r pl = (r', Inr (hdr, ct))"
  shows "\<exists>i'. ConsumeResponse C i hdr ct = (i', Inr pl) \<and> matched i' r' \<and>
      hs_hash i' = hs_hash r' \<and> chainKey i' = chainKey r' \<and> sendNonce i' = sendNonce i \<and>
      remoteStatic i' = remoteStatic i \<and> hs_initiator i'"
    and "sendNonce r' = sendNonce r" "remoteStatic r' = remoteStatic r" "\<not> hs_initiator r'"
    and "wf_pub (rh_Ephemeral hdr)" "length (rh_Empty hdr) = 16" "length ct = length pl + 16"
  using mk ah C
    SharedSecret_comm [OF C, of "localEphemeral r" "localEphemeral i"]
    SharedSecret_comm [OF C, of "localEphemeral r" "localStatic i"]
  by (auto simp: MakeResponse_def ConsumeResponse_def Let_def after_hello_def matched_def
      case_prod_beta aead_rules wf_PublicKey crypto_okD len_laws
      split: if_splits)

lemma MakeHello_ok:
  assumes "crypto_ok C" and "hs_initiator i" and "\<not> isZero (SharedSecret C (localEphemeral i) (remoteStatic i))"
  shows "\<exists>i' hdr ct. MakeHello C ts i pl = (i', Inr (hdr, ct))"
  using assms by (simp add: MakeHello_def Let_def case_prod_beta aead_rules)

lemma MakeResponse_ok:
  assumes "crypto_ok C" and "\<not> hs_initiator r"
  shows "\<exists>r' hdr ct. MakeResponse C r pl = (r', Inr (hdr, ct))"
  using assms by (simp add: MakeResponse_def Let_def case_prod_beta aead_rules)

section \<open>Messages\<close>

lemma length_aead_nonce: "length (mh_Nonce hdr) = 8 \<Longrightarrow> length (aead_nonce hdr) = 12"
  by (simp add: aead_nonce_def)

lemma message_roundtrip:
  assumes "crypto_ok C" and "matched a b" and "MakeMessage C a pl = (a', Inr (hdr, ct))"
  shows "ConsumeMessage C b hdr ct = Inr pl" "matched a' b" "length ct = length pl + 16"
    "length (mh_Nonce hdr) = 8"
  using assms
  by (auto simp: MakeMessage_def ConsumeMessage_def matched_def Let_def crypto_okD length_aead_nonce
      split: option.splits)

lemma MakeMessage_ok:
  assumes "send a = Some k"
  shows "\<exists>hdr ct. MakeMessage C a pl = (a\<lparr>sendNonce := sendNonce a + 1\<rparr>, Inr (hdr, ct))"
  using assms by (simp add: MakeMessage_def Let_def)

text \<open>Sending a list of messages, one after the other.\<close>

fun make_messages :: "crypto \<Rightarrow> Handshake \<Rightarrow> bytes list \<Rightarrow> Handshake \<times> MessageHeader list" where
  "make_messages C hs [] = (hs, [])"
| "make_messages C hs (p # ps) =
     (case MakeMessage C hs p of
        (hs', Inl _) \<Rightarrow> (hs', [])
      | (hs', Inr (hdr, _)) \<Rightarrow> (let (hs'', hdrs) = make_messages C hs' ps in (hs'', hdr # hdrs)))"

lemma make_messages_nonces:
  assumes "send hs = Some k"
  shows "snd (make_messages C hs ps) =
    map (\<lambda>i. \<lparr>mh_Nonce = be_bytes64 (sendNonce hs + of_nat (Suc i))\<rparr>) [0..<length ps]"
  using assms
proof (induction ps arbitrary: hs)
  case (Cons p ps)
  have "snd (make_messages C (hs\<lparr>sendNonce := sendNonce hs + 1\<rparr>) ps) =
      map (\<lambda>i. \<lparr>mh_Nonce = be_bytes64 (sendNonce hs + 1 + of_nat (Suc i))\<rparr>) [0..<length ps]"
    using Cons.IH [of "hs\<lparr>sendNonce := sendNonce hs + 1\<rparr>"] Cons.prems by simp
  then show ?case
    using Cons.prems
    by (auto simp: MakeMessage_def Let_def case_prod_beta map_upt_Suc algebra_simps simp del: upt_Suc intro: list.map_cong)
qed simp

lemma be_bytes64_inject: "be_bytes64 a = be_bytes64 b \<longleftrightarrow> a = b"
proof
  assume "be_bytes64 a = be_bytes64 b"
  then have "beUint64 (be_bytes64 a) = beUint64 (be_bytes64 b)" by simp
  then show "a = b" using beUint64_put [of a] beUint64_put [of b]
    by (simp add: be_bytes64_def bePutUint64_def)
qed simp

lemma of_nat_u64_inject:
  assumes "m < 2 ^ 64" and "n < 2 ^ 64"
  shows "(x :: u64) + of_nat m = x + of_nat n \<longleftrightarrow> m = n"
  using assms by (simp add: word_of_nat_eq_iff take_bit_nat_eq_self)

section \<open>Padding\<close>

lemma and_not_15: "(x :: int) AND NOT 15 = x - x mod 16"
proof -
  have "x AND NOT (mask 4) = push_bit 4 (drop_bit 4 x)"
    by (rule bit_eqI) (auto simp: bit_simps)
  also have "\<dots> = x - take_bit 4 x"
    using bits_ident [of 4 x] by simp
  finally show ?thesis by (simp add: mask_eq_exp_minus_1 take_bit_eq_mod)
qed

lemma round_up_16: "(x + 16 - 1) AND NOT (16 - 1) = 16 * ((x + 15) div 16)" for x :: int
proof -
  have "x + 16 - 1 = x + 15" and "16 - 1 = (15 :: int)" by simp_all
  then have "(x + 16 - 1) AND NOT (16 - 1) = (x + 15) - (x + 15) mod 16"
    by (simp only: and_not_15)
  then show ?thesis by (simp only: minus_mod_eq_mult_div)
qed

lemma round_up_16_bounds: "x \<le> 16 * ((x + 15) div 16)" "16 * ((x + 15) div 16) \<le> x + 15" for x :: int
  by linarith+

lemma calculatePaddingSize_unit:
  assumes "0 \<le> packetSize" and "0 \<le> mtu"
    and "unit = (if mtu \<noteq> 0 \<and> packetSize > mtu then packetSize mod mtu else packetSize)"
  shows "calculatePaddingSize packetSize mtu =
    (if mtu = 0 then 16 * ((unit + 15) div 16) else min mtu (16 * ((unit + 15) div 16))) - unit"
proof -
  have "go_rem packetSize mtu = packetSize mod mtu"
    using assms(1,2) by (auto simp: go_rem_def sgn_if abs_if)
  with assms(3) show ?thesis
    by (simp only: calculatePaddingSize_def paddingMultiple_def round_up_16 Let_def) (auto simp: min_def)
qed

end
