(* ===== verification/Sessions.thy ===== *)
theory Sessions
  imports SessionPackets Handshake
begin

text \<open>
  \<^verbatim>\<open>node/session/session.go\<close> and \<^verbatim>\<open>node/session/manager.go\<close>: one end of a session, and the table of
  all sessions of a node.

  The table maps an index to a pointer: the inner \<^const>\<open>None\<close> is the nil pointer. A session is
  reachable through one index at a time, so its fields are stored in the table, and a method that
  changes the session through its pointer updates the entry.
\<close>

section \<open>Sessions\<close>

text \<open>
  \<open>notified\<close> is not a field of the source: it records what was sent to the channels in
  \<^verbatim>\<open>waiters\<close>, which are numbered.
\<close>

record Session =
  initiator :: bool
  stage :: nat
  waiters :: "nat list"
  handshake :: Handshake
  remoteAddr :: Multiaddr
  remotePeerID :: PeerID
  notified :: "(nat \<times> err option) list"

definition newSession :: "PeerID \<Rightarrow> Handshake \<Rightarrow> Session" where
  "newSession peerid hs =
     \<lparr>initiator = True, stage = 0x01, waiters = [], handshake = hs, remoteAddr = emptyMultiaddr,
      remotePeerID = peerid, notified = []\<rparr>"

definition newSessionIncoming :: "Handshake \<Rightarrow> Session" where
  "newSessionIncoming hs =
     \<lparr>initiator = False, stage = 0x02, waiters = [], handshake = hs, remoteAddr = emptyMultiaddr,
      remotePeerID = emptyPeerID, notified = []\<rparr>"

definition SetRemoteAddr :: "Session \<Rightarrow> Multiaddr \<Rightarrow> Session" where
  "SetRemoteAddr s raddr = s\<lparr>remoteAddr := raddr\<rparr>"

definition Session_CreateHello ::
  "crypto \<Rightarrow> bytes \<Rightarrow> Session \<Rightarrow> HelloPacket \<Rightarrow> (Session \<times> (err + HelloPacket)) option" where
  "Session_CreateHello C ts s pkt =
     (if \<not> initiator s then Some (s, Inl SessionStateError)
      else do {
        pt \<leftarrow> Hello_Plaintext pkt;
        (case MakeHello C ts (handshake s) pt of
           (hs, Inl e) \<Rightarrow> Some (s\<lparr>handshake := hs\<rparr>, Inl e)
         | (hs, Inr (hdr, ct)) \<Rightarrow> do {
             pkt \<leftarrow> Hello_SetEphemeralKey pkt (hh_Ephemeral hdr);
             pkt \<leftarrow> Hello_SetStaticKey pkt (hh_Static hdr);
             pkt \<leftarrow> Hello_SetTimestamp pkt (hh_Timestamp hdr);
             pkt \<leftarrow> Hello_SetCiphertext pkt ct;
             Some (s\<lparr>handshake := hs\<rparr>, Inr pkt) }) })"

definition Session_HandleHello ::
  "crypto \<Rightarrow> Session \<Rightarrow> HelloPacket \<Rightarrow> (Session \<times> (err + HelloPacket)) option" where
  "Session_HandleHello C s pkt =
     (if initiator s then Some (s, Inl SessionStateError)
      else do {
        eph \<leftarrow> Hello_EphemeralKey pkt;
        static \<leftarrow> Hello_StaticKey pkt;
        tstamp \<leftarrow> Hello_Timestamp pkt;
        ct \<leftarrow> Hello_Ciphertext pkt;
        (case ConsumeHello C (handshake s)
               \<lparr>hh_Ephemeral = eph, hh_Static = static, hh_Timestamp = tstamp\<rparr> ct of
           (hs, Inl e) \<Rightarrow> Some (s\<lparr>handshake := hs\<rparr>, Inl (Errorf ''HandleHello''))
         | (hs, Inr pt) \<Rightarrow> do {
             pkt \<leftarrow> Hello_SetPlaintext pkt pt;
             Some (s\<lparr>handshake := hs, remotePeerID := NewPeerID (RemotePublicKey hs)\<rparr>, Inr pkt) }) })"

definition Session_CreateResponse ::
  "crypto \<Rightarrow> Session \<Rightarrow> ResponsePacket \<Rightarrow> (Session \<times> (err + ResponsePacket)) option" where
  "Session_CreateResponse C s pkt =
     (if initiator s then Some (s, Inl SessionStateError)
      else do {
        pt \<leftarrow> Response_Plaintext pkt;
        (case MakeResponse C (handshake s) pt of
           (hs, Inl e) \<Rightarrow> Some (s\<lparr>handshake := hs\<rparr>, Inl e)
         | (hs, Inr (hdr, ct)) \<Rightarrow> do {
             pkt \<leftarrow> Response_SetEphemeralKey pkt (rh_Ephemeral hdr);
             pkt \<leftarrow> Response_SetEmpty pkt (rh_Empty hdr);
             pkt \<leftarrow> Response_SetCiphertext pkt ct;
             Some (s\<lparr>handshake := hs\<rparr>, Inr pkt) }) })"

definition Session_HandleHelloResponse ::
  "crypto \<Rightarrow> Session \<Rightarrow> ResponsePacket \<Rightarrow> (Session \<times> (err + ResponsePacket)) option" where
  "Session_HandleHelloResponse C s pkt =
     (if \<not> initiator s \<or> stage s \<noteq> 0x01 then Some (s, Inl SessionStateError)
      else do {
        eph \<leftarrow> Response_EphemeralKey pkt;
        empty_tag \<leftarrow> Response_Empty pkt;
        ct \<leftarrow> Response_Ciphertext pkt;
        (case ConsumeResponse C (handshake s) \<lparr>rh_Ephemeral = eph, rh_Empty = empty_tag\<rparr> ct of
           (hs, Inl e) \<Rightarrow> Some (s\<lparr>handshake := hs\<rparr>, Inl e)
         | (hs, Inr pt) \<Rightarrow> do {
             pkt \<leftarrow> Response_SetPlaintext pkt pt;
             let s = s\<lparr>handshake := hs\<rparr>;
             let peerid = NewPeerID (RemotePublicKey hs);
             if peerid \<noteq> remotePeerID s then
               (let e = Errorf ''expected PeerID'' in
                Some (s\<lparr>notified := notified s @ map (\<lambda>w. (w, Some e)) (waiters s)\<rparr>, Inl e))
             else
               Some (s\<lparr>stage := 0x03, notified := notified s @ map (\<lambda>w. (w, None)) (waiters s)\<rparr>,
                     Inr pkt) }) })"

section \<open>The session table\<close>

record SessionManager =
  sm_privkey :: PrivateKey
  sm_pubkey :: PublicKey
  sm_peerid :: PeerID
  store :: "u32 \<Rightarrow> Session option option"

definition NewSessionManager :: "crypto \<Rightarrow> PrivateKey \<Rightarrow> SessionManager" where
  "NewSessionManager C privkey =
     (let pubkey = PrivateKey_PublicKey C privkey in
      \<lparr>sm_privkey = privkey, sm_pubkey = pubkey, sm_peerid = NewPeerID pubkey, store = Map.empty\<rparr>)"

text \<open>
  The random generator is an argument: a list of what \<^verbatim>\<open>rand.Read\<close> returns, one entry per call.
  \<^verbatim>\<open>randUint32\<close> sleeps and tries again on an error.
\<close>

fun randUint32 :: "(err + bytes) list \<Rightarrow> (u32 \<times> (err + bytes) list) option" where
  "randUint32 [] = None"
| "randUint32 (Inl _ # draws) = randUint32 draws"
| "randUint32 (Inr b # draws) = do { v \<leftarrow> le_uint32 (to_array 4 b); Some (v, draws) }"

lemma randUint32_shorter: "randUint32 draws = Some (v, draws') \<Longrightarrow> length draws' < length draws"
  by (induction draws rule: randUint32.induct) (auto split: Option.bind_splits)

text \<open>The loop of \<^verbatim>\<open>Insert\<close> that draws an index nobody uses.\<close>

function fresh_index :: "(u32 \<Rightarrow> 'v option) \<Rightarrow> (err + bytes) list \<Rightarrow> u32 option" where
  "fresh_index st draws =
     (case randUint32 draws of
        None \<Rightarrow> None
      | Some (ix, draws') \<Rightarrow> if st ix = None then Some ix else fresh_index st draws')"
  by pat_completeness auto
termination
  by (relation "measure (\<lambda>(st, draws). length draws)") (auto dest: randUint32_shorter)

declare fresh_index.simps [simp del]

definition Insert :: "(err + bytes) list \<Rightarrow> SessionManager \<Rightarrow> Session \<Rightarrow> (SessionManager \<times> u32) option" where
  "Insert draws sm s = do {
     ix \<leftarrow> fresh_index (store sm) draws;
     Some (sm\<lparr>store := (store sm)(ix \<mapsto> Some s)\<rparr>, ix) }"

definition Get :: "SessionManager \<Rightarrow> u32 \<Rightarrow> Session option option" where
  "Get sm ix = store sm ix"

text \<open>
  \<^verbatim>\<open>Find\<close> ranges over the map, in an order Go does not fix: the order of the keys is an argument.
  Reading the peer of a nil session panics.
\<close>

fun find_loop :: "(u32 \<Rightarrow> Session option option) \<Rightarrow> PeerID \<Rightarrow> u32 list \<Rightarrow> (Session \<times> u32) option option" where
  "find_loop st peerid [] = Some None"
| "find_loop st peerid (ix # order) =
     (case st ix of
        None \<Rightarrow> find_loop st peerid order
      | Some None \<Rightarrow> None
      | Some (Some s) \<Rightarrow>
          if remotePeerID s = peerid then Some (Some (s, ix)) else find_loop st peerid order)"

definition Find :: "u32 list \<Rightarrow> SessionManager \<Rightarrow> PeerID \<Rightarrow> (Session \<times> u32) option option" where
  "Find order sm peerid = find_loop (store sm) peerid order"

text \<open>\<^verbatim>\<open>Swap\<close> stores a nil pointer when the first index is not in use.\<close>

definition Swap :: "SessionManager \<Rightarrow> u32 \<Rightarrow> u32 \<Rightarrow> SessionManager" where
  "Swap sm idx1 idx2 =
     (let (s, st) = (case store sm idx1 of
                       None \<Rightarrow> (None, store sm)
                     | Some s \<Rightarrow> (s, (store sm)(idx1 := None)))
      in sm\<lparr>store := st(idx2 \<mapsto> s)\<rparr>)"

definition Remove :: "SessionManager \<Rightarrow> u32 \<Rightarrow> SessionManager" where
  "Remove sm ix =
     (if store sm ix \<noteq> None then sm\<lparr>store := (store sm)(ix := None)\<rparr> else sm)"

text \<open>A change made through the pointer stored at an index.\<close>

definition set_session :: "SessionManager \<Rightarrow> u32 \<Rightarrow> Session \<Rightarrow> SessionManager" where
  "set_session sm ix s = sm\<lparr>store := (store sm)(ix \<mapsto> Some s)\<rparr>"

section \<open>The operations on packets\<close>

definition CreateHello ::
  "crypto \<Rightarrow> bytes \<Rightarrow> (err + bytes) list \<Rightarrow> (err + bytes) list \<Rightarrow> SessionManager \<Rightarrow> HelloPacket \<Rightarrow>
   PeerID \<Rightarrow> Multiaddr \<Rightarrow> (SessionManager \<times> (err + HelloPacket)) option" where
  "CreateHello C ts kdraws idraws sm pkt peerid raddr = do {
     hs \<leftarrow> NewHandshakeInitiator C kdraws (sm_privkey sm) (PeerID_PublicKey peerid);
     (case hs of
        Inl e \<Rightarrow> Some (sm, Inl e)
      | Inr hs \<Rightarrow> do {
          let s = newSession peerid hs;
          (sm, ix) \<leftarrow> Insert idraws sm s;
          pkt \<leftarrow> Hello_SetSenderIndex pkt ix;
          let s = (if \<not> Multiaddr_Empty raddr then SetRemoteAddr s raddr else s);
          (s, r) \<leftarrow> Session_CreateHello C ts s pkt;
          Some (set_session sm ix s, r) }) }"

definition HandleHello ::
  "crypto \<Rightarrow> (err + bytes) list \<Rightarrow> (err + bytes) list \<Rightarrow> SessionManager \<Rightarrow> HelloPacket \<Rightarrow>
   Multiaddr \<Rightarrow> (SessionManager \<times> (err + ResponsePacket)) option" where
  "HandleHello C kdraws idraws sm pkt raddr = do {
     hs \<leftarrow> NewHandshakeResponder C kdraws (sm_privkey sm);
     (case hs of
        Inl e \<Rightarrow> Some (sm, Inl e)
      | Inr hs \<Rightarrow> do {
          let s = newSessionIncoming hs;
          (s, r) \<leftarrow> Session_HandleHello C s pkt;
          (case r of
             Inl e \<Rightarrow> Some (sm, Inl (Errorf ''HandleHello''))
           | Inr pkt \<Rightarrow> do {
               pkt2 \<leftarrow> NewResponsePacket (NewPacket (replicate TptMTU 0)) (Offset pkt) (Padding pkt);
               sidx \<leftarrow> Hello_SenderIndex pkt;
               pkt2 \<leftarrow> Response_SetSenderIndex pkt2 sidx;
               (s, r2) \<leftarrow> Session_CreateResponse C s pkt2;
               (case r2 of
                  Inl e \<Rightarrow> Some (sm, Inl e)
                | Inr pkt2 \<Rightarrow> do {
                    (sm, ix) \<leftarrow> Insert idraws sm s;
                    pkt2 \<leftarrow> Response_SetSessionIndex pkt2 ix;
                    let s = s\<lparr>remotePeerID := NewPeerID (RemotePublicKey (handshake s))\<rparr>;
                    let s = (if \<not> Multiaddr_Empty raddr then SetRemoteAddr s raddr else s);
                    Some (set_session sm ix s, Inr pkt2) }) }) }) }"

definition HandleResponse ::
  "crypto \<Rightarrow> SessionManager \<Rightarrow> ResponsePacket \<Rightarrow> Multiaddr \<Rightarrow>
   (SessionManager \<times> (err + ResponsePacket \<times> PeerID)) option" where
  "HandleResponse C sm pkt raddr = do {
     sidx \<leftarrow> Response_SenderIndex pkt;
     (case Get sm sidx of
        None \<Rightarrow> Some (sm, Inl UnknownIndexError)
      | Some None \<Rightarrow> None
      | Some (Some s) \<Rightarrow> do {
          (s, r) \<leftarrow> Session_HandleHelloResponse C s pkt;
          let sm = set_session sm sidx s;
          (case r of
             Inl e \<Rightarrow> Some (sm, Inl e)
           | Inr pkt \<Rightarrow> do {
               sidx \<leftarrow> Response_SenderIndex pkt;
               ix \<leftarrow> Response_SessionIndex pkt;
               let sm = Swap sm sidx ix;
               let s = (if \<not> Multiaddr_Empty raddr then SetRemoteAddr s raddr else s);
               Some (set_session sm ix s, Inr (pkt, remotePeerID s)) }) }) }"

definition CreateData ::
  "crypto \<Rightarrow> u32 list \<Rightarrow> SessionManager \<Rightarrow> DataPacket \<Rightarrow> PeerID \<Rightarrow>
   (SessionManager \<times> (err + DataPacket \<times> Multiaddr)) option" where
  "CreateData C order sm pkt peerid = do {
     found \<leftarrow> Find order sm peerid;
     (case found of
        None \<Rightarrow> Some (sm, Inl (Errorf ''no session for''))
      | Some (s, ix) \<Rightarrow> do {
          pt \<leftarrow> Data_Plaintext pkt;
          (case MakeMessage C (handshake s) pt of
             (hs, Inl e) \<Rightarrow> Some (set_session sm ix (s\<lparr>handshake := hs\<rparr>), Inl e)
           | (hs, Inr (hdr, ct)) \<Rightarrow> do {
               pkt \<leftarrow> Data_SetMsgType pkt DataMsgType;
               pkt \<leftarrow> Data_SetSessionIndex pkt ix;
               pkt \<leftarrow> Data_SetNonce pkt (mh_Nonce hdr);
               pkt \<leftarrow> Data_SetCiphertext pkt ct;
               Some (set_session sm ix (s\<lparr>handshake := hs\<rparr>), Inr (pkt, remoteAddr s)) }) }) }"

definition HandleData ::
  "crypto \<Rightarrow> SessionManager \<Rightarrow> DataPacket \<Rightarrow> (SessionManager \<times> (err + DataPacket \<times> PeerID \<times> bool)) option" where
  "HandleData C sm pkt = do {
     ix \<leftarrow> Data_SessionIndex pkt;
     (case Get sm ix of
        None \<Rightarrow> Some (sm, Inl UnknownIndexError)
      | Some None \<Rightarrow> None
      | Some (Some s) \<Rightarrow> do {
          nonce \<leftarrow> Data_Nonce pkt;
          ct \<leftarrow> Data_Ciphertext pkt;
          (case ConsumeMessage C (handshake s) \<lparr>mh_Nonce = nonce\<rparr> ct of
             Inl e \<Rightarrow> Some (sm, Inl e)
           | Inr pt \<Rightarrow> do {
               pkt \<leftarrow> Data_SetPlaintext pkt pt;
               if stage s = 0x03 then Some (sm, Inr (pkt, remotePeerID s, False))
               else Some (set_session sm ix (s\<lparr>stage := 0x03\<rparr>), Inr (pkt, remotePeerID s, True)) }) }) }"

section \<open>The table as an index table\<close>

lemma fresh_index_fresh: "fresh_index st draws = Some ix \<Longrightarrow> st ix = None"
proof (induction st draws rule: fresh_index.induct)
  case (1 st draws)
  then show ?case
    by (subst (asm) fresh_index.simps) (auto split: option.splits if_splits)
qed

text \<open>One usable draw is enough for \<^verbatim>\<open>Insert\<close> to return.\<close>

lemma fresh_index_returns:
  assumes "\<And>b. Inr b \<in> set draws \<Longrightarrow> length b = 4"
    and "Inr b \<in> set draws" and "le_uint32 b = Some v" and "st v = None"
  shows "\<exists>ix. fresh_index st draws = Some ix"
  using assms
proof (induction draws)
  case (Cons d draws)
  show ?case
  proof (cases d)
    case (Inl e)
    then have "fresh_index st (d # draws) = fresh_index st draws"
      by (simp add: fresh_index.simps [of st])
    with Inl Cons show ?thesis by auto
  next
    case (Inr b')
    with Cons.prems have "length b' = 4" by simp
    then obtain w where w: "le_uint32 b' = Some w"
      by (auto simp: length_Suc_conv numeral_eq_Suc)
    show ?thesis
    proof (cases "st w = None")
      case True
      with Inr w \<open>length b' = 4\<close> show ?thesis by (simp add: fresh_index.simps [of st])
    next
      case False
      then have "fresh_index st (d # draws) = fresh_index st draws"
        using Inr w \<open>length b' = 4\<close> by (auto simp: fresh_index.simps [of st "Inr b' # draws"])
      moreover have "Inr b \<in> set draws" using False Cons.prems Inr w by auto
      ultimately show ?thesis using Cons by auto
    qed
  qed
qed simp

text \<open>
  What the packet operations rely on: insertion takes an unused index, moving an entry
  frees its old index, and removal affects one index only.
\<close>

locale index_table =
  fixes lookup :: "'s \<Rightarrow> u32 \<Rightarrow> 'v option"
    and ptr :: "'x \<Rightarrow> 'v"
    and ins :: "'d \<Rightarrow> 's \<Rightarrow> 'x \<Rightarrow> ('s \<times> u32) option"
    and move :: "'s \<Rightarrow> u32 \<Rightarrow> u32 \<Rightarrow> 's"
    and del :: "'s \<Rightarrow> u32 \<Rightarrow> 's"
  assumes ins_fresh: "ins d t x = Some (t', ix) \<Longrightarrow> lookup t ix = None"
    and ins_lookup: "ins d t x = Some (t', ix) \<Longrightarrow> lookup t' = (lookup t)(ix \<mapsto> ptr x)"
    and move_lookup: "lookup t i = Some v \<Longrightarrow> lookup (move t i j) = (lookup t)(i := None, j \<mapsto> v)"
    and del_lookup: "lookup (del t ix) = (lookup t)(ix := None)"
begin

lemma ins_keeps: "ins d t x = Some (t', ix) \<Longrightarrow> lookup t k \<noteq> None \<Longrightarrow> lookup t' k = lookup t k"
  using ins_fresh ins_lookup by fastforce

lemma ins_del: "ins d t x = Some (t', ix) \<Longrightarrow> lookup (del t' ix) = lookup t"
  using ins_fresh ins_lookup by (fastforce simp: del_lookup fun_eq_iff)

text \<open>An entry inserted under a local index and then moved to the index the peer chose.\<close>

lemma ins_move:
  assumes "ins d t x = Some (t', ix)"
  shows "lookup (move t' ix j) = (lookup t)(j \<mapsto> ptr x)"
proof -
  have "lookup t' ix = Some (ptr x)" using ins_lookup [OF assms] by simp
  from move_lookup [OF this] show ?thesis
    using ins_fresh [OF assms] ins_lookup [OF assms] by (auto simp: fun_eq_iff)
qed

text \<open>Whatever was stored under that index before is gone.\<close>

lemma move_overwrites:
  "lookup t i = Some v \<Longrightarrow> lookup t j = Some w \<Longrightarrow> i \<noteq> j \<Longrightarrow> v \<noteq> w \<Longrightarrow>
     lookup (move t i j) j \<noteq> Some w"
  by (simp add: move_lookup)

end

interpretation sessions: index_table Get "Some :: Session \<Rightarrow> Session option" Insert Swap Remove
proof
  fix d t x t' ix assume "Insert d t x = Some (t', ix)"
  then show "Get t ix = None" "Get t' = (Get t)(ix \<mapsto> Some x)"
    by (auto simp: Insert_def Get_def fun_eq_iff dest: fresh_index_fresh split: Option.bind_splits)
qed (auto simp: Get_def Swap_def Remove_def)

section \<open>Finding a session\<close>

lemma find_loop_Some:
  "find_loop st pid order = Some (Some (s, ix)) \<Longrightarrow>
     ix \<in> set order \<and> st ix = Some (Some s) \<and> remotePeerID s = pid"
  by (induction order) (auto split: option.splits if_splits)

lemma find_loop_None:
  "find_loop st pid order = Some None \<Longrightarrow> ix \<in> set order \<Longrightarrow> st ix = Some (Some s) \<Longrightarrow> remotePeerID s \<noteq> pid"
  by (induction order) (auto split: option.splits if_splits)

lemma find_loop_total:
  "(\<And>ix. ix \<in> set order \<Longrightarrow> st ix \<noteq> Some None) \<Longrightarrow> \<exists>r. find_loop st pid order = Some r"
  by (induction order) (auto split: option.splits)

lemma Find_unique:
  assumes "set order = dom (store sm)" and "\<And>ix. store sm ix \<noteq> Some None"
    and "store sm ix = Some (Some s)" and "remotePeerID s = pid"
    and "\<And>k t. store sm k = Some (Some t) \<Longrightarrow> remotePeerID t = pid \<Longrightarrow> k = ix"
  shows "Find order sm pid = Some (Some (s, ix))"
proof -
  obtain r where r: "find_loop (store sm) pid order = Some r"
    using find_loop_total [of order "store sm"] assms(2) by blast
  show ?thesis
  proof (cases r)
    case None
    have "ix \<in> set order" using assms(1,3) by auto
    with None r assms(3,4) show ?thesis
      using find_loop_None [of "store sm" pid order ix s] by blast
  next
    case (Some a)
    then obtain t k where "r = Some (t, k)" by (cases a) auto
    with r have t: "store sm k = Some (Some t)" "remotePeerID t = pid"
      by (auto dest: find_loop_Some)
    then have "k = ix" by (rule assms(5))
    with t assms(3) have "t = s" by simp
    with \<open>k = ix\<close> r \<open>r = Some (t, k)\<close> show ?thesis by (simp add: Find_def)
  qed
qed

end
