(* ===== verification/SessionInvariants.thy ===== *)
theory SessionInvariants
  imports Sessions
begin

text \<open>
  What every reachable session table satisfies: no nil session, a finished handshake exactly when
  the stage says so, and the identity of the peer always that of the key the handshake
  authenticated. The steps of a table are the five packet operations, on any packet.
\<close>

section \<open>What the handshake operations keep\<close>

lemma MakeHello_frame:
  "MakeHello C ts hs p = (hs', r) \<Longrightarrow> \<exists>h c. hs' = hs\<lparr>hs_hash := h, chainKey := c\<rparr>"
  by (auto simp: MakeHello_def Let_def case_prod_beta split: if_splits)
    (metis Handshake.surjective Handshake.update_convs(1,2))

lemma ConsumeHello_frame:
  assumes "ConsumeHello C hs hdr ct = (hs', r)"
  shows "hs_initiator hs' = hs_initiator hs" "localStatic hs' = localStatic hs" "send hs' = send hs"
    "receive hs' = receive hs" "r = Inl e \<Longrightarrow> hs' = hs" "r = Inr pt \<Longrightarrow> wf_pub (remoteStatic hs')"
  using assms by (auto simp: ConsumeHello_def Let_def case_prod_beta split: if_splits option.splits)

lemma MakeResponse_frame:
  assumes "crypto_ok C" and "MakeResponse C hs p = (hs', Inr x)"
  shows "hs_initiator hs' = hs_initiator hs" "localStatic hs' = localStatic hs"
    "remoteStatic hs' = remoteStatic hs" "send hs' \<noteq> None" "receive hs' \<noteq> None"
  using assms by (auto simp: MakeResponse_def Let_def case_prod_beta aead_rules split: if_splits)

lemma ConsumeResponse_frame:
  assumes "crypto_ok C" and "ConsumeResponse C hs hdr ct = (hs', r)"
  shows "hs_initiator hs' = hs_initiator hs" "localStatic hs' = localStatic hs"
    "remoteStatic hs' = remoteStatic hs" "r = Inl e \<Longrightarrow> hs' = hs"
    "r = Inr pt \<Longrightarrow> send hs' \<noteq> None \<and> receive hs' \<noteq> None"
  using assms
  by (auto simp: ConsumeResponse_def Let_def case_prod_beta aead_rules split: if_splits option.splits)

lemma MakeMessage_frame:
  "MakeMessage C hs p = (hs', r) \<Longrightarrow> \<exists>n. hs' = hs\<lparr>sendNonce := n\<rparr>"
  by (auto simp: MakeMessage_def Let_def split: option.splits)
    (metis Handshake.surjective Handshake.update_convs(11))

section \<open>The invariant\<close>

definition session_ok :: "PrivateKey \<Rightarrow> Session \<Rightarrow> bool" where
  "session_ok key s \<longleftrightarrow>
     waiters s = [] \<and> notified s = [] \<and>
     initiator s = hs_initiator (handshake s) \<and> localStatic (handshake s) = key \<and>
     wf_pub (remoteStatic (handshake s)) \<and>
     remotePeerID s = NewPeerID (remoteStatic (handshake s)) \<and>
     stage s \<in> (if initiator s then {1, 3} else {2, 3}) \<and>
     (if stage s = 1 then send (handshake s) = None \<and> receive (handshake s) = None
      else send (handshake s) \<noteq> None \<and> receive (handshake s) \<noteq> None)"

definition sm_inv :: "crypto \<Rightarrow> SessionManager \<Rightarrow> bool" where
  "sm_inv C sm \<longleftrightarrow>
     wf_priv (sm_privkey sm) \<and> sm_pubkey sm = PrivateKey_PublicKey C (sm_privkey sm) \<and>
     sm_peerid sm = NewPeerID (sm_pubkey sm) \<and>
     (\<forall>ix p. store sm ix = Some p \<longrightarrow> (\<exists>s. p = Some s \<and> session_ok (sm_privkey sm) s))"

lemma sm_inv_store: "sm_inv C sm \<Longrightarrow> store sm ix = Some (Some s) \<Longrightarrow> session_ok (sm_privkey sm) s"
  by (auto simp: sm_inv_def)

lemma sm_inv_no_nil: "sm_inv C sm \<Longrightarrow> store sm ix \<noteq> Some None"
  by (auto simp: sm_inv_def)

lemma sm_inv_New: "wf_priv k \<Longrightarrow> sm_inv C (NewSessionManager C k)"
  by (simp add: sm_inv_def NewSessionManager_def Let_def)

lemma sm_inv_set: "sm_inv C sm \<Longrightarrow> session_ok (sm_privkey sm) s \<Longrightarrow> sm_inv C (set_session sm ix s)"
  by (auto simp: sm_inv_def set_session_def)

lemma set_session_simps [simp]:
  "sm_privkey (set_session sm ix s) = sm_privkey sm" "store (set_session sm ix s) = (store sm)(ix \<mapsto> Some s)"
  "set_session (set_session sm ix s) ix t = set_session sm ix t"
  by (simp_all add: set_session_def)

lemma Insert_set:
  "Insert d sm s = Some (sm', ix) \<Longrightarrow> sm' = set_session sm ix s \<and> store sm ix = None"
  by (auto simp: Insert_def set_session_def dest: fresh_index_fresh split: Option.bind_splits)

lemma Swap_set:
  assumes "store sm i = Some (Some s)"
  shows "set_session (Swap sm i j) j t = set_session (Remove sm i) j t"
  using assms by (auto simp: Swap_def set_session_def Remove_def)

lemma sm_inv_Remove: "sm_inv C sm \<Longrightarrow> sm_inv C (Remove sm ix)"
  by (auto simp: sm_inv_def Remove_def)

lemma session_ok_addr [simp]: "session_ok k (s\<lparr>remoteAddr := a\<rparr>) = session_ok k s"
  by (simp add: session_ok_def)

section \<open>Every operation keeps it\<close>

lemmas op_splits = Option.bind_splits option.splits sum.splits prod.splits if_splits

lemma NewHandshakeInitiator_frame:
  "NewHandshakeInitiator C d ls rs = Some (Inr hs) \<Longrightarrow>
     hs_initiator hs \<and> localStatic hs = ls \<and> remoteStatic hs = rs \<and> send hs = None \<and> receive hs = None"
  by (auto simp: NewHandshakeInitiator_def newHandshake_def Let_def split: op_splits)

lemma NewHandshakeResponder_frame:
  "NewHandshakeResponder C d ls = Some (Inr hs) \<Longrightarrow>
     \<not> hs_initiator hs \<and> localStatic hs = ls \<and> send hs = None \<and> receive hs = None"
  by (auto simp: NewHandshakeResponder_def newHandshake_def Let_def split: op_splits)

lemma CreateHello_inv:
  assumes "sm_inv C sm" and "CreateHello C ts kd ids sm pkt pid raddr = Some (sm', r)"
  shows "sm_inv C sm'"
  using assms
  by (auto simp: CreateHello_def Session_CreateHello_def Let_def newSession_def SetRemoteAddr_def session_ok_def
      split: op_splits dest!: Insert_set MakeHello_frame NewHandshakeInitiator_frame intro!: sm_inv_set)

lemma Session_HandleHello_ok:
  assumes "Session_HandleHello C (newSessionIncoming hs) pkt = Some (s, Inr pkt')"
    and "NewHandshakeResponder C kd k = Some (Inr hs)"
  shows "initiator s = hs_initiator (handshake s)" "\<not> initiator s" "localStatic (handshake s) = k"
    "wf_pub (remoteStatic (handshake s))" "stage s = 2" "waiters s = []" "notified s = []"
  using assms
  by (auto simp: Session_HandleHello_def newSessionIncoming_def split: op_splits
      dest!: NewHandshakeResponder_frame dest: ConsumeHello_frame)

lemma Session_CreateResponse_ok:
  assumes "crypto_ok C" and "Session_CreateResponse C s pkt = Some (s', Inr pkt')"
  shows "initiator s' = initiator s" "hs_initiator (handshake s') = hs_initiator (handshake s)"
    "localStatic (handshake s') = localStatic (handshake s)"
    "remoteStatic (handshake s') = remoteStatic (handshake s)" "stage s' = stage s"
    "waiters s' = waiters s" "notified s' = notified s"
    "send (handshake s') \<noteq> None" "receive (handshake s') \<noteq> None"
  using assms MakeResponse_frame [OF assms(1)]
  by (auto simp: Session_CreateResponse_def split: op_splits)

lemma responder_session_ok:
  assumes "crypto_ok C" and "NewHandshakeResponder C kd k = Some (Inr hs)"
    and "Session_HandleHello C (newSessionIncoming hs) pkt = Some (s, Inr pkt')"
    and "Session_CreateResponse C s pkt2 = Some (s', Inr pkt2')"
  shows "session_ok k (s'\<lparr>remotePeerID := NewPeerID (RemotePublicKey (handshake s'))\<rparr>)"
  using Session_HandleHello_ok [OF assms(3,2)] Session_CreateResponse_ok [OF assms(1,4)]
  by (simp add: session_ok_def RemotePublicKey_def)

lemma HandleHello_inv:
  assumes C: "crypto_ok C" and inv: "sm_inv C sm" and op: "HandleHello C kd ids sm pkt raddr = Some (sm', r)"
  shows "sm_inv C sm'"
proof -
  have ok: "sm_inv C (set_session sm ix (s'\<lparr>remotePeerID := NewPeerID (RemotePublicKey (handshake s'))\<rparr>))"
    "sm_inv C (set_session sm ix (s'\<lparr>remotePeerID := NewPeerID (RemotePublicKey (handshake s')), remoteAddr := raddr\<rparr>))"
    if "NewHandshakeResponder C kd (sm_privkey sm) = Some (Inr hs)"
      and "Session_HandleHello C (newSessionIncoming hs) pkt = Some (s, Inr pkt')"
      and "Session_CreateResponse C s pkt2 = Some (s', Inr pkt2')" for hs s pkt' pkt2 pkt2' s' ix
    using responder_session_ok [OF C that] inv
    by (auto intro!: sm_inv_set simp: session_ok_def)
  from op inv show ?thesis
    by (auto simp: HandleHello_def Let_def SetRemoteAddr_def split: op_splits dest!: Insert_set intro: ok)
qed

lemma HandleHelloResponse_cases:
  assumes "Session_HandleHelloResponse C s pkt = Some (s', r)"
  obtains (refused) "s' = s" "r = Inl SessionStateError" "\<not> initiator s \<or> stage s \<noteq> 1"
  | (failed) hdr ct hs e where "initiator s" "stage s = 1" "ConsumeResponse C (handshake s) hdr ct = (hs, Inl e)"
      "s' = s\<lparr>handshake := hs\<rparr>" "r = Inl e"
  | (mismatch) hdr ct hs pt where "ConsumeResponse C (handshake s) hdr ct = (hs, Inr pt)"
      "NewPeerID (RemotePublicKey hs) \<noteq> remotePeerID s"
  | (finished) hdr ct hs pt pkt' where "initiator s" "stage s = 1"
      "ConsumeResponse C (handshake s) hdr ct = (hs, Inr pt)" "Response_SetPlaintext pkt pt = Some pkt'"
      "s' = s\<lparr>handshake := hs, stage := 3, notified := notified s @ map (\<lambda>w. (w, None)) (waiters s)\<rparr>"
      "r = Inr pkt'"
  using assms unfolding Session_HandleHelloResponse_def Let_def
  by (auto split: op_splits)

lemma ConsumeResponse_errors:
  "ConsumeResponse C hs hdr ct = (hs', Inl e) \<Longrightarrow> e \<noteq> Errorf ''expected PeerID''"
  by (auto simp: ConsumeResponse_def Let_def case_prod_beta ErrAEADKey_def split: if_splits option.splits)

lemma Session_HandleHelloResponse_ok:
  assumes C: "crypto_ok C" and ok: "session_ok k s" and op: "Session_HandleHelloResponse C s pkt = Some (s', r)"
  shows "session_ok k s' \<and> remotePeerID s' = remotePeerID s \<and> (isl r \<or> stage s' = 3) \<and>
    r \<noteq> Inl (Errorf ''expected PeerID'')"
  using op
proof (cases rule: HandleHelloResponse_cases)
  case refused
  with ok show ?thesis by simp
next
  case (failed hdr ct hs e)
  with ok ConsumeResponse_frame [OF C failed(3)] ConsumeResponse_errors [OF failed(3)]
  show ?thesis by (simp add: session_ok_def)
next
  case (mismatch hdr ct hs pt)
  with ok ConsumeResponse_frame [OF C mismatch(1)] show ?thesis
    by (simp add: session_ok_def RemotePublicKey_def)
next
  case (finished hdr ct hs pt pkt')
  with ok ConsumeResponse_frame [OF C finished(3)] show ?thesis
    by (simp add: session_ok_def)
qed

lemma HandleHelloResponse_header:
  assumes "Session_HandleHelloResponse C s pkt = Some (s', Inr pkt')"
  shows "Response_SenderIndex pkt' = Response_SenderIndex pkt"
    "Response_SessionIndex pkt' = Response_SessionIndex pkt"
proof -
  from assms obtain pt where "Response_SetPlaintext pkt pt = Some pkt'"
    by (auto simp: Session_HandleHelloResponse_def Let_def split: op_splits)
  from resp_pt.put_keeps [OF this TrueI]
  show "Response_SenderIndex pkt' = Response_SenderIndex pkt"
    "Response_SessionIndex pkt' = Response_SessionIndex pkt"
    by (auto intro: resp_sidx.get_kept resp_idx.get_kept)
qed

text \<open>The outcomes of \<^verbatim>\<open>HandleResponse\<close>.\<close>

lemma HandleResponse_cases:
  assumes "HandleResponse C sm pkt raddr = Some (sm', r)"
  obtains (unknown) ix where "Response_SenderIndex pkt = Some ix" "store sm ix = None" "sm' = sm"
      "r = Inl UnknownIndexError"
  | (failed) ix s s' e where "Response_SenderIndex pkt = Some ix" "store sm ix = Some (Some s)"
      "Session_HandleHelloResponse C s pkt = Some (s', Inl e)" "sm' = set_session sm ix s'" "r = Inl e"
  | (finished) ix j s s' pkt' where "Response_SenderIndex pkt = Some ix" "Response_SessionIndex pkt = Some j"
      "store sm ix = Some (Some s)" "Session_HandleHelloResponse C s pkt = Some (s', Inr pkt')"
      "sm' = set_session (Remove sm ix) j (if Multiaddr_Empty raddr then s' else s'\<lparr>remoteAddr := raddr\<rparr>)"
      "r = Inr (pkt', remotePeerID s')"
proof -
  have [simp]: "set_session (Swap (set_session sm ix s) ix j) j t = set_session (Remove sm ix) j t"
    if "store sm ix = Some p" for ix s j t p
    using that Swap_set [of "set_session sm ix s" ix s j t] by (auto simp: Remove_def set_session_def)
  from assms show ?thesis
    unfolding HandleResponse_def Get_def Let_def SetRemoteAddr_def
    by (auto split: op_splits simp: HandleHelloResponse_header intro: unknown failed finished)
qed

lemma HandleResponse_inv:
  assumes C: "crypto_ok C" and inv: "sm_inv C sm" and op: "HandleResponse C sm pkt raddr = Some (sm', r)"
  shows "sm_inv C sm'" "r \<noteq> Inl (Errorf ''expected PeerID'')"
proof -
  have ok: "session_ok (sm_privkey sm) s' \<and> x \<noteq> Inl (Errorf ''expected PeerID'')"
    if "store sm ix = Some (Some s)" and "Session_HandleHelloResponse C s pkt = Some (s', x)" for ix s s' x
    using Session_HandleHelloResponse_ok [OF C sm_inv_store [OF inv that(1)] that(2)] by simp
  have "sm_inv C sm' \<and> r \<noteq> Inl (Errorf ''expected PeerID'')"
    using op
  proof (cases rule: HandleResponse_cases)
    case unknown
    with inv show ?thesis by simp
  next
    case (failed ix s s' e)
    with inv ok [OF failed(2,3)] show ?thesis by (auto intro: sm_inv_set)
  next
    case (finished ix j s s' pkt')
    with ok [OF finished(3,4)] sm_inv_Remove [OF inv, of ix] show ?thesis
      by (auto intro!: sm_inv_set simp: Remove_def)
  qed
  then show "sm_inv C sm'" "r \<noteq> Inl (Errorf ''expected PeerID'')" by auto
qed

lemma CreateData_inv:
  assumes inv: "sm_inv C sm" and op: "CreateData C ord sm pkt pid = Some (sm', r)"
  shows "sm_inv C sm'"
proof -
  have ok: "session_ok (sm_privkey sm) (s\<lparr>handshake := hs\<rparr>)"
    if "Find ord sm pid = Some (Some (s, ix))" and "MakeMessage C (handshake s) pt = (hs, x)" for s ix pt hs x
    using that inv MakeMessage_frame [OF that(2)]
    by (auto simp: Find_def session_ok_def dest!: find_loop_Some sm_inv_store)
  from op inv show ?thesis
    by (auto simp: CreateData_def split: op_splits intro: sm_inv_set ok)
qed

lemma HandleData_inv:
  assumes inv: "sm_inv C sm" and op: "HandleData C sm pkt = Some (sm', r)"
  shows "sm_inv C sm'"
proof -
  have ok: "session_ok (sm_privkey sm) (s\<lparr>stage := 3\<rparr>)"
    if "store sm ix = Some (Some s)" and "ConsumeMessage C (handshake s) hdr ct = Inr pt" for s ix hdr ct pt
    using sm_inv_store [OF inv that(1)] that(2)
    by (auto simp: session_ok_def ConsumeMessage_def split: op_splits)
  from op inv show ?thesis
    by (auto simp: HandleData_def Get_def split: op_splits intro: sm_inv_set ok)
qed

section \<open>Reachable tables\<close>

inductive sm_step :: "crypto \<Rightarrow> SessionManager \<Rightarrow> SessionManager \<Rightarrow> bool" for C where
  create_hello: "CreateHello C ts kd ids sm pkt pid raddr = Some (sm', r) \<Longrightarrow> sm_step C sm sm'"
| handle_hello: "HandleHello C kd ids sm pkt raddr = Some (sm', r) \<Longrightarrow> sm_step C sm sm'"
| handle_response: "HandleResponse C sm pkt raddr = Some (sm', r) \<Longrightarrow> sm_step C sm sm'"
| create_data: "CreateData C ord sm pkt pid = Some (sm', r) \<Longrightarrow> sm_step C sm sm'"
| handle_data: "HandleData C sm pkt = Some (sm', r) \<Longrightarrow> sm_step C sm sm'"

inductive sm_reachable :: "crypto \<Rightarrow> PrivateKey \<Rightarrow> SessionManager \<Rightarrow> bool" for C k where
  start: "sm_reachable C k (NewSessionManager C k)"
| step: "sm_reachable C k sm \<Longrightarrow> sm_step C sm sm' \<Longrightarrow> sm_reachable C k sm'"

lemma sm_step_inv: "crypto_ok C \<Longrightarrow> sm_inv C sm \<Longrightarrow> sm_step C sm sm' \<Longrightarrow> sm_inv C sm'"
  by (auto elim!: sm_step.cases
      intro: CreateHello_inv HandleHello_inv HandleResponse_inv(1) CreateData_inv HandleData_inv)

lemma sm_reachable_inv:
  assumes "crypto_ok C" and "wf_priv k" and "sm_reachable C k sm"
  shows "sm_inv C sm"
  using assms(3)
  by (induction rule: sm_reachable.induct) (auto intro: sm_inv_New [OF assms(2)] sm_step_inv [OF assms(1)])

end
