(* ===== verification/SessionRuns.thy ===== *)
theory SessionRuns
  imports SessionInvariants
begin

text \<open>
  A session from the first packet to the last: what the session managers of two nodes do with the
  packets they send each other. Each lemma runs one operation, from the conditions under which
  it succeeds; the theorem on the whole exchange joins them.
\<close>

lemma header_eta [simp]:
  "\<lparr>hh_Ephemeral = hh_Ephemeral h, hh_Static = hh_Static h, hh_Timestamp = hh_Timestamp h\<rparr> = h"
  "\<lparr>rh_Ephemeral = rh_Ephemeral r, rh_Empty = rh_Empty r\<rparr> = r" "\<lparr>mh_Nonce = mh_Nonce m\<rparr> = m"
  by simp_all

section \<open>Sending the hello\<close>

text \<open>A hello packet whose payload \<open>pl\<close> is in place, with room for the authentication tag.\<close>

definition hello_ready :: "HelloPacket \<Rightarrow> bytes \<Rightarrow> bool" where
  "hello_ready p pl \<longleftrightarrow>
     0 \<le> Offset p \<and> Hello_Plaintext p = Some pl \<and> Length (base p) - Padding p \<le> int (length (fbuf p))"

lemma hello_readyD:
  assumes "hello_ready p pl"
  shows "0 \<le> Offset p" "Offset p + 116 + int (length pl) + 16 \<le> int (length (fbuf p))"
    "Length (base p) = Offset p + 116 + int (length pl) + 16 + Padding p" "Hello_Plaintext p = Some pl"
  using assms by (auto simp: hello_ready_def Hello_Plaintext_def slice_of_def split: if_splits)

lemma hello_ready_wrote:
  assumes "hello_ready p pl" and "wrote 4 8 p q"
  shows "hello_ready q pl"
proof -
  from assms(2) obtain xs c where c: "copy_at (fbuf p) (Offset p + 4) (Offset p + 8) xs = Some c"
    and q: "q = with_buf p c" by (auto simp: wrote_def)
  have "slice_of c (Offset p + 116) j = slice_of (fbuf p) (Offset p + 116) j" for j
    by (rule slice_copy_other [OF c]) simp
  with assms(1) q copy_at_length [OF c] show ?thesis
    by (simp add: hello_ready_def Hello_Plaintext_def)
qed

lemma hello_puts_total:
  assumes "0 \<le> Offset p" and "Offset p + 116 + int (length ct) \<le> int (length (fbuf p))"
  obtains p1 p2 p3 p4 where "Hello_SetEphemeralKey p eph = Some p1" "Hello_SetStaticKey p1 static = Some p2"
    "Hello_SetTimestamp p2 ts = Some p3" "Hello_SetCiphertext p3 ct = Some p4"
proof -
  obtain p1 where p1: "Hello_SetEphemeralKey p eph = Some p1"
    using hello_eph.put_total [of p] assms by auto
  note k1 = hello_eph.put_keeps [OF p1]
  obtain p2 where p2: "Hello_SetStaticKey p1 static = Some p2"
    using hello_static.put_total [of p1] assms k1 by auto
  note k2 = hello_static.put_keeps [OF p2]
  obtain p3 where p3: "Hello_SetTimestamp p2 ts = Some p3"
    using hello_ts.put_total [of p2] assms k1 k2 by auto
  note k3 = hello_ts.put_keeps [OF p3]
  obtain p4 where "Hello_SetCiphertext p3 ct = Some p4"
    using hello_ct.put_total [of p3] assms k1 k2 k3 by auto
  with p1 p2 p3 that show thesis by blast
qed

text \<open>What a hello packet carries.\<close>

definition hello_carries :: "HelloPacket \<Rightarrow> u32 \<Rightarrow> HelloHeader \<Rightarrow> bytes \<Rightarrow> bool" where
  "hello_carries q ix hdr ct \<longleftrightarrow>
     Hello_SenderIndex q = Some ix \<and> Hello_EphemeralKey q = Some (hh_Ephemeral hdr) \<and>
     Hello_StaticKey q = Some (hh_Static hdr) \<and> Hello_Timestamp q = Some (hh_Timestamp hdr) \<and>
     Hello_Ciphertext q = Some ct"

definition with_addr :: "Multiaddr \<Rightarrow> Session \<Rightarrow> Session" where
  "with_addr ra s = (if Multiaddr_Empty ra then s else SetRemoteAddr s ra)"

lemma with_addr_simps [simp]:
  "initiator (with_addr ra s) = initiator s" "stage (with_addr ra s) = stage s"
  "handshake (with_addr ra s) = handshake s" "remotePeerID (with_addr ra s) = remotePeerID s"
  "waiters (with_addr ra s) = waiters s" "notified (with_addr ra s) = notified s"
  by (simp_all add: with_addr_def SetRemoteAddr_def)

lemma Insert_run: "fresh_index (store sm) ids = Some ix \<Longrightarrow> Insert ids sm s = Some (set_session sm ix s, ix)"
  by (simp add: Insert_def set_session_def)

lemma Session_CreateHello_run:
  assumes mk: "MakeHello C ts (handshake s) pl = (i', Inr (hdr, ct))" and s: "initiator s"
    and p: "hello_ready p pl" and ix: "Hello_SenderIndex p = Some ix"
    and wf: "wf_pub (hh_Ephemeral hdr)" "length (hh_Static hdr) = 48" "length (hh_Timestamp hdr) = 28"
      "length ct = length pl + 16"
  obtains q where "Session_CreateHello C ts s p = Some (s\<lparr>handshake := i'\<rparr>, Inr q)" "hello_carries q ix hdr ct"
    "Offset q = Offset p" "Padding q = Padding p" "length (fbuf q) = length (fbuf p)"
    "Length (base q) = Length (base p)" "Hello_MsgType q = Hello_MsgType p"
proof -
  note p' = hello_readyD [OF p]
  obtain p1 p2 p3 q where w: "Hello_SetEphemeralKey p (hh_Ephemeral hdr) = Some p1"
    "Hello_SetStaticKey p1 (hh_Static hdr) = Some p2" "Hello_SetTimestamp p2 (hh_Timestamp hdr) = Some p3"
    "Hello_SetCiphertext p3 ct = Some q"
    using hello_puts_total [of p ct] p' wf(4) by (metis add.assoc of_nat_add of_nat_numeral)
  note out = hello_written [OF w wf(1-3)]
  have "Session_CreateHello C ts s p = Some (s\<lparr>handshake := i'\<rparr>, Inr q)"
    using s mk w p' by (simp add: Session_CreateHello_def)
  moreover have "hello_carries q ix hdr ct" using out ix by (simp add: hello_carries_def)
  ultimately show thesis using that out p' wf(4) by simp
qed


lemma CreateHello_run:
  assumes C: "crypto_ok C" and wf: "wf_priv (sm_privkey sm)" and ts: "length ts = 12"
    and e: "GeneratePrivateKey C kd = Some (Inr e)" and ix: "fresh_index (store sm) ids = Some ix"
    and ss: "\<not> isZero (SharedSecret C (sm_privkey sm) (PeerID_PublicKey pid))"
    and es: "\<not> isZero (SharedSecret C e (PeerID_PublicKey pid))"
    and p: "hello_ready p pl"
  obtains i i' hdr ct q where "fresh_initiator C (PeerID_PublicKey pid) i" "localStatic i = sm_privkey sm"
    "sendNonce i = 0" "MakeHello C ts i pl = (i', Inr (hdr, ct))"
    "CreateHello C ts kd ids sm p pid ra = Some (set_session sm ix (with_addr ra (newSession pid i')), Inr q)"
    "hello_carries q ix hdr ct" "Offset q = Offset p" "Padding q = Padding p"
    "length (fbuf q) = length (fbuf p)" "Length (base q) = Length (base p)" "Hello_MsgType q = Hello_MsgType p"
proof -
  obtain i where i: "NewHandshakeInitiator C kd (sm_privkey sm) (PeerID_PublicKey pid) = Some (Inr i)"
    and le: "localEphemeral i = e"
    using e ss by (simp add: NewHandshakeInitiator_def newHandshake_def Let_def)
  note fi = fresh_NewHandshakeInitiator [OF wf i]
  have "hs_initiator i" "remoteStatic i = PeerID_PublicKey pid" using fi by (auto simp: fresh_initiator_def)
  then obtain i' hdr ct where mk: "MakeHello C ts i pl = (i', Inr (hdr, ct))"
    using MakeHello_ok [OF C, of i ts pl] es le by auto
  have hdr: "wf_pub (hh_Ephemeral hdr)" "length (hh_Static hdr) = 48" "length (hh_Timestamp hdr) = 28"
    "length ct = length pl + 16"
    using mk C ts fi(1) by (auto simp: MakeHello_def Let_def case_prod_beta fresh_initiator_def wf_PublicKey
        aead_rules length_PublicKey_Bytes crypto_okD len_laws split: if_splits)
  obtain p0 where p0: "Hello_SetSenderIndex p ix = Some p0"
    using hello_sidx.put_total [of p ix] hello_readyD [OF p] by auto
  note w0 = hello_sidx.put_wrote [OF p0]
  let ?s = "with_addr ra (newSession pid i)"
  obtain q where q: "Session_CreateHello C ts ?s p0 = Some (?s\<lparr>handshake := i'\<rparr>, Inr q)"
    "hello_carries q ix hdr ct" "Offset q = Offset p0" "Padding q = Padding p0"
    "length (fbuf q) = length (fbuf p0)" "Length (base q) = Length (base p0)" "Hello_MsgType q = Hello_MsgType p0"
    using Session_CreateHello_run [of C ts ?s pl i' hdr ct p0 ix] mk hdr hello_ready_wrote [OF p w0]
      hello_sidx.get_put [OF p0] by (auto simp: newSession_def)
  have "?s\<lparr>handshake := i'\<rparr> = with_addr ra (newSession pid i')"
    by (simp add: with_addr_def newSession_def SetRemoteAddr_def)
  with q(1) have "CreateHello C ts kd ids sm p pid ra =
      Some (set_session sm ix (with_addr ra (newSession pid i')), Inr q)"
    using i p0 Insert_run [OF ix] by (auto simp: CreateHello_def with_addr_def Let_def)
  with q fi mk wrote_keeps [OF w0] hello_mt.get_wrote [OF w0] that show thesis by auto
qed

section \<open>Answering it\<close>

text \<open>What a response packet carries.\<close>

definition response_carries :: "ResponsePacket \<Rightarrow> u32 \<Rightarrow> u32 \<Rightarrow> ResponseHeader \<Rightarrow> bytes \<Rightarrow> bool" where
  "response_carries q sidx ix hdr ct \<longleftrightarrow>
     Response_SenderIndex q = Some sidx \<and> Response_SessionIndex q = Some ix \<and>
     Response_EphemeralKey q = Some (rh_Ephemeral hdr) \<and> Response_Empty q = Some (rh_Empty hdr) \<and>
     Response_Ciphertext q = Some ct \<and> Response_MsgType q = Some ResponseMsgType"

text \<open>The frame of a packet in a buffer of the transport's size, with room for a response header.\<close>

definition frame_fits :: "Framed \<Rightarrow> bool" where
  "frame_fits p \<longleftrightarrow> 0 \<le> Offset p \<and> 0 \<le> Padding p \<and> Padding p \<le> 16 \<and> Offset p + Padding p + 76 \<le> int TptMTU"

lemma response_puts_total:
  assumes "0 \<le> Offset p" and "Offset p + 60 + int (length ct) \<le> int (length (fbuf p))"
  obtains p1 p2 p3 p4 where "Response_SetEphemeralKey p eph = Some p1" "Response_SetEmpty p1 tag = Some p2"
    "Response_SetCiphertext p2 ct = Some p3" "Response_SetSessionIndex p3 ix = Some p4"
proof -
  obtain p1 where p1: "Response_SetEphemeralKey p eph = Some p1"
    using resp_eph.put_total [of p] assms by auto
  note k1 = resp_eph.put_keeps [OF p1]
  obtain p2 where p2: "Response_SetEmpty p1 tag = Some p2"
    using resp_empty.put_total [of p1] assms k1 by auto
  note k2 = resp_empty.put_keeps [OF p2]
  obtain p3 where p3: "Response_SetCiphertext p2 ct = Some p3"
    using resp_ct.put_total [of p2] assms k1 k2 by auto
  note k3 = keeps_uptoD [OF resp_ct.put_keeps [OF p3 TrueI]]
  obtain p4 where "Response_SetSessionIndex p3 ix = Some p4"
    using resp_idx.put_total [of p3] assms k1 k2 k3 by auto
  with p1 p2 p3 that show thesis by blast
qed

text \<open>The response packet that \<^verbatim>\<open>HandleHello\<close> starts from.\<close>

lemma response_blank:
  assumes "frame_fits p"
  obtains q pl where "NewResponsePacket (NewPacket (replicate TptMTU 0)) (Offset p) (Padding p) = Some q"
    "Response_Plaintext q = Some pl" "Offset q = Offset p" "Padding q = Padding p"
    "Offset q + 60 + int (length pl) + 16 + Padding q = int TptMTU" "length (fbuf q) = TptMTU"
    "Response_MsgType q = Some ResponseMsgType"
proof -
  let ?b = "\<lparr>Offset = Offset p, Padding = Padding p, base = NewPacket (replicate TptMTU 0)\<rparr>"
  have len: "fbuf ?b = replicate TptMTU 0" "Length (base ?b) = int TptMTU" by (simp_all add: NewPacket_def)
  obtain q where q: "Response_SetMsgType ?b ResponseMsgType = Some q"
    using resp_mt.put_total [of ?b] assms len by (auto simp: frame_fits_def)
  note k = resp_mt.put_keeps [OF q]
  obtain pl where pl: "Response_Plaintext q = Some pl"
    using slice_total [of "Offset p + 60" "int TptMTU - Padding p - 16" "fbuf q"] assms k len
    by (auto simp: Response_Plaintext_def frame_fits_def)
  then have "int (length pl) = int TptMTU - Padding p - 16 - (Offset p + 60)"
    using k len by (auto simp: Response_Plaintext_def slice_of_def split: if_splits)
  with q k pl len that resp_mt.get_put [OF q] show thesis
    by (simp add: NewResponsePacket_def)
qed


text \<open>The responder reads the hello it was sent: the handshake after it, and the packet as decrypted.\<close>

lemma Session_HandleHello_run:
  assumes con: "ConsumeHello C r hdr ct = (r1, Inr pl)" and q: "hello_carries q sidx hdr ct"
    and len: "length ct = length pl + 16" and fits: "frame_fits q"
    and room: "Length (base q) - Padding q \<le> int (length (fbuf q))"
  obtains q' where "Session_HandleHello C (newSessionIncoming r) q =
      Some ((newSessionIncoming r)\<lparr>handshake := r1, remotePeerID := NewPeerID (RemotePublicKey r1)\<rparr>, Inr q')"
    "Hello_SenderIndex q' = Some sidx" "Offset q' = Offset q" "Padding q' = Padding q"
    "Hello_Plaintext q' = Some pl"
proof -
  have off: "0 \<le> Offset q" "0 \<le> Padding q \<and> Padding q \<le> 16" using fits by (auto simp: frame_fits_def)
  have "Offset q + 116 + int (length ct) = Length (base q) - Padding q"
    using q by (auto simp: hello_carries_def Hello_Ciphertext_def slice_of_def split: if_splits)
  then obtain q' where q': "Hello_SetPlaintext q pl = Some q'"
    using hello_pt.put_total [OF off(2,1), of pl] room len by auto
  note k = hello_pt.put_keeps [OF q' off(2)]
  have "Session_HandleHello C (newSessionIncoming r) q =
      Some ((newSessionIncoming r)\<lparr>handshake := r1, remotePeerID := NewPeerID (RemotePublicKey r1)\<rparr>, Inr q')"
    using q con q' by (simp add: Session_HandleHello_def hello_carries_def newSessionIncoming_def)
  with k q that keeps_uptoD [OF k] hello_sidx.get_kept [OF k] hello_pt.get_put [OF q' off(2)]
  show thesis by (auto simp: hello_carries_def)
qed

text \<open>The response packet as it leaves \<^verbatim>\<open>HandleHello\<close>.\<close>

lemma MakeResponse_shape:
  assumes "crypto_ok C" and "MakeResponse C r pl = (r', Inr (hdr, ct))"
  shows "wf_pub (rh_Ephemeral hdr)" "length (rh_Empty hdr) = 16" "length ct = length pl + 16"
  using assms by (auto simp: MakeResponse_def Let_def case_prod_beta wf_PublicKey aead_rules crypto_okD len_laws
      split: if_splits)

lemma response_made:
  assumes C: "crypto_ok C" and role: "\<not> hs_initiator r1" and fits: "frame_fits q"
  obtains p p0 p1 pl r2 hdr ct p2 where
    "NewResponsePacket (NewPacket (replicate TptMTU 0)) (Offset q) (Padding q) = Some p"
    "Response_SetSenderIndex p sidx = Some p0"
    "MakeResponse C r1 pl = (r2, Inr (hdr, ct))"
    "\<forall>s. \<not> initiator s \<and> handshake s = r1 \<longrightarrow>
       Session_CreateResponse C s p0 = Some (s\<lparr>handshake := r2\<rparr>, Inr p1)"
    "Response_SetSessionIndex p1 ix = Some p2" "response_carries p2 sidx ix hdr ct"
    "Offset p2 = Offset q" "Padding p2 = Padding q" "length (fbuf p2) = TptMTU" "Length (base p2) = int TptMTU"
proof -
  obtain p pl where p: "NewResponsePacket (NewPacket (replicate TptMTU 0)) (Offset q) (Padding q) = Some p"
    and pl: "Response_Plaintext p = Some pl" and fr: "Offset p = Offset q" "Padding p = Padding q"
      "Offset p + 60 + int (length pl) + 16 + Padding p = int TptMTU" "length (fbuf p) = TptMTU"
    and mt: "Response_MsgType p = Some ResponseMsgType"
    using response_blank [OF fits] by metis
  have off: "0 \<le> Offset p" using fits fr by (simp add: frame_fits_def)
  obtain p0 where p0: "Response_SetSenderIndex p sidx = Some p0"
    using resp_sidx.put_total [of p sidx] fr off fits by (auto simp: frame_fits_def)
  note w0 = resp_sidx.put_wrote [OF p0]
  have pl0: "Response_Plaintext p0 = Some pl"
  proof -
    from w0 obtain xs where "copy_at (fbuf p) (Offset p + 4) (Offset p + 8) xs = Some (fbuf p0)"
      by (auto simp: wrote_def)
    from slice_copy_other [OF this] pl wrote_keeps [OF w0] show ?thesis by (simp add: Response_Plaintext_def)
  qed
  obtain r2 hdr ct where mk: "MakeResponse C r1 pl = (r2, Inr (hdr, ct))"
    using MakeResponse_ok [OF C role, of pl] by auto
  note rt = MakeResponse_shape [OF C mk]
  have "0 \<le> Offset p0" "Offset p0 + 60 + int (length ct) \<le> int (length (fbuf p0))"
    using fits fr off wrote_keeps [OF w0] rt(3) by (simp_all add: frame_fits_def)
  from response_puts_total [OF this] obtain a b p1 p2 where
    w: "Response_SetEphemeralKey p0 (rh_Ephemeral hdr) = Some a" "Response_SetEmpty a (rh_Empty hdr) = Some b"
    "Response_SetCiphertext b ct = Some p1" "Response_SetSessionIndex p1 ix = Some p2" by metis
  note out = response_written [OF w rt(1,2)]
  have "Session_CreateResponse C s p0 = Some (s\<lparr>handshake := r2\<rparr>, Inr p1)"
    if "\<not> initiator s" "handshake s = r1" for s
    using that w mk pl0 by (simp add: Session_CreateResponse_def)
  moreover have "response_carries p2 sidx ix hdr ct"
    using out resp_sidx.get_put [OF p0] resp_mt.get_wrote [OF w0] mt by (simp add: response_carries_def)
  ultimately show thesis
    using that [OF p p0 mk _ w(4)] out fr wrote_keeps [OF w0] rt(3) by simp
qed

lemma HandleHello_run:
  assumes C: "crypto_ok C" and wf: "wf_priv (sm_privkey sm)" and ts: "length ts = 12"
    and i: "fresh_initiator C (PrivateKey_PublicKey C (sm_privkey sm)) i"
    and mk: "MakeHello C ts i pl = (i', Inr (hdr, ct))"
    and e: "GeneratePrivateKey C kd = Some (Inr e)" and ix: "fresh_index (store sm) ids = Some ix"
    and q: "hello_carries q sidx hdr ct" and fits: "frame_fits q"
    and room: "Length (base q) - Padding q \<le> int (length (fbuf q))"
  obtains r1 r2 pl2 hdr2 ct2 p s where
    "HandleHello C kd ids sm q ra = Some (set_session sm ix s, Inr p)"
    "after_hello C i' r1" "MakeResponse C r1 pl2 = (r2, Inr (hdr2, ct2))" "response_carries p sidx ix hdr2 ct2"
    "handshake s = r2" "remotePeerID s = NewPeerID (PrivateKey_PublicKey C (localStatic i))" "stage s = 2"
    "\<not> initiator s" "sendNonce r2 = 0" "Offset p = Offset q" "Padding p = Padding q"
    "length (fbuf p) = TptMTU" "Length (base p) = int TptMTU"
    "remoteAddr s = (if Multiaddr_Empty ra then emptyMultiaddr else ra)"
proof -
  obtain r where r: "NewHandshakeResponder C kd (sm_privkey sm) = Some (Inr r)"
    using e by (simp add: NewHandshakeResponder_def)
  note fr = fresh_NewHandshakeResponder [OF wf r]
  note rt = hello_roundtrip [OF C ts fr(1) _ mk, unfolded fr(2), OF i]
  from rt(1) obtain r1 where con: "ConsumeHello C r hdr ct = (r1, Inr pl)"
    and r1: "r1 = r\<lparr>hs_hash := hs_hash i', chainKey := chainKey i',
      remoteStatic := PrivateKey_PublicKey C (localStatic i),
      remoteEphemeral := PrivateKey_PublicKey C (localEphemeral i), precStaticStatic := precStaticStatic i\<rparr>"
    by auto
  have ah: "after_hello C i' r1"
    using fr i by (subst rt(2)) (auto simp: r1 after_hello_def fresh_initiator_def fresh_responder_def)
  obtain q' where q': "Session_HandleHello C (newSessionIncoming r) q =
      Some ((newSessionIncoming r)\<lparr>handshake := r1, remotePeerID := NewPeerID (RemotePublicKey r1)\<rparr>, Inr q')"
      "Hello_SenderIndex q' = Some sidx" "Offset q' = Offset q" "Padding q' = Padding q"
    using Session_HandleHello_run [OF con q rt(6) fits room] by metis
  let ?s = "(newSessionIncoming r)\<lparr>handshake := r1, remotePeerID := NewPeerID (RemotePublicKey r1)\<rparr>"
  have role: "\<not> hs_initiator r1" using ah by (simp add: after_hello_def)
  obtain p p0 p1 pl2 r2 hdr2 ct2 p2 where
    m: "NewResponsePacket (NewPacket (replicate TptMTU 0)) (Offset q) (Padding q) = Some p"
      "Response_SetSenderIndex p sidx = Some p0" "MakeResponse C r1 pl2 = (r2, Inr (hdr2, ct2))"
      "\<forall>s. \<not> initiator s \<and> handshake s = r1 \<longrightarrow>
         Session_CreateResponse C s p0 = Some (s\<lparr>handshake := r2\<rparr>, Inr p1)"
      "Response_SetSessionIndex p1 ix = Some p2" "response_carries p2 sidx ix hdr2 ct2"
      "Offset p2 = Offset q" "Padding p2 = Padding q" "length (fbuf p2) = TptMTU" "Length (base p2) = int TptMTU"
    by (rule response_made [OF C role fits, of sidx ix]) (rule that)
  note rr = response_roundtrip [OF C ah m(3)]
  let ?s2 = "with_addr ra (?s\<lparr>handshake := r2, remotePeerID := NewPeerID (RemotePublicKey r2)\<rparr>)"
  have "HandleHello C kd ids sm q ra = Some (set_session sm ix ?s2, Inr p2)"
    using r q' m(1,2,5) m(4) [rule_format, of ?s] Insert_run [OF ix]
    by (simp add: HandleHello_def Let_def newSessionIncoming_def with_addr_def)
  moreover have "remotePeerID ?s2 = NewPeerID (PrivateKey_PublicKey C (localStatic i))" "sendNonce r2 = 0"
    using rr(2,3) r1 fr(3) by (simp_all add: RemotePublicKey_def)
  moreover have "remoteAddr ?s2 = (if Multiaddr_Empty ra then emptyMultiaddr else ra)"
    by (simp add: with_addr_def SetRemoteAddr_def newSessionIncoming_def)
  ultimately show thesis using that ah m by (simp add: newSessionIncoming_def)
qed


section \<open>Finishing the session\<close>

lemma HandleResponse_run:
  assumes C: "crypto_ok C" and ah: "after_hello C i r1" and mk: "MakeResponse C r1 pl = (r2, Inr (hdr, ct))"
    and p: "response_carries p sidx ix hdr ct" and s: "store sm sidx = Some (Some s)" "handshake s = i"
      "initiator s" "stage s = 1" "remotePeerID s = NewPeerID (remoteStatic i)" "waiters s = []"
    and room: "0 \<le> Offset p" "Length (base p) - Padding p \<le> int (length (fbuf p))"
  obtains i2 p' where
    "HandleResponse C sm p ra =
       Some (set_session (Remove sm sidx) ix (with_addr ra (s\<lparr>handshake := i2, stage := 3\<rparr>)),
             Inr (p', remotePeerID s))"
    "matched i2 r2" "sendNonce i2 = sendNonce i" "remoteStatic i2 = remoteStatic i"
    "Response_Plaintext p' = Some pl"
proof -
  note rt = response_roundtrip [OF C ah mk]
  from rt(1) obtain i2 where con: "ConsumeResponse C i hdr ct = (i2, Inr pl)" and m: "matched i2 r2"
    "sendNonce i2 = sendNonce i" "remoteStatic i2 = remoteStatic i" by auto
  have "Offset p + 60 + int (length ct) = Length (base p) - Padding p"
    using p by (auto simp: response_carries_def Response_Ciphertext_def slice_of_def split: if_splits)
  then obtain p' where p': "Response_SetPlaintext p pl = Some p'"
    using resp_pt.put_total [OF TrueI room(1), of pl] room(2) rt(7) by auto
  have run: "Session_HandleHelloResponse C s p = Some (s\<lparr>handshake := i2, stage := 3\<rparr>, Inr p')"
    using p con p' s m by (simp add: Session_HandleHelloResponse_def response_carries_def RemotePublicKey_def)
  have swap: "set_session (Swap (set_session sm sidx s') sidx ix) ix t = set_session (Remove sm sidx) ix t" for s' t
    using s(1) Swap_set [of "set_session sm sidx s'" sidx s' ix t] by (simp add: Remove_def set_session_def)
  have "HandleResponse C sm p ra =
       Some (set_session (Remove sm sidx) ix (with_addr ra (s\<lparr>handshake := i2, stage := 3\<rparr>)),
             Inr (p', remotePeerID s))"
    using p run s(1) HandleHelloResponse_header [OF run] swap
    by (simp add: HandleResponse_def response_carries_def Get_def with_addr_def SetRemoteAddr_def)
  with that m resp_pt.get_put [OF p'] show thesis by blast
qed

text \<open>
  The whole exchange. \<open>paired\<close> says that the two nodes hold the two ends of one session under
  the same index.
\<close>

definition paired :: "SessionManager \<Rightarrow> SessionManager \<Rightarrow> u32 \<Rightarrow> bool" where
  "paired sma smb ix \<longleftrightarrow>
     (\<exists>a b. store sma ix = Some (Some a) \<and> store smb ix = Some (Some b) \<and>
        matched (handshake a) (handshake b) \<and>
        remotePeerID a = sm_peerid smb \<and> remotePeerID b = sm_peerid sma)"

lemma matched_sym: "matched a b \<longleftrightarrow> matched b a"
  by (auto simp: matched_def)

lemma paired_sym: "paired sma smb ix \<longleftrightarrow> paired smb sma ix"
  unfolding paired_def using matched_sym by blast

lemma exchange:
  assumes C: "crypto_ok C" and ts: "length ts = 12" and inv: "sm_inv C sma" "sm_inv C smb"
    and ea: "GeneratePrivateKey C kda = Some (Inr ea)" and eb: "GeneratePrivateKey C kdb = Some (Inr eb)"
    and ia: "fresh_index (store sma) ida = Some ixa" and ib: "fresh_index (store smb) idb = Some ixb"
    and ss: "\<not> isZero (SharedSecret C (sm_privkey sma) (sm_pubkey smb))"
    and es: "\<not> isZero (SharedSecret C ea (sm_pubkey smb))"
    and p: "hello_ready p pl" and fits: "frame_fits p"
  obtains sma' q smb' r sma'' r' where
    "CreateHello C ts kda ida sma p (sm_peerid smb) ra = Some (sma', Inr q)"
    "HandleHello C kdb idb smb q rb = Some (smb', Inr r)"
    "HandleResponse C sma' r ra' = Some (sma'', Inr (r', sm_peerid smb))"
    "paired sma'' smb' ixb" "Hello_MsgType q = Hello_MsgType p" "Response_MsgType r = Some ResponseMsgType"
    "Response_SenderIndex r = Some ixa" "Response_SessionIndex r = Some ixb"
    "\<And>k. k \<noteq> ixb \<Longrightarrow> store sma'' k = store sma k \<and> store smb' k = store smb k"
proof -
  have wf: "wf_priv (sm_privkey sma)" "wf_priv (sm_privkey smb)"
    and keys: "sm_pubkey smb = PrivateKey_PublicKey C (sm_privkey smb)" "sm_peerid smb = NewPeerID (sm_pubkey smb)"
      "sm_peerid sma = NewPeerID (PrivateKey_PublicKey C (sm_privkey sma))"
    using inv by (auto simp: sm_inv_def)
  have pk: "PeerID_PublicKey (sm_peerid smb) = sm_pubkey smb" using keys wf_PublicKey [OF C] by simp
  obtain i i' hdr ct q where i: "fresh_initiator C (sm_pubkey smb) i" "localStatic i = sm_privkey sma"
    "sendNonce i = 0" and mk: "MakeHello C ts i pl = (i', Inr (hdr, ct))"
    and step1: "CreateHello C ts kda ida sma p (sm_peerid smb) ra =
      Some (set_session sma ixa (with_addr ra (newSession (sm_peerid smb) i')), Inr q)"
    and q: "hello_carries q ixa hdr ct" "Offset q = Offset p" "Padding q = Padding p"
    "length (fbuf q) = length (fbuf p)" "Length (base q) = Length (base p)" "Hello_MsgType q = Hello_MsgType p"
    using CreateHello_run [OF C wf(1) ts ea ia, unfolded pk, OF _ _ p] ss es pk by metis
  have fq: "frame_fits q" "Length (base q) - Padding q \<le> int (length (fbuf q))"
    using q fits p by (auto simp: frame_fits_def hello_ready_def)
  obtain r1 r2 pl2 hdr2 ct2 r s where
    step2: "HandleHello C kdb idb smb q rb = Some (set_session smb ixb s, Inr r)"
    and ah: "after_hello C i' r1" and mr: "MakeResponse C r1 pl2 = (r2, Inr (hdr2, ct2))"
    and r: "response_carries r ixa ixb hdr2 ct2" "Offset r = Offset q" "Padding r = Padding q"
      "length (fbuf r) = TptMTU" "Length (base r) = int TptMTU"
    and s: "handshake s = r2" "remotePeerID s = sm_peerid sma"
    using HandleHello_run [OF C wf(2) ts i(1)[unfolded keys(1)] mk eb ib q(1) fq] i(2) keys(3) by metis
  let ?sma = "set_session sma ixa (with_addr ra (newSession (sm_peerid smb) i'))"
  have "remoteStatic i' = sm_pubkey smb"
    using MakeHello_frame [OF mk] i(1) by (auto simp: fresh_initiator_def)
  then have h: "store ?sma ixa = Some (Some (with_addr ra (newSession (sm_peerid smb) i')))"
    "handshake (with_addr ra (newSession (sm_peerid smb) i')) = i'"
    "initiator (with_addr ra (newSession (sm_peerid smb) i'))"
    "stage (with_addr ra (newSession (sm_peerid smb) i')) = 1"
    "remotePeerID (with_addr ra (newSession (sm_peerid smb) i')) = NewPeerID (remoteStatic i')"
    "waiters (with_addr ra (newSession (sm_peerid smb) i')) = []"
    using keys(2) by (simp_all add: newSession_def)
  have room: "0 \<le> Offset r" "Length (base r) - Padding r \<le> int (length (fbuf r))"
    using r q fits by (simp_all add: frame_fits_def)
  have pid: "remotePeerID (with_addr ra (newSession (sm_peerid smb) i')) = sm_peerid smb"
    by (simp add: newSession_def)
  obtain i2 r' where step3: "HandleResponse C ?sma r ra' =
      Some (set_session (Remove ?sma ixa) ixb (with_addr ra' ((with_addr ra (newSession (sm_peerid smb) i'))
         \<lparr>handshake := i2, stage := 3\<rparr>)), Inr (r', sm_peerid smb))"
    and m: "matched i2 r2"
    using HandleResponse_run [OF C ah mr r(1) h room, of ra'] unfolding pid by metis
  have "store sma ixa = None" "store smb ixb = None"
    using ia ib fresh_index_fresh by blast+
  then have rest: "store (set_session (Remove ?sma ixa) ixb t) k = store sma k \<and>
      store (set_session smb ixb s) k = store smb k" if "k \<noteq> ixb" for k t
    using that by (auto simp: set_session_def Remove_def)
  have "paired (set_session (Remove ?sma ixa) ixb (with_addr ra' ((with_addr ra (newSession (sm_peerid smb) i'))
         \<lparr>handshake := i2, stage := 3\<rparr>))) (set_session smb ixb s) ixb"
    using m s by (auto simp: paired_def set_session_def Remove_def newSession_def)
  with that step1 step2 step3 rest q(6) r(1) show thesis by (simp add: response_carries_def)
qed


section \<open>Data\<close>

text \<open>A data packet whose payload \<open>pl\<close> is in place, with room for the authentication tag.\<close>

definition data_ready :: "DataPacket \<Rightarrow> bytes \<Rightarrow> bool" where
  "data_ready p pl \<longleftrightarrow>
     0 \<le> Offset p \<and> Data_Plaintext p = Some pl \<and> Length (base p) - Padding p \<le> int (length (fbuf p))"

definition data_carries :: "DataPacket \<Rightarrow> u32 \<Rightarrow> MessageHeader \<Rightarrow> bytes \<Rightarrow> bool" where
  "data_carries q ix hdr ct \<longleftrightarrow>
     Data_MsgType q = Some DataMsgType \<and> Data_SessionIndex q = Some ix \<and>
     Data_Nonce q = Some (mh_Nonce hdr) \<and> Data_Ciphertext q = Some ct"

lemma data_readyD:
  assumes "data_ready p pl"
  shows "0 \<le> Offset p" "Offset p + 16 + int (length pl) + 16 \<le> int (length (fbuf p))"
    "Length (base p) = Offset p + 16 + int (length pl) + 16 + Padding p" "Data_Plaintext p = Some pl"
  using assms by (auto simp: data_ready_def Data_Plaintext_def slice_of_def split: if_splits)

lemma data_puts_total:
  assumes "0 \<le> Offset p" and "Offset p + 16 + int (length ct) \<le> int (length (fbuf p))"
  obtains p1 p2 p3 p4 where "Data_SetMsgType p mt = Some p1" "Data_SetSessionIndex p1 ix = Some p2"
    "Data_SetNonce p2 nonce = Some p3" "Data_SetCiphertext p3 ct = Some p4"
proof -
  obtain p1 where p1: "Data_SetMsgType p mt = Some p1" using data_mt.put_total [of p] assms by auto
  note k1 = data_mt.put_keeps [OF p1]
  obtain p2 where p2: "Data_SetSessionIndex p1 ix = Some p2" using data_idx.put_total [of p1] assms k1 by auto
  note k2 = data_idx.put_keeps [OF p2]
  obtain p3 where p3: "Data_SetNonce p2 nonce = Some p3" using data_nonce.put_total [of p2] assms k1 k2 by auto
  note k3 = data_nonce.put_keeps [OF p3]
  obtain p4 where "Data_SetCiphertext p3 ct = Some p4"
    using data_ct.put_total [of p3] assms k1 k2 k3 by auto
  with p1 p2 p3 that show thesis by blast
qed

lemma CreateData_run:
  assumes C: "crypto_ok C" and found: "Find order sm pid = Some (Some (s, ix))"
    and m: "matched (handshake s) b" and p: "data_ready p pl"
  obtains hs hdr ct q where "MakeMessage C (handshake s) pl = (hs, Inr (hdr, ct))"
    "CreateData C order sm p pid = Some (set_session sm ix (s\<lparr>handshake := hs\<rparr>), Inr (q, remoteAddr s))"
    "data_carries q ix hdr ct" "Offset q = Offset p" "Padding q = Padding p"
    "length (fbuf q) = length (fbuf p)" "Length (base q) = Length (base p)" "keeps_upto 0 p q"
    "base q = (base p)\<lparr>Buf := fbuf q\<rparr>"
proof -
  obtain hs hdr ct where mk: "MakeMessage C (handshake s) pl = (hs, Inr (hdr, ct))"
    using m MakeMessage_ok [of "handshake s" _ C pl] by (auto simp: matched_def)
  note rt = message_roundtrip [OF C m mk] and p' = data_readyD [OF p]
  have "Offset p + 16 + int (length ct) \<le> int (length (fbuf p))" using p' rt(3) by simp
  from data_puts_total [OF p'(1) this] obtain p1 p2 p3 q where
    w: "Data_SetMsgType p DataMsgType = Some p1" "Data_SetSessionIndex p1 ix = Some p2"
    "Data_SetNonce p2 (mh_Nonce hdr) = Some p3" "Data_SetCiphertext p3 ct = Some q" by metis
  note out = data_written [OF w rt(4)]
  have "CreateData C order sm p pid = Some (set_session sm ix (s\<lparr>handshake := hs\<rparr>), Inr (q, remoteAddr s))"
    using found mk w p' by (simp add: CreateData_def)
  moreover have len: "Length (base q) = Length (base p)" using out p' rt(3) by simp
  moreover have "base q = (base p)\<lparr>Buf := fbuf q\<rparr>"
    using out(7) unfolding len by (metis Packet.surjective Packet.update_convs(1,2))
  ultimately show thesis
    using that mk out keeps_uptoD [OF out(5)] by (simp add: data_carries_def)
qed

lemma HandleData_run:
  assumes C: "crypto_ok C" and s: "store sm ix = Some (Some s)"
    and con: "ConsumeMessage C (handshake s) hdr ct = Inr pl" and q: "data_carries q ix hdr ct"
    and len: "length ct = length pl + 16"
    and room: "0 \<le> Offset q" "Length (base q) - Padding q \<le> int (length (fbuf q))"
  obtains q' where "HandleData C sm q =
      Some (if stage s = 3 then sm else set_session sm ix (s\<lparr>stage := 3\<rparr>),
            Inr (q', remotePeerID s, stage s \<noteq> 3))"
    "Data_Plaintext q' = Some pl" "Offset q' = Offset q" "Padding q' = Padding q"
    "Length (base q') = Length (base q)" "keeps_upto 16 q q'"
proof -
  have *: "Offset q + 16 + int (length ct) = Length (base q) - Padding q"
    using q by (auto simp: data_carries_def Data_Ciphertext_def slice_of_def split: if_splits)
  then obtain q' where q': "Data_SetPlaintext q pl = Some q'"
    using data_pt.put_total [OF TrueI room(1), of pl] room(2) len by auto
  note k = data_pt.put_keeps [OF q' TrueI] and l = data_pt.put_length [OF q' TrueI]
  have "HandleData C sm q = Some (if stage s = 3 then sm else set_session sm ix (s\<lparr>stage := 3\<rparr>),
            Inr (q', remotePeerID s, stage s \<noteq> 3))"
    using s con q q' by (simp add: HandleData_def Get_def data_carries_def)
  with that data_pt.get_put [OF q' TrueI] keeps_uptoD [OF k] k l * len show thesis by simp
qed

text \<open>
  Data sent by one end arrives at the other: the payload is restored, the sender is
  identified, and the two tables stay paired.
\<close>

lemma data_exchange:
  assumes C: "crypto_ok C" and pair: "paired sma smb ix"
    and found: "Find order sma (sm_peerid smb) = Some (Some (a, ix))" and p: "data_ready p pl"
  obtains sma' q smb' q' first where
    "CreateData C order sma p (sm_peerid smb) = Some (sma', Inr (q, remoteAddr a))"
    "HandleData C smb q = Some (smb', Inr (q', sm_peerid sma, first))"
    "Data_Plaintext q' = Some pl" "Data_MsgType q = Some DataMsgType" "paired sma' smb' ix"
    "keeps_upto 0 p q'" "Length (base q') = Length (base p)"
proof -
  have "store sma ix = Some (Some a)" using found by (auto simp: Find_def dest: find_loop_Some)
  with pair obtain b where b: "store smb ix = Some (Some b)" "matched (handshake a) (handshake b)"
    "remotePeerID a = sm_peerid smb" "remotePeerID b = sm_peerid sma"
    by (auto simp: paired_def)
  obtain hs hdr ct q where mk: "MakeMessage C (handshake a) pl = (hs, Inr (hdr, ct))"
    and step1: "CreateData C order sma p (sm_peerid smb) = Some (set_session sma ix (a\<lparr>handshake := hs\<rparr>), Inr (q, remoteAddr a))"
    and q: "data_carries q ix hdr ct" "Offset q = Offset p" "Padding q = Padding p"
      "length (fbuf q) = length (fbuf p)" "Length (base q) = Length (base p)" "keeps_upto 0 p q"
    using CreateData_run [OF C found b(2) p] by metis
  note rt = message_roundtrip [OF C b(2) mk]
  have room: "0 \<le> Offset q" "Length (base q) - Padding q \<le> int (length (fbuf q))"
    using q p by (auto simp: data_ready_def)
  obtain q' where step2: "HandleData C smb q =
      Some (if stage b = 3 then smb else set_session smb ix (b\<lparr>stage := 3\<rparr>), Inr (q', remotePeerID b, stage b \<noteq> 3))"
    and q': "Data_Plaintext q' = Some pl" "Length (base q') = Length (base q)" "keeps_upto 16 q q'"
    using HandleData_run [OF C b(1) rt(1) q(1) rt(3) room] by metis
  have "paired (set_session sma ix (a\<lparr>handshake := hs\<rparr>))
      (if stage b = 3 then smb else set_session smb ix (b\<lparr>stage := 3\<rparr>)) ix"
    using rt(2) b by (auto simp: paired_def set_session_def)
  moreover have "keeps_upto 0 p q'" using q(6) q'(3) q(2) by (auto simp: keeps_upto_def)
  ultimately show thesis using that step1 step2 q' q(1,5) b(4) by (simp add: data_carries_def)
qed


section \<open>No panics\<close>

text \<open>
  A received packet is long enough for its header: \<open>n\<close> bytes of header, then a body that ends
  inside the buffer.
\<close>

definition long_enough :: "int \<Rightarrow> Framed \<Rightarrow> bool" where
  "long_enough n p \<longleftrightarrow>
     0 \<le> Offset p \<and> Offset p + n \<le> Length (base p) - Padding p \<and> Length (base p) - Padding p \<le> int (length (fbuf p))"

lemma slice_get:
  assumes "0 \<le> i" and "i \<le> j" and "j \<le> int (length b)"
  obtains xs where "slice_of b i j = Some xs" "length xs = nat (j - i)"
  using slice_total [OF assms] slice_length by blast

lemma be_uint32_total: "length xs = 4 \<Longrightarrow> \<exists>v. be_uint32 xs = Some v"
  by (auto simp: length_Suc_conv numeral_eq_Suc)

lemma index_total:
  assumes "0 \<le> i" and "i + 4 \<le> int (length b)"
  shows "\<exists>v. Option.bind (slice_of b i (i + 4)) be_uint32 = Some v"
proof -
  from assms obtain xs where "slice_of b i (i + 4) = Some xs" "length xs = 4"
    by (auto intro: slice_get [of i "i + 4" b])
  with be_uint32_total show ?thesis by simp
qed

lemma ConsumeHello_length:
  "crypto_ok C \<Longrightarrow> ConsumeHello C hs hdr ct = (hs', Inr pl) \<Longrightarrow> length ct = length pl + 16"
  by (auto simp: ConsumeHello_def Let_def case_prod_beta crypto_okD split: if_splits option.splits)

lemma ConsumeResponse_length:
  "crypto_ok C \<Longrightarrow> ConsumeResponse C hs hdr ct = (hs', Inr pl) \<Longrightarrow> length ct = length pl + 16"
  by (auto simp: ConsumeResponse_def Let_def case_prod_beta crypto_okD split: if_splits option.splits)

lemma ConsumeMessage_length:
  "crypto_ok C \<Longrightarrow> ConsumeMessage C hs hdr ct = Inr pl \<Longrightarrow> length ct = length pl + 16"
  by (auto simp: ConsumeMessage_def crypto_okD split: option.splits)

lemma hello_getters_total:
  assumes "long_enough 116 p"
  obtains ix hdr ct where "hello_carries p ix hdr ct"
proof -
  have b: "0 \<le> Offset p" "Offset p + 116 \<le> int (length (fbuf p))" using assms by (auto simp: long_enough_def)
  obtain ix where "Hello_SenderIndex p = Some ix"
    using index_total [of "Offset p + 4" "fbuf p"] b by (auto simp: Hello_SenderIndex_def add.assoc)
  moreover obtain e where "Hello_EphemeralKey p = Some e"
    using slice_total [of "Offset p + 8" "Offset p + 40" "fbuf p"] b by (auto simp: Hello_EphemeralKey_def)
  moreover obtain s where "Hello_StaticKey p = Some s"
    using slice_total [of "Offset p + 40" "Offset p + 88" "fbuf p"] b by (auto simp: Hello_StaticKey_def)
  moreover obtain t where "Hello_Timestamp p = Some t"
    using slice_total [of "Offset p + 88" "Offset p + 116" "fbuf p"] b by (auto simp: Hello_Timestamp_def)
  moreover obtain ct where "Hello_Ciphertext p = Some ct"
    using slice_total [of "Offset p + 116" "Length (base p) - Padding p" "fbuf p"] assms
    by (auto simp: Hello_Ciphertext_def long_enough_def)
  ultimately show thesis
    using that [of ix "\<lparr>hh_Ephemeral = e, hh_Static = s, hh_Timestamp = t\<rparr>" ct] by (simp add: hello_carries_def)
qed

lemma HandleHello_total:
  assumes C: "crypto_ok C" and e: "GeneratePrivateKey C kd = Some (Inr e)"
    and ix: "fresh_index (store sm) ids = Some ix" and fits: "frame_fits p" and long: "long_enough 116 p"
  shows "\<exists>x. HandleHello C kd ids sm p ra = Some x"
proof -
  obtain sidx hdr ct where q: "hello_carries p sidx hdr ct" using hello_getters_total [OF long] .
  obtain r where r: "NewHandshakeResponder C kd (sm_privkey sm) = Some (Inr r)"
    using e by (simp add: NewHandshakeResponder_def)
  have room: "Length (base p) - Padding p \<le> int (length (fbuf p))" using long by (simp add: long_enough_def)
  obtain r1 y where y: "ConsumeHello C r hdr ct = (r1, y)" by fastforce
  show ?thesis
  proof (cases y)
    case (Inl a)
    with y q r show ?thesis
      by (simp add: HandleHello_def Session_HandleHello_def hello_carries_def newSessionIncoming_def)
  next
    case (Inr pl)
    with y have con: "ConsumeHello C r hdr ct = (r1, Inr pl)" by simp
    have role: "\<not> hs_initiator r1"
      using ConsumeHello_frame(1) [OF con] NewHandshakeResponder_frame [OF r] by simp
    obtain q' where q': "Session_HandleHello C (newSessionIncoming r) p =
        Some ((newSessionIncoming r)\<lparr>handshake := r1, remotePeerID := NewPeerID (RemotePublicKey r1)\<rparr>, Inr q')"
        "Hello_SenderIndex q' = Some sidx" "Offset q' = Offset p" "Padding q' = Padding p"
      using Session_HandleHello_run [OF con q ConsumeHello_length [OF C con] fits room] by metis
    let ?s = "(newSessionIncoming r)\<lparr>handshake := r1, remotePeerID := NewPeerID (RemotePublicKey r1)\<rparr>"
    obtain p0 p1 pl2 r2 hdr2 ct2 p2 p3 where
      m: "NewResponsePacket (NewPacket (replicate TptMTU 0)) (Offset p) (Padding p) = Some p0"
        "Response_SetSenderIndex p0 sidx = Some p1" "MakeResponse C r1 pl2 = (r2, Inr (hdr2, ct2))"
        "\<forall>s. \<not> initiator s \<and> handshake s = r1 \<longrightarrow>
           Session_CreateResponse C s p1 = Some (s\<lparr>handshake := r2\<rparr>, Inr p2)"
        "Response_SetSessionIndex p2 ix = Some p3"
      by (rule response_made [OF C role fits, of sidx ix]) (rule that)
    show ?thesis
      using r q' m(1,2,5) m(4) [rule_format, of ?s] Insert_run [OF ix]
      by (simp add: HandleHello_def Let_def newSessionIncoming_def)
  qed
qed

lemma Session_HandleHelloResponse_total:
  assumes C: "crypto_ok C" and long: "long_enough 60 p"
  shows "\<exists>x. Session_HandleHelloResponse C s p = Some x"
proof -
  have b: "0 \<le> Offset p" "Offset p + 60 \<le> int (length (fbuf p))" using long by (auto simp: long_enough_def)
  obtain e where e: "Response_EphemeralKey p = Some e"
    using slice_total [of "Offset p + 12" "Offset p + 44" "fbuf p"] b by (auto simp: Response_EphemeralKey_def)
  obtain t where t: "Response_Empty p = Some t"
    using slice_total [of "Offset p + 44" "Offset p + 60" "fbuf p"] b by (auto simp: Response_Empty_def)
  obtain ct where ct: "Response_Ciphertext p = Some ct"
    using slice_total [of "Offset p + 60" "Length (base p) - Padding p" "fbuf p"] long
    by (auto simp: Response_Ciphertext_def long_enough_def)
  have "\<exists>q. Response_SetPlaintext p pl = Some q"
    if "ConsumeResponse C (handshake s) \<lparr>rh_Ephemeral = e, rh_Empty = t\<rparr> ct = (hs, Inr pl)" for hs pl
    using ConsumeResponse_length [OF C that] ct long
    by (intro resp_pt.put_total [OF TrueI b(1)])
      (auto simp: Response_Ciphertext_def slice_of_def long_enough_def split: if_splits)
  with e t ct show ?thesis
    by (fastforce simp: Session_HandleHelloResponse_def Let_def split: prod.splits sum.splits)
qed

lemma HandleResponse_total:
  assumes C: "crypto_ok C" and inv: "sm_inv C sm" and long: "long_enough 60 p"
  shows "\<exists>x. HandleResponse C sm p ra = Some x"
proof -
  have b: "0 \<le> Offset p" "Offset p + 60 \<le> int (length (fbuf p))" using long by (auto simp: long_enough_def)
  obtain i where i: "Response_SenderIndex p = Some i"
    using index_total [of "Offset p + 4" "fbuf p"] b by (auto simp: Response_SenderIndex_def add.assoc)
  obtain j where j: "Response_SessionIndex p = Some j"
    using index_total [of "Offset p + 8" "fbuf p"] b by (auto simp: Response_SessionIndex_def add.assoc)
  show ?thesis
  proof (cases "store sm i")
    case None
    with i show ?thesis by (simp add: HandleResponse_def Get_def)
  next
    case (Some ptr)
    with sm_inv_no_nil [OF inv] obtain s where s: "store sm i = Some (Some s)" by (cases ptr) auto
    obtain s' r where run: "Session_HandleHelloResponse C s p = Some (s', r)"
      using Session_HandleHelloResponse_total [OF C long, of s] by auto
    with i j s HandleHelloResponse_header show ?thesis
      by (cases r) (fastforce simp: HandleResponse_def Get_def Let_def)+
  qed
qed

lemma HandleData_total:
  assumes C: "crypto_ok C" and inv: "sm_inv C sm" and long: "long_enough 16 p"
  shows "\<exists>x. HandleData C sm p = Some x"
proof -
  have b: "0 \<le> Offset p" "Offset p + 16 \<le> int (length (fbuf p))" using long by (auto simp: long_enough_def)
  obtain i where i: "Data_SessionIndex p = Some i"
    using index_total [of "Offset p + 4" "fbuf p"] b by (auto simp: Data_SessionIndex_def add.assoc)
  obtain n where n: "Data_Nonce p = Some n"
    using slice_total [of "Offset p + 8" "Offset p + 16" "fbuf p"] b by (auto simp: Data_Nonce_def)
  obtain ct where ct: "Data_Ciphertext p = Some ct"
    using slice_total [of "Offset p + 16" "Length (base p) - Padding p" "fbuf p"] long
    by (auto simp: Data_Ciphertext_def long_enough_def)
  have "\<exists>q. Data_SetPlaintext p pl = Some q" if "ConsumeMessage C hs hdr ct = Inr pl" for hs hdr pl
    using ConsumeMessage_length [OF C that] ct long
    by (intro data_pt.put_total [OF TrueI b(1)])
      (auto simp: Data_Ciphertext_def slice_of_def long_enough_def split: if_splits)
  with i n ct sm_inv_no_nil [OF inv, of i] show ?thesis
    by (fastforce simp: HandleData_def Get_def split: option.splits sum.splits)
qed

text \<open>A hello packet shorter than its header makes \<^verbatim>\<open>HandleHello\<close> panic.\<close>

lemma HandleHello_short:
  assumes "GeneratePrivateKey C kd = Some (Inr e)" and "Length (base p) - Padding p < Offset p + 116"
  shows "HandleHello C kd ids sm p ra = None"
  using assms
  by (auto simp: HandleHello_def NewHandshakeResponder_def Session_HandleHello_def newSessionIncoming_def
      Hello_Ciphertext_def slice_of_def split: Option.bind_splits)

end
