(* ===== verification/Forwarder.thy ===== *)
theory Forwarder
  imports Packets
begin

text \<open>
  \<^verbatim>\<open>node/forwarder/forwarder.go\<close>: the packet switch of a node.

  A slot holds a peer and the function that sends to it. Send functions are closures of the code that
  attaches a peer; here a slot holds a value of a type parameter that stands for the closure, and
  an operation that ends with a call of a send function returns that value with the packet
  it is called on. The entry \<^verbatim>\<open>nullSlotEntry\<close>, which is compared by identity, is a constructor of
  its own. A missing key of the map of slots reads as a nil pointer.
\<close>

definition NumSlots :: nat where "NumSlots = 256"
definition HopLength :: int where "HopLength = 1"
definition DataMulticodec :: u64 where "DataMulticodec = 0x12345"

datatype 's slotentry = NullSlot | Slot PeerID 's

fun slot_peerid :: "'s slotentry \<Rightarrow> PeerID" where
  "slot_peerid NullSlot = emptyPeerID"
| "slot_peerid (Slot p s) = p"

record 's Forwarder =
  slots :: "nat \<Rightarrow> 's slotentry option"
  bypeer :: "PeerID \<Rightarrow> nat option"

definition NewForwarder :: "'s Forwarder" where
  "NewForwarder =
     \<lparr>slots = fold (\<lambda>i m. m(i \<mapsto> NullSlot)) [0..<NumSlots] Map.empty, bypeer = Map.empty\<rparr>"

text \<open>The loop of \<^verbatim>\<open>Attach\<close>, from slot \<open>i\<close> on.\<close>

fun attach_loop :: "'s Forwarder \<Rightarrow> PeerID \<Rightarrow> 's \<Rightarrow> nat list \<Rightarrow> 's Forwarder \<times> (err + Route)" where
  "attach_loop fwd peerid send [] = (fwd, Inl (Errorf ''no free slots''))"
| "attach_loop fwd peerid send (i # rest) =
     (if slots fwd i = Some NullSlot
      then (fwd\<lparr>slots := (slots fwd)(i \<mapsto> Slot peerid send), bypeer := (bypeer fwd)(peerid \<mapsto> i)\<rparr>,
            Inr (NewRoute [of_nat i]))
      else attach_loop fwd peerid send rest)"

definition Attach :: "'s Forwarder \<Rightarrow> PeerID \<Rightarrow> 's \<Rightarrow> 's Forwarder \<times> (err + Route)" where
  "Attach fwd peerid send = attach_loop fwd peerid send [0..<NumSlots]"

text \<open>The loop of \<^verbatim>\<open>Detach\<close>: \<open>None\<close> is the dereference of a nil pointer.\<close>

fun detach_loop :: "'s Forwarder \<Rightarrow> PeerID \<Rightarrow> nat list \<Rightarrow> ('s Forwarder \<times> err option) option" where
  "detach_loop fwd peerid [] = Some (fwd, Some (Errorf ''slot entry not found''))"
| "detach_loop fwd peerid (i # rest) = do {
     se \<leftarrow> slots fwd i;
     if PeerID_Equal (slot_peerid se) peerid
     then Some (fwd\<lparr>slots := (slots fwd)(i \<mapsto> NullSlot), bypeer := (bypeer fwd)(peerid := None)\<rparr>, None)
     else detach_loop fwd peerid rest }"

definition Detach :: "'s Forwarder \<Rightarrow> PeerID \<Rightarrow> ('s Forwarder \<times> err option) option" where
  "Detach fwd peerid = detach_loop fwd peerid [0..<NumSlots]"

section \<open>Forwarding\<close>

text \<open>
  Calling the send function of a slot. That of \<^verbatim>\<open>nullSlotEntry\<close> formats an error message from the
  packet, which reads its route and its bytes.
\<close>

fun slot_send :: "'s slotentry \<Rightarrow> LowerPacket \<Rightarrow> (err + 's \<times> LowerPacket) option" where
  "slot_send (Slot p s) pkt = Some (Inr (s, pkt))"
| "slot_send NullSlot pkt = do {
     _ \<leftarrow> UpperPacket_Route (NewUpperPacket (lbase pkt));
     _ \<leftarrow> Packet_Bytes (lbase pkt);
     Some (Inl (Errorf ''forwarder: dropping packet for unknown destination'')) }"

definition set_LowerDst :: "LowerPacket \<Rightarrow> PeerID \<Rightarrow> LowerPacket" where
  "set_LowerDst pkt pid = pkt\<lparr>lbase := (lbase pkt)\<lparr>LowerDst := pid\<rparr>\<rparr>"

text \<open>
  \<^verbatim>\<open>buf\<close> is the 16-byte slice of the packet's buffer with the route label: indexing it is checked
  against its length, and writing to it writes through to the packet.
\<close>

definition put_label :: "LowerPacket \<Rightarrow> bytes \<Rightarrow> LowerPacket option" where
  "put_label pkt buf = do {
     b \<leftarrow> copy_at (Buf (lbase pkt)) FwdOffset (FwdOffset + 16) buf;
     Some (pkt\<lparr>lbase := (lbase pkt)\<lparr>Buf := b\<rparr>\<rparr>) }"

definition Forwarder_HandlePacket :: "'s Forwarder \<Rightarrow> LowerPacket \<Rightarrow> (err + 's \<times> LowerPacket) option" where
  "Forwarder_HandlePacket fwd pkt = do {
     buf \<leftarrow> slice_of (Buf (lbase pkt)) FwdOffset (FwdOffset + 16);
     lb \<leftarrow> idx buf 1;
     let len = int (unat lb);
     if len = 0 then Some (Inl ErrZeroLenRoute) else do {
       pb \<leftarrow> idx buf 0;
       let pos = int (unat pb);
       if pos > len then Some (Inl ErrLoopRoute) else do {
         nb \<leftarrow> idx buf (2 + pos + 1);
         let nxt = unat nb;
         (case bypeer fwd (LowerSrc (lbase pkt)) of
            None \<Rightarrow> Some (Inl ErrPrevHopUnknown)
          | Some prev \<Rightarrow> do {
              buf \<leftarrow> upd buf (2 + pos) (of_nat prev);
              if pos = len - 1 then do {
                pkt \<leftarrow> put_label pkt buf;
                se \<leftarrow> slots fwd 0;
                slot_send se pkt }
              else do {
                buf \<leftarrow> upd buf 0 (of_int (pos + 1));
                pkt \<leftarrow> put_label pkt buf;
                se \<leftarrow> slots fwd nxt;
                slot_send se (set_LowerDst pkt (slot_peerid se)) } }) } } }"

text \<open>The index \<^verbatim>\<open>2+buf[0]\<close> is computed in a byte.\<close>

definition SendRaw :: "'s Forwarder \<Rightarrow> LowerPacket \<Rightarrow> (err + 's \<times> LowerPacket) option" where
  "SendRaw fwd lpkt = do {
     buf \<leftarrow> LowerPacket_Payload lpkt;
     b0 \<leftarrow> idx buf 0;
     nb \<leftarrow> idx buf (int (unat (2 + b0 :: byte)));
     let nxt = unat nb;
     se \<leftarrow> slots fwd nxt;
     slot_send se (set_LowerDst lpkt (slot_peerid se)) }"

definition SendPacket :: "varint \<Rightarrow> 's Forwarder \<Rightarrow> UpperPacket \<Rightarrow> (err + 's \<times> LowerPacket) option" where
  "SendPacket V fwd upkt = do {
     rt \<leftarrow> UpperPacket_Route upkt;
     let len = Route_Len rt;
     if len = 0 then Some (Inl ErrZeroLenRoute)
     else if len > 14 then Some (Inl ErrRouteTooLong)
     else do {
       lpkt \<leftarrow> LowerPacket_SetCodec V (NewLowerPacket (base upkt)) DataMulticodec;
       SendRaw fwd lpkt } }"

section \<open>The table of slots\<close>

text \<open>Every slot exists, and the slot recorded for a peer is one that sends to it.\<close>

definition fwd_inv :: "'s Forwarder \<Rightarrow> bool" where
  "fwd_inv fwd \<longleftrightarrow>
     dom (slots fwd) = {..<NumSlots} \<and>
     (\<forall>pid i. bypeer fwd pid = Some i \<longrightarrow> (\<exists>s. slots fwd i = Some (Slot pid s)))"

lemma fwd_inv_slot: "fwd_inv fwd \<Longrightarrow> \<exists>se. slots fwd (unat (b :: byte)) = Some se"
  using unat_byte_less [of b] by (auto simp: fwd_inv_def NumSlots_def)

lemma fwd_inv_bypeer: "fwd_inv fwd \<Longrightarrow> bypeer fwd pid = Some i \<Longrightarrow> i < 256"
  unfolding fwd_inv_def NumSlots_def by (metis domI lessThan_iff)

lemma fwd_inv_New: "fwd_inv NewForwarder"
proof -
  have "dom (fold (\<lambda>i m. m(i \<mapsto> NullSlot)) xs m) = set xs \<union> dom m" for xs and m :: "nat \<Rightarrow> 's slotentry option"
    by (induction xs arbitrary: m) auto
  from this [of "[0..<NumSlots]" Map.empty] show ?thesis
    by (simp add: fwd_inv_def NewForwarder_def atLeast0LessThan del: upt_conv_Cons)
qed

lemma attach_loop_outcome:
  "attach_loop fwd pid s is = (fwd', r) \<Longrightarrow>
     (fwd' = fwd \<and> r = Inl (Errorf ''no free slots'') \<and> (\<forall>i\<in>set is. slots fwd i \<noteq> Some NullSlot)) \<or>
     (\<exists>i ys zs. is = ys @ i # zs \<and> (\<forall>j\<in>set ys. slots fwd j \<noteq> Some NullSlot) \<and> slots fwd i = Some NullSlot \<and>
        r = Inr (NewRoute [of_nat i]) \<and>
        fwd' = fwd\<lparr>slots := (slots fwd)(i \<mapsto> Slot pid s), bypeer := (bypeer fwd)(pid \<mapsto> i)\<rparr>)"
proof (induction "is")
  case (Cons j "is")
  show ?case
  proof (cases "slots fwd j = Some NullSlot")
    case True
    with Cons.prems have "j # is = [] @ j # is \<and> (\<forall>j\<in>set []. slots fwd j \<noteq> Some NullSlot) \<and> slots fwd j = Some NullSlot \<and>
        r = Inr (NewRoute [of_nat j]) \<and>
        fwd' = fwd\<lparr>slots := (slots fwd)(j \<mapsto> Slot pid s), bypeer := (bypeer fwd)(pid \<mapsto> j)\<rparr>" by simp
    then show ?thesis by blast
  next
    case False
    with Cons.prems have "attach_loop fwd pid s is = (fwd', r)" by simp
    from Cons.IH [OF this] show ?thesis
    proof (elim disjE exE)
      fix i ys zs
      assume "is = ys @ i # zs \<and> (\<forall>j\<in>set ys. slots fwd j \<noteq> Some NullSlot) \<and> slots fwd i = Some NullSlot \<and>
        r = Inr (NewRoute [of_nat i]) \<and>
        fwd' = fwd\<lparr>slots := (slots fwd)(i \<mapsto> Slot pid s), bypeer := (bypeer fwd)(pid \<mapsto> i)\<rparr>"
      with False have "j # is = (j # ys) @ i # zs \<and> (\<forall>j\<in>set (j # ys). slots fwd j \<noteq> Some NullSlot) \<and>
        slots fwd i = Some NullSlot \<and> r = Inr (NewRoute [of_nat i]) \<and>
        fwd' = fwd\<lparr>slots := (slots fwd)(i \<mapsto> Slot pid s), bypeer := (bypeer fwd)(pid \<mapsto> i)\<rparr>" by simp
      then show ?thesis by blast
    qed (use False in simp)
  qed
qed simp

lemma Attach_cases:
  assumes "Attach fwd pid s = (fwd', r)"
  obtains (full) "fwd' = fwd" "r = Inl (Errorf ''no free slots'')" "\<forall>i<NumSlots. slots fwd i \<noteq> Some NullSlot"
  | (free) i where "i < NumSlots" "\<forall>j<i. slots fwd j \<noteq> Some NullSlot" "slots fwd i = Some NullSlot"
      "r = Inr (NewRoute [of_nat i])"
      "fwd' = fwd\<lparr>slots := (slots fwd)(i \<mapsto> Slot pid s), bypeer := (bypeer fwd)(pid \<mapsto> i)\<rparr>"
proof -
  have upt: "i < NumSlots \<and> set ys = {0..<i}" if "[0..<NumSlots] = ys @ i # zs" for ys i zs
  proof -
    have "length ys < NumSlots" using arg_cong [OF that, of length] by simp
    moreover have "i = length ys" using arg_cong [OF that, of "\<lambda>xs. xs ! length ys"] calculation by simp
    moreover have "ys = [0..<length ys]" using arg_cong [OF that, of "take (length ys)"] calculation by simp
    ultimately show ?thesis using set_upt [of 0 "length ys"] by simp
  qed
  from attach_loop_outcome [OF assms [unfolded Attach_def]] show thesis
  proof (elim disjE exE conjE)
    fix i ys zs assume "[0..<NumSlots] = ys @ i # zs" "\<forall>j\<in>set ys. slots fwd j \<noteq> Some NullSlot"
      "slots fwd i = Some NullSlot" "r = Inr (NewRoute [of_nat i])"
      "fwd' = fwd\<lparr>slots := (slots fwd)(i \<mapsto> Slot pid s), bypeer := (bypeer fwd)(pid \<mapsto> i)\<rparr>"
    then show thesis using upt [of ys i zs] free by auto
  qed (use full in auto)
qed

lemma fwd_inv_Attach:
  assumes "fwd_inv fwd" and "Attach fwd pid s = (fwd', r)"
  shows "fwd_inv fwd'"
  using assms(2)
proof (cases rule: Attach_cases)
  case (free i)
  with assms(1) show ?thesis
    by (auto simp: fwd_inv_def NumSlots_def) (metis option.inject slotentry.distinct(1))+
qed (use assms(1) in simp)

lemma detach_loop_cases:
  assumes "detach_loop fwd pid is = Some (fwd', r)"
  obtains (absent) "fwd' = fwd" "r = Some (Errorf ''slot entry not found'')"
      "\<forall>i\<in>set is. \<forall>se. slots fwd i = Some se \<longrightarrow> slot_peerid se \<noteq> pid"
  | (found) i se where "i \<in> set is" "slots fwd i = Some se" "slot_peerid se = pid" "r = None"
      "fwd' = fwd\<lparr>slots := (slots fwd)(i \<mapsto> NullSlot), bypeer := (bypeer fwd)(pid := None)\<rparr>"
  using assms by (induction "is") (auto simp: PeerID_Equal_def split: if_splits Option.bind_splits)

lemma fwd_inv_Detach:
  assumes "fwd_inv fwd" and "Detach fwd pid = Some (fwd', r)"
  shows "fwd_inv fwd'"
  using assms(2) unfolding Detach_def
proof (cases rule: detach_loop_cases)
  case (found i se)
  with assms(1) show ?thesis
    by (auto simp: fwd_inv_def NumSlots_def) (metis option.inject slot_peerid.simps(2))+
qed (use assms(1) in simp)

lemma Detach_total: "fwd_inv fwd \<Longrightarrow> \<exists>x. Detach fwd pid = Some x"
proof -
  assume inv: "fwd_inv fwd"
  have "\<exists>x. detach_loop fwd pid is = Some x" if "set is \<subseteq> {..<NumSlots}" for "is"
    using that
  proof (induction "is")
    case (Cons i "is")
    then have "i \<in> dom (slots fwd)" using inv by (simp add: fwd_inv_def)
    then obtain se where "slots fwd i = Some se" by blast
    with Cons show ?case by simp
  qed simp
  from this [of "[0..<NumSlots]"] show ?thesis by (simp add: Detach_def atLeast0LessThan)
qed


inductive fwd_reachable :: "'s Forwarder \<Rightarrow> bool" where
  new: "fwd_reachable NewForwarder"
| attach: "fwd_reachable fwd \<Longrightarrow> Attach fwd pid s = (fwd', r) \<Longrightarrow> fwd_reachable fwd'"
| detach: "fwd_reachable fwd \<Longrightarrow> Detach fwd pid = Some (fwd', r) \<Longrightarrow> fwd_reachable fwd'"

lemma fwd_reachable_inv: "fwd_reachable fwd \<Longrightarrow> fwd_inv fwd"
  by (induction rule: fwd_reachable.induct) (auto intro: fwd_inv_New fwd_inv_Attach fwd_inv_Detach)

section \<open>Returning from HandlePacket\<close>

lemma slot_send_total:
  assumes "277 \<le> length (Buf (lbase pkt))" and "0 \<le> Length (lbase pkt)" "Length (lbase pkt) \<le> int (length (Buf (lbase pkt)))"
  shows "\<exists>r. slot_send se pkt = Some r"
proof (cases se)
  case NullSlot
  let ?b = "Buf (lbase pkt)"
  obtain l where l: "idx ?b 21 = Some l" using assms(1) by (simp add: idx_def)
  have "22 + int (unat l) \<le> int (length ?b)" using unat_byte_less [of l] assms(1) by linarith
  then obtain hs where "slice_of ?b 22 (22 + int (unat l)) = Some hs"
    using slice_total [of 22 "22 + int (unat l)" ?b] by auto
  moreover obtain bs where "Packet_Bytes (lbase pkt) = Some bs"
    using slice_total [of 0 "Length (lbase pkt)" ?b] assms(2,3) by (auto simp: Packet_Bytes_def)
  ultimately show ?thesis
    using NullSlot l by (simp add: UpperPacket_Route_def NewUpperPacket_def FwdOffset_def)
qed simp

lemma put_label_total:
  assumes "36 \<le> length (Buf (lbase pkt))" and "length h = 16"
  obtains pkt' where "put_label pkt h = Some pkt'" "length (Buf (lbase pkt')) = length (Buf (lbase pkt))"
    "Length (lbase pkt') = Length (lbase pkt)"
proof -
  obtain b where b: "copy_at (Buf (lbase pkt)) 20 36 h = Some b"
    using copy_at_total [of 20 36 "Buf (lbase pkt)" h] assms(1) by auto
  then have "put_label pkt h = Some (pkt\<lparr>lbase := (lbase pkt)\<lparr>Buf := b\<rparr>\<rparr>)"
    by (simp add: put_label_def FwdOffset_def)
  with that copy_at_length [OF b] show thesis by simp
qed

lemma HandlePacket_total:
  assumes inv: "fwd_inv fwd" and len: "277 \<le> length (Buf (lbase pkt))" "0 \<le> Length (lbase pkt)"
      "Length (lbase pkt) \<le> int (length (Buf (lbase pkt)))"
    and pos: "unat (Buf (lbase pkt) ! 20) \<le> 12"
  shows "\<exists>r. Forwarder_HandlePacket fwd pkt = Some r"
proof -
  let ?h = "take 16 (drop 20 (Buf (lbase pkt)))"
  have lh: "length ?h = 16" using len by simp
  have sl: "slice_of (Buf (lbase pkt)) FwdOffset (FwdOffset + 16) = Some ?h"
    using len by (simp add: slice_of_def FwdOffset_def)
  have h0: "idx ?h 0 = Some (Buf (lbase pkt) ! 20)" using len by (simp add: idx_def)
  obtain lb where h1: "idx ?h 1 = Some lb" unfolding idx_def lh by simp
  define p where "p = unat (Buf (lbase pkt) ! 20)"
  have p12: "p \<le> 12" and up: "uint (Buf (lbase pkt) ! 20) = int p" using pos by (simp_all add: p_def)
  obtain nb where hn: "idx ?h (3 + int p) = Some nb" using p12 unfolding idx_def lh by simp
  have send: "\<exists>r. Option.bind (put_label pkt h) (\<lambda>pkt. Option.bind (slots fwd (unat b)) (\<lambda>se. slot_send se (f se pkt))) = Some r"
    if h16: "length h = 16" and f: "\<And>se q. Buf (lbase (f se q)) = Buf (lbase q) \<and> Length (lbase (f se q)) = Length (lbase q)"
    for h f and b :: byte
  proof -
    have "36 \<le> length (Buf (lbase pkt))" using len by simp
    then obtain q where q: "put_label pkt h = Some q" "length (Buf (lbase q)) = length (Buf (lbase pkt))"
      "Length (lbase q) = Length (lbase pkt)" using put_label_total [OF _ h16] by metis
    obtain se where "slots fwd (unat b) = Some se" using fwd_inv_slot [OF inv] by blast
    with q slot_send_total [of "f se q" se] len f show ?thesis by simp
  qed
  show ?thesis
  proof (cases "bypeer fwd (LowerSrc (lbase pkt))")
    case None
    with sl h0 h1 hn up show ?thesis by (simp add: Forwarder_HandlePacket_def Let_def)
  next
    case (Some prev)
    obtain h2 where h2: "upd ?h (2 + int p) (of_nat prev) = Some h2" "length h2 = 16"
      using p12 unfolding upd_def lh by (simp del: length_take length_drop add: lh)
    obtain h3 where h3: "upd h2 0 (of_int (int p + 1)) = Some h3" "length h3 = 16"
      using h2(2) by (simp add: upd_def)
    have "\<exists>r. Option.bind (put_label pkt h2) (\<lambda>pkt. Option.bind (slots fwd 0) (\<lambda>se. slot_send se pkt)) = Some r"
      using send [OF h2(2), of "\<lambda>se q. q" 0] by simp
    moreover have "\<exists>r. Option.bind (put_label pkt h3) (\<lambda>pkt. Option.bind (slots fwd (unat nb))
        (\<lambda>se. slot_send se (set_LowerDst pkt (slot_peerid se)))) = Some r"
      using send [OF h3(2), of "\<lambda>se q. set_LowerDst q (slot_peerid se)" nb] by (simp add: set_LowerDst_def)
    ultimately show ?thesis
      using Some sl h0 h1 hn up h2 h3 by (simp add: Forwarder_HandlePacket_def Let_def)
  qed
qed

end
