(* ===== verification/Labels.thy ===== *)
theory Labels
  imports Forwarder
begin

text \<open>
  Route labels in a packet: what \<^verbatim>\<open>SetRoute\<close> writes, what \<^verbatim>\<open>Route\<close> reads, and what the forwarder makes
  of a label at each position of a route.
\<close>

section \<open>Labels\<close>

text \<open>The 16 bytes of a route label: position, length, the route, and zeros up to the end.\<close>

definition label :: "nat \<Rightarrow> bytes \<Rightarrow> bytes" where
  "label pos route = [of_nat pos, of_nat (length route)] @ route @ replicate (14 - length route) 0"

lemma length_label: "length route \<le> 14 \<Longrightarrow> length (label pos route) = 16"
  by (simp add: label_def)

lemma unat_small: "n < 256 \<Longrightarrow> unat (of_nat n :: byte) = n"
  by (simp add: unat_of_nat)

lemma uint_small: "n < 256 \<Longrightarrow> uint (of_nat n :: byte) = int n"
  using unat_small [of n] by (metis uint_nat)

lemma label_idx:
  assumes "length route \<le> 14"
  shows "idx (label pos route) 0 = Some (of_nat pos)" "idx (label pos route) 1 = Some (of_nat (length route))"
    "i < length route \<Longrightarrow> idx (label pos route) (2 + int i) = Some (route ! i)"
  using assms by (auto simp: label_def idx_def nth_append nat_add_distrib)

lemma label_upd:
  assumes "length route \<le> 14" and "i < length route"
  shows "upd (label pos route) (2 + int i) v = Some (label pos (route[i := v]))"
  using assms by (auto simp: label_def upd_def list_update_append nat_add_distrib)

lemma label_upd_pos: "upd (label pos route) 0 (of_nat pos') = Some (label pos' route)"
  by (simp add: label_def upd_def)

section \<open>Setting and reading the route\<close>

lemma zero_fill_window:
  assumes "off = int (length pre)" and "length h = 16" and "i \<le> 16"
  shows "zero_fill (pre @ h @ post) off (int i) = Some (pre @ (take i h @ replicate (16 - i) 0) @ post)"
  using assms(2,3)
proof (induction "16 - i" arbitrary: i h)
  case 0
  then show ?case by (simp add: zero_fill.simps)
next
  case (Suc n)
  then have i: "i < 16" by simp
  have step: "zero_fill (pre @ h @ post) off (int i) = zero_fill (pre @ h[i := 0] @ post) off (int (Suc i))"
    using upd_window [OF assms(1), of "int i" h post 0] i Suc.prems
    by (simp add: zero_fill.simps [of "pre @ h @ post"] add.commute)
  have "replicate (16 - i) (0 :: byte) = 0 # replicate (16 - Suc i) 0"
    using i by (metis Suc_diff_Suc replicate_Suc)
  then have "take (Suc i) (h[i := 0]) @ replicate (16 - Suc i) 0 = take i h @ replicate (16 - i) 0"
    using i Suc.prems by (simp add: take_Suc_conv_app_nth)
  moreover have "zero_fill (pre @ h[i := 0] @ post) off (int (Suc i)) =
      Some (pre @ (take (Suc i) (h[i := 0]) @ replicate (16 - Suc i) 0) @ post)"
    using Suc by (intro Suc.hyps(1)) auto
  ultimately show ?case using step by simp
qed

lemma put_route_window:
  assumes off: "off = int (length pre)" and h: "length h = 16" and rt: "length (hops rt) \<le> 14"
  shows "put_route (pre @ h @ post) off rt = Some (pre @ label 0 (hops rt) @ post)"
proof -
  let ?l = "length (hops rt)"
  let ?h1 = "h[0 := 0, 1 := of_nat ?l]"
  have copy: "copy_at ?h1 2 (2 + int ?l) (hops rt) = Some (take 2 ?h1 @ hops rt @ drop (2 + ?l) ?h1)"
    using h rt by (subst copy_at_fill) (auto simp: nat_add_distrib)
  let ?h2 = "take 2 ?h1 @ hops rt @ drop (2 + ?l) ?h1"
  have len: "length ?h2 = 16" using h rt by simp
  have two: "take 2 ?h1 = [0, of_nat ?l]"
    using h by (cases h; cases "tl h") (auto simp: numeral_2_eq_2)
  have "zero_fill (pre @ ?h2 @ post) off (int (2 + ?l)) = Some (pre @ (take (2 + ?l) ?h2 @ replicate (16 - (2 + ?l)) 0) @ post)"
    by (rule zero_fill_window [OF off len]) (use rt in simp)
  moreover have "take (2 + ?l) ?h2 @ replicate (16 - (2 + ?l)) 0 = label 0 (hops rt)"
    unfolding two by (simp add: label_def)
  ultimately have fill: "zero_fill (pre @ ?h2 @ post) off (2 + int ?l) = Some (pre @ label 0 (hops rt) @ post)"
    by simp
  have u0: "upd (pre @ h @ post) (off + 0) 0 = Some (pre @ h[0 := 0] @ post)"
    using upd_window [OF off, of 0 h post 0] h by simp
  have u1: "upd (pre @ h[0 := 0] @ post) (off + 1) (of_int (int ?l)) = Some (pre @ ?h1 @ post)"
    using upd_window [OF off, of 1 "h[0 := 0]" post "of_nat ?l"] h by simp
  have c: "copy_at (pre @ ?h1 @ post) (off + 2) (off + 2 + int ?l) (hops rt) = Some (pre @ ?h2 @ post)"
    using copy_window [OF off, of 2 "2 + int ?l" ?h1 post "hops rt"] copy h rt by (simp add: add.assoc)
  show ?thesis
    unfolding put_route_def Route_Len_def Route_Bytes_def Let_def u0 Option.bind.simps
    using u1 c fill by simp
qed

text \<open>A packet whose label is at its place.\<close>

definition labelled :: "bytes \<Rightarrow> nat \<Rightarrow> bytes \<Rightarrow> bool" where
  "labelled b pos route \<longleftrightarrow>
     length route \<le> 14 \<and> (\<exists>pre post. b = pre @ label pos route @ post \<and> length pre = 20)"

lemma labelledI: "length pre = 20 \<Longrightarrow> length route \<le> 14 \<Longrightarrow> labelled (pre @ label pos route @ post) pos route"
  by (auto simp: labelled_def)

lemma Route_labelled:
  assumes "labelled (fbuf upkt) pos route"
  shows "UpperPacket_Route upkt = Some (NewRoute route)" "UpperPacket_RouteLen upkt = Some (int (length route))"
proof -
  from assms obtain pre post where b: "fbuf upkt = pre @ label pos route @ post" "length pre = 20"
    and len: "length route \<le> 14" by (auto simp: labelled_def)
  have "idx (fbuf upkt) (20 + 1) = Some (of_nat (length route))"
    using idx_window [of 20 pre 1 "label pos route" post] b len by (simp add: length_label) (simp add: label_def)
  moreover have "slice_of (fbuf upkt) (20 + 2) (20 + (2 + int (length route))) = Some route"
    using slice_window [of 20 pre 2 "2 + int (length route)" "label pos route" post] b len
    by (simp add: length_label) (simp add: label_def slice_of_def nat_add_distrib)
  moreover have "uint (of_nat (length route) :: byte) = int (length route)" using len by (simp add: uint_small)
  ultimately show "UpperPacket_Route upkt = Some (NewRoute route)"
    "UpperPacket_RouteLen upkt = Some (int (length route))"
    by (simp_all add: UpperPacket_Route_def UpperPacket_RouteLen_def FwdOffset_def)
qed

lemma SetRoute_labelled:
  assumes "36 \<le> length (fbuf upkt)" and "length (hops rt) \<le> 14"
  obtains upkt' where "UpperPacket_SetRoute upkt rt = Some upkt'" "labelled (fbuf upkt') 0 (hops rt)"
    "length (fbuf upkt') = length (fbuf upkt)" "upkt' = with_buf upkt (fbuf upkt')"
    "take 20 (fbuf upkt') = take 20 (fbuf upkt)" "drop 36 (fbuf upkt') = drop 36 (fbuf upkt)"
proof -
  obtain pre h post where b: "fbuf upkt = pre @ h @ post" and off: "FwdOffset = int (length pre)" and h: "length h = 16"
    using window_split [of FwdOffset 16 "fbuf upkt"] assms(1) by (auto simp: FwdOffset_def)
  have "UpperPacket_SetRoute upkt rt = Some (with_buf upkt (pre @ label 0 (hops rt) @ post))"
    using put_route_window [OF off h assms(2), of post] b by (simp add: UpperPacket_SetRoute_def)
  then show thesis
    using that off h b assms(2) by (auto simp: with_buf_def FwdOffset_def length_label intro: labelledI)
qed

section \<open>One hop\<close>

lemma put_label_window:
  assumes "Buf (lbase pkt) = pre @ h @ post" and "length pre = 20" and "length h = 16" and "length h' = 16"
  shows "put_label pkt h' = Some (pkt\<lparr>lbase := (lbase pkt)\<lparr>Buf := pre @ h' @ post\<rparr>\<rparr>)"
proof -
  have "copy_at (pre @ h @ post) (20 + 0) (20 + 16) h' = Some (pre @ h' @ post)"
    using assms copy_window [of 20 pre 0 16 h post h'] by (simp add: copy_at_fill)
  then show ?thesis using assms by (simp add: put_label_def FwdOffset_def)
qed

lemma label_slice:
  assumes "b = pre @ h @ post" and "length pre = 20" and "length h = 16"
  shows "slice_of b FwdOffset (FwdOffset + 16) = Some h"
  using slice_window [of 20 pre 0 16 h post] assms by (simp add: FwdOffset_def slice_of_def)

text \<open>An intermediate hop records where the packet came from and passes it on.\<close>

lemma HandlePacket_pass:
  assumes b: "Buf (lbase pkt) = pre @ label pos route @ post" "length pre = 20"
    and len: "length route \<le> 14" "Suc pos < length route"
    and prev: "bypeer fwd (LowerSrc (lbase pkt)) = Some prev"
    and nxt: "slots fwd (unat (route ! Suc pos)) = Some (Slot p s)"
  shows "Forwarder_HandlePacket fwd pkt =
    Some (Inr (s, pkt\<lparr>lbase := (lbase pkt)\<lparr>Buf := pre @ label (Suc pos) (route[pos := of_nat prev]) @ post, LowerDst := p\<rparr>\<rparr>))"
proof -
  let ?h = "label pos route"
  have lh: "length ?h = 16" and ne: "route \<noteq> []" using len by (auto simp: length_label)
  have small: "uint (of_nat (length route) :: byte) = int (length route)" "uint (of_nat pos :: byte) = int pos"
    using len by (auto simp: uint_small)
  have nb: "idx ?h (2 + int pos + 1) = Some (route ! Suc pos)"
    using label_idx(3) [OF len(1,2), of pos] by (simp add: algebra_simps)
  have w: "upd ?h (2 + int pos) (of_nat prev) = Some (label pos (route[pos := of_nat prev]))"
    using label_upd [of route pos] len by simp
  have w2: "upd (label pos (route[pos := of_nat prev])) 0 (of_int (int pos + 1)) =
      Some (label (Suc pos) (route[pos := of_nat prev]))"
    using label_upd_pos [of pos "route[pos := of_nat prev]" "Suc pos"] by (simp add: add.commute)
  have lh': "length (label (Suc pos) (route[pos := of_nat prev])) = 16" using len by (simp add: length_label)
  show ?thesis
    using label_slice [OF b lh] label_idx(1,2) [OF len(1), of pos] small nb w w2 prev nxt len ne
      put_label_window [OF b lh lh']
    by (simp add: Forwarder_HandlePacket_def Let_def set_LowerDst_def)
qed

text \<open>The last hop hands the packet to slot 0, if its position leaves room for the byte it reads ahead.\<close>

lemma HandlePacket_last:
  assumes b: "Buf (lbase pkt) = pre @ label pos route @ post" "length pre = 20"
    and len: "length route \<le> 13" "Suc pos = length route"
    and prev: "bypeer fwd (LowerSrc (lbase pkt)) = Some prev"
    and self: "slots fwd 0 = Some (Slot p s)"
  shows "Forwarder_HandlePacket fwd pkt =
    Some (Inr (s, pkt\<lparr>lbase := (lbase pkt)\<lparr>Buf := pre @ label pos (route[pos := of_nat prev]) @ post\<rparr>\<rparr>))"
proof -
  let ?h = "label pos route"
  have lh: "length ?h = 16" and ne: "route \<noteq> []" using len by (auto simp: length_label)
  have small: "uint (of_nat (length route) :: byte) = int (length route)" "uint (of_nat pos :: byte) = int pos"
    using len by (auto simp: uint_small)
  obtain nb where nb: "idx ?h (2 + int pos + 1) = Some nb"
    using lh len by (simp add: idx_def)
  have w: "upd ?h (2 + int pos) (of_nat prev) = Some (label pos (route[pos := of_nat prev]))"
    using label_upd [of route pos] len by simp
  have lh': "length (label pos (route[pos := of_nat prev])) = 16" using len by (simp add: length_label)
  have l14: "length route \<le> 14" using len by simp
  show ?thesis
    using label_slice [OF b lh] label_idx(1,2) [OF l14, of pos] small nb w prev self len ne
      put_label_window [OF b lh lh']
    by (simp add: Forwarder_HandlePacket_def Let_def)
qed

text \<open>At the fourteenth hop the byte read ahead lies outside the label.\<close>

lemma HandlePacket_fourteenth:
  assumes b: "Buf (lbase pkt) = pre @ label 13 route @ post" "length pre = 20" and len: "length route = 14"
  shows "Forwarder_HandlePacket fwd pkt = None"
proof -
  have lh: "length (label 13 route) = 16" using len by (simp add: length_label)
  have l14: "length route \<le> 14" using len by simp
  have far: "idx (label 13 route) 16 = None" using lh by (simp add: idx_def)
  show ?thesis
    using label_slice [OF b lh] label_idx(1,2) [OF l14, of 13] len far
    by (simp add: Forwarder_HandlePacket_def Let_def)
qed

end
