(* ===== verification/Forwarding.thy ===== *)
theory Forwarding
  imports Labels Instances
begin

text \<open>
  Packets on their way through a network of forwarders. A node attaches two kinds of send functions
  to its forwarder (\<^verbatim>\<open>node.go\<close>): slot 0 delivers to the node itself, every other slot sends to a
  peer. Between two nodes a packet travels unchanged and arrives with \<^verbatim>\<open>LowerSrc\<close> set to the
  sender, which is what the lower session provides.
\<close>

datatype port = Local | Remote

type_synonym network = "PeerID \<Rightarrow> port Forwarder option"

definition set_LowerSrc :: "LowerPacket \<Rightarrow> PeerID \<Rightarrow> LowerPacket" where
  "set_LowerSrc pkt pid = pkt\<lparr>lbase := (lbase pkt)\<lparr>LowerSrc := pid\<rparr>\<rparr>"

text \<open>
  A packet that \<open>src\<close> sent to \<open>here\<close>: the first argument bounds the number of forwarders it
  may visit.
\<close>

fun transit :: "nat \<Rightarrow> network \<Rightarrow> PeerID \<Rightarrow> PeerID \<Rightarrow> LowerPacket \<Rightarrow> (err + PeerID \<times> LowerPacket) option" where
  "transit 0 net src here pkt = None"
| "transit (Suc n) net src here pkt = do {
     fwd \<leftarrow> net here;
     r \<leftarrow> Forwarder_HandlePacket fwd (set_LowerSrc pkt src);
     (case r of
        Inl e \<Rightarrow> Some (Inl e)
      | Inr (Local, p) \<Rightarrow> Some (Inr (here, p))
      | Inr (Remote, p) \<Rightarrow> transit n net here (LowerDst (lbase p)) p) }"

section \<open>Paths\<close>

text \<open>
  A hop: the slot of the sender for the receiver, the receiver, and the receiver's slot for the
  sender.
\<close>

type_synonym hop = "byte \<times> PeerID \<times> byte"

fun is_path :: "network \<Rightarrow> PeerID \<Rightarrow> hop list \<Rightarrow> bool" where
  "is_path net a [] = (net a \<noteq> None)"
| "is_path net a ((out, b, inn) # rest) =
     ((case net a of None \<Rightarrow> False | Some fwd \<Rightarrow> slots fwd (unat out) = Some (Slot b Remote)) \<and>
      (case net b of None \<Rightarrow> False | Some fwd \<Rightarrow> bypeer fwd a = Some (unat inn)) \<and>
      is_path net b rest)"

fun path_end :: "PeerID \<Rightarrow> hop list \<Rightarrow> PeerID" where
  "path_end a [] = a"
| "path_end a ((out, b, inn) # rest) = path_end b rest"

definition outs :: "hop list \<Rightarrow> bytes" where "outs hs = map fst hs"
definition inns :: "hop list \<Rightarrow> bytes" where "inns hs = map (snd \<circ> snd) hs"

definition delivers_local :: "network \<Rightarrow> PeerID \<Rightarrow> bool" where
  "delivers_local net a \<longleftrightarrow> (\<exists>fwd p. net a = Some fwd \<and> slots fwd 0 = Some (Slot p Local))"

lemma outs_inns_simps [simp]:
  "outs [] = []" "inns [] = []" "outs ((o', b, i) # hs) = o' # outs hs" "inns ((o', b, i) # hs) = i # inns hs"
  "length (outs hs) = length hs" "length (inns hs) = length hs"
  by (simp_all add: outs_def inns_def)

lemma transit_path:
  assumes "is_path net a ((out, b, inn) # rest)" and "delivers_local net (path_end b rest)"
    and "Buf (lbase pkt) = pre @ label (length ins) (ins @ out # outs rest) @ post" and "length pre = 20"
    and "length ins + Suc (length rest) \<le> 13"
  shows "\<exists>pkt'. transit (Suc (length rest)) net a b pkt = Some (Inr (path_end b rest, pkt')) \<and>
    Buf (lbase pkt') = pre @ label (length ins + length rest) (ins @ inn # inns rest) @ post \<and>
    Length (lbase pkt') = Length (lbase pkt) \<and> LOffset pkt' = LOffset pkt \<and>
    UpperDst (lbase pkt') = UpperDst (lbase pkt)"
  using assms
proof (induction rest arbitrary: a out b inn ins pkt)
  case Nil
  from Nil.prems obtain fwd p where fwd: "net b = Some fwd" "bypeer fwd a = Some (unat inn)"
    "slots fwd 0 = Some (Slot p Local)"
    by (auto simp: delivers_local_def split: option.splits)
  have "Forwarder_HandlePacket fwd (set_LowerSrc pkt a) = Some (Inr (Local, (set_LowerSrc pkt a)\<lparr>lbase :=
      (lbase (set_LowerSrc pkt a))\<lparr>Buf := pre @ label (length ins) ((ins @ [out])[length ins := of_nat (unat inn)]) @ post\<rparr>\<rparr>))"
    by (rule HandlePacket_last) (use Nil.prems fwd in \<open>auto simp: set_LowerSrc_def\<close>)
  with fwd show ?case by (simp add: set_LowerSrc_def)
next
  case (Cons hop rest)
  obtain out' c inn' where hop: "hop = (out', c, inn')" by (cases hop)
  from Cons.prems(1) hop obtain fwd where fwd: "net b = Some fwd" "bypeer fwd a = Some (unat inn)"
    "slots fwd (unat out') = Some (Slot c Remote)" and path: "is_path net b ((out', c, inn') # rest)"
    by (auto split: option.splits)
  let ?route = "ins @ out # out' # outs rest"
  let ?pkt = "(set_LowerSrc pkt a)\<lparr>lbase := (lbase (set_LowerSrc pkt a))
      \<lparr>Buf := pre @ label (Suc (length ins)) (?route[length ins := of_nat (unat inn)]) @ post, LowerDst := c\<rparr>\<rparr>"
  have "Forwarder_HandlePacket fwd (set_LowerSrc pkt a) = Some (Inr (Remote, ?pkt))"
    by (rule HandlePacket_pass) (use Cons.prems fwd hop in \<open>auto simp: set_LowerSrc_def nth_append\<close>)
  then have "transit (Suc (length (hop # rest))) net a b pkt = transit (Suc (length rest)) net b (LowerDst (lbase ?pkt)) ?pkt"
    using fwd(1) by (subst transit.simps(2)) (simp del: transit.simps)
  then have step: "transit (Suc (length (hop # rest))) net a b pkt = transit (Suc (length rest)) net b c ?pkt"
    by (simp del: transit.simps)
  have "\<exists>pkt'. transit (Suc (length rest)) net b c ?pkt = Some (Inr (path_end c rest, pkt')) \<and>
    Buf (lbase pkt') = pre @ label (length (ins @ [inn]) + length rest) ((ins @ [inn]) @ inn' # inns rest) @ post \<and>
    Length (lbase pkt') = Length (lbase ?pkt) \<and> LOffset pkt' = LOffset ?pkt \<and>
    UpperDst (lbase pkt') = UpperDst (lbase ?pkt)"
    by (rule Cons.IH [OF path]) (use Cons.prems hop in \<open>auto simp: list_update_append\<close>)
  with step hop show ?case by (simp add: set_LowerSrc_def del: transit.simps)
qed

section \<open>Sending\<close>

text \<open>The codec of the lower header is written before the label.\<close>

lemma SetCodec_window:
  assumes V: "varint_ok V" and small: "codec < 2 ^ 28" and b: "Buf p = pre @ rest" "length pre = 20"
  obtains pre' where "LowerPacket_SetCodec V (NewLowerPacket p) codec =
      Some \<lparr>LOffset = 16, lbase = p\<lparr>Buf := pre' @ rest\<rparr>\<rparr>" "length pre' = 20" "take 16 pre' = take 16 pre"
    "take (length (ToUvarint V codec)) (drop 16 pre') = ToUvarint V codec"
proof -
  let ?c = "ToUvarint V codec"
  let ?pre = "splice pre 16 ?c"
  have c: "length ?c \<le> 4" using V small by (simp add: varint_ok_def)
  have "copy_at (Buf p) 16 20 ?c = Some (?pre @ rest)"
    using b c by (simp add: copy_at_def splice_def)
  then have "LowerPacket_SetCodec V (NewLowerPacket p) codec =
      Some \<lparr>LOffset = 16, lbase = p\<lparr>Buf := ?pre @ rest\<rparr>\<rparr>"
    using c by (simp add: LowerPacket_SetCodec_def NewLowerPacket_def)
  moreover have "length ?pre = 20" "take 16 ?pre = take 16 pre" "take (length ?c) (drop 16 ?pre) = ?c"
    using b c by (simp_all add: splice_def)
  ultimately show thesis using that by blast
qed

lemma SendPacket_labelled:
  assumes V: "varint_ok V" and b: "fbuf upkt = pre @ label 0 (r # route) @ post" "length pre = 20"
    and len: "length route \<le> 13" and room: "39 \<le> Length (base upkt)" "Length (base upkt) - 16 \<le> int (length (fbuf upkt))"
    and slot: "slots fwd (unat r) = Some (Slot p s)"
  obtains pre' where "length pre' = 20" "SendPacket V fwd upkt = Some (Inr (s, \<lparr>LOffset = 16,
      lbase = (base upkt)\<lparr>Buf := pre' @ label 0 (r # route) @ post, LowerDst := p\<rparr>\<rparr>))"
    "take (length (ToUvarint V DataMulticodec)) (drop 16 pre') = ToUvarint V DataMulticodec"
proof -
  have lab: "labelled (fbuf upkt) 0 (r # route)" using b len by (auto intro: labelledI)
  obtain pre' where c: "LowerPacket_SetCodec V (NewLowerPacket (base upkt)) DataMulticodec =
      Some \<lparr>LOffset = 16, lbase = (base upkt)\<lparr>Buf := pre' @ label 0 (r # route) @ post\<rparr>\<rparr>" and pre': "length pre' = 20"
    and written: "take (length (ToUvarint V DataMulticodec)) (drop 16 pre') = ToUvarint V DataMulticodec"
    by (rule SetCodec_window [OF V _ b, of DataMulticodec]) (auto simp: DataMulticodec_def)
  let ?l = "\<lparr>LOffset = 16, lbase = (base upkt)\<lparr>Buf := pre' @ label 0 (r # route) @ post\<rparr>\<rparr>"
  let ?n = "nat (Length (base upkt) - 16 - 20)"
  have "LowerPacket_Payload ?l = Some (take ?n (label 0 (r # route) @ post))"
    using room b pre' len by (simp add: LowerPacket_Payload_def slice_of_def length_label)
  moreover obtain l tail where "label 0 (r # route) @ post = 0 # l # r # tail" by (simp add: label_def)
  moreover obtain m where "?n = Suc (Suc (Suc m))"
  proof
    show "?n = Suc (Suc (Suc (?n - 3)))" using room(1) by linarith
  qed
  ultimately have "LowerPacket_Payload ?l = Some (0 # l # r # take m tail)" by simp
  moreover have "idx (0 # l # r # take m tail) 0 = Some 0" "idx (0 # l # r # take m tail) 2 = Some r"
    by (simp_all add: idx_def)
  ultimately have "SendRaw fwd ?l = Some (Inr (s, set_LowerDst ?l p))"
    using slot by (simp add: SendRaw_def)
  then have "SendPacket V fwd upkt = Some (Inr (s, set_LowerDst ?l p))"
    using Route_labelled(1) [OF lab] c len by (simp add: SendPacket_def Route_Len_def)
  then show thesis by (intro that [OF pre' _ written]) (simp add: set_LowerDst_def)
qed


text \<open>A whole leg: the route is set, the packet sent, and it travels to the end of the path.\<close>

lemma leg:
  assumes V: "varint_ok V" and path: "is_path net a hs" and ne: "hs \<noteq> []" and len: "length hs \<le> 13"
    and self: "delivers_local net (path_end a hs)" and fwd: "net a = Some fwd"
    and room: "39 \<le> Length (base upkt)" "Length (base upkt) - 16 \<le> int (length (fbuf upkt))" "36 \<le> length (fbuf upkt)"
  obtains upkt' pkt pkt' where "UpperPacket_SetRoute upkt (NewRoute (outs hs)) = Some upkt'"
    "SendPacket V fwd upkt' = Some (Inr (Remote, pkt))"
    "transit (length hs) net a (LowerDst (lbase pkt)) pkt = Some (Inr (path_end a hs, pkt'))"
    "labelled (Buf (lbase pkt')) (length hs - 1) (inns hs)"
    "drop 36 (Buf (lbase pkt')) = drop 36 (fbuf upkt)" "Length (lbase pkt') = Length (base upkt)"
    "UpperDst (lbase pkt') = UpperDst (base upkt)"
proof -
  obtain out b inn rest where hs: "hs = (out, b, inn) # rest" using ne by (cases hs) auto
  have l14: "length (hops (NewRoute (outs hs))) \<le> 14" using len by simp
  obtain upkt' where set: "UpperPacket_SetRoute upkt (NewRoute (outs hs)) = Some upkt'"
    and lab: "labelled (fbuf upkt') 0 (outs hs)" and keep: "length (fbuf upkt') = length (fbuf upkt)"
      "upkt' = with_buf upkt (fbuf upkt')" "drop 36 (fbuf upkt') = drop 36 (fbuf upkt)"
    using SetRoute_labelled [OF room(3) l14] by (metis hops_NewRoute)
  obtain pre post where b: "fbuf upkt' = pre @ label 0 (outs hs) @ post" "length pre = 20"
    using lab by (auto simp: labelled_def)
  have base: "Length (base upkt') = Length (base upkt)" "UpperDst (base upkt') = UpperDst (base upkt)"
    by (subst keep(2), simp add: with_buf_def)+
  obtain pre' where pre': "length pre' = 20" and send: "SendPacket V fwd upkt' = Some (Inr (Remote, \<lparr>LOffset = 16,
      lbase = (base upkt')\<lparr>Buf := pre' @ label 0 (out # outs rest) @ post, LowerDst := b\<rparr>\<rparr>))"
    by (rule SendPacket_labelled [OF V, of upkt' pre out "outs rest" post fwd b Remote])
      (use b hs len room base keep path fwd in auto)
  let ?pkt = "\<lparr>LOffset = 16, lbase = (base upkt')\<lparr>Buf := pre' @ label 0 (out # outs rest) @ post, LowerDst := b\<rparr>\<rparr>"
  have "\<exists>pkt'. transit (Suc (length rest)) net a b ?pkt = Some (Inr (path_end b rest, pkt')) \<and>
    Buf (lbase pkt') = pre' @ label (length ([] :: bytes) + length rest) ([] @ inn # inns rest) @ post \<and>
    Length (lbase pkt') = Length (lbase ?pkt) \<and> LOffset pkt' = LOffset ?pkt \<and> UpperDst (lbase pkt') = UpperDst (lbase ?pkt)"
    by (rule transit_path) (use path hs self pre' len in auto)
  then obtain pkt' where tr: "transit (length hs) net a b ?pkt = Some (Inr (path_end a hs, pkt'))"
    and b': "Buf (lbase pkt') = pre' @ label (length rest) (inns hs) @ post"
    and rest: "Length (lbase pkt') = Length (base upkt)" "UpperDst (lbase pkt') = UpperDst (base upkt)"
    using hs base by auto
  have "labelled (Buf (lbase pkt')) (length hs - 1) (inns hs)"
    using b' pre' len hs by (auto intro: labelledI)
  moreover have "drop 36 (Buf (lbase pkt')) = drop 36 (fbuf upkt)"
    using b' pre' b keep(3) len by (simp add: length_label)
  ultimately show thesis using that [OF set send] tr rest by simp
qed

section \<open>The way back\<close>

text \<open>Links on which each node knows the other by the slot it sends to.\<close>

fun two_way :: "network \<Rightarrow> PeerID \<Rightarrow> hop list \<Rightarrow> bool" where
  "two_way net a [] = (net a \<noteq> None)"
| "two_way net a ((out, b, inn) # rest) =
     ((case net a of None \<Rightarrow> False
       | Some fwd \<Rightarrow> slots fwd (unat out) = Some (Slot b Remote) \<and> bypeer fwd b = Some (unat out)) \<and>
      (case net b of None \<Rightarrow> False
       | Some fwd \<Rightarrow> slots fwd (unat inn) = Some (Slot a Remote) \<and> bypeer fwd a = Some (unat inn)) \<and>
      two_way net b rest)"

fun way_back :: "PeerID \<Rightarrow> hop list \<Rightarrow> hop list" where
  "way_back a [] = []"
| "way_back a ((out, b, inn) # rest) = way_back b rest @ [(inn, a, out)]"

lemma two_way_path: "two_way net a hs \<Longrightarrow> is_path net a hs"
  by (induction net a hs rule: two_way.induct) (auto split: option.splits)

lemma path_end_append [simp]: "path_end a (xs @ ys) = path_end (path_end a xs) ys"
  by (induction a xs rule: path_end.induct) auto

lemma is_path_snoc:
  "is_path net a xs \<Longrightarrow> is_path net (path_end a xs) [h] \<Longrightarrow> is_path net a (xs @ [h])"
  by (induction net a xs rule: is_path.induct) (auto split: option.splits)

lemma back_end: "path_end (path_end a hs) (way_back a hs) = a"
  by (induction a hs rule: way_back.induct) auto

lemma back_outs: "outs (way_back a hs) = rev (inns hs)"
  by (induction a hs rule: way_back.induct) (auto simp: outs_def inns_def)

lemma length_back [simp]: "length (way_back a hs) = length hs"
  by (induction a hs rule: way_back.induct) auto

lemma back_path: "two_way net a hs \<Longrightarrow> is_path net (path_end a hs) (way_back a hs)"
proof (induction net a hs rule: two_way.induct)
  case (2 net a out b inn rest)
  then have "is_path net (path_end b rest) (way_back b rest)"
    and "is_path net b [(inn, a, out)]" by (auto split: option.splits)
  then show ?case using is_path_snoc back_end by fastforce
qed simp

section \<open>Properties\<close>

text \<open>A chain of three nodes, for the concrete runs.\<close>

definition ex_pid :: "u64 \<Rightarrow> PeerID" where "ex_pid n = \<lparr>b1 = n, b2 = 0, b3 = 0, b4 = 0\<rparr>"

definition ex_net :: network where
  "ex_net = [
     ex_pid 1 \<mapsto> \<lparr>slots = [0 \<mapsto> Slot (ex_pid 1) Local, 3 \<mapsto> Slot (ex_pid 2) Remote], bypeer = [ex_pid 2 \<mapsto> 3]\<rparr>,
     ex_pid 2 \<mapsto> \<lparr>slots = [0 \<mapsto> Slot (ex_pid 2) Local, 1 \<mapsto> Slot (ex_pid 1) Remote, 2 \<mapsto> Slot (ex_pid 3) Remote],
                bypeer = [ex_pid 1 \<mapsto> 1, ex_pid 3 \<mapsto> 2]\<rparr>,
     ex_pid 3 \<mapsto> \<lparr>slots = [0 \<mapsto> Slot (ex_pid 3) Local, 4 \<mapsto> Slot (ex_pid 2) Remote], bypeer = [ex_pid 2 \<mapsto> 4]\<rparr>]"

definition ex_hops :: "hop list" where "ex_hops = [(3, ex_pid 2, 1), (2, ex_pid 3, 4)]"

definition ex_upkt :: UpperPacket where "ex_upkt = NewUpperPacket (NewPacket (replicate TptMTU 0))"

lemma ex_net_facts:
  "two_way ex_net (ex_pid 1) ex_hops" "delivers_local ex_net (ex_pid 1)" "delivers_local ex_net (ex_pid 3)"
  "path_end (ex_pid 1) ex_hops = ex_pid 3"
  by (simp_all add: ex_net_def ex_hops_def ex_pid_def delivers_local_def)

lemma ex_upkt_room:
  "39 \<le> Length (base ex_upkt)" "Length (base ex_upkt) - 16 \<le> int (length (fbuf ex_upkt))" "36 \<le> length (fbuf ex_upkt)"
  by (simp_all add: ex_upkt_def NewUpperPacket_def NewPacket_def TptMTU_def)

text \<open>
  C3. Label switching. On any path of at most 13 hops through a network of forwarders, a
  packet whose route was set to the slots of the path and that is sent by the first node is
  delivered to the last one after as many forwarding steps as there are hops: no hop fails,
  everything behind the route label is unchanged, and the label now lists, hop by hop, the slot
  by which each node knows its predecessor.
\<close>

theorem route_delivers:
  assumes "varint_ok V" and "is_path net a hs" and "hs \<noteq> []" and "length hs \<le> 13"
    and "delivers_local net (path_end a hs)" and "net a = Some fwd"
    and "39 \<le> Length (base upkt)" and "Length (base upkt) - 16 \<le> int (length (fbuf upkt))"
    and "36 \<le> length (fbuf upkt)"
  shows "\<exists>upkt' pkt pkt'. UpperPacket_SetRoute upkt (NewRoute (outs hs)) = Some upkt' \<and>
    SendPacket V fwd upkt' = Some (Inr (Remote, pkt)) \<and>
    transit (length hs) net a (LowerDst (lbase pkt)) pkt = Some (Inr (path_end a hs, pkt')) \<and>
    UpperPacket_Route (NewUpperPacket (lbase pkt')) = Some (NewRoute (inns hs)) \<and>
    drop 36 (Buf (lbase pkt')) = drop 36 (fbuf upkt) \<and> Length (lbase pkt') = Length (base upkt)"
proof -
  have read: "UpperPacket_Route (NewUpperPacket (lbase p)) = Some (NewRoute rt)"
    if "labelled (Buf (lbase p)) pos rt" for p pos rt
    using Route_labelled(1) [of "NewUpperPacket (lbase p)"] that by (simp add: NewUpperPacket_def)
  show ?thesis by (rule leg [OF assms]) (blast dest: read)
qed

theorem route_delivers_witness:
  "\<exists>upkt' pkt pkt'. UpperPacket_SetRoute ex_upkt (NewRoute [3, 2]) = Some upkt' \<and>
    SendPacket ref_varint (the (ex_net (ex_pid 1))) upkt' = Some (Inr (Remote, pkt)) \<and>
    transit 2 ex_net (ex_pid 1) (LowerDst (lbase pkt)) pkt = Some (Inr (ex_pid 3, pkt')) \<and>
    UpperPacket_Route (NewUpperPacket (lbase pkt')) = Some (NewRoute [1, 4])"
proof -
  have net: "ex_net (ex_pid 1) = Some (the (ex_net (ex_pid 1)))" by (simp add: ex_net_def ex_pid_def)
  have hs: "outs ex_hops = [3, 2]" "inns ex_hops = [1, 4]" "length ex_hops = 2" "ex_hops \<noteq> []"
    by (simp_all add: ex_hops_def)
  show ?thesis
    using route_delivers [OF ref_varint_ok two_way_path [OF ex_net_facts(1)] hs(4) _ _ net ex_upkt_room]
      hs ex_net_facts(3,4) by auto
qed

text \<open>
  C4. The recorded route leads back. On a path of two-way links, the node that a packet was
  delivered to can answer without any lookup: a packet whose route is set to the reverse of the
  route it read from the label, as the hello handler does, is delivered to the sender.
\<close>

theorem reverse_route_returns:
  assumes "varint_ok V" and "two_way net a hs" and "hs \<noteq> []" and "length hs \<le> 13"
    and "delivers_local net a" and "delivers_local net (path_end a hs)"
    and "net a = Some fwd" and "net (path_end a hs) = Some fwd'"
    and "39 \<le> Length (base upkt)" and "Length (base upkt) - 16 \<le> int (length (fbuf upkt))"
    and "36 \<le> length (fbuf upkt)"
    and "39 \<le> Length (base reply)" and "Length (base reply) - 16 \<le> int (length (fbuf reply))"
    and "36 \<le> length (fbuf reply)"
  shows "\<exists>upkt' pkt pkt' rt reply' rpkt rpkt'. UpperPacket_SetRoute upkt (NewRoute (outs hs)) = Some upkt' \<and>
    SendPacket V fwd upkt' = Some (Inr (Remote, pkt)) \<and>
    transit (length hs) net a (LowerDst (lbase pkt)) pkt = Some (Inr (path_end a hs, pkt')) \<and>
    UpperPacket_Route (NewUpperPacket (lbase pkt')) = Some rt \<and>
    UpperPacket_SetRoute reply (Route_Reverse rt) = Some reply' \<and>
    SendPacket V fwd' reply' = Some (Inr (Remote, rpkt)) \<and>
    transit (length hs) net (path_end a hs) (LowerDst (lbase rpkt)) rpkt = Some (Inr (a, rpkt')) \<and>
    drop 36 (Buf (lbase rpkt')) = drop 36 (fbuf reply)"
proof -
  obtain upkt' pkt pkt' where out: "UpperPacket_SetRoute upkt (NewRoute (outs hs)) = Some upkt'"
    "SendPacket V fwd upkt' = Some (Inr (Remote, pkt))"
    "transit (length hs) net a (LowerDst (lbase pkt)) pkt = Some (Inr (path_end a hs, pkt'))"
    "labelled (Buf (lbase pkt')) (length hs - 1) (inns hs)"
    by (rule leg [OF assms(1) two_way_path [OF assms(2)] assms(3,4,6,7,9-11)]) (rule that)
  have rt: "UpperPacket_Route (NewUpperPacket (lbase pkt')) = Some (NewRoute (inns hs))"
    using Route_labelled(1) [of "NewUpperPacket (lbase pkt')"] out(4) by (simp add: NewUpperPacket_def)
  let ?wb = "way_back a hs"
  have ends: "path_end (path_end a hs) ?wb = a" by (rule back_end)
  have b: "?wb \<noteq> []" "length ?wb \<le> 13" using assms(3,4) by (cases hs; force)+
  obtain reply' rpkt rpkt' where ret: "UpperPacket_SetRoute reply (NewRoute (outs ?wb)) = Some reply'"
    "SendPacket V fwd' reply' = Some (Inr (Remote, rpkt))"
    "transit (length ?wb) net (path_end a hs) (LowerDst (lbase rpkt)) rpkt = Some (Inr (a, rpkt'))"
    "drop 36 (Buf (lbase rpkt')) = drop 36 (fbuf reply)"
    by (rule leg [OF assms(1) back_path [OF assms(2)] b, unfolded ends, OF assms(5,8,12-14)]) (rule that)
  have rev: "Route_Reverse (NewRoute (inns hs)) = NewRoute (outs ?wb)"
    by (simp add: Route_eq_iff back_outs)
  show ?thesis
    by (intro exI conjI)
      (rule out(1) out(2) out(3) rt ret(1) [folded rev] ret(2) ret(3) [unfolded length_back] ret(4))+
qed

theorem reverse_route_returns_witness:
  "\<exists>upkt' pkt pkt' rt reply' rpkt rpkt'. UpperPacket_SetRoute ex_upkt (NewRoute [3, 2]) = Some upkt' \<and>
    SendPacket ref_varint (the (ex_net (ex_pid 1))) upkt' = Some (Inr (Remote, pkt)) \<and>
    transit 2 ex_net (ex_pid 1) (LowerDst (lbase pkt)) pkt = Some (Inr (ex_pid 3, pkt')) \<and>
    UpperPacket_Route (NewUpperPacket (lbase pkt')) = Some rt \<and>
    UpperPacket_SetRoute ex_upkt (Route_Reverse rt) = Some reply' \<and>
    SendPacket ref_varint (the (ex_net (ex_pid 3))) reply' = Some (Inr (Remote, rpkt)) \<and>
    transit 2 ex_net (ex_pid 3) (LowerDst (lbase rpkt)) rpkt = Some (Inr (ex_pid 1, rpkt'))"
proof -
  have net: "ex_net (ex_pid 1) = Some (the (ex_net (ex_pid 1)))" "ex_net (path_end (ex_pid 1) ex_hops) = Some (the (ex_net (ex_pid 3)))"
    by (simp_all add: ex_net_def ex_pid_def ex_hops_def)
  have hs: "outs ex_hops = [3, 2]" "length ex_hops = 2" "ex_hops \<noteq> []" by (simp_all add: ex_hops_def)
  have l: "length ex_hops \<le> 13" "delivers_local ex_net (path_end (ex_pid 1) ex_hops)"
    using hs ex_net_facts(3,4) by simp_all
  show ?thesis
    using reverse_route_returns [OF ref_varint_ok ex_net_facts(1) hs(3) l(1) ex_net_facts(2) l(2) net ex_upkt_room ex_upkt_room]
    unfolding hs ex_net_facts(4) by blast
qed

text \<open>
  C35. The fourteenth hop panics. SendPacket accepts routes of up to 14 hops, but the forwarder
  reads one byte beyond the current position before it checks whether it is the last hop: on
  a 14-hop route the last node indexes the label out of range and panics, whatever its slots.
\<close>

theorem fourteen_hops_panic:
  assumes "labelled (Buf (lbase pkt)) 13 route" and "length route = 14"
  shows "Forwarder_HandlePacket fwd pkt = None"
  using assms HandlePacket_fourteenth by (auto simp: labelled_def)

theorem fourteen_hops_panic_witness:
  "Forwarder_HandlePacket (the (ex_net (ex_pid 1)))
     (NewLowerPacket (NewPacket (replicate 20 0 @ label 13 (replicate 14 1) @ replicate 100 0))) = None"
  by (rule fourteen_hops_panic [where route = "replicate 14 1"])
    (auto simp: NewLowerPacket_def NewPacket_def intro: labelledI)


text \<open>
  C34. The forwarder returns. Every packet in a buffer of at least 277 bytes whose position byte is at
  most 12 is handled without a panic, by the forwarder that any sequence of Attach and Detach calls
  leads to, whatever else the label says and whoever sent it.
\<close>

theorem HandlePacket_returns:
  assumes "fwd_reachable fwd" and "277 \<le> length (Buf (lbase pkt))" and "0 \<le> Length (lbase pkt)"
    and "Length (lbase pkt) \<le> int (length (Buf (lbase pkt)))" and "unat (Buf (lbase pkt) ! 20) \<le> 12"
  shows "\<exists>r. Forwarder_HandlePacket fwd pkt = Some r"
  by (rule HandlePacket_total [OF fwd_reachable_inv [OF assms(1)] assms(2-5)])

theorem HandlePacket_returns_witness:
  "\<exists>r. Forwarder_HandlePacket (NewForwarder :: port Forwarder) (NewLowerPacket (NewPacket (replicate TptMTU 12))) = Some r"
  by (rule HandlePacket_returns [OF fwd_reachable.new])
    (simp_all add: NewLowerPacket_def NewPacket_def TptMTU_def)

text \<open>
  C33. The slot table. After any sequence of Attach and Detach calls all 256 slots exist, and the slot
  recorded for a peer is one that sends to this peer, so that the byte the forwarder writes into a
  label always leads back to the node a packet came from. Attach takes the lowest free slot and
  returns it as a route of one hop, and fails, without changing anything, only when all 256
  slots are taken.
\<close>

theorem slot_table_invariant:
  assumes "fwd_reachable fwd" and "Attach fwd pid s = (fwd', r)"
  shows "dom (slots fwd) = {..<256} \<and>
    (\<forall>p i. bypeer fwd p = Some i \<longrightarrow> (\<exists>s. slots fwd i = Some (Slot p s))) \<and>
    (case r of
       Inl _ \<Rightarrow> fwd' = fwd \<and> (\<forall>i<256. slots fwd i \<noteq> Some NullSlot)
     | Inr rt \<Rightarrow> (\<exists>i<256. slots fwd i = Some NullSlot \<and> (\<forall>j<i. slots fwd j \<noteq> Some NullSlot) \<and>
         rt = NewRoute [of_nat i] \<and> slots fwd' = (slots fwd)(i \<mapsto> Slot pid s) \<and>
         bypeer fwd' = (bypeer fwd)(pid \<mapsto> i)))"
proof -
  have inv: "dom (slots fwd) = {..<256}" "\<forall>p i. bypeer fwd p = Some i \<longrightarrow> (\<exists>s. slots fwd i = Some (Slot p s))"
    using fwd_reachable_inv [OF assms(1)] by (simp_all add: fwd_inv_def NumSlots_def)
  from assms(2) show ?thesis
    by (cases rule: Attach_cases) (use inv in \<open>auto simp: NumSlots_def\<close>)
qed

lemma NewForwarder_slot: "i < 256 \<Longrightarrow> slots (NewForwarder :: 's Forwarder) i = Some NullSlot"
proof -
  have "fold (\<lambda>i m. m(i \<mapsto> NullSlot)) xs m i = Some NullSlot" if "i \<in> set xs \<or> m i = Some NullSlot"
    for xs and m :: "nat \<Rightarrow> 's slotentry option"
    using that by (induction xs arbitrary: m) auto
  from this [of "[0..<256]" Map.empty] show "i < 256 \<Longrightarrow> ?thesis"
    by (simp add: NewForwarder_def NumSlots_def del: upt_conv_Cons)
qed

theorem slot_table_invariant_witness:
  "\<exists>i<256. slots (fst (Attach (NewForwarder :: port Forwarder) (ex_pid 1) Local)) =
      (slots NewForwarder)(i \<mapsto> Slot (ex_pid 1) Local) \<and>
    snd (Attach (NewForwarder :: port Forwarder) (ex_pid 1) Local) = Inr (NewRoute [of_nat i])"
proof -
  have "slots (NewForwarder :: port Forwarder) 0 = Some NullSlot" by (simp add: NewForwarder_slot)
  then show ?thesis
    using slot_table_invariant [OF fwd_reachable.new surjective_pairing, of "ex_pid 1" Local]
    by (cases "snd (Attach (NewForwarder :: port Forwarder) (ex_pid 1) Local)") auto
qed

section \<open>Packets\<close>

text \<open>The packet that \<^verbatim>\<open>Node.Send\<close> builds, over any packet with an empty buffer.\<close>

lemma upper_packet_made:
  assumes V: "varint_ok V" and small: "codec < 2 ^ 28" and rt: "length (hops rt) \<le> 14"
    and fits: "int (length pl) \<le> UpperMTU" and P: "Buf P = replicate TptMTU 0"
  obtains p q r where "UpperPacket_SetCodec V (NewUpperPacket P) codec = Some p" "UpperPacket_SetRoute p rt = Some q"
    "UpperPacket_SetPayload q pl = Some r" "base r = P\<lparr>Buf := fbuf r, Length := 88 + int (length pl)\<rparr>"
    "Offset r = 52" "Padding r = 32" "length (fbuf r) = TptMTU" "labelled (fbuf r) 0 (hops rt)"
    "slice_of (fbuf r) 56 (56 + int (length pl)) = Some pl"
    "slice_of (fbuf r) 52 56 = Some (ToUvarint V codec @ replicate (4 - length (ToUvarint V codec)) 0)"
proof -
  let ?u = "NewUpperPacket P"
  let ?c = "ToUvarint V codec"
  have c: "length ?c \<le> 4" using V small by (simp add: varint_ok_def)
  have mtu: "int (length pl) \<le> 1364" using fits by (simp add: UpperMTU_def)
  let ?b = "splice (replicate TptMTU 0) 52 ?c"
  have lb: "length ?b = 1452" using c by (simp add: TptMTU_def)
  have u: "fbuf ?u = replicate TptMTU 0" "Offset ?u = 52" "Padding ?u = 32" "base ?u = P"
    using P by (simp_all add: NewUpperPacket_def UpperOffset_def)
  have p: "UpperPacket_SetCodec V ?u codec = Some (with_buf ?u ?b)"
    using c u by (simp add: UpperPacket_SetCodec_def copy_at_def TptMTU_def)
  have cd: "take 4 (drop 52 ?b) = ?c @ replicate (4 - length ?c) 0"
    using c by (simp add: splice_def TptMTU_def)
  obtain q where q: "UpperPacket_SetRoute (with_buf ?u ?b) rt = Some q" and lab: "labelled (fbuf q) 0 (hops rt)"
    and keep: "length (fbuf q) = length ?b" "q = with_buf (with_buf ?u ?b) (fbuf q)" "drop 36 (fbuf q) = drop 36 ?b"
    by (rule SetRoute_labelled [of "with_buf ?u ?b" rt]) (use lb rt in \<open>auto simp: with_buf_def\<close>)
  have qo: "Offset q = 52" "Padding q = 32"
    using u by (subst keep(2), simp add: with_buf_def)+
  obtain cb where qb: "base q = P\<lparr>Buf := cb\<rparr>" using keep(2) u by (metis with_buf_simps(4,5))
  obtain d where d: "copy_at (fbuf q) 56 (56 + int (length pl)) pl = Some d"
    using copy_at_total [of 56 "56 + int (length pl)" "fbuf q" pl] mtu keep(1) lb by auto
  let ?r = "with_length (with_buf q d) (88 + int (length pl))"
  have r: "UpperPacket_SetPayload q pl = Some ?r"
    using d qo by (simp add: UpperPacket_SetPayload_def Let_def)
  have rb: "fbuf ?r = d" "Offset ?r = 52" "Padding ?r = 32" "base ?r = P\<lparr>Buf := fbuf ?r, Length := 88 + int (length pl)\<rparr>"
    using qo qb by (simp_all add: with_length_def with_buf_def)
  have "slice_of d 52 56 = slice_of (fbuf q) 52 56" by (rule slice_copy_other [OF d]) simp
  also have "\<dots> = Some (take 4 (drop 16 (drop 36 (fbuf q))))" using keep(1) lb by (simp add: slice_of_def)
  also have "\<dots> = Some (?c @ replicate (4 - length ?c) 0)" using keep(3) cd by simp
  finally have codec: "slice_of d 52 56 = Some (?c @ replicate (4 - length ?c) 0)" .
  have "take 36 d = take 36 (fbuf q)"
    using slice_copy_other [OF d, of 36 0] copy_at_length [OF d] keep(1) lb by (simp add: slice_of_def)
  with lab have "labelled d 0 (hops rt)"
    unfolding labelled_def using rt append_take_drop_id [of 36 d] by (auto simp: length_label) (metis append.assoc)
  with that [OF p q r rb(4)] rb codec slice_copy_same [OF d] copy_at_length [OF d] keep(1) lb
  show thesis by (simp add: TptMTU_def)
qed

text \<open>
  Headers of an upper packet. Setting codec, route (of at most 14 hops) and payload of an upper packet,
  in the order Node.Send does, succeeds whenever the payload fits the upper MTU, and all
  three can be read back.
\<close>

theorem upper_packet_roundtrip:
  assumes "varint_ok V" and "codec < 2 ^ 28" and "length (hops rt) \<le> 14" and "int (length pl) \<le> UpperMTU"
  shows "\<exists>p q r. UpperPacket_SetCodec V (NewUpperPacket (NewPacket (replicate TptMTU 0))) codec = Some p \<and>
    UpperPacket_SetRoute p rt = Some q \<and> UpperPacket_SetPayload q pl = Some r \<and>
    UpperPacket_Codec V r = Some (Inr codec) \<and> UpperPacket_Route r = Some rt \<and> UpperPacket_Payload r = Some pl"
proof -
  have blank: "Buf (NewPacket (replicate TptMTU 0)) = replicate TptMTU 0" by (simp add: NewPacket_def)
  obtain p q r where set: "UpperPacket_SetCodec V (NewUpperPacket (NewPacket (replicate TptMTU 0))) codec = Some p"
    "UpperPacket_SetRoute p rt = Some q" "UpperPacket_SetPayload q pl = Some r"
    and r: "base r = (NewPacket (replicate TptMTU 0))\<lparr>Buf := fbuf r, Length := 88 + int (length pl)\<rparr>"
      "Offset r = 52" "Padding r = 32" "labelled (fbuf r) 0 (hops rt)"
      "slice_of (fbuf r) 56 (56 + int (length pl)) = Some pl"
      "slice_of (fbuf r) 52 56 = Some (ToUvarint V codec @ replicate (4 - length (ToUvarint V codec)) 0)"
    by (rule upper_packet_made [OF assms blank]) (rule that)
  have "codec < 2 ^ 63" using assms(2) by (rule less_trans) simp
  then have "UpperPacket_Codec V r = Some (Inr codec)"
    using r assms(1) by (simp add: UpperPacket_Codec_def varint_ok_def)
  moreover have "Length (base r) = 88 + int (length pl)" by (subst r(1)) simp
  then have "UpperPacket_Payload r = Some pl" using r by (simp add: UpperPacket_Payload_def)
  moreover have "UpperPacket_Route r = Some rt" using Route_labelled(1) [OF r(4)] by (simp add: NewRoute_def)
  ultimately show ?thesis using set by blast
qed

theorem upper_packet_roundtrip_witness:
  "\<exists>p q r. UpperPacket_SetCodec ref_varint (NewUpperPacket (NewPacket (replicate TptMTU 0))) 0x12346 = Some p \<and>
    UpperPacket_SetRoute p (NewRoute [3, 2]) = Some q \<and> UpperPacket_SetPayload q [7, 7, 7] = Some r \<and>
    UpperPacket_Codec ref_varint r = Some (Inr 0x12346) \<and> UpperPacket_Route r = Some (NewRoute [3, 2]) \<and>
    UpperPacket_Payload r = Some [7, 7, 7]"
  by (rule upper_packet_roundtrip [OF ref_varint_ok]) (simp_all add: UpperMTU_def)

end
