(* ===== verification/Routing.thy ===== *)
theory Routing
  imports Instances
begin

text \<open>
  \<^verbatim>\<open>node/routing/routing.go\<close>: the routes to every known peer, and the peers by IPv6 address.
\<close>

section \<open>The first value stays\<close>

text \<open>
  Several tables of a node keep what was registered first: the preferred route of a peer, and the
  handlers of the upper and lower codecs. This is their contract, and what follows from it
  for a sequence of registrations.
\<close>

locale first_wins =
  fixes add :: "'s \<Rightarrow> 'k \<Rightarrow> 'v \<Rightarrow> 's"
    and look :: "'s \<Rightarrow> 'k \<Rightarrow> 'v option"
  assumes look_add: "look (add s k v) q = (if q = k \<and> look s k = None then Some v else look s q)"
begin

lemma look_add_same: "look (add s k v) k = (case look s k of None \<Rightarrow> Some v | Some w \<Rightarrow> Some w)"
  by (simp add: look_add split: option.splits)

lemma look_stays: "look s q = Some w \<Longrightarrow> look (add s k v) q = Some w"
  by (auto simp: look_add)

lemma look_adds:
  "look (fold (\<lambda>(k, v) s. add s k v) kvs s) q =
     (case look s q of Some w \<Rightarrow> Some w | None \<Rightarrow> map_of kvs q)"
  by (induction kvs arbitrary: s) (auto simp: look_add split: option.splits)

end

section \<open>The routing table\<close>

record Routing =
  table :: "PeerID \<Rightarrow> Route list option"
  ipv6 :: "Addr \<Rightarrow> PeerID option"

definition NewRouting :: Routing where
  "NewRouting = \<lparr>table = Map.empty, ipv6 = Map.empty\<rparr>"

text \<open>\<^verbatim>\<open>AddRoute\<close> returns before it updates the addresses when the route is known.\<close>

definition AddRoute :: "crypto \<Rightarrow> Routing \<Rightarrow> PeerID \<Rightarrow> Route \<Rightarrow> Routing" where
  "AddRoute C r peerid route =
     (case table r peerid of
        Some routes \<Rightarrow>
          if list_ex (\<lambda>l. Route_Equal l route) routes then r
          else r\<lparr>table := (table r)(peerid \<mapsto> routes @ [route]),
                 ipv6 := (ipv6 r)(PublicKey_IPAddr C (PeerID_PublicKey peerid) \<mapsto> peerid)\<rparr>
      | None \<Rightarrow>
          r\<lparr>table := (table r)(peerid \<mapsto> [route]),
            ipv6 := (ipv6 r)(PublicKey_IPAddr C (PeerID_PublicKey peerid) \<mapsto> peerid)\<rparr>)"

definition GetRoute :: "Routing \<Rightarrow> PeerID \<Rightarrow> err + Route" where
  "GetRoute r peerid =
     (case table r peerid of
        None \<Rightarrow> Inl ErrUnknownPeerID
      | Some routes \<Rightarrow> (case routes of [] \<Rightarrow> Inl ErrUnknownPeerID | route # _ \<Rightarrow> Inr route))"

definition MustGetRoute :: "Routing \<Rightarrow> PeerID \<Rightarrow> Route option" where
  "MustGetRoute r peerid = (case GetRoute r peerid of Inl _ \<Rightarrow> None | Inr route \<Rightarrow> Some route)"

definition LookupIPv6 :: "Routing \<Rightarrow> Addr \<Rightarrow> err + PeerID" where
  "LookupIPv6 r ipaddr =
     (case ipv6 r ipaddr of None \<Rightarrow> Inl (Errorf ''address unknown: '') | Some pid \<Rightarrow> Inr pid)"

abbreviation pid_addr :: "crypto \<Rightarrow> PeerID \<Rightarrow> Addr" where
  "pid_addr C pid \<equiv> PublicKey_IPAddr C (PeerID_PublicKey pid)"

section \<open>Invariant\<close>

text \<open>
  No peer has an empty list or a route twice; the addresses are those of the peers that have routes.
\<close>

definition routing_inv :: "crypto \<Rightarrow> Routing \<Rightarrow> bool" where
  "routing_inv C r \<longleftrightarrow>
     (\<forall>pid routes. table r pid = Some routes \<longrightarrow>
        routes \<noteq> [] \<and> distinct routes \<and> ipv6 r (pid_addr C pid) \<noteq> None) \<and>
     (\<forall>a pid. ipv6 r a = Some pid \<longrightarrow> a = pid_addr C pid \<and> table r pid \<noteq> None)"

lemma routing_inv_New: "routing_inv C NewRouting"
  by (simp add: routing_inv_def NewRouting_def)

lemma known_route: "list_ex (\<lambda>l. Route_Equal l route) routes \<longleftrightarrow> route \<in> set routes"
  by (auto simp: list_ex_iff Route_Equal_iff)

lemma routing_inv_Add: "routing_inv C r \<Longrightarrow> routing_inv C (AddRoute C r pid route)"
  unfolding routing_inv_def AddRoute_def known_route
  by (auto split: option.splits)

lemma table_AddRoute: "table (AddRoute C s q x) p = None \<longleftrightarrow> table s p = None \<and> p \<noteq> q"
  by (auto simp: AddRoute_def split: option.splits)

lemma GetRoute_Must:
  "GetRoute r pid = (case MustGetRoute r pid of None \<Rightarrow> Inl ErrUnknownPeerID | Some route \<Rightarrow> Inr route)"
  by (auto simp: MustGetRoute_def GetRoute_def split: option.splits list.splits)

interpretation routes: first_wins "AddRoute C" MustGetRoute
proof
  fix s k v q
  show "MustGetRoute (AddRoute C s k v) q =
      (if q = k \<and> MustGetRoute s k = None then Some v else MustGetRoute s q)"
    by (auto simp: MustGetRoute_def GetRoute_def AddRoute_def known_route split: option.splits list.splits)
qed

abbreviation add_routes :: "crypto \<Rightarrow> (PeerID \<times> Route) list \<Rightarrow> Routing \<Rightarrow> Routing" where
  "add_routes C adds r \<equiv> fold (\<lambda>(pid, route) r. AddRoute C r pid route) adds r"

lemma routing_inv_adds: "routing_inv C (add_routes C adds NewRouting)"
proof -
  have "routing_inv C (add_routes C adds s)" if "routing_inv C s" for s
    using that by (induction adds arbitrary: s) (auto simp: routing_inv_Add)
  then show ?thesis using routing_inv_New by blast
qed

lemma table_adds: "table (add_routes C adds NewRouting) p \<noteq> None \<longleftrightarrow> p \<in> fst ` set adds"
proof -
  have "table (add_routes C adds s) p = None \<longleftrightarrow> table s p = None \<and> p \<notin> fst ` set adds" for s
    by (induction adds arbitrary: s) (auto simp: table_AddRoute)
  from this [of NewRouting] show ?thesis by (simp add: NewRouting_def)
qed

section \<open>Properties\<close>

text \<open>
  Preferred routes. After any sequence of AddRoute calls on an empty table, GetRoute returns for every
  peer the route that was added for it first, and ErrUnknownPeerID for a peer that no route was added
  for: a route learned later never replaces it.
\<close>

theorem GetRoute_first_added:
  "GetRoute (add_routes C adds NewRouting) pid =
     (case map_of adds pid of None \<Rightarrow> Inl ErrUnknownPeerID | Some route \<Rightarrow> Inr route)"
proof -
  have "MustGetRoute (add_routes C adds NewRouting) pid = map_of adds pid"
    using routes.look_adds [of C adds NewRouting pid]
    by (simp add: MustGetRoute_def GetRoute_def NewRouting_def)
  then show ?thesis by (simp add: GetRoute_Must)
qed

text \<open>
  Address lookup. In a table built by AddRoute calls, every peer with a route is found under
  the IPv6 address of its key, provided no other peer with a route has the same address;
  in any case what LookupIPv6 returns is a peer with that address that has a route.
\<close>

theorem LookupIPv6_finds:
  assumes "r = add_routes C adds NewRouting"
    and "pid \<in> fst ` set adds"
    and "\<And>p. p \<in> fst ` set adds \<Longrightarrow> pid_addr C p = pid_addr C pid \<Longrightarrow> p = pid"
  shows "LookupIPv6 r (pid_addr C pid) = Inr pid \<and>
    (\<forall>a p. LookupIPv6 r a = Inr p \<longrightarrow> a = pid_addr C p \<and> p \<in> fst ` set adds)"
proof -
  note inv = routing_inv_adds [of C adds, folded assms(1)] and dom = table_adds [of C adds, folded assms(1)]
  have found: "a = pid_addr C p \<and> p \<in> fst ` set adds" if "ipv6 r a = Some p" for a p
    using inv that dom unfolding routing_inv_def by blast
  from dom assms(2) obtain rs where "table r pid = Some rs" by blast
  with inv obtain q where q: "ipv6 r (pid_addr C pid) = Some q"
    unfolding routing_inv_def by blast
  have "q = pid"
    by (rule assms(3)) (use found [OF q] in \<open>rule conjunct2\<close>, rule found [OF q, THEN conjunct1, symmetric])
  with q have "LookupIPv6 r (pid_addr C pid) = Inr pid" by (simp only: LookupIPv6_def option.case)
  moreover have "a = pid_addr C p \<and> p \<in> fst ` set adds" if "LookupIPv6 r a = Inr p" for a p
    by (rule found) (use that in \<open>simp add: LookupIPv6_def split: option.splits\<close>)
  ultimately show ?thesis by blast
qed

theorem LookupIPv6_finds_witness:
  "LookupIPv6 (add_routes ref_crypto [(NewPeerID \<lparr>pub_bytes = replicate 32 1\<rparr>, NewRoute [5])] NewRouting)
     (pid_addr ref_crypto (NewPeerID \<lparr>pub_bytes = replicate 32 1\<rparr>)) = Inr (NewPeerID \<lparr>pub_bytes = replicate 32 1\<rparr>)"
  using LookupIPv6_finds [OF refl, of "NewPeerID \<lparr>pub_bytes = replicate 32 1\<rparr>"
      "[(NewPeerID \<lparr>pub_bytes = replicate 32 1\<rparr>, NewRoute [5])]" ref_crypto] by simp

end
