(* ===== verification/Ringbuf.thy ===== *)
theory Ringbuf
  imports Prelude
begin

text \<open>
  \<^verbatim>\<open>node/util/ringbuf/ringbuf.go\<close>: the bounded queues between the routines of a node.

  A Go channel with a buffer is the list of its elements with its capacity. An operation that blocks
  has the value \<^const>\<open>None\<close>; the routine that called it makes no step until the queue has
  changed. A send and the receive before it in \<^verbatim>\<open>Put\<close> are one step.
\<close>

record 'p RingBuffer =
  ch :: "'p list"
  rb_cap :: nat
  dropped :: u64

definition NewRingBuffer :: "nat \<Rightarrow> 'p RingBuffer" where
  "NewRingBuffer capacity = \<lparr>ch = [], rb_cap = capacity, dropped = 0\<rparr>"

text \<open>Sending to and receiving from a buffered channel.\<close>

definition chan_send :: "'p RingBuffer \<Rightarrow> 'p \<Rightarrow> 'p RingBuffer option" where
  "chan_send rb pkt = (if length (ch rb) < rb_cap rb then Some (rb\<lparr>ch := ch rb @ [pkt]\<rparr>) else None)"

definition chan_recv :: "'p RingBuffer \<Rightarrow> ('p \<times> 'p RingBuffer) option" where
  "chan_recv rb = (case ch rb of [] \<Rightarrow> None | pkt # rest \<Rightarrow> Some (pkt, rb\<lparr>ch := rest\<rparr>))"

definition Put :: "'p RingBuffer \<Rightarrow> 'p \<Rightarrow> 'p RingBuffer option" where
  "Put rb pkt =
     (case chan_send rb pkt of
        Some rb \<Rightarrow> Some rb
      | None \<Rightarrow> do {
          (_, rb) \<leftarrow> chan_recv rb;
          let rb = rb\<lparr>dropped := dropped rb + 1\<rparr>;
          chan_send rb pkt })"

definition PutWithBackpressure :: "'p RingBuffer \<Rightarrow> 'p \<Rightarrow> 'p RingBuffer option" where
  "PutWithBackpressure rb pkt = chan_send rb pkt"

definition RingBuffer_Get :: "'p RingBuffer \<Rightarrow> ('p \<times> 'p RingBuffer) option" where
  "RingBuffer_Get rb = chan_recv rb"

definition Capacity :: "'p RingBuffer \<Rightarrow> nat" where "Capacity rb = rb_cap rb"
definition RingBuffer_Length :: "'p RingBuffer \<Rightarrow> nat" where "RingBuffer_Length rb = length (ch rb)"
definition Dropped :: "'p RingBuffer \<Rightarrow> u64" where "Dropped rb = dropped rb"

definition rb_inv :: "'p RingBuffer \<Rightarrow> bool" where
  "rb_inv rb \<longleftrightarrow> 0 < rb_cap rb \<and> length (ch rb) \<le> rb_cap rb"

section \<open>A queue that drops its oldest elements\<close>

locale drop_oldest =
  fixes inv :: "'q \<Rightarrow> bool"
    and content :: "'q \<Rightarrow> 'p list"
    and room :: "'q \<Rightarrow> nat"
    and lost :: "'q \<Rightarrow> u64"
    and put :: "'q \<Rightarrow> 'p \<Rightarrow> 'q option"
  assumes inv_room: "inv q \<Longrightarrow> 0 < room q \<and> length (content q) \<le> room q"
    and put_ok: "inv q \<Longrightarrow> \<exists>q'. put q p = Some q' \<and> inv q' \<and> room q' = room q \<and>
      content q' = drop (Suc (length (content q)) - room q) (content q @ [p]) \<and>
      lost q' = lost q + of_nat (Suc (length (content q)) - room q)"
begin

lemma put_all_content:
  assumes "inv q"
  shows "\<exists>q'. run_list put q ps = Some q' \<and> inv q' \<and> room q' = room q \<and>
    content q' = drop (length (content q) + length ps - room q) (content q @ ps) \<and>
    lost q' = lost q + of_nat (length (content q) + length ps - room q)"
  using assms
proof (induction ps arbitrary: q)
  case Nil
  with inv_room [of q] show ?case by simp
next
  case (Cons p ps)
  obtain q1 where q1: "put q p = Some q1" "inv q1" "room q1 = room q"
    "content q1 = drop (Suc (length (content q)) - room q) (content q @ [p])"
    "lost q1 = lost q + of_nat (Suc (length (content q)) - room q)"
    using put_ok [OF Cons.prems, of p] by blast
  obtain q2 where q2: "run_list put q1 ps = Some q2" "inv q2" "room q2 = room q1"
    "content q2 = drop (length (content q1) + length ps - room q1) (content q1 @ ps)"
    "lost q2 = lost q1 + of_nat (length (content q1) + length ps - room q1)"
    using Cons.IH [OF q1(2)] by blast
  let ?d = "Suc (length (content q)) - room q"
  have d: "?d \<le> 1" "length (content q1) = Suc (length (content q)) - ?d"
    using inv_room [OF Cons.prems] q1(4) by auto
  let ?k = "length (content q1) + length ps - room q" and ?n = "length (content q) + length (p # ps) - room q"
  have tail: "content q1 @ ps = drop ?d (content q @ p # ps)"
    using q1(4) inv_room [OF Cons.prems] d by (cases "?d = 0") (auto simp: le_Suc_eq)
  have sum: "?k + ?d = ?n" using d inv_room [OF Cons.prems] by auto
  have "content q2 = drop ?n (content q @ p # ps)"
    unfolding sum [symmetric] using q2(3,4) q1(3) tail by (simp only: drop_drop)
  moreover have "lost q2 = lost q + of_nat ?n"
    unfolding sum [symmetric] using q2(3,5) q1(3,5) by (simp only: of_nat_add add.assoc add.commute add.left_commute)
  ultimately have "run_list put q (p # ps) = Some q2 \<and> inv q2 \<and> room q2 = room q \<and>
      content q2 = drop ?n (content q @ p # ps) \<and> lost q2 = lost q + of_nat ?n"
    using q1(1,3) q2(1-3) by simp
  then show ?case by blast
qed

end

lemma Put_cases:
  assumes "rb_inv rb"
  shows "Put rb pkt = Some (if length (ch rb) < rb_cap rb then rb\<lparr>ch := ch rb @ [pkt]\<rparr>
    else rb\<lparr>ch := tl (ch rb) @ [pkt], dropped := dropped rb + 1\<rparr>)"
  using assms by (cases "ch rb") (auto simp: Put_def chan_send_def chan_recv_def rb_inv_def)

interpretation ring: drop_oldest rb_inv ch rb_cap dropped Put
proof
  fix rb :: "'p RingBuffer" and pkt assume inv: "rb_inv rb"
  then show "0 < rb_cap rb \<and> length (ch rb) \<le> rb_cap rb" by (simp add: rb_inv_def)
  show "\<exists>q'. Put rb pkt = Some q' \<and> rb_inv q' \<and> rb_cap q' = rb_cap rb \<and>
      ch q' = drop (Suc (length (ch rb)) - rb_cap rb) (ch rb @ [pkt]) \<and>
      dropped q' = dropped rb + of_nat (Suc (length (ch rb)) - rb_cap rb)"
  proof (cases "length (ch rb) < rb_cap rb")
    case False
    with inv obtain p ps where "ch rb = p # ps" "rb_cap rb = Suc (length ps)"
      by (cases "ch rb") (auto simp: rb_inv_def)
    then show ?thesis using inv by (simp add: Put_cases rb_inv_def)
  qed (use inv in \<open>simp add: Put_cases rb_inv_def\<close>)
qed

lemma Get_Put_order:
  assumes "RingBuffer_Get rb = Some (pkt, rb')"
  shows "ch rb = pkt # ch rb'" "rb_inv rb \<Longrightarrow> rb_inv rb'"
  using assms by (auto simp: RingBuffer_Get_def chan_recv_def rb_inv_def split: list.splits)

section \<open>Properties\<close>

text \<open>
  C36. Queues keep the newest packets. Putting any list of packets into a ring buffer never
  blocks: afterwards the channel holds the last packets of everything it held and was given,
  in order and as many as its capacity allows, and the counter of dropped packets has grown by the
  number of packets lost, modulo two to the 64.
\<close>

theorem ringbuf_keeps_newest:
  assumes "rb_inv rb"
  shows "\<exists>rb'. run_list Put rb pkts = Some rb' \<and> rb_inv rb' \<and> Capacity rb' = Capacity rb \<and>
    ch rb' = drop (RingBuffer_Length rb + length pkts - Capacity rb) (ch rb @ pkts) \<and>
    Dropped rb' = Dropped rb + of_nat (RingBuffer_Length rb + length pkts - Capacity rb)"
  using ring.put_all_content [OF assms]
  by (simp add: Capacity_def RingBuffer_Length_def Dropped_def)

theorem ringbuf_keeps_newest_witness:
  "\<exists>rb'. run_list Put (NewRingBuffer 2) [1 :: nat, 2, 3] = Some rb' \<and> ch rb' = [2, 3] \<and> Dropped rb' = 1"
  using ringbuf_keeps_newest [of "NewRingBuffer 2" "[1 :: nat, 2, 3]"]
  by (simp add: NewRingBuffer_def rb_inv_def Capacity_def RingBuffer_Length_def Dropped_def numeral_2_eq_2) blast

end
