(* ===== verification/Lifecycle.thy ===== *)
theory Lifecycle
  imports Prelude
begin

text \<open>
  Things that are started and stopped: the node, its transports and its services share one idiom, a
  channel \<^verbatim>\<open>running\<close> that is nil before the first start, open while the routines run, and closed
  afterwards. Nothing is ever sent on it, so a receive succeeds exactly when it is closed.
\<close>

datatype running_chan = ChanNil | ChanOpen | ChanClosed

definition chan_running :: "running_chan \<Rightarrow> bool" where
  "chan_running c = (case c of ChanNil \<Rightarrow> False | ChanOpen \<Rightarrow> True | ChanClosed \<Rightarrow> False)"

lemma chan_running_simps [simp]:
  "\<not> chan_running ChanNil" "chan_running ChanOpen" "\<not> chan_running ChanClosed"
  by (simp_all add: chan_running_def)

text \<open>
  The contract: a start succeeds exactly when the thing is not running and makes it run, a stop
  succeeds exactly when it runs and ends that; a refused call changes nothing.
\<close>

locale startable =
  fixes running :: "'s \<Rightarrow> bool"
    and start :: "'s \<Rightarrow> 's \<times> err option"
    and stop :: "'s \<Rightarrow> 's \<times> err option"
    and refused_start refused_stop :: err
  assumes start_fresh: "\<not> running s \<Longrightarrow> snd (start s) = None \<and> running (fst (start s))"
    and start_again: "running s \<Longrightarrow> start s = (s, Some refused_start)"
    and stop_running: "running s \<Longrightarrow> snd (stop s) = None \<and> \<not> running (fst (stop s))"
    and stop_again: "\<not> running s \<Longrightarrow> stop s = (s, Some refused_stop)"
begin

text \<open>A sequence of calls, \<^const>\<open>True\<close> for a start.\<close>

definition call :: "bool \<Rightarrow> 's \<Rightarrow> 's \<times> err option" where
  "call b s = (if b then start s else stop s)"

lemma call_outcome:
  "snd (call b s) = (if b = running s then Some (if b then refused_start else refused_stop) else None)"
  "running (fst (call b s)) = b"
  using start_fresh [of s] start_again [of s] stop_running [of s] stop_again [of s]
  by (cases "running s"; cases b; simp add: call_def)+

lemma calls_running: "running (fold (\<lambda>b s. fst (call b s)) bs s) = (if bs = [] then running s else last bs)"
  by (induction bs arbitrary: s) (auto simp: call_outcome)

lemma restart: "\<not> running s \<Longrightarrow> running (fst (start (fst (stop (fst (start s))))))"
  using start_fresh stop_running by blast

end

end
