(* ===== verification/Transport.thy ===== *)
theory Transport
  imports Ringbuf Lifecycle Packets
begin

text \<open>
  \<^verbatim>\<open>node/transport.go\<close>: a UDP socket with a queue of packets to send.

  Sockets belong to the operating system. Opening one is an argument that returns an error or
  the local address of the socket; one iteration of the receiving routine takes what the system
  read, one iteration of the sending routine returns what it writes.
\<close>

record Transport =
  conn_local :: "Addr \<times> u16"
  listenAddr :: Multiaddr
  tpt_running :: running_chan
  sendQ :: "Packet RingBuffer"

definition TransportBufferSize :: nat where "TransportBufferSize = 1024"

definition NewTransport ::
  "(bytes \<Rightarrow> nat list) \<Rightarrow> (string \<Rightarrow> Addr \<times> u16 \<Rightarrow> err + Addr \<times> u16) \<Rightarrow> Multiaddr \<Rightarrow> err + Transport" where
  "NewTransport more_Protocols ListenUDP lisaddr =
     (let protos = Multiaddr_Protocols more_Protocols lisaddr in
      if length protos \<noteq> 2 \<or> protos ! 1 \<noteq> UDPMultiaddrCodec then Inl (Errorf ''can't listen on'')
      else if protos ! 0 \<noteq> IP6MultiaddrCodec \<and> protos ! 0 \<noteq> IP4MultiaddrCodec
      then Inl (Errorf ''can't listen on'')
      else
        let network = (if protos ! 0 = IP6MultiaddrCodec then ''udp6'' else ''udp4'')
        in case ListenUDP network (Multiaddr_AddrPort lisaddr) of
             Inl e \<Rightarrow> Inl e
           | Inr conn \<Rightarrow> Inr \<lparr>conn_local = conn, listenAddr = lisaddr, tpt_running = ChanNil,
                            sendQ = NewRingBuffer TransportBufferSize\<rparr>)"

definition Transport_Running :: "Transport \<Rightarrow> bool" where
  "Transport_Running tpt = chan_running (tpt_running tpt)"

definition Transport_Start :: "Transport \<Rightarrow> Transport \<times> err option" where
  "Transport_Start tpt =
     (if Transport_Running tpt then (tpt, Some ErrRunning) else (tpt\<lparr>tpt_running := ChanOpen\<rparr>, None))"

definition Transport_Stop :: "Transport \<Rightarrow> Transport \<times> err option" where
  "Transport_Stop tpt =
     (if \<not> Transport_Running tpt then (tpt, Some ErrNotRunning) else (tpt\<lparr>tpt_running := ChanClosed\<rparr>, None))"

definition LocalMultiaddr :: "Transport \<Rightarrow> Multiaddr" where
  "LocalMultiaddr tpt = emptyMultiaddr\<lparr>IP := fst (conn_local tpt), Port := snd (conn_local tpt)\<rparr>"

text \<open>
  One iteration of \<^verbatim>\<open>RecvRoutine\<close>: a datagram is read into a fresh buffer of the transport's size,
  and what does not fit is lost. A read error is logged and leaves the queue as it is;
  \<^verbatim>\<open>net.ErrClosed\<close> ends the routine as well, after which it has no further iterations.
\<close>

definition received :: "bytes \<Rightarrow> Addr \<times> u16 \<Rightarrow> Packet" where
  "received datagram raddr =
     (NewPacket (to_array TptMTU datagram))
       \<lparr>Length := int (min TptMTU (length datagram)), TptSrc := FromAddrPort raddr\<rparr>"

definition Transport_RecvStep ::
  "err + bytes \<times> (Addr \<times> u16) \<Rightarrow> Packet RingBuffer \<Rightarrow> Packet RingBuffer option" where
  "Transport_RecvStep read nextQ =
     (case read of
        Inl _ \<Rightarrow> Some nextQ
      | Inr (datagram, raddr) \<Rightarrow> Put nextQ (received datagram raddr))"

text \<open>One iteration of \<^verbatim>\<open>SendRoutine\<close>: the datagram written to the socket, if any.\<close>

definition Transport_SendStep ::
  "Transport \<Rightarrow> (Transport \<times> (bytes \<times> (Addr \<times> u16)) option) option" where
  "Transport_SendStep tpt = do {
     (pkt, q) \<leftarrow> RingBuffer_Get (sendQ tpt);
     let tpt = tpt\<lparr>sendQ := q\<rparr>;
     if Multiaddr_Empty (TptDst pkt) then Some (tpt, None)
     else do {
       b \<leftarrow> Packet_Bytes pkt;
       Some (tpt, Some (b, Multiaddr_AddrPort (TptDst pkt))) } }"

definition Transport_Send :: "Transport \<Rightarrow> Packet \<Rightarrow> Transport option" where
  "Transport_Send tpt pkt = do {
     q \<leftarrow> PutWithBackpressure (sendQ tpt) pkt;
     Some (tpt\<lparr>sendQ := q\<rparr>) }"

interpretation tpt_life: startable Transport_Running Transport_Start Transport_Stop ErrRunning ErrNotRunning
  by unfold_locales (auto simp: Transport_Running_def Transport_Start_def Transport_Stop_def)

text \<open>A packet sent to a socket arrives as it was, up to its length.\<close>

lemma received_bytes:
  assumes "Packet_Bytes pkt = Some b" and "length (Buf pkt) = TptMTU"
  shows "Length (received b raddr) = Length pkt" "length (Buf (received b raddr)) = TptMTU"
    "j \<le> Length pkt \<Longrightarrow> slice_of (Buf (received b raddr)) i j = slice_of (Buf pkt) i j"
proof -
  from assms have l: "0 \<le> Length pkt" "Length pkt \<le> int TptMTU" and b: "b = take (nat (Length pkt)) (Buf pkt)"
    by (auto simp: Packet_Bytes_def slice_of_def split: if_splits)
  have lb: "length b = nat (Length pkt)" using b l assms(2) by simp
  with l show "Length (received b raddr) = Length pkt" "length (Buf (received b raddr)) = TptMTU"
    by (simp_all add: received_def NewPacket_def)
  assume "j \<le> Length pkt"
  then show "slice_of (Buf (received b raddr)) i j = slice_of (Buf pkt) i j"
    using assms(2) b lb l
    by (intro slice_cong) (auto simp: received_def NewPacket_def to_array_def nth_append)
qed

end
