(* ===== verification/Node.thy ===== *)
theory Node
  imports SessionRuns Forwarding Routing Transport
begin

text \<open>
  \<^verbatim>\<open>node/node.go\<close>, \<^verbatim>\<open>node/send.go\<close>, \<^verbatim>\<open>node/recv.go\<close> and \<^verbatim>\<open>node/peer.go\<close>: a node, its eight queues and the
  routines that serve them.

  One iteration of a routine is one step. A step that would block on a full queue, or wait for a
  packet that is not there, has the value \<^const>\<open>None\<close> and is taken later; a step that panics has this value too. The handlers that services
  register are values of a type parameter; calling one appends it, with its packet, to the lists
  \<open>upper_calls\<close> and \<open>lower_calls\<close>, which are not fields of the source. Channels of waiters are
  numbered, and \<open>woken\<close> lists what was sent to them. Log output is not modelled.
\<close>

section \<open>State\<close>

record 'h Node =
  nd_peerid :: PeerID
  transports :: "Transport list"
  nd_waiters :: "PeerID \<Rightarrow> nat list option"
  sessions :: SessionManager
  upperHandlers :: "u64 \<Rightarrow> 'h option"
  lowerHandlers :: "u64 \<Rightarrow> 'h option"
  forwarder :: "port Forwarder"
  routing :: Routing
  nd_running :: running_chan
  helloSendQ :: "Packet RingBuffer"
  lowerSendQ :: "Packet RingBuffer"
  upperSendQ :: "Packet RingBuffer"
  helloRecvQ :: "Packet RingBuffer"
  lowerRecvQ :: "Packet RingBuffer"
  lowerMuxQ :: "Packet RingBuffer"
  upperRecvQ :: "Packet RingBuffer"
  upperMuxQ :: "Packet RingBuffer"
  woken :: "(nat \<times> err option) list"
  upper_calls :: "('h \<times> UpperPacket) list"
  lower_calls :: "('h \<times> LowerPacket) list"

definition DirectUpperCodec :: u64 where "DirectUpperCodec = 0x12347"
definition DefaultQueueSize :: nat where "DefaultQueueSize = 1024"

text \<open>
  What a step takes from outside the program: the external packages, the time stamp of a hello, the
  draws for a key and for an index, and the order in which the map of sessions is searched.
\<close>

record env =
  env_C :: crypto
  env_V :: varint
  env_ts :: bytes
  env_kd :: "(err + bytes) list"
  env_ids :: "(err + bytes) list"
  env_order :: "u32 list"

definition NewNode :: "crypto \<Rightarrow> PrivateKey \<Rightarrow> 'h Node" where
  "NewNode C privkey =
     (let pubkey = PrivateKey_PublicKey C privkey;
          peerid = NewPeerID pubkey;
          q = NewRingBuffer DefaultQueueSize;
          (fwd, _) = Attach NewForwarder peerid Local
      in \<lparr>nd_peerid = peerid, transports = [], nd_waiters = Map.empty,
          sessions = NewSessionManager C privkey, upperHandlers = Map.empty, lowerHandlers = Map.empty,
          forwarder = fwd, routing = NewRouting, nd_running = ChanNil,
          helloSendQ = q, lowerSendQ = q, upperSendQ = q, helloRecvQ = q, lowerRecvQ = q,
          lowerMuxQ = q, upperRecvQ = q, upperMuxQ = q,
          woken = [], upper_calls = [], lower_calls = []\<rparr>)"

section \<open>Starting and stopping\<close>

definition Node_Running :: "'h Node \<Rightarrow> bool" where
  "Node_Running node = chan_running (nd_running node)"

definition Node_Start :: "'h Node \<Rightarrow> 'h Node \<times> err option" where
  "Node_Start node =
     (if Node_Running node then (node, Some ErrRunning)
      else (node\<lparr>nd_running := ChanOpen, transports := map (fst \<circ> Transport_Start) (transports node)\<rparr>, None))"

definition Node_Stop :: "'h Node \<Rightarrow> 'h Node \<times> err option" where
  "Node_Stop node =
     (if \<not> Node_Running node then (node, Some ErrNotRunning)
      else (node\<lparr>nd_running := ChanClosed, transports := map (fst \<circ> Transport_Stop) (transports node)\<rparr>, None))"

definition Addresses :: "'h Node \<Rightarrow> Multiaddr list" where
  "Addresses node = map (\<lambda>lis. (LocalMultiaddr lis)\<lparr>MaPeerID := nd_peerid node\<rparr>) (transports node)"

definition Node_IPAddr :: "crypto \<Rightarrow> 'h Node \<Rightarrow> Addr" where
  "Node_IPAddr C node = PublicKey_IPAddr C (PeerID_PublicKey (nd_peerid node))"

text \<open>\<^verbatim>\<open>PeerAPI.Listen\<close>: a new transport, started at once when the node is running.\<close>

definition Listen ::
  "(bytes \<Rightarrow> nat list) \<Rightarrow> (string \<Rightarrow> Addr \<times> u16 \<Rightarrow> err + Addr \<times> u16) \<Rightarrow> 'h Node \<Rightarrow> Multiaddr \<Rightarrow>
   'h Node \<times> err option" where
  "Listen more_Protocols ListenUDP node ma =
     (case NewTransport more_Protocols ListenUDP ma of
        Inl e \<Rightarrow> (node, Some e)
      | Inr tpt \<Rightarrow>
          (node\<lparr>transports := transports node @
              [if Node_Running node then fst (Transport_Start tpt) else tpt]\<rparr>, None))"

section \<open>Handlers and waiters\<close>

definition Handle :: "'h Node \<Rightarrow> u64 \<Rightarrow> 'h \<Rightarrow> 'h Node" where
  "Handle node codec cb =
     (if upperHandlers node codec \<noteq> None then node
      else node\<lparr>upperHandlers := (upperHandlers node)(codec \<mapsto> cb)\<rparr>)"

definition HandleLower :: "'h Node \<Rightarrow> u64 \<Rightarrow> 'h \<Rightarrow> 'h Node" where
  "HandleLower node codec cb =
     (if lowerHandlers node codec \<noteq> None then node
      else node\<lparr>lowerHandlers := (lowerHandlers node)(codec \<mapsto> cb)\<rparr>)"

text \<open>\<^verbatim>\<open>WaitFor\<close> up to the receive from the new channel \<open>w\<close>.\<close>

definition WaitFor :: "'h Node \<Rightarrow> PeerID \<Rightarrow> nat \<Rightarrow> 'h Node" where
  "WaitFor node pid w =
     (let ws = (case nd_waiters node pid of None \<Rightarrow> [] | Some ws \<Rightarrow> ws)
      in node\<lparr>nd_waiters := (nd_waiters node)(pid \<mapsto> ws @ [w])\<rparr>)"

text \<open>
  The variable \<^verbatim>\<open>err\<close> that is sent to the waiters is declared before the block that attaches the
  peer, and shadowed inside it: it is nil in every case.
\<close>

definition connectedCallback :: "crypto \<Rightarrow> 'h Node \<Rightarrow> PeerID \<Rightarrow> bool \<Rightarrow> 'h Node" where
  "connectedCallback C node peerid lower =
     (let err = None;
          node = (if lower then
                    (case Attach (forwarder node) peerid Remote of
                       (fwd, Inl _) \<Rightarrow> node\<lparr>forwarder := fwd\<rparr>
                     | (fwd, Inr slot) \<Rightarrow>
                         node\<lparr>forwarder := fwd, routing := AddRoute C (routing node) peerid slot\<rparr>)
                  else node)
      in case nd_waiters node peerid of
           None \<Rightarrow> node
         | Some ws \<Rightarrow>
             node\<lparr>woken := woken node @ map (\<lambda>w. (w, err)) ws,
                  nd_waiters := (nd_waiters node)(peerid := None)\<rparr>)"

definition put_helloSendQ :: "'h Node \<Rightarrow> Packet \<Rightarrow> 'h Node option" where
  "put_helloSendQ node pkt = do { q \<leftarrow> Put (helloSendQ node) pkt; Some (node\<lparr>helloSendQ := q\<rparr>) }"

definition Connect :: "'h Node \<Rightarrow> PeerID \<Rightarrow> Multiaddr \<Rightarrow> nat \<Rightarrow> 'h Node option" where
  "Connect node peerid raddr w = do {
     let pkt = NewPacket (replicate TptMTU 0);
     node \<leftarrow> (if \<not> Multiaddr_Empty raddr
             then put_helloSendQ node (pkt\<lparr>LowerDst := peerid, TptDst := raddr\<rparr>)
             else put_helloSendQ node (pkt\<lparr>UpperDst := peerid\<rparr>));
     Some (WaitFor node peerid w) }"

section \<open>Sending\<close>

definition sendTransport :: "'h Node \<Rightarrow> Packet \<Rightarrow> 'h Node option" where
  "sendTransport node pkt =
     (case transports node of
        [] \<Rightarrow> None
      | tpt # rest \<Rightarrow> do {
          tpt \<leftarrow> Transport_Send tpt pkt;
          Some (node\<lparr>transports := tpt # rest\<rparr>) })"

text \<open>The two send functions that a node attaches to its forwarder.\<close>

definition put_lowerSendQ :: "'h Node \<Rightarrow> Packet \<Rightarrow> 'h Node option" where
  "put_lowerSendQ node pkt = do { q \<leftarrow> PutWithBackpressure (lowerSendQ node) pkt; Some (node\<lparr>lowerSendQ := q\<rparr>) }"

definition put_upperRecvQ :: "'h Node \<Rightarrow> Packet \<Rightarrow> 'h Node option" where
  "put_upperRecvQ node pkt = do { q \<leftarrow> Put (upperRecvQ node) pkt; Some (node\<lparr>upperRecvQ := q\<rparr>) }"

fun call_port :: "'h Node \<Rightarrow> port \<Rightarrow> LowerPacket \<Rightarrow> 'h Node option" where
  "call_port node Local lpkt = put_upperRecvQ node (lbase lpkt)"
| "call_port node Remote lpkt = put_lowerSendQ node (lbase lpkt)"

text \<open>What becomes of a call into the forwarder.\<close>

definition forwarded :: "'h Node \<Rightarrow> (err + port \<times> LowerPacket) \<Rightarrow> ('h Node \<times> err option) option" where
  "forwarded node r =
     (case r of
        Inl e \<Rightarrow> Some (node, Some e)
      | Inr (p, lpkt) \<Rightarrow> do { node \<leftarrow> call_port node p lpkt; Some (node, None) })"

text \<open>The senders wrap the error of the forwarder.\<close>

definition sent :: "'h Node \<Rightarrow> (err + port \<times> LowerPacket) \<Rightarrow> ('h Node \<times> err option) option" where
  "sent node r =
     (case r of
        Inl e \<Rightarrow> Some (node, Some (Errorf ''forwarder: ''))
      | Inr (p, lpkt) \<Rightarrow> do { node \<leftarrow> call_port node p lpkt; Some (node, None) })"

definition SendUpper :: "'h Node \<Rightarrow> UpperPacket \<Rightarrow> 'h Node option" where
  "SendUpper node upkt = do {
     q \<leftarrow> PutWithBackpressure (upperSendQ node) (base upkt);
     Some (node\<lparr>upperSendQ := q\<rparr>) }"

definition Node_Send :: "varint \<Rightarrow> 'h Node \<Rightarrow> PeerID \<Rightarrow> u64 \<Rightarrow> bytes \<Rightarrow> ('h Node \<times> err option) option" where
  "Node_Send V node to codec p =
     (case GetRoute (routing node) to of
        Inl e \<Rightarrow> Some (node, Some e)
      | Inr route \<Rightarrow> do {
          let pkt = NewPacket (replicate TptMTU 0);
          let upkt = NewUpperPacket pkt;
          let upkt = upkt\<lparr>base := (base upkt)\<lparr>UpperDst := to\<rparr>\<rparr>;
          upkt \<leftarrow> UpperPacket_SetCodec V upkt codec;
          upkt \<leftarrow> UpperPacket_SetRoute upkt route;
          upkt \<leftarrow> UpperPacket_SetPayload upkt p;
          node \<leftarrow> SendUpper node upkt;
          Some (node, None) })"

definition doLowerHelloSend :: "env \<Rightarrow> 'h Node \<Rightarrow> Packet \<Rightarrow> ('h Node \<times> err option) option" where
  "doLowerHelloSend E node pkt = do {
     hellopkt \<leftarrow> NewHelloPacket pkt LowerOffset LowerPadding;
     (sm, r) \<leftarrow> CreateHello (env_C E) (env_ts E) (env_kd E) (env_ids E) (sessions node) hellopkt (LowerDst pkt) (TptDst pkt);
     let node = node\<lparr>sessions := sm\<rparr>;
     (case r of
        Inl e \<Rightarrow> Some (node, Some e)
      | Inr hellopkt \<Rightarrow> do { node \<leftarrow> sendTransport node (base hellopkt); Some (node, None) }) }"

definition doUpperHelloSend :: "env \<Rightarrow> 'h Node \<Rightarrow> Packet \<Rightarrow> ('h Node \<times> err option) option" where
  "doUpperHelloSend E node pkt = do {
     hellopkt \<leftarrow> NewHelloPacket pkt UpperOffset UpperPadding;
     (sm, r) \<leftarrow> CreateHello (env_C E) (env_ts E) (env_kd E) (env_ids E) (sessions node) hellopkt (UpperDst pkt) emptyMultiaddr;
     let node = node\<lparr>sessions := sm\<rparr>;
     (case r of
        Inl e \<Rightarrow> Some (node, Some e)
      | Inr hellopkt \<Rightarrow>
          (case GetRoute (routing node) (UpperDst pkt) of
             Inl e \<Rightarrow> Some (node, Some e)
           | Inr route \<Rightarrow> do {
               upkt \<leftarrow> UpperPacket_SetRoute (NewUpperPacket (base hellopkt)) route;
               fr \<leftarrow> SendPacket (env_V E) (forwarder node) upkt;
               sent node fr })) }"

definition doLowerSend :: "env \<Rightarrow> 'h Node \<Rightarrow> Packet \<Rightarrow> ('h Node \<times> err option) option" where
  "doLowerSend E node pkt = do {
     datapkt \<leftarrow> NewDataPacket pkt LowerOffset LowerPadding;
     (sm, r) \<leftarrow> CreateData (env_C E) (env_order E) (sessions node) datapkt (LowerDst (base datapkt));
     let node = node\<lparr>sessions := sm\<rparr>;
     (case r of
        Inl e \<Rightarrow> Some (node, Some e)
      | Inr (q, raddr) \<Rightarrow> do {
          let datapkt = with_buf datapkt (fbuf q);
          node \<leftarrow> sendTransport node ((base datapkt)\<lparr>TptDst := raddr\<rparr>);
          Some (node, None) }) }"

definition doUpperSend :: "env \<Rightarrow> 'h Node \<Rightarrow> Packet \<Rightarrow> ('h Node \<times> err option) option" where
  "doUpperSend E node pkt = do {
     let upkt = NewUpperPacket pkt;
     l \<leftarrow> UpperPacket_RouteLen upkt;
     if l = HopLength then do {
       lpkt \<leftarrow> LowerPacket_SetCodec (env_V E) (NewLowerPacket (base upkt)) DirectUpperCodec;
       node \<leftarrow> put_lowerSendQ node ((lbase lpkt)\<lparr>LowerDst := UpperDst (base upkt)\<rparr>);
       Some (node, None) }
     else do {
       datapkt \<leftarrow> NewDataPacket (base upkt) UpperOffset UpperPadding;
       (sm, r) \<leftarrow> CreateData (env_C E) (env_order E) (sessions node) datapkt (UpperDst (base datapkt));
       let node = node\<lparr>sessions := sm\<rparr>;
       (case r of
          Inl e \<Rightarrow> Some (node, Some e)
        | Inr (q, _) \<Rightarrow> do {
            fr \<leftarrow> SendPacket (env_V E) (forwarder node) (with_buf upkt (fbuf q));
            sent node fr }) } }"


section \<open>Receiving\<close>

definition doLowerHelloRecv :: "env \<Rightarrow> 'h Node \<Rightarrow> Packet \<Rightarrow> ('h Node \<times> err option) option" where
  "doLowerHelloRecv E node pkt = do {
     msgtype \<leftarrow> Packet_MsgType pkt;
     if msgtype = HelloMsgType then do {
       hellopkt \<leftarrow> NewHelloPacket pkt LowerOffset LowerPadding;
       (sm, r) \<leftarrow> HandleHello (env_C E) (env_kd E) (env_ids E) (sessions node) hellopkt (TptSrc pkt);
       let node = node\<lparr>sessions := sm\<rparr>;
       (case r of
          Inl e \<Rightarrow> Some (node, Some e)
        | Inr resppkt \<Rightarrow> do {
            node \<leftarrow> sendTransport node ((base resppkt)\<lparr>TptDst := TptSrc (base hellopkt)\<rparr>);
            Some (node, None) }) }
     else if msgtype = ResponseMsgType then do {
       resppkt \<leftarrow> NewResponsePacket pkt LowerOffset LowerPadding;
       (sm, r) \<leftarrow> HandleResponse (env_C E) (sessions node) resppkt (TptSrc pkt);
       let node = node\<lparr>sessions := sm\<rparr>;
       (case r of
          Inl e \<Rightarrow> Some (node, Some e)
        | Inr (_, peerid) \<Rightarrow> Some (connectedCallback (env_C E) node peerid True, None)) }
     else Some (node, Some (Errorf ''dropping packet with unknown MsgType'')) }"

text \<open>
  The route is read from the label of the received packet, which lies in front of everything that
  \<^verbatim>\<open>HandleHello\<close> changes in its buffer.
\<close>

definition doUpperHelloRecv :: "env \<Rightarrow> 'h Node \<Rightarrow> Packet \<Rightarrow> ('h Node \<times> err option) option" where
  "doUpperHelloRecv E node pkt = do {
     let upkt = NewUpperPacket pkt;
     msgtype \<leftarrow> idx (fbuf upkt) UpperOffset;
     if ucast msgtype = HelloMsgType then do {
       hellopkt \<leftarrow> NewHelloPacket (base upkt) UpperOffset UpperPadding;
       (sm, r) \<leftarrow> HandleHello (env_C E) (env_kd E) (env_ids E) (sessions node) hellopkt emptyMultiaddr;
       let node = node\<lparr>sessions := sm\<rparr>;
       (case r of
          Inl e \<Rightarrow> Some (node, Some e)
        | Inr resppkt \<Rightarrow> do {
            rt \<leftarrow> UpperPacket_Route (with_buf upkt (fbuf hellopkt));
            upkt2 \<leftarrow> UpperPacket_SetRoute (NewUpperPacket (base resppkt)) (Route_Reverse rt);
            let upkt2 = upkt2\<lparr>base := (base upkt2)\<lparr>LowerSrc := nd_peerid node\<rparr>\<rparr>;
            fr \<leftarrow> SendPacket (env_V E) (forwarder node) upkt2;
            sent node fr }) }
     else if ucast msgtype = ResponseMsgType then do {
       resppkt \<leftarrow> NewResponsePacket (base upkt) UpperOffset UpperPadding;
       (sm, r) \<leftarrow> HandleResponse (env_C E) (sessions node) resppkt emptyMultiaddr;
       let node = node\<lparr>sessions := sm\<rparr>;
       (case r of
          Inl e \<Rightarrow> Some (node, Some e)
        | Inr (_, peerid) \<Rightarrow> Some (connectedCallback (env_C E) node peerid False, None)) }
     else Some (node, Some (Errorf ''dropping packet with unknown MsgType'')) }"

definition put_lowerMuxQ :: "'h Node \<Rightarrow> Packet \<Rightarrow> 'h Node option" where
  "put_lowerMuxQ node pkt = do { q \<leftarrow> Put (lowerMuxQ node) pkt; Some (node\<lparr>lowerMuxQ := q\<rparr>) }"

definition put_upperMuxQ :: "'h Node \<Rightarrow> Packet \<Rightarrow> 'h Node option" where
  "put_upperMuxQ node pkt = do { q \<leftarrow> Put (upperMuxQ node) pkt; Some (node\<lparr>upperMuxQ := q\<rparr>) }"

definition put_helloRecvQ :: "'h Node \<Rightarrow> Packet \<Rightarrow> 'h Node option" where
  "put_helloRecvQ node pkt = do { q \<leftarrow> Put (helloRecvQ node) pkt; Some (node\<lparr>helloRecvQ := q\<rparr>) }"

definition doLowerRecv :: "env \<Rightarrow> 'h Node \<Rightarrow> Packet \<Rightarrow> ('h Node \<times> err option) option" where
  "doLowerRecv E node pkt = do {
     datapkt \<leftarrow> NewDataPacket pkt LowerOffset LowerPadding;
     (sm, r) \<leftarrow> HandleData (env_C E) (sessions node) datapkt;
     let node = node\<lparr>sessions := sm\<rparr>;
     (case r of
        Inl e \<Rightarrow> Some (node, Some e)
      | Inr (q, peerid, firstdata) \<Rightarrow> do {
          let node = (if firstdata then connectedCallback (env_C E) node peerid True else node);
          let datapkt = with_buf datapkt (fbuf q);
          node \<leftarrow> put_lowerMuxQ node ((base datapkt)\<lparr>LowerSrc := peerid\<rparr>);
          Some (node, None) }) }"

text \<open>
  The mux handlers end with a call of the handler that is registered for the codec, in the same routine. Handlers are code of the program
  that uses the node: the call and its argument are recorded in \<open>lower_calls\<close> and \<open>upper_calls\<close>. What the handlers of the repository
  do is modelled with them (\<open>fcnetHandler\<close> and \<open>handlePingPacket\<close> of \<open>Fcnet\<close>); a panic of a handler ends the process and is a
  \<^const>\<open>None\<close> there, not here.
\<close>

definition doLowerMux :: "env \<Rightarrow> 'h Node \<Rightarrow> Packet \<Rightarrow> ('h Node \<times> err option) option" where
  "doLowerMux E node pkt = do {
     let lowpkt = NewLowerPacket pkt;
     r \<leftarrow> LowerPacket_Codec (env_V E) lowpkt;
     (case r of
        Inl e \<Rightarrow> Some (node, Some (Errorf ''codec: ''))
      | Inr codec \<Rightarrow>
          if codec = DataMulticodec then do {
            fr \<leftarrow> Forwarder_HandlePacket (forwarder node) lowpkt;
            forwarded node fr }
          else if codec = DirectUpperCodec then do {
            node \<leftarrow> put_upperMuxQ node ((lbase lowpkt)\<lparr>UpperSrc := LowerSrc pkt\<rparr>);
            Some (node, None) }
          else (case lowerHandlers node codec of
                  None \<Rightarrow> Some (node, Some (Errorf ''dropping packet with unknown lower codec''))
                | Some cb \<Rightarrow> Some (node\<lparr>lower_calls := lower_calls node @ [(cb, lowpkt)]\<rparr>, None))) }"

definition doUpperRecv :: "env \<Rightarrow> 'h Node \<Rightarrow> Packet \<Rightarrow> ('h Node \<times> err option) option" where
  "doUpperRecv E node pkt = do {
     let upkt = NewUpperPacket pkt;
     datapkt \<leftarrow> NewDataPacket (base upkt) UpperOffset UpperPadding;
     (sm, r) \<leftarrow> HandleData (env_C E) (sessions node) datapkt;
     let node = node\<lparr>sessions := sm\<rparr>;
     (case r of
        Inl e \<Rightarrow> Some (node, Some e)
      | Inr (q, peerid, firstdata) \<Rightarrow> do {
          let node = (if firstdata then connectedCallback (env_C E) node peerid False else node);
          let datapkt = with_buf datapkt (fbuf q);
          rt \<leftarrow> UpperPacket_Route (with_buf upkt (fbuf q));
          let node = node\<lparr>routing := AddRoute (env_C E) (routing node) peerid (Route_Reverse rt)\<rparr>;
          node \<leftarrow> put_upperMuxQ node ((base datapkt)\<lparr>UpperSrc := peerid\<rparr>);
          Some (node, None) }) }"

definition doUpperMux :: "env \<Rightarrow> 'h Node \<Rightarrow> Packet \<Rightarrow> ('h Node \<times> err option) option" where
  "doUpperMux E node pkt = do {
     let upkt = NewUpperPacket pkt;
     r \<leftarrow> UpperPacket_Codec (env_V E) upkt;
     (case r of
        Inl e \<Rightarrow> Some (node, Some (Errorf ''codec: ''))
      | Inr codec \<Rightarrow>
          (case upperHandlers node codec of
             None \<Rightarrow> Some (node, Some (Errorf ''dropping packet with unknown upper codec''))
           | Some cb \<Rightarrow> Some (node\<lparr>upper_calls := upper_calls node @ [(cb, upkt)]\<rparr>, None))) }"

section \<open>The routines\<close>

text \<open>
  One iteration of each routine. An error of the packet's handler is logged and dropped with the
  packet.
\<close>

definition logged :: "('h Node \<times> err option) option \<Rightarrow> 'h Node option" where
  "logged r = map_option fst r"

definition helloSendRoutine :: "env \<Rightarrow> 'h Node \<Rightarrow> 'h Node option" where
  "helloSendRoutine E node = do {
     (pkt, q) \<leftarrow> RingBuffer_Get (helloSendQ node);
     let node = node\<lparr>helloSendQ := q\<rparr>;
     if PeerID_Empty (LowerDst pkt) then
       (if PeerID_Empty (UpperDst pkt) then Some node else logged (doUpperHelloSend E node pkt))
     else if Multiaddr_Empty (TptDst pkt) then Some node
     else logged (doLowerHelloSend E node pkt) }"

definition lowerSendRoutine :: "env \<Rightarrow> 'h Node \<Rightarrow> 'h Node option" where
  "lowerSendRoutine E node = do {
     (pkt, q) \<leftarrow> RingBuffer_Get (lowerSendQ node);
     let node = node\<lparr>lowerSendQ := q\<rparr>;
     if PeerID_Empty (LowerDst pkt) then Some node else logged (doLowerSend E node pkt) }"

definition upperSendRoutine :: "env \<Rightarrow> 'h Node \<Rightarrow> 'h Node option" where
  "upperSendRoutine E node = do {
     (pkt, q) \<leftarrow> RingBuffer_Get (upperSendQ node);
     let node = node\<lparr>upperSendQ := q\<rparr>;
     if PeerID_Empty (UpperDst pkt) then Some node else logged (doUpperSend E node pkt) }"

definition helloRecvRoutine :: "env \<Rightarrow> 'h Node \<Rightarrow> 'h Node option" where
  "helloRecvRoutine E node = do {
     (pkt, q) \<leftarrow> RingBuffer_Get (helloRecvQ node);
     let node = node\<lparr>helloRecvQ := q\<rparr>;
     if PeerID_Empty (LowerSrc pkt) then
       (if Multiaddr_Empty (TptSrc pkt) then Some node else logged (doLowerHelloRecv E node pkt))
     else logged (doUpperHelloRecv E node pkt) }"

definition lowerRecvRoutine :: "env \<Rightarrow> 'h Node \<Rightarrow> 'h Node option" where
  "lowerRecvRoutine E node = do {
     (pkt, q) \<leftarrow> RingBuffer_Get (lowerRecvQ node);
     let node = node\<lparr>lowerRecvQ := q\<rparr>;
     msgtype \<leftarrow> Packet_MsgType pkt;
     if msgtype = DataMsgType then logged (doLowerRecv E node pkt)
     else if msgtype = HelloMsgType \<or> msgtype = ResponseMsgType then put_helloRecvQ node pkt
     else Some node }"

definition lowerMuxRoutine :: "env \<Rightarrow> 'h Node \<Rightarrow> 'h Node option" where
  "lowerMuxRoutine E node = do {
     (pkt, q) \<leftarrow> RingBuffer_Get (lowerMuxQ node);
     let node = node\<lparr>lowerMuxQ := q\<rparr>;
     if PeerID_Empty (LowerSrc pkt) then Some node else logged (doLowerMux E node pkt) }"

definition upperRecvRoutine :: "env \<Rightarrow> 'h Node \<Rightarrow> 'h Node option" where
  "upperRecvRoutine E node = do {
     (pkt, q) \<leftarrow> RingBuffer_Get (upperRecvQ node);
     let node = node\<lparr>upperRecvQ := q\<rparr>;
     msgtype \<leftarrow> idx (Buf pkt) UpperOffset;
     if ucast msgtype = DataMsgType then logged (doUpperRecv E node pkt)
     else if ucast msgtype = HelloMsgType \<or> ucast msgtype = ResponseMsgType then put_helloRecvQ node pkt
     else Some node }"

definition upperMuxRoutine :: "env \<Rightarrow> 'h Node \<Rightarrow> 'h Node option" where
  "upperMuxRoutine E node = do {
     (pkt, q) \<leftarrow> RingBuffer_Get (upperMuxQ node);
     let node = node\<lparr>upperMuxQ := q\<rparr>;
     logged (doUpperMux E node pkt) }"

section \<open>Contracts\<close>

interpretation upper_handlers: first_wins Handle upperHandlers
  by unfold_locales (auto simp: Handle_def)

interpretation lower_handlers: first_wins HandleLower lowerHandlers
  by unfold_locales (auto simp: HandleLower_def)

interpretation node_life: startable Node_Running Node_Start Node_Stop ErrRunning ErrNotRunning
  by unfold_locales (auto simp: Node_Running_def Node_Start_def Node_Stop_def)

end
