(* ===== verification/NodeApi.thy ===== *)
theory NodeApi
  imports Node
begin

text \<open>
  \<^verbatim>\<open>api/interface.go\<close> and its implementation by a node (\<^verbatim>\<open>node/api.go\<close>, \<^verbatim>\<open>node/peer.go\<close>): what a node
  tells about itself. The calls that change a node are in \<^verbatim>\<open>Node\<close>.
\<close>

record NodeInfo =
  ni_PeerID :: PeerID
  ni_IPAddress :: Addr
  ni_Running :: bool

record PeerListener =
  ListenAddr :: Multiaddr
  EffectiveAddrs :: "Multiaddr list"
  ExternalAddrs :: "Multiaddr list"

record PeerInfo =
  pi_PeerID :: PeerID
  pi_Addr :: Multiaddr
  pi_Status :: string
  pi_Reason :: string

record PeerStatus =
  Peers :: "PeerInfo list"
  Listeners :: "PeerListener list"

record DiscoveryLinkLocal =
  dll_Interval :: int

record DiscoveryStatus =
  ds_LinkLocal :: DiscoveryLinkLocal

definition emptyNodeInfo :: NodeInfo where
  "emptyNodeInfo = \<lparr>ni_PeerID = emptyPeerID, ni_IPAddress = AddrZero, ni_Running = False\<rparr>"

definition newPeerListener :: "Multiaddr \<Rightarrow> PeerListener" where
  "newPeerListener ma = \<lparr>ListenAddr = ma, EffectiveAddrs = [], ExternalAddrs = []\<rparr>"

definition emptyPeerInfo :: PeerInfo where
  "emptyPeerInfo = \<lparr>pi_PeerID = emptyPeerID, pi_Addr = emptyMultiaddr, pi_Status = [], pi_Reason = []\<rparr>"

definition Node_Info :: "crypto \<Rightarrow> 'h Node \<Rightarrow> err + NodeInfo" where
  "Node_Info C node =
     Inr \<lparr>ni_PeerID = nd_peerid node, ni_IPAddress = Node_IPAddr C node, ni_Running = Node_Running node\<rparr>"

text \<open>\<^verbatim>\<open>Start\<close> and \<^verbatim>\<open>Stop\<close> with the information they return.\<close>

definition Node_StartInfo :: "crypto \<Rightarrow> 'h Node \<Rightarrow> 'h Node \<times> (err + NodeInfo)" where
  "Node_StartInfo C node =
     (case Node_Start node of (node, Some e) \<Rightarrow> (node, Inl e) | (node, None) \<Rightarrow> (node, Node_Info C node))"

definition Node_StopInfo :: "crypto \<Rightarrow> 'h Node \<Rightarrow> 'h Node \<times> (err + NodeInfo)" where
  "Node_StopInfo C node =
     (case Node_Stop node of (node, Some e) \<Rightarrow> (node, Inl e) | (node, None) \<Rightarrow> (node, Node_Info C node))"

definition PeerAPI_Status :: "'h Node \<Rightarrow> err + PeerStatus" where
  "PeerAPI_Status node =
     Inr \<lparr>Peers = [], Listeners = map (\<lambda>tpt. newPeerListener (LocalMultiaddr tpt)) (transports node)\<rparr>"

definition PeerAPI_Listen ::
  "(bytes \<Rightarrow> nat list) \<Rightarrow> (string \<Rightarrow> Addr \<times> u16 \<Rightarrow> err + Addr \<times> u16) \<Rightarrow> 'h Node \<Rightarrow> Multiaddr \<Rightarrow>
   'h Node \<times> (err + PeerListener)" where
  "PeerAPI_Listen more_Protocols ListenUDP node ma =
     (case Listen more_Protocols ListenUDP node ma of
        (node, Some e) \<Rightarrow> (node, Inl e)
      | (node, None) \<Rightarrow> (node, Inr (newPeerListener ma)))"

text \<open>Not implemented in the code: it always reports success with an empty record.\<close>

definition PeerAPI_Connect :: "'h Node \<Rightarrow> Multiaddr \<Rightarrow> err + PeerInfo" where
  "PeerAPI_Connect node ma = Inr emptyPeerInfo"

text \<open>\<^verbatim>\<open>node/discovery.go\<close>: the status is not implemented either.\<close>

definition DiscoveryAPI_Status :: "'h Node \<Rightarrow> err + DiscoveryStatus" where
  "DiscoveryAPI_Status node = Inr \<lparr>ds_LinkLocal = \<lparr>dll_Interval = 0\<rparr>\<rparr>"

end
