(* ===== verification/Json.thy ===== *)
theory Json
  imports MultiaddrText NodeApi
begin

text \<open>
  JSON as \<^verbatim>\<open>encoding/json\<close> writes and reads it, on values: the text of a value is represented by the value, a body that has
  no value by \<open>NoBody\<close> or \<open>NotJson\<close>. The JSON methods of identities and multiaddrs, and the structs that the
  interface of a node exchanges.
\<close>

datatype json = JNull | JBool bool | JNum string | JStr string | JArr "json list" | JObj "(string \<times> json) list"

text \<open>A value may be followed by further text, which a decoder leaves unread and \<^verbatim>\<open>Unmarshal\<close> refuses.\<close>

datatype body = NoBody | NotJson | JsonText json bool

definition ErrJson :: err where "ErrJson = ErrExternal ''json''"

definition json_Unmarshal :: "body \<Rightarrow> err + json" where
  "json_Unmarshal b = (case b of JsonText v False \<Rightarrow> Inr v | _ \<Rightarrow> Inl ErrJson)"

definition Decoder_Decode :: "body \<Rightarrow> err + json" where
  "Decoder_Decode b = (case b of JsonText v _ \<Rightarrow> Inr v | _ \<Rightarrow> Inl ErrJson)"

section \<open>Strings\<close>

definition code :: "char \<Rightarrow> nat" where "code c = of_char c"

definition in_range :: "string \<Rightarrow> nat \<Rightarrow> nat \<Rightarrow> nat \<Rightarrow> bool" where
  "in_range s i lo hi \<longleftrightarrow> i < length s \<and> lo \<le> code (s ! i) \<and> code (s ! i) \<le> hi"

text \<open>How many bytes belong to the first one, when it starts a valid sequence of UTF-8.\<close>

definition utf8_tail :: "nat \<Rightarrow> string \<Rightarrow> nat option" where
  "utf8_tail b s =
     (let c1 = in_range s 0 0x80 0xbf; c2 = in_range s 1 0x80 0xbf; c3 = in_range s 2 0x80 0xbf
      in if 0xc2 \<le> b \<and> b \<le> 0xdf then (if c1 then Some 1 else None)
         else if b = 0xe0 then (if in_range s 0 0xa0 0xbf \<and> c2 then Some 2 else None)
         else if b = 0xed then (if in_range s 0 0x80 0x9f \<and> c2 then Some 2 else None)
         else if 0xe1 \<le> b \<and> b \<le> 0xef then (if c1 \<and> c2 then Some 2 else None)
         else if b = 0xf0 then (if in_range s 0 0x90 0xbf \<and> c2 \<and> c3 then Some 3 else None)
         else if 0xf1 \<le> b \<and> b \<le> 0xf3 then (if c1 \<and> c2 \<and> c3 then Some 3 else None)
         else if b = 0xf4 then (if in_range s 0 0x80 0x8f \<and> c2 \<and> c3 then Some 3 else None)
         else None)"

definition replacement :: string where
  "replacement = [char_of (0xef :: nat), char_of (0xbf :: nat), char_of (0xbd :: nat)]"

function utf8 :: "string \<Rightarrow> string" where
  "utf8 [] = []"
| "utf8 (c # cs) =
     (if code c < 0x80 then c # utf8 cs
      else case utf8_tail (code c) cs of
             None \<Rightarrow> replacement @ utf8 cs
           | Some n \<Rightarrow> c # take n cs @ utf8 (drop n cs))"
  by pat_completeness auto
termination by (relation "measure length") auto

definition ascii :: "string \<Rightarrow> bool" where "ascii s \<longleftrightarrow> (\<forall>c\<in>set s. code c < 0x80)"

lemma utf8_ascii: "ascii s \<Longrightarrow> utf8 (s @ t) = s @ utf8 t"
  by (induction s) (simp_all add: ascii_def)

definition json_string :: "string \<Rightarrow> json" where "json_string s = JStr (utf8 s)"

lemma json_string_ascii: "ascii s \<Longrightarrow> json_string s = JStr s"
  using utf8_ascii [of s "[]"] by (simp add: json_string_def)

section \<open>Decoding into variables\<close>

text \<open>Null leaves a string, a flag, an address or a struct as it is.\<close>

definition decode_string :: "json \<Rightarrow> string \<Rightarrow> err + string" where
  "decode_string v old = (case v of JStr s \<Rightarrow> Inr s | JNull \<Rightarrow> Inr old | _ \<Rightarrow> Inl ErrJson)"

definition decode_bool :: "json \<Rightarrow> bool \<Rightarrow> err + bool" where
  "decode_bool v old = (case v of JBool b \<Rightarrow> Inr b | JNull \<Rightarrow> Inr old | _ \<Rightarrow> Inl ErrJson)"

text \<open>\<^verbatim>\<open>netip.Addr\<close> through its text methods, for which the zero address is the empty text.\<close>

definition addr_json :: "Addr \<Rightarrow> json" where
  "addr_json a = json_string (if a = AddrZero then [] else Addr_String a)"

definition decode_addr :: "json \<Rightarrow> Addr \<Rightarrow> err + Addr" where
  "decode_addr v old =
     (case v of
        JStr s \<Rightarrow> (if s = [] then Inr AddrZero else case ParseAddr s of None \<Rightarrow> Inl ErrJson | Some a \<Rightarrow> Inr a)
      | JNull \<Rightarrow> Inr old
      | _ \<Rightarrow> Inl ErrJson)"

text \<open>
  Structs: a member sets the field with its name, or else one whose name differs in case only; unknown
  members are skipped. Two letters have a further lower-case form outside ASCII.
\<close>

fun foldName :: "string \<Rightarrow> string" where
  "foldName [] = []"
| "foldName (c # cs) =
     (if code c = 0xc5 \<and> cs \<noteq> [] \<and> code (hd cs) = 0xbf then CHR ''S'' # foldName (tl cs)
      else if code c = 0xe2 \<and> map code (take 2 cs) = [0x84, 0xaa] then CHR ''K'' # foldName (drop 2 cs)
      else (if 97 \<le> code c \<and> code c \<le> 122 then char_of (code c - 32) else c) # foldName cs)"

type_synonym 's field_decoder = "string \<times> (json \<Rightarrow> 's \<Rightarrow> err + 's)"

definition lookup_field :: "'s field_decoder list \<Rightarrow> string \<Rightarrow> (json \<Rightarrow> 's \<Rightarrow> err + 's) option" where
  "lookup_field fs k =
     (case map_of fs k of
        Some d \<Rightarrow> Some d
      | None \<Rightarrow> map_of (map (\<lambda>(n, d). (foldName n, d)) fs) (foldName k))"

fun decode_members :: "'s field_decoder list \<Rightarrow> (string \<times> json) list \<Rightarrow> 's \<Rightarrow> err + 's" where
  "decode_members fs [] s = Inr s"
| "decode_members fs ((k, v) # kvs) s =
     (case lookup_field fs k of
        None \<Rightarrow> decode_members fs kvs s
      | Some d \<Rightarrow> (case d v s of Inl e \<Rightarrow> Inl e | Inr s \<Rightarrow> decode_members fs kvs s))"

definition decode_struct :: "'s field_decoder list \<Rightarrow> json \<Rightarrow> 's \<Rightarrow> err + 's" where
  "decode_struct fs v s =
     (case v of JObj kvs \<Rightarrow> decode_members fs kvs s | JNull \<Rightarrow> Inr s | _ \<Rightarrow> Inl ErrJson)"

fun decode_all :: "(json \<Rightarrow> err + 'a) \<Rightarrow> json list \<Rightarrow> err + 'a list" where
  "decode_all f [] = Inr []"
| "decode_all f (v # vs) =
     (case f v of Inl e \<Rightarrow> Inl e | Inr x \<Rightarrow> (case decode_all f vs of Inl e \<Rightarrow> Inl e | Inr xs \<Rightarrow> Inr (x # xs)))"

text \<open>A slice; the nil slice is null.\<close>

definition slice_json :: "('a \<Rightarrow> json) \<Rightarrow> 'a list \<Rightarrow> json" where
  "slice_json f xs = (if xs = [] then JNull else JArr (map f xs))"

definition decode_slice :: "(json \<Rightarrow> err + 'a) \<Rightarrow> json \<Rightarrow> err + 'a list" where
  "decode_slice f v = (case v of JArr vs \<Rightarrow> decode_all f vs | JNull \<Rightarrow> Inr [] | _ \<Rightarrow> Inl ErrJson)"

section \<open>Identities and multiaddrs\<close>

definition PeerID_MarshalJSON :: "'cid cidlib \<Rightarrow> PeerID \<Rightarrow> json" where
  "PeerID_MarshalJSON L pid = json_string (PeerID_String L pid)"

definition PeerID_UnmarshalJSON :: "'cid cidlib \<Rightarrow> body \<Rightarrow> err + PeerID" where
  "PeerID_UnmarshalJSON L b =
     (case json_Unmarshal b of
        Inl e \<Rightarrow> Inl (Errorf ''jsonstring'')
      | Inr v \<Rightarrow>
          (case decode_string v [] of
             Inl e \<Rightarrow> Inl (Errorf ''jsonstring'')
           | Inr b32cid \<Rightarrow>
               (case cid_Parse L b32cid of
                  Inl e \<Rightarrow> Inl (Errorf ''cid'')
                | Inr c \<Rightarrow> (case PeerIDFromCid L c of Inl e \<Rightarrow> Inl (Errorf ''peerid'') | Inr pid2 \<Rightarrow> Inr pid2))))"

definition Multiaddr_MarshalJSON :: "'cid cidlib \<Rightarrow> maddrlib \<Rightarrow> Multiaddr \<Rightarrow> json" where
  "Multiaddr_MarshalJSON L M ma = json_string (Multiaddr_String L M ma)"

definition Multiaddr_UnmarshalJSON :: "'cid cidlib \<Rightarrow> maddrlib \<Rightarrow> body \<Rightarrow> err + Multiaddr" where
  "Multiaddr_UnmarshalJSON L M data =
     (if data = NoBody then Inr emptyMultiaddr
      else case json_Unmarshal data of
             Inl e \<Rightarrow> Inl e
           | Inr j \<Rightarrow> (case decode_string j [] of Inl e \<Rightarrow> Inl e | Inr v \<Rightarrow> ParseMultiaddr L M v))"

section \<open>The structs of the interface\<close>

definition NodeInfo_json :: "'cid cidlib \<Rightarrow> NodeInfo \<Rightarrow> json" where
  "NodeInfo_json L ni =
     JObj [(''PeerID'', PeerID_MarshalJSON L (ni_PeerID ni)), (''IPAddress'', addr_json (ni_IPAddress ni)),
           (''Running'', JBool (ni_Running ni))]"

definition NodeInfo_fields :: "'cid cidlib \<Rightarrow> NodeInfo field_decoder list" where
  "NodeInfo_fields L =
     [(''PeerID'', \<lambda>v ni. case PeerID_UnmarshalJSON L (JsonText v False) of Inl e \<Rightarrow> Inl e | Inr p \<Rightarrow> Inr (ni\<lparr>ni_PeerID := p\<rparr>)),
      (''IPAddress'', \<lambda>v ni. case decode_addr v (ni_IPAddress ni) of Inl e \<Rightarrow> Inl e | Inr a \<Rightarrow> Inr (ni\<lparr>ni_IPAddress := a\<rparr>)),
      (''Running'', \<lambda>v ni. case decode_bool v (ni_Running ni) of Inl e \<Rightarrow> Inl e | Inr b \<Rightarrow> Inr (ni\<lparr>ni_Running := b\<rparr>))]"

definition PeerListener_json :: "'cid cidlib \<Rightarrow> maddrlib \<Rightarrow> PeerListener \<Rightarrow> json" where
  "PeerListener_json L M pl =
     JObj [(''ListenAddr'', Multiaddr_MarshalJSON L M (ListenAddr pl)),
           (''EffectiveAddrs'', slice_json (Multiaddr_MarshalJSON L M) (EffectiveAddrs pl)),
           (''ExternalAddrs'', slice_json (Multiaddr_MarshalJSON L M) (ExternalAddrs pl))]"

definition PeerListener_fields :: "'cid cidlib \<Rightarrow> maddrlib \<Rightarrow> PeerListener field_decoder list" where
  "PeerListener_fields L M =
     (let ma = (\<lambda>v. Multiaddr_UnmarshalJSON L M (JsonText v False))
      in [(''ListenAddr'', \<lambda>v pl. case ma v of Inl e \<Rightarrow> Inl e | Inr a \<Rightarrow> Inr (pl\<lparr>ListenAddr := a\<rparr>)),
          (''EffectiveAddrs'', \<lambda>v pl. case decode_slice ma v of Inl e \<Rightarrow> Inl e | Inr as \<Rightarrow> Inr (pl\<lparr>EffectiveAddrs := as\<rparr>)),
          (''ExternalAddrs'', \<lambda>v pl. case decode_slice ma v of Inl e \<Rightarrow> Inl e | Inr as \<Rightarrow> Inr (pl\<lparr>ExternalAddrs := as\<rparr>))])"

text \<open>The parameters of requests, structs with one field each.\<close>

definition string_param :: "string \<Rightarrow> string \<Rightarrow> json" where
  "string_param name s = JObj [(name, json_string s)]"

definition string_param_fields :: "string \<Rightarrow> string field_decoder list" where
  "string_param_fields name = [(name, decode_string)]"

definition addr_param :: "'cid cidlib \<Rightarrow> maddrlib \<Rightarrow> Multiaddr \<Rightarrow> json" where
  "addr_param L M ma = JObj [(''Addr'', Multiaddr_MarshalJSON L M ma)]"

definition addr_param_fields :: "'cid cidlib \<Rightarrow> maddrlib \<Rightarrow> Multiaddr field_decoder list" where
  "addr_param_fields L M = [(''Addr'', \<lambda>v _. Multiaddr_UnmarshalJSON L M (JsonText v False))]"

end
