(* ===== verification/Durations.thy ===== *)
theory Durations
  imports AddrRoundTrip
begin

text \<open>
  \<^verbatim>\<open>time.Duration\<close> as text: \<^verbatim>\<open>String\<close> and \<^verbatim>\<open>ParseDuration\<close>, on nanoseconds. Parsing computes the value of a
  fraction in floating point; that product is a parameter, which is exact where the result is a small whole number.
\<close>

section \<open>Printing\<close>

definition Second :: nat where "Second = 1000000000"

text \<open>The digits of the fraction, without the zeros at its end, and what is left of the number.\<close>

fun fmtFrac :: "nat \<Rightarrow> nat \<Rightarrow> nat list \<Rightarrow> nat list \<times> nat" where
  "fmtFrac 0 v out = (out, v)"
| "fmtFrac (Suc prec) v out =
     (let digit = v mod 10
      in fmtFrac prec (v div 10) (if out \<noteq> [] \<or> digit \<noteq> 0 then digit # out else out))"

definition frac_text :: "nat list \<Rightarrow> string" where
  "frac_text ds = (if ds = [] then [] else CHR ''.'' # map digit_char ds)"

definition micro :: string where "micro = [char_of (0xc2 :: nat), char_of (0xb5 :: nat), CHR ''s'']"

definition print_part :: "nat \<Rightarrow> nat \<Rightarrow> string \<Rightarrow> string" where
  "print_part u prec unit = (let (ds, v) = fmtFrac prec u [] in digits 10 v @ frac_text ds @ unit)"

definition print_long :: "nat \<Rightarrow> string" where
  "print_long u =
     (let (ds, v) = fmtFrac 9 u [];
          s = digits 10 (v mod 60) @ frac_text ds @ ''s'';
          v = v div 60
      in if v > 0 then
           (let s = digits 10 (v mod 60) @ ''m'' @ s; v = v div 60
            in if v > 0 then digits 10 v @ ''h'' @ s else s)
         else s)"

definition Duration_String :: "int \<Rightarrow> string" where
  "Duration_String d =
     (let u = nat \<bar>d\<bar>
      in (if d < 0 then ''-'' else []) @
         (if u < Second then
            (if u = 0 then ''0s''
             else if u < 1000 then print_part u 0 ''ns''
             else if u < 1000000 then print_part u 3 micro
             else print_part u 6 ''ms'')
          else print_long u))"

section \<open>Parsing\<close>

text \<open>Numbers that do not fit are errors in the whole part and are cut off in the fraction.\<close>

fun leadingInt :: "string \<Rightarrow> nat \<Rightarrow> (nat \<times> string) option" where
  "leadingInt [] x = Some (x, [])"
| "leadingInt (c # cs) x =
     (case dec_val c of
        None \<Rightarrow> Some (x, c # cs)
      | Some v \<Rightarrow>
          if x > 2 ^ 63 div 10 then None
          else if 10 * x + v > 2 ^ 63 then None
          else leadingInt cs (10 * x + v))"

fun leadingFraction :: "string \<Rightarrow> nat \<Rightarrow> nat \<Rightarrow> bool \<Rightarrow> nat \<times> nat \<times> string" where
  "leadingFraction [] x k over = (x, k, [])"
| "leadingFraction (c # cs) x k over =
     (case dec_val c of
        None \<Rightarrow> (x, k, c # cs)
      | Some v \<Rightarrow>
          if over \<or> x > (2 ^ 63 - 1) div 10 \<or> 10 * x + v > 2 ^ 63 then leadingFraction cs x k True
          else leadingFraction cs (10 * x + v) (k + 1) False)"

definition unit_char :: "char \<Rightarrow> bool" where
  "unit_char c \<longleftrightarrow> c \<noteq> CHR ''.'' \<and> dec_val c = None"

definition greek_micro :: string where "greek_micro = [char_of (0xce :: nat), char_of (0xbc :: nat), CHR ''s'']"

definition unitMap :: "string \<Rightarrow> nat option" where
  "unitMap = map_of [(''ns'', 1), (''us'', 1000), (micro, 1000), (greek_micro, 1000), (''ms'', 1000000), (''s'', Second),
     (''m'', 60 * Second), (''h'', 3600 * Second)]"

definition pd_component :: "(nat \<Rightarrow> nat \<Rightarrow> nat \<Rightarrow> nat) \<Rightarrow> string \<Rightarrow> (nat \<times> string) option" where
  "pd_component float_frac s =
     (if s = [] \<or> unit_char (hd s) then None
      else do {
        (v, s1) \<leftarrow> leadingInt s 0;
        let pre = (length s1 \<noteq> length s);
        let (f, k, s2, post_digits) =
          (if s1 \<noteq> [] \<and> hd s1 = CHR ''.'' then
             (let (f, k, s2) = leadingFraction (tl s1) 0 0 False in (f, k, s2, length s2 \<noteq> length (tl s1)))
           else (0, 0, s1, False));
        if \<not> pre \<and> \<not> post_digits then None
        else if takeWhile unit_char s2 = [] then None
        else do {
          unit \<leftarrow> unitMap (takeWhile unit_char s2);
          if v > 2 ^ 63 div unit then None
          else (let w = v * unit + (if f > 0 then float_frac f k unit else 0)
                in if f > 0 \<and> w > 2 ^ 63 then None else Some (w, dropWhile unit_char s2)) } })"

lemma leadingInt_rest: "leadingInt s x = Some (v, r) \<Longrightarrow> length r \<le> length s"
proof (induction s arbitrary: x)
  case (Cons c cs)
  show ?case
  proof (cases "dec_val c")
    case None
    then show ?thesis using Cons.prems by auto
  next
    case (Some d)
    then have "leadingInt cs (10 * x + d) = Some (v, r)"
      using Cons.prems by (simp split: if_splits)
    from Cons.IH [OF this] show ?thesis by simp
  qed
qed simp

lemma leadingFraction_rest: "leadingFraction s x k over = (f, j, r) \<Longrightarrow> length r \<le> length s"
proof (induction s arbitrary: x k over)
  case (Cons c cs)
  show ?case
  proof (cases "dec_val c")
    case None
    then show ?thesis using Cons.prems by auto
  next
    case (Some d)
    then have "\<exists>x' k' o'. leadingFraction cs x' k' o' = (f, j, r)"
      using Cons.prems by (auto split: if_splits)
    then obtain x' k' o' where "leadingFraction cs x' k' o' = (f, j, r)" by blast
    from Cons.IH [OF this] show ?thesis by simp
  qed
qed simp

lemma dropWhile_shorter: "takeWhile P s \<noteq> [] \<Longrightarrow> length (dropWhile P s) < length s"
  by (induction s) (auto split: if_splits simp: length_dropWhile_le less_Suc_eq_le)

lemma pd_component_shorter:
  assumes "pd_component ff s = Some (w, r)" shows "length r < length s"
proof -
  obtain v s1 where l: "leadingInt s 0 = Some (v, s1)"
    using assms by (auto simp: pd_component_def bind_eq_Some_conv split: if_splits)
  obtain f k s2 where fr: "leadingFraction (tl s1) 0 0 False = (f, k, s2)" by (metis prod_cases3)
  have "length s2 \<le> length s1" using leadingFraction_rest [OF fr] by simp
  moreover have "length s1 \<le> length s" by (rule leadingInt_rest [OF l])
  moreover have "length r < length s2 \<or> length r < length s1"
    using assms l fr dropWhile_shorter [of unit_char s2] dropWhile_shorter [of unit_char s1]
    by (auto simp: pd_component_def Let_def bind_eq_Some_conv split: if_splits prod.splits)
  ultimately show ?thesis by linarith
qed

text \<open>The sum is a 64-bit word, and is checked after each addition.\<close>

function pd_loop :: "(nat \<Rightarrow> nat \<Rightarrow> nat \<Rightarrow> nat) \<Rightarrow> string \<Rightarrow> nat \<Rightarrow> nat option" where
  "pd_loop ff s d =
     (if s = [] then Some d
      else case pd_component ff s of
             None \<Rightarrow> None
           | Some (v, r) \<Rightarrow>
               (let d = (d + v) mod 2 ^ 64 in if d > 2 ^ 63 then None else pd_loop ff r d))"
  by auto
termination by (relation "measure (\<lambda>(_, s, _). length s)") (auto dest: pd_component_shorter)

declare pd_loop.simps [simp del]

definition ParseDuration :: "(nat \<Rightarrow> nat \<Rightarrow> nat \<Rightarrow> nat) \<Rightarrow> string \<Rightarrow> int option" where
  "ParseDuration ff s =
     (let neg = (take 1 s = ''-'');
          s = (if take 1 s = ''-'' \<or> take 1 s = ''+'' then tl s else s)
      in if s = ''0'' then Some 0
         else if s = [] then None
         else case pd_loop ff s 0 of
                None \<Rightarrow> None
              | Some d \<Rightarrow>
                  if neg then Some (- int d)
                  else if d > 2 ^ 63 - 1 then None else Some (int d))"

text \<open>The product of a fraction and a unit is exact where the unit is a multiple of the scale and the result is small.\<close>

definition float_ok :: "(nat \<Rightarrow> nat \<Rightarrow> nat \<Rightarrow> nat) \<Rightarrow> bool" where
  "float_ok ff \<longleftrightarrow> (\<forall>f k unit. 10 ^ k dvd unit \<longrightarrow> f * (unit div 10 ^ k) < 2 ^ 53 \<longrightarrow> ff f k unit = f * (unit div 10 ^ k))"

section \<open>Parsing undoes printing\<close>

fun dval :: "nat list \<Rightarrow> nat" where
  "dval [] = 0"
| "dval (d # ds) = d * 10 ^ length ds + dval ds"

lemma mod_split: "(v :: nat) mod 10 ^ Suc n = (v div 10 mod 10 ^ n) * 10 + v mod 10"
  by (simp add: mod_mult2_eq)

lemma fmtFrac_spec:
  assumes "fmtFrac n v out = (ds, w)" and "\<forall>d\<in>set out. d < 10"
  shows "w = v div 10 ^ n \<and> (\<forall>d\<in>set ds. d < 10) \<and> length ds \<le> n + length out \<and>
    (out \<noteq> [] \<longrightarrow> length ds = n + length out) \<and>
    dval ds * 10 ^ (n + length out - length ds) = (v mod 10 ^ n) * 10 ^ length out + dval out"
  using assms
proof (induction n arbitrary: v out)
  case (Suc n)
  show ?case
  proof (cases "out \<noteq> [] \<or> v mod 10 \<noteq> 0")
    case True
    then have "fmtFrac n (v div 10) (v mod 10 # out) = (ds, w)" "\<forall>d\<in>set (v mod 10 # out). d < 10"
      using Suc.prems by (simp_all add: Let_def)
    note IH = Suc.IH [OF this]
    have ih: "w = v div 10 div 10 ^ n" "\<forall>d\<in>set ds. d < 10" "length ds = n + Suc (length out)" using IH by simp_all
    moreover have "dval ds = (v div 10 mod 10 ^ n) * 10 ^ Suc (length out) + (v mod 10) * 10 ^ length out + dval out"
      using IH ih(3) by (simp add: algebra_simps)
    ultimately have ih: "w = v div 10 div 10 ^ n" "\<forall>d\<in>set ds. d < 10" "length ds = n + Suc (length out)"
      "dval ds = (v div 10 mod 10 ^ n) * 10 ^ Suc (length out) + (v mod 10) * 10 ^ length out + dval out" by simp_all
    then show ?thesis by (simp add: mod_split del: power_Suc) (simp add: div_mult2_eq algebra_simps)
  next
    case False
    then have "fmtFrac n (v div 10) [] = (ds, w)" and z: "out = []" "v mod 10 = 0" using Suc.prems by (simp_all add: Let_def)
    from Suc.IH [OF this(1)] have ih: "w = v div 10 div 10 ^ n" "\<forall>d\<in>set ds. d < 10" "length ds \<le> n"
      "dval ds * 10 ^ (n - length ds) = v div 10 mod 10 ^ n" by simp_all
    have "dval ds * 10 ^ (Suc n - length ds) = dval ds * 10 ^ (n - length ds) * 10" using ih(3) by (simp add: Suc_diff_le)
    also have "\<dots> = v mod 10 ^ Suc n" using ih(4) z(2) by (simp only: mod_split)
    finally have "dval ds * 10 ^ (Suc n - length ds) = v mod 10 ^ Suc n" .
    moreover have "v div 10 ^ Suc n = v div 10 div 10 ^ n" by (simp add: div_mult2_eq)
    ultimately show ?thesis using ih z by (simp del: power_Suc)
  qed
qed simp

lemma fmtFrac_start:
  assumes "fmtFrac n v [] = (ds, w)"
  shows "w = v div 10 ^ n" "\<forall>d\<in>set ds. d < 10" "length ds \<le> n" "dval ds * 10 ^ (n - length ds) = v mod 10 ^ n"
  using fmtFrac_spec [OF assms] by simp_all

lemma leadingInt_digits: "n \<le> 2 ^ 63 \<Longrightarrow> leadingInt (digits 10 n @ rest) 0 = leadingInt rest n"
proof (induction "10 :: nat" n arbitrary: rest rule: digits.induct)
  case (1 n)
  show ?case
  proof (cases "n < 10")
    case False
    have d: "n div 10 \<le> 2 ^ 63 div 10" using 1(2) by (rule div_le_mono)
    then have "leadingInt (digits 10 n @ rest) 0 = leadingInt (digit_char (n mod 10) # rest) (n div 10)"
      using 1(1) [of "digit_char (n mod 10) # rest"] False by (simp add: digits_step(2))
    also have "\<dots> = leadingInt rest n" using d 1(2) by (simp add: digit_vals)
    finally show ?thesis .
  qed (simp add: digits_step(1) digit_vals)
qed

text \<open>A text that no digit continues.\<close>

definition ends_number :: "string \<Rightarrow> bool" where
  "ends_number s \<longleftrightarrow> s = [] \<or> dec_val (hd s) = None"

lemma leadingInt_stop: "ends_number s \<Longrightarrow> leadingInt s x = Some (x, s)"
  by (cases s) (simp_all add: ends_number_def)

lemma leadingFraction_digits:
  assumes "\<forall>d\<in>set ds. d < 10" and "x * 10 ^ length ds + dval ds < 10 ^ 9" and "ends_number s"
  shows "leadingFraction (map digit_char ds @ s) x k False = (x * 10 ^ length ds + dval ds, k + length ds, s)"
  using assms
proof (induction ds arbitrary: x k)
  case Nil
  then show ?case by (cases s) (simp_all add: ends_number_def)
next
  case (Cons d ds)
  have "1 * (10 * x + d) \<le> 10 ^ length ds * (10 * x + d)" by (rule mult_le_mono1) simp
  then have small: "10 * x + d < 10 ^ 9" using Cons.prems(2) by (simp add: algebra_simps)
  have eq: "(10 * x + d) * 10 ^ length ds + dval ds = x * 10 ^ length (d # ds) + dval (d # ds)" by (simp add: algebra_simps)
  have "leadingFraction (map digit_char (d # ds) @ s) x k False = leadingFraction (map digit_char ds @ s) (10 * x + d) (k + 1) False"
    using Cons.prems(1) small by (simp add: digit_vals)
  also have "\<dots> = (x * 10 ^ length (d # ds) + dval (d # ds), k + 1 + length ds, s)"
    using Cons.IH [of "10 * x + d" "k + 1"] Cons.prems unfolding eq by simp
  finally show ?case by simp
qed

lemma not_unit_digits: "\<not> unit_char (hd (digits 10 v @ s))"
proof -
  have "hd (digits 10 v @ s) \<in> set (digits 10 v)" by simp
  then have "hd (digits 10 v @ s) \<in> digit_char ` {..<10}" using digits_set [of 10 v] by auto
  then obtain n where "hd (digits 10 v @ s) = digit_char n" "n < 10" by blast
  then show ?thesis by (simp add: unit_char_def digit_vals)
qed

text \<open>One part of a printed duration.\<close>

lemma pd_component_print:
  assumes ff: "float_ok ff" and unit: "unitMap unit = Some U" "\<forall>c\<in>set unit. unit_char c" "unit \<noteq> []"
    and rest: "rest = [] \<or> \<not> unit_char (hd rest)"
    and v: "v \<le> 2 ^ 63 div U" and ds: "\<forall>d\<in>set ds. d < 10" "length ds \<le> 9" "10 ^ length ds dvd U" "dval ds < 10 ^ 9"
      "dval ds * (U div 10 ^ length ds) < 2 ^ 53"
    and fits: "v * U + dval ds * (U div 10 ^ length ds) \<le> 2 ^ 63" and U: "0 < U"
  shows "pd_component ff (digits 10 v @ frac_text ds @ unit @ rest) = Some (v * U + dval ds * (U div 10 ^ length ds), rest)"
proof -
  have v63: "v \<le> 2 ^ 63" using v div_le_dividend [of "2 ^ 63" U] by linarith
  have eu: "ends_number (unit @ rest)" using unit(2,3) by (cases unit) (simp_all add: ends_number_def unit_char_def)
  have ef: "ends_number (frac_text ds @ unit @ rest)"
    using eu by (cases "ds = []") (simp_all add: frac_text_def ends_number_def dec_val_def)
  have int: "leadingInt (digits 10 v @ frac_text ds @ unit @ rest) 0 = Some (v, frac_text ds @ unit @ rest)"
    using leadingInt_digits [OF v63] leadingInt_stop [OF ef] by simp
  have nodot: "hd (unit @ rest) \<noteq> CHR ''.''" using unit(2,3) by (cases unit) (simp_all add: unit_char_def)
  have frac: "leadingFraction (map digit_char ds @ unit @ rest) 0 0 False = (dval ds, length ds, unit @ rest)"
    using leadingFraction_digits [OF ds(1) _ eu, of 0 0] ds(4) by simp
  have tw: "takeWhile unit_char (unit @ rest) = unit" "dropWhile unit_char (unit @ rest) = rest"
    using unit(2) rest by (cases rest; simp add: takeWhile_append dropWhile_append)+
  have prod: "0 < dval ds \<Longrightarrow> ff (dval ds) (length ds) U = dval ds * (U div 10 ^ length ds)"
    using ff ds(3,5) unfolding float_ok_def by blast
  have pre: "length (frac_text ds @ unit @ rest) \<noteq> length (digits 10 v @ frac_text ds @ unit @ rest)" by simp
  show ?thesis
  proof (cases "ds = []")
    case True
    then show ?thesis
      using int not_unit_digits [of v "unit @ rest"] nodot tw v unit(1,3)
      by (simp add: pd_component_def frac_text_def)
  next
    case False
    then show ?thesis
      using int not_unit_digits [of v "frac_text ds @ unit @ rest"] frac tw v unit(1,3) prod fits
      by (auto simp: pd_component_def frac_text_def)
  qed
qed

lemma pd_loop_print:
  assumes "pd_component ff (part @ rest) = Some (w, rest)" and "part \<noteq> []" and "d + w \<le> 2 ^ 63"
  shows "pd_loop ff (part @ rest) d = pd_loop ff rest (d + w)"
  using assms by (subst pd_loop.simps) (simp add: Let_def)

lemma dec_val_letters [simp]:
  "dec_val CHR ''s'' = None" "dec_val CHR ''m'' = None" "dec_val CHR ''h'' = None" "dec_val CHR ''n'' = None"
  by (simp_all add: dec_val_def)

text \<open>A number with a fraction of at most \<open>p\<close> digits, in a unit of \<open>10 ^ p\<close> nanoseconds.\<close>

lemma frac_part:
  assumes "float_ok ff" and "fmtFrac p u [] = (ds, w)" and "p \<le> 9"
    and "unitMap unit = Some (10 ^ p)" "\<forall>c\<in>set unit. unit_char c" "unit \<noteq> []"
    and "rest = [] \<or> \<not> unit_char (hd rest)" and "v * 10 ^ p + u mod 10 ^ p \<le> 2 ^ 63"
  shows "pd_component ff (digits 10 v @ frac_text ds @ unit @ rest) = Some (v * 10 ^ p + u mod 10 ^ p, rest)"
proof -
  note ds = fmtFrac_start [OF assms(2)]
  have scale: "(10 ^ p :: nat) div 10 ^ length ds = 10 ^ (p - length ds)" using ds(3) by (simp add: power_diff)
  have "(10 :: nat) ^ p \<le> 10 ^ 9" using assms(3) by (intro power_increasing) simp_all
  then have m: "u mod 10 ^ p < 10 ^ 9" by (meson mod_less_divisor less_le_trans zero_less_power zero_less_numeral)
  have "dval ds * 1 \<le> dval ds * 10 ^ (p - length ds)" by (intro mult_le_mono2) simp
  then have small: "dval ds < 10 ^ 9" using ds(4) m by simp
  have "v \<le> 2 ^ 63 div 10 ^ p"
    using assms(8) by (metis add_leD1 div_le_mono nonzero_mult_div_cancel_right power_not_zero zero_neq_numeral)
  moreover have "length ds \<le> 9" "10 ^ length ds dvd (10 ^ p :: nat)" using ds(3) assms(3) by (simp_all add: le_imp_power_dvd)
  ultimately show ?thesis
    using pd_component_print [OF assms(1,4,5,6,7) _ ds(2), of v] small ds(4) m assms(8) by (simp add: scale)
qed

text \<open>A whole number of minutes or hours.\<close>

lemma whole_part:
  assumes "float_ok ff" and "unitMap unit = Some U" "\<forall>c\<in>set unit. unit_char c" "unit \<noteq> []" "0 < U"
    and "\<not> unit_char (hd rest)" and "v * U \<le> 2 ^ 63"
  shows "pd_component ff (digits 10 v @ unit @ rest) = Some (v * U, rest)"
proof -
  have "v \<le> 2 ^ 63 div U" using assms(5,7) by (simp add: less_eq_div_iff_mult_less_eq)
  then show ?thesis using pd_component_print [OF assms(1-4), of rest v "[]"] assms(5-7) by (simp add: frac_text_def)
qed

lemma print_part_parse:
  assumes "float_ok ff" and "p \<le> 9" and "unitMap unit = Some (10 ^ p)" "\<forall>c\<in>set unit. unit_char c" "unit \<noteq> []" and "u \<le> 2 ^ 63"
  shows "pd_loop ff (print_part u p unit) 0 = Some u"
proof -
  obtain ds w where f: "fmtFrac p u [] = (ds, w)" by fastforce
  have w: "w = u div 10 ^ p" by (rule fmtFrac_start(1) [OF f])
  have u: "w * 10 ^ p + u mod 10 ^ p = u" by (simp only: w div_mult_mod_eq)
  have "pd_component ff ((digits 10 w @ frac_text ds @ unit) @ []) = Some (u, [])"
    using frac_part [OF assms(1) f assms(2-5), of "[]" w] assms(6) u by simp
  then have "pd_loop ff ((digits 10 w @ frac_text ds @ unit) @ []) 0 = pd_loop ff [] (0 + u)"
    by (rule pd_loop_print) (use assms(6) in simp_all)
  moreover have "pd_loop ff [] u = Some u" by (subst pd_loop.simps) simp
  ultimately show ?thesis by (simp add: print_part_def f)
qed

lemma print_long_parse:
  assumes "float_ok ff" and "u \<le> 2 ^ 63"
  shows "pd_loop ff (print_long u) 0 = Some u"
proof -
  obtain ds w where f: "fmtFrac 9 u [] = (ds, w)" by fastforce
  have w: "w = u div 10 ^ 9" by (rule fmtFrac_start(1) [OF f])
  have units: "unitMap ''s'' = Some (10 ^ 9)" "unitMap ''m'' = Some (60 * 10 ^ 9)" "unitMap ''h'' = Some (3600 * 10 ^ 9)"
    by (simp_all add: unitMap_def Second_def micro_def greek_micro_def)
  have letters: "\<forall>c\<in>set ''s''. unit_char c" "\<forall>c\<in>set ''m''. unit_char c" "\<forall>c\<in>set ''h''. unit_char c"
    by (simp_all add: unit_char_def)
  define secs mins hours where "secs = w mod 60" and "mins = w div 60 mod 60" and "hours = w div 60 div 60"
  have total: "hours * (3600 * 10 ^ 9) + mins * (60 * 10 ^ 9) + (secs * 10 ^ 9 + u mod 10 ^ 9) = u"
  proof -
    have "w = secs + 60 * (mins + 60 * hours)" unfolding secs_def mins_def hours_def by (metis mod_mult_div_eq mult.commute add.commute)
    moreover have "u = w * 10 ^ 9 + u mod 10 ^ 9" by (simp add: w)
    ultimately show ?thesis by (simp add: algebra_simps)
  qed
  have fin: "pd_loop ff [] d = Some d" for d by (subst pd_loop.simps) simp
  let ?s = "digits 10 secs @ frac_text ds @ ''s''"
  have s: "pd_loop ff ?s d = Some (d + (secs * 10 ^ 9 + u mod 10 ^ 9))" if "d + (secs * 10 ^ 9 + u mod 10 ^ 9) \<le> 2 ^ 63" for d
    using pd_loop_print [of ff ?s "[]" "secs * 10 ^ 9 + u mod 10 ^ 9" d]
      frac_part [OF assms(1) f _ units(1) letters(1), of "[]" secs] that fin by simp
  let ?m = "digits 10 mins @ ''m''" and ?h = "digits 10 hours @ ''h''"
  have m: "pd_loop ff (?m @ ?s) d = Some (d + mins * (60 * 10 ^ 9) + (secs * 10 ^ 9 + u mod 10 ^ 9))"
    if "d + mins * (60 * 10 ^ 9) + (secs * 10 ^ 9 + u mod 10 ^ 9) \<le> 2 ^ 63" for d
    using pd_loop_print [of ff ?m ?s "mins * (60 * 10 ^ 9)" d]
      whole_part [OF assms(1) units(2) letters(2) _ _ not_unit_digits, of mins] s [of "d + mins * (60 * 10 ^ 9)"] that by simp
  have h: "pd_loop ff (?h @ ?m @ ?s) 0 = Some u"
    using pd_loop_print [of ff ?h "?m @ ?s" "hours * (3600 * 10 ^ 9)" 0]
      whole_part [OF assms(1) units(3) letters(3) _ _ not_unit_digits, of hours mins] m [of "hours * (3600 * 10 ^ 9)"] total assms(2)
    by simp
  show ?thesis
  proof (cases "w div 60 = 0")
    case True
    then have "print_long u = ?s" by (simp add: print_long_def f secs_def)
    then show ?thesis using s [of 0] total assms(2) True by (simp add: mins_def hours_def)
  next
    case False
    show ?thesis
    proof (cases "hours = 0")
      case True
      then have "print_long u = ?m @ ?s" using False by (simp add: print_long_def f secs_def mins_def hours_def Let_def)
      then show ?thesis using m [of 0] total assms(2) True by simp
    next
      case False
      then have "print_long u = ?h @ ?m @ ?s" by (auto simp: print_long_def f secs_def mins_def hours_def Let_def)
      then show ?thesis using h by simp
    qed
  qed
qed

text \<open>Every duration is read back from its text.\<close>

lemma duration_text:
  assumes "float_ok ff" and "- (2 ^ 63) \<le> d" and "d < 2 ^ 63"
  shows "ParseDuration ff (Duration_String d) = Some d"
proof -
  define u where "u = nat \<bar>d\<bar>"
  have u: "u \<le> 2 ^ 63" "0 \<le> d \<Longrightarrow> u \<le> 2 ^ 63 - 1" using assms(2,3) by (auto simp: u_def nat_le_iff)
  define body where "body = (if u < Second then
            (if u = 0 then ''0s''
             else if u < 1000 then print_part u 0 ''ns''
             else if u < 1000000 then print_part u 3 micro
             else print_part u 6 ''ms'')
          else print_long u)"
  have text_eq: "Duration_String d = (if d < 0 then ''-'' else []) @ body" by (simp add: Duration_String_def body_def u_def Let_def)
  have shape: "\<exists>n s. body = digits 10 n @ s \<and> s \<noteq> []"
  proof -
    have "\<exists>n s. print_part u p unit = digits 10 n @ s \<and> s \<noteq> []" if "unit \<noteq> []" for p unit
      using that by (auto simp: print_part_def split: prod.splits)
    moreover have "\<exists>n s. print_long u = digits 10 n @ s \<and> s \<noteq> []" by (auto simp: print_long_def Let_def split: prod.splits)
    moreover have "\<exists>n s. ''0s'' = digits 10 n @ s \<and> s \<noteq> []"
      by (rule exI [of _ 0], rule exI [of _ "''s''"]) code_simp
    ultimately show ?thesis unfolding body_def by (simp add: micro_def)
  qed
  then obtain n s where s: "body = digits 10 n @ s" "s \<noteq> []" by blast
  have "hd body \<in> digit_char ` {..<10}" using digits_set [of 10 n] s hd_in_set [of "digits 10 n"] by auto
  then have "dec_val (hd body) \<noteq> None" using digit_vals by auto
  moreover have "dec_val CHR ''-'' = None" "dec_val CHR ''+'' = None" by (simp_all add: dec_val_def)
  ultimately have "hd body \<noteq> CHR ''-''" "hd body \<noteq> CHR ''+''" by auto
  moreover have "body \<noteq> []" "body \<noteq> ''0''" using s by (simp_all, metis append_eq_Cons_conv append_is_Nil_conv digits_not_empty)
  moreover have "pd_loop ff body 0 = Some u"
  proof -
    have units: "unitMap ''ns'' = Some (10 ^ 0)" "unitMap micro = Some (10 ^ 3)" "unitMap ''ms'' = Some (10 ^ 6)"
      by (simp_all add: unitMap_def micro_def greek_micro_def)
    have letters: "\<forall>c\<in>set ''ns''. unit_char c" "\<forall>c\<in>set ''ms''. unit_char c"
      by (simp_all add: unit_char_def)
    have micro: "\<forall>c\<in>set micro. unit_char c" by code_simp
    have zero: "pd_loop ff ''0s'' 0 = Some 0"
    proof -
      have "fmtFrac 9 0 [] = ([], 0)" by code_simp
      moreover have "digits 10 0 = ''0''" by code_simp
      ultimately have "print_part 0 9 ''s'' = ''0s''" by (simp add: print_part_def frac_text_def)
      moreover have "unitMap ''s'' = Some (10 ^ 9)" by (simp add: unitMap_def micro_def greek_micro_def Second_def)
      ultimately show ?thesis using print_part_parse [OF assms(1), of 9 "''s''" 0] by (simp add: unit_char_def)
    qed
    show ?thesis
      unfolding body_def
      using zero print_part_parse [OF assms(1) _ units(1) letters(1) _ u(1)] print_part_parse [OF assms(1) _ units(2) micro _ u(1)]
        print_part_parse [OF assms(1) _ units(3) letters(2) _ u(1)] print_long_parse [OF assms(1) u(1)]
      by (simp add: micro_def)
  qed
  ultimately show ?thesis
    using u by (cases "d < 0"; cases body) (auto simp: ParseDuration_def text_eq u_def Let_def)
qed

end
