(* ===== verification/Discovery.thy ===== *)
theory Discovery
  imports NodeApi Netip
begin

text \<open>
  \<^verbatim>\<open>node/service/service.go\<close>, \<^verbatim>\<open>node/discovery/linklocal.go\<close> and \<^verbatim>\<open>node/discovery.go\<close>: named services, the
  announcement of a node on its links, and the calls that start and stop it.

  Services are pointers: the objects are in a list, the table of services holds positions of
  it, and a routine goes on working on its object after another has taken its place in the table.
  Sockets, the list of network interfaces and the CBOR package are arguments.
\<close>

section \<open>The link-local service\<close>

definition ServiceTagLinkLocal :: string where "ServiceTagLinkLocal = ''/rovyservice/linklocal''"
definition LinkLocalPort :: u16 where "LinkLocalPort = 12344"

record LinkLocalPacket =
  llp_PeerID :: PeerID
  llp_Addrs :: "Multiaddr list"

text \<open>
  Where the receiving routine is: before its check whether the service runs, in the read from the
  socket, or gone. It holds the socket in the first two cases. The announcing routine is there
  (\<open>ll_announcing\<close>) once it was started, and in its loop once it has its ticker (\<open>ll_ticker\<close>).
\<close>

datatype recv_pc = RecvNone | RecvCheck | RecvRead

record LinkLocal =
  Interval :: int
  ll_running :: running_chan
  ll_recv :: recv_pc
  ll_announcing :: bool
  ll_ticker :: bool
  ll_found :: "Multiaddr list"

definition newLinkLocal :: "int \<Rightarrow> LinkLocal" where
  "newLinkLocal ivl =
     \<lparr>Interval = ivl, ll_running = ChanNil, ll_recv = RecvNone, ll_announcing = False,
      ll_ticker = False, ll_found = []\<rparr>"

definition LL_Running :: "LinkLocal \<Rightarrow> bool" where
  "LL_Running ll = chan_running (ll_running ll)"

text \<open>
  The channel is made before the socket is opened, and stays open when that fails. The two routines are
  started and do nothing yet: what the announcing routine does first is \<open>announceRoutine_begin\<close>.
\<close>

definition LL_Start :: "err option \<Rightarrow> LinkLocal \<Rightarrow> LinkLocal \<times> err option" where
  "LL_Start ListenUDP ll =
     (if LL_Running ll then (ll, Some ErrServiceRunning)
      else let ll = ll\<lparr>ll_running := ChanOpen\<rparr>
           in case ListenUDP of
                Some _ \<Rightarrow> (ll, Some (Errorf ''discovery''))
              | None \<Rightarrow> (ll\<lparr>ll_recv := RecvCheck, ll_announcing := True\<rparr>, None))"

definition LL_Stop :: "LinkLocal \<Rightarrow> LinkLocal \<times> err option" where
  "LL_Stop ll =
     (if \<not> LL_Running ll then (ll, Some ErrServiceNotRunning)
      else (ll\<lparr>ll_running := ChanClosed\<rparr>, None))"

section \<open>Receiving\<close>

text \<open>The check at the head of the loop, which closes the socket when the service has ended.\<close>

definition receiveRoutine_check :: "LinkLocal \<Rightarrow> LinkLocal" where
  "receiveRoutine_check ll =
     (if \<not> LL_Running ll then ll\<lparr>ll_recv := RecvNone\<rparr> else ll\<lparr>ll_recv := RecvRead\<rparr>)"

definition net_ErrClosed :: err where
  "net_ErrClosed = ErrExternal ''use of closed network connection''"

text \<open>
  The rest of the loop, on what was read. \<^verbatim>\<open>ReadFromUDPAddrPort\<close> wraps the error of a closed socket, which then is not
  equal to \<^verbatim>\<open>net.ErrClosed\<close>; the comparison is modelled as it is written. The result of decoding is compared with the error of the
  read, which is nil there: an error of decoding ends the iteration.
\<close>

definition receiveRoutine_read ::
  "(bytes \<Rightarrow> err + LinkLocalPacket) \<Rightarrow> LinkLocal \<Rightarrow> err + bytes \<times> (Addr \<times> u16) \<Rightarrow> LinkLocal" where
  "receiveRoutine_read cbor_Unmarshal ll read =
     (let ll = ll\<lparr>ll_recv := RecvCheck\<rparr>
      in case read of
           Inl e \<Rightarrow> if e = net_ErrClosed then ll\<lparr>ll_recv := RecvNone\<rparr> else ll
         | Inr (datagram, raddr) \<Rightarrow>
             let b = take 1280 datagram
             in if \<not> Is6 (fst raddr) \<or> \<not> IsLinkLocalUnicast (fst raddr) then ll
                else case cbor_Unmarshal b of
                       Inl _ \<Rightarrow> ll
                     | Inr pkt \<Rightarrow>
                         ll\<lparr>ll_found := ll_found ll @
                           map (\<lambda>a. a\<lparr>IP := WithZone (IP a) (Addr_Zone (fst raddr)), MaPeerID := llp_PeerID pkt\<rparr>)
                             (llp_Addrs pkt)\<rparr>)"

section \<open>Announcing\<close>

definition fcpref :: Prefix where
  "fcpref = \<lparr>pfx_addr = Addr6 (0xfc # replicate 15 0) [], pfx_bits = 8\<rparr>"

definition IPv6LinkLocalAllNodes :: Addr where
  "IPv6LinkLocalAllNodes = Addr6 ([0xff, 0x02] @ replicate 13 0 @ [1]) []"

text \<open>
  The loop over the addresses of an interface: whether a link-local one was seen, whether one of the
  network itself was, and the last link-local one. Each address is the result of \<^verbatim>\<open>ParsePrefix\<close>.
\<close>

fun scan_ifaddrs :: "(err + Prefix) list \<Rightarrow> bool \<Rightarrow> bool \<Rightarrow> Addr \<Rightarrow> err + bool \<times> bool \<times> Addr" where
  "scan_ifaddrs [] capable isrovy addr = Inr (capable, isrovy, addr)"
| "scan_ifaddrs (Inl _ # rest) capable isrovy addr = Inl (Errorf ''discovery: error parsing address'')"
| "scan_ifaddrs (Inr pref # rest) capable isrovy addr =
     (let a = pfx_addr pref;
          isrovy = (isrovy \<or> Contains fcpref a)
      in if Is6 a \<and> IsLinkLocalUnicast a then scan_ifaddrs rest True isrovy a
         else scan_ifaddrs rest capable isrovy addr)"

fun scan_ifaces ::
  "(string \<times> (err + (err + Prefix) list)) list \<Rightarrow> (string \<Rightarrow> Addr option) \<Rightarrow> err + (string \<Rightarrow> Addr option)" where
  "scan_ifaces [] out = Inr out"
| "scan_ifaces ((name, Inl _) # rest) out = Inl (Errorf ''discovery: error getting interface addresses'')"
| "scan_ifaces ((name, Inr ifaddrs) # rest) out =
     (case scan_ifaddrs ifaddrs False False AddrZero of
        Inl e \<Rightarrow> Inl e
      | Inr (capable, isrovy, addr) \<Rightarrow>
          scan_ifaces rest (if capable \<and> \<not> isrovy then out(name \<mapsto> addr) else out))"

definition linklocalCapableInterfaces ::
  "err + (string \<times> (err + (err + Prefix) list)) list \<Rightarrow> err + (string \<Rightarrow> Addr option)" where
  "linklocalCapableInterfaces net_Interfaces =
     (case net_Interfaces of
        Inl _ \<Rightarrow> Inl (Errorf ''discovery: error getting network interfaces'')
      | Inr ifaces \<Rightarrow> scan_ifaces ifaces Map.empty)"

fun our_port :: "PeerListener list \<Rightarrow> u16" where
  "our_port [] = 0"
| "our_port (listener # rest) =
     (if Is6 (IP (ListenAddr listener)) then Port (ListenAddr listener) else our_port rest)"

text \<open>The loop over the map of interfaces, in the order in which the map is traversed.\<close>

fun announce_all ::
  "(LinkLocalPacket \<Rightarrow> err + bytes) \<Rightarrow> PeerID \<Rightarrow> u16 \<Rightarrow> (string \<times> Addr) list \<Rightarrow> (bytes \<times> (Addr \<times> u16)) list" where
  "announce_all cbor_Marshal pid port [] = []"
| "announce_all cbor_Marshal pid port ((ifname, ouraddr) # rest) =
     (let pkt = \<lparr>llp_PeerID = pid, llp_Addrs = [emptyMultiaddr\<lparr>IP := ouraddr, Port := port\<rparr>]\<rparr>
      in case cbor_Marshal pkt of
           Inl _ \<Rightarrow> []
         | Inr buf \<Rightarrow>
             (buf, (WithZone IPv6LinkLocalAllNodes ifname, LinkLocalPort)) # announce_all cbor_Marshal pid port rest)"

text \<open>
  What \<^verbatim>\<open>announceRoutine\<close> does before its loop: \<^verbatim>\<open>time.NewTicker\<close> panics for an interval that is not positive, and
  the panic of a routine ends the process.
\<close>

definition announceRoutine_begin :: "LinkLocal \<Rightarrow> LinkLocal option" where
  "announceRoutine_begin ll = (if Interval ll \<le> 0 then None else Some (ll\<lparr>ll_ticker := True\<rparr>))"

text \<open>
  One tick of \<^verbatim>\<open>announceRoutine\<close>: the datagrams it writes. \<open>order\<close> lists the names of the
  map of interfaces.
\<close>

definition announceRoutine_tick ::
  "(LinkLocalPacket \<Rightarrow> err + bytes) \<Rightarrow> err + (string \<times> (err + (err + Prefix) list)) list \<Rightarrow> string list \<Rightarrow>
   'h Node \<Rightarrow> (bytes \<times> (Addr \<times> u16)) list" where
  "announceRoutine_tick cbor_Marshal net_Interfaces order node =
     (case linklocalCapableInterfaces net_Interfaces of
        Inl _ \<Rightarrow> []
      | Inr ifaces \<Rightarrow>
          (case PeerAPI_Status node of
             Inl _ \<Rightarrow> []
           | Inr status \<Rightarrow>
               announce_all cbor_Marshal (nd_peerid node) (our_port (Listeners status))
                 (List.map_filter (\<lambda>n. map_option (Pair n) (ifaces n)) order)))"

text \<open>The other branch of its select, taken when the channel is closed.\<close>

definition announceRoutine_stop :: "LinkLocal \<Rightarrow> LinkLocal" where
  "announceRoutine_stop ll =
     (if ll_running ll = ChanClosed then ll\<lparr>ll_announcing := False, ll_ticker := False\<rparr> else ll)"

section \<open>Services\<close>

text \<open>
  Neither the table nor a service has a lock: each operation below is what it does when no other call of
  the interface runs at the same time.
\<close>

record ServiceManager =
  services :: "string \<Rightarrow> nat option"
  objects :: "LinkLocal list"

definition NewServiceManager :: ServiceManager where
  "NewServiceManager = \<lparr>services = Map.empty, objects = []\<rparr>"

text \<open>A call of a method through the pointer that the table holds.\<close>

definition on_object ::
  "(LinkLocal \<Rightarrow> LinkLocal \<times> err option) \<Rightarrow> ServiceManager \<Rightarrow> nat \<Rightarrow> ServiceManager \<times> err option" where
  "on_object f sm p = (let (ll, r) = f (objects sm ! p) in (sm\<lparr>objects := (objects sm)[p := ll]\<rparr>, r))"

definition Services_Add :: "ServiceManager \<Rightarrow> string \<Rightarrow> nat \<Rightarrow> ServiceManager \<times> err option" where
  "Services_Add sm tag svc =
     (let sm = (case services sm tag of Some svc2 \<Rightarrow> fst (on_object LL_Stop sm svc2) | None \<Rightarrow> sm)
      in (sm\<lparr>services := (services sm)(tag \<mapsto> svc)\<rparr>, None))"

definition Services_Start :: "err option \<Rightarrow> ServiceManager \<Rightarrow> string \<Rightarrow> ServiceManager \<times> err option" where
  "Services_Start ListenUDP sm tag =
     (case services sm tag of
        None \<Rightarrow> (sm, Some ErrServiceUnknown)
      | Some svc \<Rightarrow> on_object (LL_Start ListenUDP) sm svc)"

definition Services_Stop :: "ServiceManager \<Rightarrow> string \<Rightarrow> ServiceManager \<times> err option" where
  "Services_Stop sm tag =
     (case services sm tag of
        None \<Rightarrow> (sm, Some ErrServiceUnknown)
      | Some svc \<Rightarrow> on_object LL_Stop sm svc)"

section \<open>The interface\<close>

definition StartLinkLocal :: "err option \<Rightarrow> ServiceManager \<Rightarrow> int \<Rightarrow> ServiceManager \<times> err option" where
  "StartLinkLocal ListenUDP sm ivl =
     (let p = length (objects sm);
          sm = sm\<lparr>objects := objects sm @ [newLinkLocal ivl]\<rparr>
      in case Services_Add sm ServiceTagLinkLocal p of
           (sm, Some e) \<Rightarrow> (sm, Some e)
         | (sm, None) \<Rightarrow> Services_Start ListenUDP sm ServiceTagLinkLocal)"

definition StopLinkLocal :: "ServiceManager \<Rightarrow> ServiceManager \<times> err option" where
  "StopLinkLocal sm = Services_Stop sm ServiceTagLinkLocal"

interpretation linklocal: startable LL_Running "LL_Start None" LL_Stop ErrServiceRunning ErrServiceNotRunning
  by unfold_locales (simp_all add: LL_Running_def LL_Start_def LL_Stop_def)

end
