(* ===== verification/PingPackets.thy ===== *)
theory PingPackets
  imports SessionPackets Forwarding
begin

text \<open>
  The packet format of \<^verbatim>\<open>fcnet/ping.go\<close>: a lower packet with a forwarder header, the key of its
  sender, a signature, a request identifier, a randomizer and a payload. The accessors meet the
  contracts of \<^verbatim>\<open>SessionPackets\<close>; a packet that was built by the setters has the shape \<open>pinged\<close>.
\<close>

type_synonym PingPacket = Framed

definition ping_stubSignature :: bytes where
  "ping_stubSignature = [0x1, 0x3, 0x1, 0x2, 0x1, 0x3, 0x1, 0x2]"

definition ping_stubRandomizer :: bytes where
  "ping_stubRandomizer = [0x42, 0x42, 0x42, 0x42, 0x42, 0x42, 0x42, 0x42]"

definition pingRequestId :: bytes where "pingRequestId = [0x0, 0x0, 0x0, 0x1]"
definition pongRequestId :: bytes where "pongRequestId = [0x0, 0x0, 0x0, 0x2]"

definition Ping_Route :: "PingPacket \<Rightarrow> Route option" where
  "Ping_Route pkt = do {
     let off = Offset pkt + 4;
     l \<leftarrow> idx (fbuf pkt) (off + 1);
     hs \<leftarrow> slice_of (fbuf pkt) (off + 2) (off + 2 + int (unat l));
     Some (NewRoute hs) }"

definition Ping_SetRoute :: "PingPacket \<Rightarrow> Route \<Rightarrow> PingPacket option" where
  "Ping_SetRoute pkt rt = do {
     b \<leftarrow> put_route (fbuf pkt) (Offset pkt + 4) rt;
     Some (with_buf pkt b) }"

definition IsDestination :: "PingPacket \<Rightarrow> bool option" where
  "IsDestination pkt = do {
     let off = Offset pkt + 4;
     p \<leftarrow> idx (fbuf pkt) off;
     l \<leftarrow> idx (fbuf pkt) (off + 1);
     Some (int (unat p) + 1 \<ge> int (unat l)) }"

definition Ping_Sender :: "PingPacket \<Rightarrow> PublicKey option" where [field_defs]:
  "Ping_Sender pkt = do {
     s \<leftarrow> slice_of (fbuf pkt) (Offset pkt + 20) (Offset pkt + 52);
     Some (NewPublicKey s) }"

definition Ping_SetSender :: "PingPacket \<Rightarrow> PublicKey \<Rightarrow> PingPacket option" where [field_defs]:
  "Ping_SetSender pkt key = do {
     b \<leftarrow> copy_at (fbuf pkt) (Offset pkt + 20) (Offset pkt + 52) (PublicKey_Bytes key);
     Some (with_buf pkt b) }"

definition Ping_Signature :: "PingPacket \<Rightarrow> bytes option" where [field_defs]:
  "Ping_Signature pkt = do {
     s \<leftarrow> slice_of (fbuf pkt) (Offset pkt + 52) (Offset pkt + 60);
     Some (to_array 8 s) }"

definition Ping_SetSignature :: "PingPacket \<Rightarrow> bytes \<Rightarrow> PingPacket option" where [field_defs]:
  "Ping_SetSignature pkt sig = do {
     b \<leftarrow> copy_at (fbuf pkt) (Offset pkt + 52) (Offset pkt + 60) sig;
     Some (with_buf pkt b) }"

definition Ping_RequestId :: "PingPacket \<Rightarrow> bytes option" where [field_defs]:
  "Ping_RequestId pkt = do {
     s \<leftarrow> slice_of (fbuf pkt) (Offset pkt + 60) (Offset pkt + 64);
     Some (to_array 4 s) }"

definition Ping_SetRequestId :: "PingPacket \<Rightarrow> bytes \<Rightarrow> PingPacket option" where [field_defs]:
  "Ping_SetRequestId pkt reqid = do {
     b \<leftarrow> copy_at (fbuf pkt) (Offset pkt + 60) (Offset pkt + 64) reqid;
     Some (with_buf pkt b) }"

definition Ping_Randomizer :: "PingPacket \<Rightarrow> bytes option" where [field_defs]:
  "Ping_Randomizer pkt = do {
     s \<leftarrow> slice_of (fbuf pkt) (Offset pkt + 64) (Offset pkt + 72);
     Some (to_array 8 s) }"

definition Ping_SetRandomizer :: "PingPacket \<Rightarrow> bytes \<Rightarrow> PingPacket option" where [field_defs]:
  "Ping_SetRandomizer pkt rnd = do {
     b \<leftarrow> copy_at (fbuf pkt) (Offset pkt + 64) (Offset pkt + 72) rnd;
     Some (with_buf pkt b) }"

definition NewPingPacket :: "Packet \<Rightarrow> PingPacket option" where
  "NewPingPacket basepkt = do {
     pkt \<leftarrow> Ping_SetSignature \<lparr>Offset = 16, Padding = 16, base = basepkt\<rparr> ping_stubSignature;
     Ping_SetRandomizer pkt ping_stubRandomizer }"

definition IsReply :: "PingPacket \<Rightarrow> bool option" where
  "IsReply pkt = do { reqid \<leftarrow> Ping_RequestId pkt; Some (reqid = pongRequestId) }"

definition SetIsReply :: "PingPacket \<Rightarrow> bool \<Rightarrow> PingPacket option" where
  "SetIsReply pkt is = Ping_SetRequestId pkt (if is then pongRequestId else pingRequestId)"

definition Ping_Payload :: "PingPacket \<Rightarrow> bytes option" where
  "Ping_Payload pkt = slice_of (fbuf pkt) (Offset pkt + 72) (Length (base pkt) - Padding pkt)"

definition Ping_SetPayload :: "PingPacket \<Rightarrow> bytes \<Rightarrow> PingPacket option" where
  "Ping_SetPayload pkt pt = do {
     let off = Offset pkt + 72;
     let len = off + int (length pt) + Padding pkt;
     b \<leftarrow> copy_at (fbuf pkt) off (len - Padding pkt) pt;
     Some (with_length (with_buf pkt b) len) }"

section \<open>Contracts\<close>

interpretation ping_sender: packet_field Ping_Sender Ping_SetSender 20 52 wf_pub
  by (rule field_intro [where dec = "\<lambda>s. Some (NewPublicKey s)" and enc = PublicKey_Bytes])
    (simp_all add: field_defs wf_pub_def PublicKey_Bytes_def NewPublicKey_def PublicKeySize_def)

interpretation ping_sig: packet_field Ping_Signature Ping_SetSignature 52 60 "\<lambda>v. length v = 8"
  by (rule field_intro [where dec = "\<lambda>s. Some (to_array 8 s)" and enc = "\<lambda>v. v"]) (simp_all add: field_defs)

interpretation ping_reqid: packet_field Ping_RequestId Ping_SetRequestId 60 64 "\<lambda>v. length v = 4"
  by (rule field_intro [where dec = "\<lambda>s. Some (to_array 4 s)" and enc = "\<lambda>v. v"]) (simp_all add: field_defs)

interpretation ping_rnd: packet_field Ping_Randomizer Ping_SetRandomizer 64 72 "\<lambda>v. length v = 8"
  by (rule field_intro [where dec = "\<lambda>s. Some (to_array 8 s)" and enc = "\<lambda>v. v"]) (simp_all add: field_defs)

interpretation ping_pl: packet_body Ping_Payload Ping_SetPayload 72 0 "\<lambda>_. True"
  by (rule body_intro) (auto simp: Ping_Payload_def Ping_SetPayload_def Let_def copy_ok split: Option.bind_splits)

section \<open>Whole packets\<close>

text \<open>
  The bytes of a ping packet: what precedes the forwarder header, the label, and the fields behind
  it up to the payload.
\<close>

definition ping_bytes :: "bytes \<Rightarrow> bytes \<Rightarrow> bytes \<Rightarrow> bytes \<Rightarrow> bytes \<Rightarrow> bytes \<Rightarrow> bytes \<Rightarrow> bytes" where
  "ping_bytes pre lab key sig rid rnd rest = pre @ lab @ key @ sig @ rid @ rnd @ rest"

definition ping_parts :: "bytes \<Rightarrow> bytes \<Rightarrow> bytes \<Rightarrow> bytes \<Rightarrow> bytes \<Rightarrow> bytes \<Rightarrow> bool" where
  "ping_parts pre lab key sig rid rnd \<longleftrightarrow>
     length pre = 20 \<and> length lab = 16 \<and> length key = 32 \<and> length sig = 8 \<and> length rid = 4 \<and> length rnd = 8"

abbreviation ping_frame :: "Packet \<Rightarrow> PingPacket" where
  "ping_frame P \<equiv> \<lparr>Offset = 16, Padding = 16, base = P\<rparr>"

lemma copy_mid:
  assumes "length xs = length mid" and "i = int (length pre)" and "j = i + int (length mid)"
  shows "copy_at (pre @ mid @ post) i j xs = Some (pre @ xs @ post)"
  using assms by (simp add: copy_at_def splice_def nat_add_distrib)

lemma slice_mid:
  assumes "i = int (length pre)" and "j = i + int (length mid)"
  shows "slice_of (pre @ mid @ post) i j = Some mid"
  using assms by (simp add: slice_of_def)

lemma ping_setters:
  assumes "Buf P = ping_bytes pre lab key sig rid rnd rest" and "ping_parts pre lab key sig rid rnd"
  shows "length k = 32 \<Longrightarrow> Ping_SetSender (ping_frame P) \<lparr>pub_bytes = k\<rparr> =
      Some (ping_frame (P\<lparr>Buf := ping_bytes pre lab k sig rid rnd rest\<rparr>))"
    "length s = 8 \<Longrightarrow> Ping_SetSignature (ping_frame P) s =
      Some (ping_frame (P\<lparr>Buf := ping_bytes pre lab key s rid rnd rest\<rparr>))"
    "length r = 4 \<Longrightarrow> Ping_SetRequestId (ping_frame P) r =
      Some (ping_frame (P\<lparr>Buf := ping_bytes pre lab key sig r rnd rest\<rparr>))"
    "length q = 8 \<Longrightarrow> Ping_SetRandomizer (ping_frame P) q =
      Some (ping_frame (P\<lparr>Buf := ping_bytes pre lab key sig rid q rest\<rparr>))"
    "length (hops rt) \<le> 14 \<Longrightarrow> Ping_SetRoute (ping_frame P) rt =
      Some (ping_frame (P\<lparr>Buf := ping_bytes pre (label 0 (hops rt)) key sig rid rnd rest\<rparr>))"
proof -
  from assms(2) have l: "length pre = 20" "length lab = 16" "length key = 32" "length sig = 8" "length rid = 4" "length rnd = 8"
    by (simp_all add: ping_parts_def)
  note b = assms(1) [unfolded ping_bytes_def]
  show "Ping_SetSender (ping_frame P) \<lparr>pub_bytes = k\<rparr> =
      Some (ping_frame (P\<lparr>Buf := ping_bytes pre lab k sig rid rnd rest\<rparr>))" if "length k = 32"
    using that l copy_mid [of k key 36 "pre @ lab" 68 "sig @ rid @ rnd @ rest"]
    by (simp add: Ping_SetSender_def b PublicKey_Bytes_def with_buf_def ping_bytes_def)
  show "Ping_SetSignature (ping_frame P) s =
      Some (ping_frame (P\<lparr>Buf := ping_bytes pre lab key s rid rnd rest\<rparr>))" if "length s = 8"
    using that l copy_mid [of s sig 68 "pre @ lab @ key" 76 "rid @ rnd @ rest"]
    by (simp add: Ping_SetSignature_def b with_buf_def ping_bytes_def)
  show "Ping_SetRequestId (ping_frame P) r =
      Some (ping_frame (P\<lparr>Buf := ping_bytes pre lab key sig r rnd rest\<rparr>))" if "length r = 4"
    using that l copy_mid [of r rid 76 "pre @ lab @ key @ sig" 80 "rnd @ rest"]
    by (simp add: Ping_SetRequestId_def b with_buf_def ping_bytes_def)
  show "Ping_SetRandomizer (ping_frame P) q =
      Some (ping_frame (P\<lparr>Buf := ping_bytes pre lab key sig rid q rest\<rparr>))" if "length q = 8"
    using that l copy_mid [of q rnd 80 "pre @ lab @ key @ sig @ rid" 88 rest]
    by (simp add: Ping_SetRandomizer_def b with_buf_def ping_bytes_def)
  show "Ping_SetRoute (ping_frame P) rt =
      Some (ping_frame (P\<lparr>Buf := ping_bytes pre (label 0 (hops rt)) key sig rid rnd rest\<rparr>))" if "length (hops rt) \<le> 14"
    using put_route_window [of 20 pre lab rt "key @ sig @ rid @ rnd @ rest"] that l
    by (simp add: Ping_SetRoute_def b with_buf_def ping_bytes_def)
qed

lemma ping_getters:
  assumes "Buf P = ping_bytes pre lab key sig rid rnd rest" and "ping_parts pre lab key sig rid rnd"
  shows "Ping_Sender (ping_frame P) = Some \<lparr>pub_bytes = key\<rparr>"
    "Ping_RequestId (ping_frame P) = Some rid"
    "Length P = 104 + int (length pl) \<Longrightarrow> rest = pl @ tail \<Longrightarrow> Ping_Payload (ping_frame P) = Some pl"
    "slice_of (Buf P) 20 36 = Some lab"
    "0 \<le> i \<Longrightarrow> i < 16 \<Longrightarrow> idx (Buf P) (20 + i) = Some (lab ! nat i)"
proof -
  from assms(2) have l: "length pre = 20" "length lab = 16" "length key = 32" "length sig = 8" "length rid = 4" "length rnd = 8"
    by (simp_all add: ping_parts_def)
  note b = assms(1) [unfolded ping_bytes_def]
  show "Ping_Sender (ping_frame P) = Some \<lparr>pub_bytes = key\<rparr>"
    using l slice_mid [of 36 "pre @ lab" 68 key "sig @ rid @ rnd @ rest"]
    by (simp add: Ping_Sender_def b NewPublicKey_def PublicKeySize_def)
  show "Ping_RequestId (ping_frame P) = Some rid"
    using l slice_mid [of 76 "pre @ lab @ key @ sig" 80 rid "rnd @ rest"]
    by (simp add: Ping_RequestId_def b)
  show "Ping_Payload (ping_frame P) = Some pl" if "Length P = 104 + int (length pl)" "rest = pl @ tail"
    using that l slice_mid [of 88 "pre @ lab @ key @ sig @ rid @ rnd" "88 + int (length pl)" pl tail]
    by (simp add: Ping_Payload_def b)
  show "slice_of (Buf P) 20 36 = Some lab"
    using l slice_mid [of 20 pre 36 lab "key @ sig @ rid @ rnd @ rest"] by (simp add: b)
  show "idx (Buf P) (20 + i) = Some (lab ! nat i)" if "0 \<le> i" "i < 16"
    using that l idx_window [of 20 pre i lab "key @ sig @ rid @ rnd @ rest"] by (simp add: b)
qed

text \<open>A packet on its way: a label, a sender, ping or pong, and a payload behind the stub fields.\<close>

definition pinged :: "Packet \<Rightarrow> bytes \<Rightarrow> nat \<Rightarrow> bytes \<Rightarrow> PublicKey \<Rightarrow> bool \<Rightarrow> bytes \<Rightarrow> bytes \<Rightarrow> bool" where
  "pinged P pre pos route key reply pl tail \<longleftrightarrow>
     Buf P = ping_bytes pre (label pos route) (pub_bytes key) ping_stubSignature
       (if reply then pongRequestId else pingRequestId) ping_stubRandomizer (pl @ tail) \<and>
     length pre = 20 \<and> length route \<le> 14 \<and> wf_pub key \<and> Length P = 104 + int (length pl) \<and>
     length (Buf P) = TptMTU \<and> 104 + length pl \<le> TptMTU"

lemma stub_lengths [simp]:
  "length ping_stubSignature = 8" "length ping_stubRandomizer = 8" "length pingRequestId = 4" "length pongRequestId = 4"
  by (simp_all add: ping_stubSignature_def ping_stubRandomizer_def pingRequestId_def pongRequestId_def)

lemma pingedD:
  assumes "pinged P pre pos route key reply pl tail"
  shows "length pre = 20" "length route \<le> 14" "wf_pub key" "Length P = 104 + int (length pl)"
    "length (Buf P) = TptMTU" "104 + length pl \<le> TptMTU"
  using assms unfolding pinged_def by blast+

text \<open>What stays of it from hop to hop: everything behind the label.\<close>

definition ping_post :: "PublicKey \<Rightarrow> bool \<Rightarrow> bytes \<Rightarrow> bytes \<Rightarrow> bytes" where
  "ping_post key reply pl tail =
     pub_bytes key @ ping_stubSignature @ (if reply then pongRequestId else pingRequestId) @ ping_stubRandomizer @ pl @ tail"

lemma pinged_buf: "pinged P pre pos route key reply pl tail \<Longrightarrow> Buf P = pre @ label pos route @ ping_post key reply pl tail"
  by (simp add: pinged_def ping_bytes_def ping_post_def)

lemma pinged_relabel:
  assumes "pinged P pre pos route key reply pl tail" and "length pre' = 20" and "length route' \<le> 14"
    and "Buf Q = pre' @ label pos' route' @ ping_post key reply pl tail" and "Length Q = Length P"
  shows "pinged Q pre' pos' route' key reply pl tail"
proof -
  note d = pingedD [OF assms(1)]
  have "length (Buf Q) = length (Buf P)"
    using assms(2,3,4) d(1,2) pinged_buf [OF assms(1)] by (simp add: length_label)
  with assms d show ?thesis by (simp add: pinged_def ping_bytes_def ping_post_def)
qed

lemma pinged_parts:
  "pinged P pre pos route key reply pl tail \<Longrightarrow>
     ping_parts pre (label pos route) (pub_bytes key) ping_stubSignature
       (if reply then pongRequestId else pingRequestId) ping_stubRandomizer"
  by (simp add: pinged_def ping_parts_def wf_pub_def length_label)

text \<open>A received packet is overwritten with the stubs; on a packet that has them this changes nothing.\<close>

lemma NewPingPacket_pinged:
  assumes "pinged P pre pos route key reply pl tail"
  shows "NewPingPacket P = Some (ping_frame P)"
proof -
  from assms have b: "Buf P = ping_bytes pre (label pos route) (pub_bytes key) ping_stubSignature
       (if reply then pongRequestId else pingRequestId) ping_stubRandomizer (pl @ tail)" by (simp add: pinged_def)
  note s = ping_setters [OF b pinged_parts [OF assms]]
  show ?thesis
    using s(2) [of ping_stubSignature, folded b] s(4) [of ping_stubRandomizer, folded b] by (simp add: NewPingPacket_def)
qed

lemma pinged_getters:
  assumes "pinged P pre pos route key reply pl tail"
  shows "Ping_Sender (ping_frame P) = Some key" "IsReply (ping_frame P) = Some reply"
    "Ping_Payload (ping_frame P) = Some pl" "slice_of (Buf P) 20 36 = Some (label pos route)"
    "pos < 256 \<Longrightarrow> IsDestination (ping_frame P) = Some (Suc pos \<ge> length route)"
proof -
  from assms have b: "Buf P = ping_bytes pre (label pos route) (pub_bytes key) ping_stubSignature
       (if reply then pongRequestId else pingRequestId) ping_stubRandomizer (pl @ tail)"
    and len: "length route \<le> 14" "Length P = 104 + int (length pl)" by (simp_all add: pinged_def)
  note g = ping_getters [OF b pinged_parts [OF assms]]
  show "Ping_Sender (ping_frame P) = Some key" "Ping_Payload (ping_frame P) = Some pl"
    "slice_of (Buf P) 20 36 = Some (label pos route)"
    using g(1,4) g(3) [OF len(2) refl] by simp_all
  show "IsReply (ping_frame P) = Some reply"
    using g(2) by (simp add: IsReply_def pingRequestId_def pongRequestId_def)
  show "IsDestination (ping_frame P) = Some (Suc pos \<ge> length route)" if "pos < 256"
    using g(5) [of 0] g(5) [of 1] that len(1)
    by (auto simp: IsDestination_def label_def uint_small)
qed

lemma NewPingPacket_LowerSrc:
  "NewPingPacket P = Some p \<Longrightarrow>
     NewPingPacket (P\<lparr>LowerSrc := x\<rparr>) = Some (p\<lparr>base := (base p)\<lparr>LowerSrc := x\<rparr>\<rparr>)"
  by (auto simp: NewPingPacket_def Ping_SetSignature_def Ping_SetRandomizer_def with_buf_def split: Option.bind_splits)

text \<open>Building one from an empty buffer, in the order the code does.\<close>

lemma pinged_built:
  assumes rt: "length (hops rt) \<le> 14" and key: "wf_pub key" and fits: "104 + length pl \<le> TptMTU"
    and P: "Buf P = replicate TptMTU 0"
  obtains p1 p2 p3 p4 p5 pre tail where "NewPingPacket P = Some p1"
    "Ping_SetRoute p1 rt = Some p2" "Ping_SetSender p2 key = Some p3" "SetIsReply p3 reply = Some p4"
    "Ping_SetPayload p4 pl = Some p5" "pinged (base p5) pre 0 (hops rt) key reply pl tail"
    "base p5 = P\<lparr>Buf := Buf (base p5), Length := Length (base p5)\<rparr>" "p5 = ping_frame (base p5)"
proof -
  let ?z = "\<lambda>n. replicate n (0 :: byte)"
  have "TptMTU = 20 + (16 + (32 + (8 + (4 + (8 + (TptMTU - 88))))))" by (simp add: TptMTU_def)
  then have b0: "Buf P = ping_bytes (?z 20) (?z 16) (?z 32) (?z 8) (?z 4) (?z 8) (?z (TptMTU - 88))"
    unfolding P ping_bytes_def by (simp only: replicate_add [symmetric])
  let ?rid = "if reply then pongRequestId else pingRequestId"
  let ?b = "\<lambda>k r. ping_bytes (?z 20) (label 0 (hops rt)) k ping_stubSignature r ping_stubRandomizer (?z (TptMTU - 88))"
  have lab: "length (label 0 (hops rt)) = 16" using rt by (rule length_label)
  have kl: "length (pub_bytes key) = 32" using key by (simp add: wf_pub_def)
  let ?P1 = "P\<lparr>Buf := ping_bytes (?z 20) (?z 16) (?z 32) ping_stubSignature (?z 4) ping_stubRandomizer (?z (TptMTU - 88))\<rparr>"
  have p1: "NewPingPacket P = Some (ping_frame ?P1)"
    using ping_setters(2) [OF b0, of ping_stubSignature]
      ping_setters(4) [of "P\<lparr>Buf := ping_bytes (?z 20) (?z 16) (?z 32) ping_stubSignature (?z 4) (?z 8) (?z (TptMTU - 88))\<rparr>"]
    by (simp add: NewPingPacket_def ping_parts_def)
  let ?P2 = "P\<lparr>Buf := ?b (?z 32) (?z 4)\<rparr>"
  have p2: "Ping_SetRoute (ping_frame ?P1) rt = Some (ping_frame ?P2)"
    using ping_setters(5) [of ?P1] rt by (simp add: ping_parts_def)
  let ?P3 = "P\<lparr>Buf := ?b (pub_bytes key) (?z 4)\<rparr>"
  have p3: "Ping_SetSender (ping_frame ?P2) key = Some (ping_frame ?P3)"
    using ping_setters(1) [of ?P2 _ _ _ _ _ _ _ "pub_bytes key"] kl lab by (cases key) (simp add: ping_parts_def)
  let ?P4 = "P\<lparr>Buf := ?b (pub_bytes key) ?rid\<rparr>"
  have p4: "SetIsReply (ping_frame ?P3) reply = Some (ping_frame ?P4)"
    using ping_setters(3) [of ?P3 _ _ _ _ _ _ _ ?rid] kl lab by (simp add: SetIsReply_def ping_parts_def)
  let ?tail = "?z (TptMTU - 88 - length pl)"
  have "?z (TptMTU - 88) = ?z (length pl) @ ?tail"
    using fits by (simp add: replicate_add [symmetric])
  then have "copy_at (?b (pub_bytes key) ?rid) 88 (88 + int (length pl)) pl =
      Some (ping_bytes (?z 20) (label 0 (hops rt)) (pub_bytes key) ping_stubSignature ?rid ping_stubRandomizer (pl @ ?tail))"
    using copy_mid [of pl "?z (length pl)" 88 "?z 20 @ label 0 (hops rt) @ pub_bytes key @ ping_stubSignature @ ?rid @ ping_stubRandomizer"
        "88 + int (length pl)" ?tail] lab kl by (simp add: ping_bytes_def)
  then have p5: "Ping_SetPayload (ping_frame ?P4) pl = Some (ping_frame (P\<lparr>Buf := ping_bytes (?z 20) (label 0 (hops rt))
      (pub_bytes key) ping_stubSignature ?rid ping_stubRandomizer (pl @ ?tail), Length := 104 + int (length pl)\<rparr>))"
    by (simp add: Ping_SetPayload_def with_buf_def with_length_def)
  show thesis
    by (rule that [OF p1 p2 p3 p4 p5, of "?z 20" ?tail])
      (use rt key fits lab kl in \<open>simp_all add: pinged_def ping_bytes_def TptMTU_def\<close>)
qed

text \<open>A received packet, whatever it holds: what lies before the signature is kept.\<close>

lemma NewPingPacket_received:
  assumes len: "length (Buf P) = TptMTU"
  obtains p where "NewPingPacket P = Some p" "Offset p = 16"
    "\<And>i j. j \<le> 68 \<Longrightarrow> slice_of (fbuf p) i j = slice_of (Buf P) i j" "\<And>i. i < 68 \<Longrightarrow> idx (fbuf p) i = idx (Buf P) i"
proof -
  let ?p0 = "\<lparr>Offset = 16, Padding = 16, base = P\<rparr>"
  obtain p1 where p1: "Ping_SetSignature ?p0 ping_stubSignature = Some p1"
    using ping_sig.put_total [of ?p0] len by (auto simp: TptMTU_def)
  note w1 = ping_sig.put_wrote [OF p1]
  obtain p2 where p2: "Ping_SetRandomizer p1 ping_stubRandomizer = Some p2"
    using ping_rnd.put_total [of p1] wrote_keeps [OF w1] len by (auto simp: TptMTU_def)
  note w2 = ping_rnd.put_wrote [OF p2]
  obtain xs ys where c: "copy_at (Buf P) 68 76 xs = Some (fbuf p1)" "copy_at (fbuf p1) 80 88 ys = Some (fbuf p2)"
    and o2: "Offset p2 = 16" using w1 w2 by (auto simp: wrote_def)
  show thesis
  proof (rule that [of p2])
    show "NewPingPacket P = Some p2" using p1 p2 by (simp add: NewPingPacket_def)
    show "slice_of (fbuf p2) i j = slice_of (Buf P) i j" if "j \<le> 68" for i j
      using slice_copy_other [OF c(1), of j i] slice_copy_other [OF c(2), of j i] that by simp
    show "idx (fbuf p2) i = idx (Buf P) i" if "i < 68" for i
      using idx_copy_other [OF c(1), of i] idx_copy_other [OF c(2), of i] that by simp
  qed (rule o2)
qed

end
