(* ===== verification/Checksum.thy ===== *)
theory Checksum
  imports Prelude
begin

text \<open>
  \<^verbatim>\<open>icmpChecksum\<close> of \<^verbatim>\<open>fcnet/ping.go\<close>: the Internet checksum over a sequence of bytes, with a 32-bit
  accumulator, and the arithmetic it stands for.
\<close>

section \<open>The routine\<close>

text \<open>The loop over pairs of bytes, and the addition of a byte that is left over.\<close>

fun csum_loop :: "bytes \<Rightarrow> u32 \<Rightarrow> u32" where
  "csum_loop [] s = s"
| "csum_loop [x] s = s + ucast x"
| "csum_loop (x # y # rest) s = csum_loop rest (s + (push_bit 8 (ucast y) OR ucast x))"

definition icmpChecksum :: "bytes \<Rightarrow> u16" where
  "icmpChecksum b =
     (let s = csum_loop b 0;
          s = drop_bit 16 s + (s AND 0xffff);
          s = s + drop_bit 16 s
      in NOT (ucast s))"

section \<open>The sum it computes\<close>

text \<open>The sum of the 16-bit words of a byte sequence, low byte first, without a bound.\<close>

fun word_sum :: "bytes \<Rightarrow> nat" where
  "word_sum [] = 0"
| "word_sum [x] = unat x"
| "word_sum (x # y # rest) = unat x + 256 * unat y + word_sum rest"

text \<open>Its residue in one's complement arithmetic, where 65535 stands for a sum that is not zero.\<close>

definition ones_sum :: "nat \<Rightarrow> nat" where
  "ones_sum v = (if v = 0 then 0 else (v - 1) mod 65535 + 1)"

lemma ones_sum_le: "ones_sum v \<le> 65535"
proof -
  have "(v - 1) mod 65535 < 65535" by simp
  then have "(v - 1) mod 65535 + 1 \<le> 65535" by linarith
  then show ?thesis by (simp add: ones_sum_def)
qed

lemma word_sum_bound: "word_sum b \<le> 65535 * ((length b + 1) div 2)"
proof (induction b rule: word_sum.induct)
  case (2 x)
  then show ?case using unat_byte_less [of x] by simp
next
  case (3 x y rest)
  have "unat x + 256 * unat y \<le> 65535" using unat_byte_less [of x] unat_byte_less [of y] by simp
  with 3 show ?case by simp
qed simp

lemma word_sum_append:
  "even (length a) \<Longrightarrow> word_sum (a @ b) = word_sum a + word_sum b"
  by (induction a rule: word_sum.induct) auto

lemma unat_wide [simp]: "unat (ucast (x :: byte) :: u32) = unat x"
  using unat_byte_less [of x] by (simp add: unsigned_ucast_eq take_bit_nat_eq_self)

lemma unat_pair: "unat (push_bit 8 (ucast y) OR ucast x :: u32) = unat (x :: byte) + 256 * unat (y :: byte)"
proof -
  have "push_bit 8 (ucast y) AND (ucast x :: u32) = 0"
    by (rule bit_word_eqI) (auto simp: bit_simps dest: bit_imp_le_length)
  then have "push_bit 8 (ucast y) OR (ucast x :: u32) = push_bit 8 (ucast y) + ucast x"
    by (simp add: disjunctive_add_eq_or)
  moreover have "unat (push_bit 8 (ucast y) :: u32) = 256 * unat y"
    using unat_byte_less [of y] by (simp add: push_bit_eq_mult unat_word_ariths)
  ultimately show ?thesis
    using unat_byte_less [of x] unat_byte_less [of y] by (simp add: unat_word_ariths)
qed

lemma unat_csum_loop:
  "unat s + word_sum b < 2 ^ 32 \<Longrightarrow> unat (csum_loop b s) = unat s + word_sum b"
proof (induction b s rule: csum_loop.induct)
  case (2 x s)
  then show ?case by (simp add: unat_word_ariths)
next
  case (3 x y rest s)
  then have "unat (s + (push_bit 8 (ucast y) OR ucast x)) = unat s + (unat x + 256 * unat y)"
    by (simp add: unat_word_ariths unat_pair)
  with 3 show ?case by simp
qed simp

text \<open>Folding the carries of a 32-bit sum back in, twice, leaves its residue.\<close>

lemma fold_carries:
  fixes s :: u32
  shows "unat (ucast (let s = drop_bit 16 s + (s AND 0xffff) in s + drop_bit 16 s) :: u16) = ones_sum (unat s)"
proof -
  define v where "v = unat s"
  define w where "w = v div 65536 + v mod 65536"
  have v32: "v < 2 ^ 32" unfolding v_def using unsigned_less [of s, where ?'a = nat] by simp
  have hi: "unat (drop_bit 16 s) = v div 65536" by (simp add: v_def drop_bit_eq_div unat_div)
  have mask: "s AND 0xffff = take_bit 16 s"
    by (simp add: take_bit_eq_mask mask_eq_exp_minus_1)
  have lo: "unat (s AND 0xffff) = v mod 65536"
    unfolding mask by (simp add: v_def take_bit_eq_mod unat_mod)
  have w: "w \<le> 131070" unfolding w_def using v32 by (simp add: less_mult_imp_div_less le_trans)
  have s1: "unat (drop_bit 16 s + (s AND 0xffff)) = w"
    using w by (simp add: unat_word_ariths hi lo w_def)
  let ?s1 = "drop_bit 16 s + (s AND 0xffff)"
  have "unat (?s1 + drop_bit 16 ?s1) = w + w div 65536"
    using w s1 by (simp add: unat_word_ariths drop_bit_eq_div unat_div)
  then have r: "unat (ucast (?s1 + drop_bit 16 ?s1) :: u16) = (w + w div 65536) mod 65536"
    by (simp add: unsigned_ucast_eq take_bit_eq_mod)
  have "(w + w div 65536) mod 65536 = ones_sum w"
    using w by (cases "w < 65536") (auto simp: ones_sum_def mod_if div_if)
  also have "ones_sum w = ones_sum v"
  proof (cases "v = 0")
    case False
    then have "w \<noteq> 0" by (auto simp: w_def)
    have "v = 65535 * (v div 65536) + w" by (simp add: w_def)
    then have "v - 1 = w - 1 + 65535 * (v div 65536)" using \<open>w \<noteq> 0\<close> by linarith
    then have "(v - 1) mod 65535 = (w - 1) mod 65535" by (metis mod_mult_self2)
    with False \<open>w \<noteq> 0\<close> show ?thesis by (simp add: ones_sum_def)
  qed (simp add: w_def)
  finally show ?thesis using r by (simp add: v_def Let_def)
qed

lemma unat_NOT16: "unat (NOT (w :: u16)) = 65535 - unat w"
proof -
  have "NOT w + w = 65535" by (simp add: not_eq_complement)
  then have "unat (NOT w + w) = 65535" by simp
  moreover have "unat (NOT w) < 65536" "unat w < 65536"
    using unsigned_less [of "NOT w", where ?'a = nat] unsigned_less [of w, where ?'a = nat] by simp_all
  ultimately show ?thesis by (simp add: unat_word_ariths mod_if split: if_splits)
qed

text \<open>No packet of the network comes near the length at which the accumulator overflows.\<close>

lemma icmpChecksum_eq:
  assumes "length b \<le> 131072"
  shows "unat (icmpChecksum b) = 65535 - ones_sum (word_sum b)"
proof -
  have "(length b + 1) div 2 \<le> 65536" using assms by simp
  then have "65535 * ((length b + 1) div 2) \<le> 65535 * 65536" by (rule mult_le_mono2)
  then have "word_sum b < 2 ^ 32" using word_sum_bound [of b] by simp
  then have "unat (csum_loop b 0) = word_sum b" using unat_csum_loop [of 0 b] by simp
  then show ?thesis
    using fold_carries [of "csum_loop b 0"] by (simp add: icmpChecksum_def Let_def unat_NOT16)
qed

text \<open>
  Storing the checksum where two zero bytes were, at an even position, makes the checksum of the
  whole zero: this is how a receiver checks it.
\<close>

lemma checksum_verifies:
  assumes "even (length a)" and "length (a @ [0, 0] @ b) \<le> 131072"
    and "c = icmpChecksum (a @ [0, 0] @ b)"
  shows "icmpChecksum (a @ [ucast c, ucast (drop_bit 8 c)] @ b) = 0"
proof -
  let ?v = "word_sum (a @ [0, 0] @ b)"
  have lo: "unat (ucast c :: byte) = unat c mod 256" by (simp add: unsigned_ucast_eq take_bit_eq_mod)
  have c16: "unat c < 65536" using unsigned_less [of c, where ?'a = nat] by simp
  have hi: "unat (ucast (drop_bit 8 c) :: byte) = unat c div 256"
    using c16 by (simp add: unsigned_ucast_eq take_bit_eq_mod drop_bit_eq_div unat_div)
  have "word_sum (a @ [ucast c, ucast (drop_bit 8 c)] @ b) = ?v + unat c"
    using assms(1) by (simp add: word_sum_append lo hi)
  moreover have "unat c = 65535 - ones_sum ?v" using icmpChecksum_eq [OF assms(2)] assms(3) by simp
  moreover have "ones_sum (v + (65535 - ones_sum v)) = 65535" for v
  proof (cases "v = 0")
    case False
    let ?m = "(v - 1) mod 65535"
    have "v - 1 = 65535 * ((v - 1) div 65535) + ?m" by simp
    moreover have "?m < 65535" by simp
    moreover have "ones_sum v = ?m + 1" using False by (simp add: ones_sum_def)
    ultimately have "v + (65535 - ones_sum v) = 65535 * ((v - 1) div 65535) + 65535"
      using False by linarith
    then have eq: "v + (65535 - ones_sum v) - 1 = 65534 + 65535 * ((v - 1) div 65535)" by linarith
    have "(v + (65535 - ones_sum v) - 1) mod 65535 = 65534" unfolding eq by simp
    with False show ?thesis by (simp add: ones_sum_def)
  qed (simp add: ones_sum_def)
  ultimately have "unat (icmpChecksum (a @ [ucast c, ucast (drop_bit 8 c)] @ b)) = 0"
    using icmpChecksum_eq [of "a @ [ucast c, ucast (drop_bit 8 c)] @ b"] assms(2) by simp
  then show ?thesis by (simp add: unat_eq_0)
qed

end
