(* ===== verification/Fcnet.thy ===== *)
theory Fcnet
  imports Node PingPackets Netip Checksum
begin

text \<open>
  \<^verbatim>\<open>fcnet/fcnet.go\<close> and the handler of \<^verbatim>\<open>fcnet/ping.go\<close>: the IPv6 network on top of a node.

  The tunnel device and the virtual device of the name service are written to by the code: what was
  written is kept in the lists \<open>dev_out\<close> and \<open>fc1_out\<close>, and whether a write fails is decided by a
  function of the environment. What is read from a device is an argument of the step that
  reads it. The package \<^verbatim>\<open>icmp\<close> is outside the repository; \<open>icmp_ok\<close> says what it documents.
\<close>

section \<open>State\<close>

definition FcnetMulticodec :: u64 where "FcnetMulticodec = 0x42004"
definition PingMulticodec :: u64 where "PingMulticodec = 0x42005"

definition linklocalPrefix :: Prefix where
  "linklocalPrefix = \<lparr>pfx_addr = Addr6 ([0xfe, 0x80] @ replicate 14 0) [], pfx_bits = 64\<rparr>"

definition multicastPrefix :: Prefix where
  "multicastPrefix = \<lparr>pfx_addr = Addr6 (0xff # replicate 15 0) [], pfx_bits = 8\<rparr>"

definition fc1Addr :: Addr where "fc1Addr = Addr6 ([0xfc] @ replicate 14 0 @ [1]) []"

definition ipv6_HeaderLen :: int where "ipv6_HeaderLen = 40"

record Fcnet =
  fc_ip :: Addr
  dev_out :: "bytes list"
  fc1_out :: "bytes list"
  fc1_tun :: bool
  fc1_dns :: bool

record icmplib =
  IPv6PseudoHeader :: "bytes \<Rightarrow> bytes \<Rightarrow> bytes"
  TimeExceeded_Marshal :: "bytes \<Rightarrow> err + bytes"

text \<open>The pseudo header with a length of zero, and the body: four unused bytes and the data.\<close>

definition icmp_ok :: "icmplib \<Rightarrow> bool" where
  "icmp_ok I \<longleftrightarrow>
     (\<forall>s d. length s = 16 \<longrightarrow> length d = 16 \<longrightarrow> IPv6PseudoHeader I s d = s @ d @ replicate 7 0 @ [58]) \<and>
     (\<forall>b. TimeExceeded_Marshal I b = Inr (replicate 4 0 @ b))"

record fcenv =
  fc_env :: env
  fc_icmp :: icmplib
  dev_Write :: "bytes \<Rightarrow> err option"
  fc1_Write :: "bytes \<Rightarrow> err option"

datatype fc_handler = PingHandler | FcnetHandler | OtherHandler nat

definition NewFcnet :: "crypto \<Rightarrow> 'h Node \<Rightarrow> Fcnet" where
  "NewFcnet C node =
     \<lparr>fc_ip = PublicKey_IPAddr C (PeerID_PublicKey (nd_peerid node)), dev_out = [], fc1_out = [],
      fc1_tun = False, fc1_dns = False\<rparr>"

definition device_Write :: "fcenv \<Rightarrow> Fcnet \<Rightarrow> bytes \<Rightarrow> Fcnet \<times> err option" where
  "device_Write F fc buf =
     (case dev_Write F buf of
        Some e \<Rightarrow> (fc, Some e)
      | None \<Rightarrow> (fc\<lparr>dev_out := dev_out fc @ [buf]\<rparr>, None))"

definition fc1tun_Write :: "fcenv \<Rightarrow> Fcnet \<Rightarrow> bytes \<Rightarrow> Fcnet \<times> err option" where
  "fc1tun_Write F fc buf =
     (case fc1_Write F buf of
        Some e \<Rightarrow> (fc, Some e)
      | None \<Rightarrow> (fc\<lparr>fc1_out := fc1_out fc @ [buf]\<rparr>, None))"

section \<open>Starting\<close>

text \<open>
  \<^verbatim>\<open>CreateNetTUN\<close> and \<^verbatim>\<open>ListenUDP\<close> may fail: their errors are arguments. The handlers are registered before
  either is called, and stay registered.
\<close>

definition initFcnet1 :: "err option \<Rightarrow> Fcnet \<Rightarrow> Fcnet \<times> err option" where
  "initFcnet1 CreateNetTUN fc =
     (case CreateNetTUN of Some e \<Rightarrow> (fc, Some e) | None \<Rightarrow> (fc\<lparr>fc1_tun := True\<rparr>, None))"

definition initDns :: "err option \<Rightarrow> Fcnet \<Rightarrow> Fcnet \<times> err option" where
  "initDns ListenUDP fc =
     (case ListenUDP of Some e \<Rightarrow> (fc, Some e) | None \<Rightarrow> (fc\<lparr>fc1_dns := True\<rparr>, None))"

definition Fcnet_Start ::
  "err option \<Rightarrow> err option \<Rightarrow> fc_handler Node \<Rightarrow> Fcnet \<Rightarrow> fc_handler Node \<times> Fcnet \<times> err option" where
  "Fcnet_Start CreateNetTUN ListenUDP node fc =
     (let node = HandleLower node PingMulticodec PingHandler;
          node = Handle node FcnetMulticodec FcnetHandler
      in case initFcnet1 CreateNetTUN fc of
           (fc, Some e) \<Rightarrow> (node, fc, Some e)
         | (fc, None) \<Rightarrow>
             (case initDns ListenUDP fc of
                (fc, Some e) \<Rightarrow> (node, fc, Some e)
              | (fc, None) \<Rightarrow> (node, fc, None)))"

section \<open>Packets from the network\<close>

definition handleFcnetPacket :: "crypto \<Rightarrow> fcenv \<Rightarrow> Fcnet \<Rightarrow> PeerID \<Rightarrow> bytes \<Rightarrow> (Fcnet \<times> err option) option" where
  "handleFcnetPacket C F fc src payload = do {
     let n = int (length payload);
     if n < ipv6_HeaderLen then Some (fc, Some (Errorf ''fcnet: recv: packet too short''))
     else do {
       lb \<leftarrow> slice_of payload 4 6;
       gl \<leftarrow> be_uint16 lb;
       let gotlen = int (unat gl);
       if n \<noteq> gotlen + ipv6_HeaderLen then Some (fc, Some (Errorf ''fcnet: recv: length mismatch''))
       else do {
         v \<leftarrow> idx payload 0;
         if drop_bit 4 v \<noteq> 6 then Some (fc, Some (Errorf ''fcnet: recv: not an ipv6 packet''))
         else do {
           s \<leftarrow> slice_of payload 8 24;
           if s \<noteq> AsSlice (PublicKey_IPAddr C (PeerID_PublicKey src))
           then Some (fc, Some (Errorf ''fcnet: recv: src address mismatch''))
           else do {
             d \<leftarrow> slice_of payload 24 40;
             if d \<noteq> AsSlice (fc_ip fc) then Some (fc, Some (Errorf ''fcnet: recv: dst address mismatch''))
             else Some (device_Write F fc payload) } } } } }"

text \<open>The handler that \<^verbatim>\<open>Start\<close> registers for upper packets.\<close>

definition fcnetHandler :: "crypto \<Rightarrow> fcenv \<Rightarrow> Fcnet \<Rightarrow> UpperPacket \<Rightarrow> (Fcnet \<times> err option) option" where
  "fcnetHandler C F fc upkt = do {
     pl \<leftarrow> UpperPacket_Payload upkt;
     handleFcnetPacket C F fc (UpperSrc (base upkt)) pl }"

section \<open>Packets from the tunnel\<close>

definition sign :: "PingPacket \<Rightarrow> err + PingPacket" where "sign ppkt = Inr ppkt"
definition verify :: "PingPacket \<Rightarrow> err option" where "verify ppkt = None"

text \<open>Both senders of a ping packet set its codec and give it to the forwarder.\<close>

definition send_ping :: "varint \<Rightarrow> 'h Node \<Rightarrow> PingPacket \<Rightarrow> ('h Node \<times> err option) option" where
  "send_ping V node ppkt =
     (case sign ppkt of
        Inl e \<Rightarrow> Some (node, Some e)
      | Inr ppkt \<Rightarrow> do {
          lpkt \<leftarrow> LowerPacket_SetCodec V (NewLowerPacket (base ppkt)) PingMulticodec;
          fr \<leftarrow> SendRaw (forwarder node) lpkt;
          forwarded node fr })"

definition handleTunPacket ::
  "fcenv \<Rightarrow> 'h Node \<Rightarrow> Fcnet \<Rightarrow> bytes \<Rightarrow> ('h Node \<times> Fcnet \<times> err option) option" where
  "handleTunPacket F node fc buf = do {
     let V = env_V (fc_env F);
     let plen = int (length buf);
     if plen < ipv6_HeaderLen then Some (node, fc, Some (Errorf ''tun: packet too short''))
     else do {
       lb \<leftarrow> slice_of buf 4 6;
       gl \<leftarrow> be_uint16 lb;
       let gotlen = int (unat gl);
       if plen \<noteq> gotlen + ipv6_HeaderLen then Some (node, fc, Some (Errorf ''fcnet: recv: length mismatch''))
       else do {
         nexthdr \<leftarrow> idx buf 6;
         hb \<leftarrow> idx buf 7;
         let hop_limit = int (unat hb);
         sb \<leftarrow> slice_of buf 8 24;
         db \<leftarrow> slice_of buf 24 40;
         let src = fst (AddrFromSlice sb);
         let dst = fst (AddrFromSlice db);
         if Contains linklocalPrefix src \<or> Contains multicastPrefix dst then Some (node, fc, None)
         else if src \<noteq> fc_ip fc then Some (node, fc, None)
         else if dst = fc1Addr then (let (fc, r) = fc1tun_Write F fc buf in Some (node, fc, r))
         else case LookupIPv6 (routing node) dst of
           Inl e \<Rightarrow> Some (node, fc, Some e)
         | Inr peerid \<Rightarrow>
             (case GetRoute (routing node) peerid of
                Inl e \<Rightarrow> Some (node, fc, Some (Errorf ''tun: no route for''))
              | Inr route \<Rightarrow>
                  if hop_limit \<ge> Route_Len route then do {
                    let upkt = NewUpperPacket (NewPacket (replicate TptMTU 0));
                    let upkt = upkt\<lparr>base := (base upkt)\<lparr>UpperDst := peerid\<rparr>\<rparr>;
                    upkt \<leftarrow> UpperPacket_SetRoute upkt route;
                    upkt \<leftarrow> UpperPacket_SetCodec V upkt FcnetMulticodec;
                    upkt \<leftarrow> UpperPacket_SetPayload upkt buf;
                    node \<leftarrow> SendUpper node upkt;
                    Some (node, fc, None) }
                  else if nexthdr = 58 then do {
                    let r = Route_Bytes route;
                    let r = (if int (length r) > hop_limit then take (nat hop_limit) r else r);
                    let rt = NewRoute r;
                    ppkt \<leftarrow> NewPingPacket (NewPacket (replicate TptMTU 0));
                    let ppkt = ppkt\<lparr>base := (base ppkt)\<lparr>LowerSrc := nd_peerid node\<rparr>\<rparr>;
                    ppkt \<leftarrow> Ping_SetRoute ppkt rt;
                    ppkt \<leftarrow> Ping_SetSender ppkt (PeerID_PublicKey (LowerSrc (base ppkt)));
                    ppkt \<leftarrow> SetIsReply ppkt False;
                    ppkt \<leftarrow> Ping_SetPayload ppkt buf;
                    (node, r) \<leftarrow> send_ping V node ppkt;
                    Some (node, fc, r) }
                  else Some (node, fc, None)) } } }"

text \<open>
  One iteration of \<^verbatim>\<open>listenTun\<close>: the bytes a read delivers are in a zeroed buffer of the size left
  behind the upper offset. Errors of the handler are logged.
\<close>

definition tunBufferSize :: nat where "tunBufferSize = TptMTU - 36"

definition listenTun :: "fcenv \<Rightarrow> 'h Node \<Rightarrow> Fcnet \<Rightarrow> err + bytes \<Rightarrow> ('h Node \<times> Fcnet) option" where
  "listenTun F node fc read =
     (case read of
        Inl _ \<Rightarrow> Some (node, fc)
      | Inr xs \<Rightarrow> do {
          let buf = to_array tunBufferSize xs;
          v \<leftarrow> idx buf 0;
          if drop_bit 4 v \<noteq> 6 then Some (node, fc)
          else do {
            (node, fc, _) \<leftarrow> handleTunPacket F node fc (take (length xs) buf);
            Some (node, fc) } })"

text \<open>
  One iteration of the routine that \<^verbatim>\<open>initFcnet1\<close> starts. The number of bytes read is thrown away:
  the whole buffer is written to the tunnel.
\<close>

definition fc1_routine :: "fcenv \<Rightarrow> Fcnet \<Rightarrow> err + bytes \<Rightarrow> Fcnet" where
  "fc1_routine F fc read =
     (case read of
        Inl _ \<Rightarrow> fc
      | Inr xs \<Rightarrow> fst (device_Write F fc (to_array tunBufferSize xs)))"

section \<open>Ping packets\<close>

text \<open>The ICMPv6 message and the packet around it that a reply is turned into.\<close>

definition time_exceeded_icmp :: "icmplib \<Rightarrow> bytes \<Rightarrow> bytes \<Rightarrow> bytes \<Rightarrow> (err + bytes) option" where
  "time_exceeded_icmp I src dst buf =
     (let chdr = IPv6PseudoHeader I src dst;
          cbuf = chdr @ [0x3, 0x0, 0, 0]
      in case TimeExceeded_Marshal I buf of
           Inl e \<Rightarrow> Some (Inl (Errorf ''fcnet: icmp checksuming error''))
         | Inr cbody \<Rightarrow> do {
             let cbuf = cbuf @ cbody;
             cbuf \<leftarrow> copy_at cbuf 32 36 (be_bytes32 (of_nat (length cbuf - length chdr)));
             let csum = icmpChecksum cbuf;
             let h = int (length chdr);
             c2 \<leftarrow> idx cbuf (h + 2);
             cbuf \<leftarrow> upd cbuf (h + 2) (c2 XOR ucast csum);
             c3 \<leftarrow> idx cbuf (h + 3);
             cbuf \<leftarrow> upd cbuf (h + 3) (c3 XOR ucast (drop_bit 8 csum));
             Some (Inr (drop (length chdr) cbuf)) })"

definition time_exceeded :: "bytes \<Rightarrow> bytes \<Rightarrow> bytes \<Rightarrow> bytes \<Rightarrow> bytes" where
  "time_exceeded flow src dst icmpdata =
     (let ilen = length icmpdata
      in flow @ be_bytes16 (of_nat ilen) @ [58, 64] @ to_array 16 src @ to_array 16 dst @ icmpdata)"

text \<open>
  \<^verbatim>\<open>fwdhdr\<close> is a slice of the packet's buffer: its elements are indexed within its 16 bytes, but it is
  sliced up to its capacity, the end of the buffer. Both bounds are computed in a byte. The same
  holds for the slices of the payload.
\<close>

definition ping_mark :: "PingPacket \<Rightarrow> byte \<Rightarrow> (PingPacket \<times> Route) option" where
  "ping_mark ppkt slot = do {
     let off = Offset ppkt + 4;
     fwdhdr \<leftarrow> slice_of (fbuf ppkt) off (off + 16);
     pos \<leftarrow> idx fwdhdr 0;
     fwdhdr \<leftarrow> upd fwdhdr (int (unat (2 + pos))) slot;
     pos \<leftarrow> idx fwdhdr 0;
     fwdhdr \<leftarrow> upd fwdhdr 0 (pos + 1);
     b \<leftarrow> copy_at (fbuf ppkt) off (off + 16) fwdhdr;
     pos \<leftarrow> idx fwdhdr 0;
     hs \<leftarrow> slice_of b (off + 2) (off + int (unat (2 + pos)));
     Some (with_buf ppkt b, Route_Reverse (NewRoute hs)) }"

definition handlePingReply :: "crypto \<Rightarrow> fcenv \<Rightarrow> Fcnet \<Rightarrow> PingPacket \<Rightarrow> (Fcnet \<times> err option) option" where
  "handlePingReply C F fc ppkt =
     (case verify ppkt of
        Some e \<Rightarrow> Some (fc, Some e)
      | None \<Rightarrow> do {
          buf \<leftarrow> Ping_Payload ppkt;
          let dst = AsSlice (fc_ip fc);
          let off = Offset ppkt + 72;
          s \<leftarrow> slice_of (fbuf ppkt) (off + 8) (off + 24);
          if s \<noteq> dst then Some (fc, Some (Errorf ''fcnet: recv: dst address mismatch''))
          else do {
            key \<leftarrow> Ping_Sender ppkt;
            let src2 = AsSlice (PublicKey_IPAddr C key);
            icmp \<leftarrow> time_exceeded_icmp (fc_icmp F) src2 dst buf;
            (case icmp of
               Inl e \<Rightarrow> Some (fc, Some e)
             | Inr icmpdata \<Rightarrow> do {
                 flow \<leftarrow> slice_of (fbuf ppkt) off (off + 4);
                 handleFcnetPacket C F fc (NewPeerID key) (time_exceeded flow src2 dst icmpdata) }) } })"

definition handlePingPacket ::
  "fcenv \<Rightarrow> 'h Node \<Rightarrow> Fcnet \<Rightarrow> LowerPacket \<Rightarrow> ('h Node \<times> Fcnet \<times> err option) option" where
  "handlePingPacket F node fc lpkt = do {
     ppkt \<leftarrow> NewPingPacket (lbase lpkt);
     let lpkt = lpkt\<lparr>lbase := (lbase lpkt)\<lparr>Buf := fbuf ppkt\<rparr>\<rparr>;
     here \<leftarrow> IsDestination ppkt;
     if \<not> here then do {
       fr \<leftarrow> Forwarder_HandlePacket (forwarder node) lpkt;
       (node, r) \<leftarrow> forwarded node fr;
       Some (node, fc, r) }
     else case GetRoute (routing node) (LowerSrc (lbase lpkt)) of
       Inl e \<Rightarrow> Some (node, fc, Some e)
     | Inr prevrt \<Rightarrow> do {
         slot \<leftarrow> idx (Route_Bytes prevrt) 0;
         (ppkt, route) \<leftarrow> ping_mark ppkt slot;
         rep \<leftarrow> IsReply ppkt;
         if rep then do {
           (fc, r) \<leftarrow> handlePingReply (env_C (fc_env F)) F fc ppkt;
           Some (node, fc, r) }
         else do {
           ppkt2 \<leftarrow> NewPingPacket (NewPacket (replicate TptMTU 0));
           let ppkt2 = ppkt2\<lparr>base := (base ppkt2)\<lparr>LowerSrc := nd_peerid node\<rparr>\<rparr>;
           ppkt2 \<leftarrow> Ping_SetRoute ppkt2 route;
           ppkt2 \<leftarrow> Ping_SetSender ppkt2 (PeerID_PublicKey (nd_peerid node));
           ppkt2 \<leftarrow> SetIsReply ppkt2 True;
           pl \<leftarrow> Ping_Payload ppkt;
           ppkt2 \<leftarrow> Ping_SetPayload ppkt2 pl;
           (node, r) \<leftarrow> send_ping (env_V (fc_env F)) node ppkt2;
           Some (node, fc, r) } } }"

end
