(* ===== verification/Filesystem.thy ===== *)
theory Filesystem
  imports MultiaddrText
begin

text \<open>
  What the configuration and the command line use of the operating system: files, and the paths that
  name them (\<^verbatim>\<open>os\<close>, \<^verbatim>\<open>path/filepath\<close>).

  The contents of the files are the state. Whether a call of the system fails is decided by the fault
  functions, which are arguments: they may answer anything.
\<close>

section \<open>Paths\<close>

text \<open>
  \<^verbatim>\<open>filepath.Clean\<close>: the components from left to right, the kept ones reversed in the second argument.
\<close>

fun clean_comps :: "bool \<Rightarrow> string list \<Rightarrow> string list \<Rightarrow> string list" where
  "clean_comps rooted [] kept = rev kept"
| "clean_comps rooted (c # cs) kept =
     (if c = [] \<or> c = ''.'' then clean_comps rooted cs kept
      else if c = ''..'' then
        (if kept \<noteq> [] \<and> hd kept \<noteq> ''..'' then clean_comps rooted cs (tl kept)
         else if rooted then clean_comps rooted cs kept
         else clean_comps rooted cs (c # kept))
      else clean_comps rooted cs (c # kept))"

definition Clean :: "string \<Rightarrow> string" where
  "Clean path =
     (let rooted = (take 1 path = ''/'');
          out = (if rooted then ''/'' else []) @ join_strings ''/'' (clean_comps rooted (split_on CHR ''/'' path) [])
      in if out = [] then ''.'' else out)"

text \<open>\<^verbatim>\<open>filepath.Join\<close> of two elements, of which the second is not empty.\<close>

definition Join :: "string \<Rightarrow> string \<Rightarrow> string" where
  "Join dir name = (if dir = [] then Clean name else Clean (dir @ ''/'' @ name))"

definition Dir :: "string \<Rightarrow> string" where
  "Dir path = Clean (rev (dropWhile (\<lambda>c. c \<noteq> CHR ''/'') (rev path)))"

section \<open>Files\<close>

text \<open>A write that fails may have happened in part: \<open>Some n\<close> says that \<open>n\<close> bytes were written before.\<close>

record os_faults =
  stat_fault :: "string \<Rightarrow> err option"
  read_fault :: "string \<Rightarrow> err option"
  write_fault :: "string \<Rightarrow> (err \<times> nat option) option"
  mkdir_fault :: "string \<Rightarrow> err option"

type_synonym files = "string \<rightharpoonup> bytes"

definition ErrNotExist :: err where "ErrNotExist = ErrExternal ''file does not exist''"

definition os_Stat :: "os_faults \<Rightarrow> files \<Rightarrow> string \<Rightarrow> err option" where
  "os_Stat F fs path =
     (case stat_fault F path of Some e \<Rightarrow> Some e
      | None \<Rightarrow> case fs path of None \<Rightarrow> Some ErrNotExist | Some _ \<Rightarrow> None)"

definition os_ReadFile :: "os_faults \<Rightarrow> files \<Rightarrow> string \<Rightarrow> err + bytes" where
  "os_ReadFile F fs path =
     (case read_fault F path of Some e \<Rightarrow> Inl e
      | None \<Rightarrow> case fs path of None \<Rightarrow> Inl ErrNotExist | Some b \<Rightarrow> Inr b)"

definition os_WriteFile :: "os_faults \<Rightarrow> files \<Rightarrow> string \<Rightarrow> bytes \<Rightarrow> files \<times> err option" where
  "os_WriteFile F fs path b =
     (case write_fault F path of
        None \<Rightarrow> (fs(path \<mapsto> b), None)
      | Some (e, None) \<Rightarrow> (fs, Some e)
      | Some (e, Some n) \<Rightarrow> (fs(path \<mapsto> take n b), Some e))"

lemma os_WriteFile_frame: "p \<noteq> path \<Longrightarrow> fst (os_WriteFile F fs path b) p = fs p"
  by (simp add: os_WriteFile_def split: option.splits prod.splits)

lemma os_WriteFile_ok:
  "snd (os_WriteFile F fs path b) = None \<longleftrightarrow> write_fault F path = None"
  "write_fault F path = None \<Longrightarrow> os_WriteFile F fs path b = (fs(path \<mapsto> b), None)"
  by (simp_all add: os_WriteFile_def split: option.splits prod.splits)

end
