(* ===== verification/Tun.thy ===== *)
theory Tun
  imports Filesystem
begin

text \<open>
  \<^verbatim>\<open>fcnet/tun.go\<close>, \<^verbatim>\<open>tun_netlink.go\<close>, \<^verbatim>\<open>tun_nm.go\<close>: how the tunnel device is opened and configured. The answers of the
  operating system, of netlink and of NetworkManager are parameters; the open descriptors of the process are the
  state.
\<close>

section \<open>Opening the device\<close>

definition IFNAMSIZ :: nat where "IFNAMSIZ = 16"
definition ifReqSize :: nat where "ifReqSize = IFNAMSIZ + 64"
definition tun_flags :: u16 where "tun_flags = 0x0001 OR 0x1000"

record tunsys =
  sys_Open :: "err + int"                            \<comment> \<open>of \<^verbatim>\<open>/dev/net/tun\<close>\<close>
  sys_Ioctl :: "int \<Rightarrow> bytes \<Rightarrow> err option"             \<comment> \<open>\<^verbatim>\<open>TUNSETIFF\<close>\<close>
  sys_SetNonblock :: "int \<Rightarrow> err option"
  sys_InterfaceByName :: "string \<Rightarrow> string option"     \<comment> \<open>the text of the error\<close>
  sys_TUNFromFD :: "int \<Rightarrow> err option"

type_synonym fds = "int list"

text \<open>The request: the name in the first 16 bytes, then the flags, in the byte order of a little-endian machine.\<close>

definition tun_request :: "string \<Rightarrow> bytes" where
  "tun_request ifname =
     splice (splice (replicate ifReqSize 0) 0 (take ifReqSize (str_bytes ifname))) IFNAMSIZ
       [ucast tun_flags, ucast (drop_bit 8 tun_flags)]"

definition bindTun :: "tunsys \<Rightarrow> fds \<Rightarrow> string \<Rightarrow> fds \<times> (err + int)" where
  "bindTun S fds ifname =
     (case sys_Open S of
        Inl e \<Rightarrow> (fds, Inl (if e = ErrNotExist then Errorf ''bindTun: /dev/net/tun does not exist'' else e))
      | Inr nfd \<Rightarrow>
          (let fds = nfd # fds
           in if length (str_bytes ifname) \<ge> IFNAMSIZ then (remove1 nfd fds, Inl (Errorf ''bindTun: ifname too long''))
              else case sys_Ioctl S nfd (tun_request ifname) of
                     Some e \<Rightarrow> (remove1 nfd fds, Inl e)
                   | None \<Rightarrow>
                       (case sys_SetNonblock S nfd of
                          Some e \<Rightarrow> (remove1 nfd fds, Inl e)
                        | None \<Rightarrow> (fds, Inr nfd))))"

definition FileTUN :: "(int \<Rightarrow> err option) \<Rightarrow> int \<Rightarrow> err option" where
  "FileTUN CreateUnmonitoredTUNFromFD fd = CreateUnmonitoredTUNFromFD fd"

definition PreconfiguredTUN :: "tunsys \<Rightarrow> fds \<Rightarrow> string \<Rightarrow> fds \<times> (err + int)" where
  "PreconfiguredTUN S fds ifname =
     (case bindTun S fds ifname of
        (fds, Inl e) \<Rightarrow> (fds, Inl e)
      | (fds, Inr fd) \<Rightarrow> (case FileTUN (sys_TUNFromFD S) fd of Some e \<Rightarrow> (fds, Inl e) | None \<Rightarrow> (fds, Inr fd)))"

definition checkTunExists :: "tunsys \<Rightarrow> string \<Rightarrow> err + bool" where
  "checkTunExists S ifname =
     (case sys_InterfaceByName S ifname of
        None \<Rightarrow> Inr True
      | Some t \<Rightarrow> if t = ''no such network interface'' then Inr False else Inl (ErrExternal t))"

section \<open>Netlink\<close>

record netlinklib =
  LinkByName :: "string \<Rightarrow> err option"
  LinkSetMTU :: "int \<Rightarrow> err option"
  nl_ParseAddr :: "string \<Rightarrow> err option"
  AddrAdd :: "err option"
  LinkSetUp :: "err option"
  nl_ParseCIDR :: "err option"

text \<open>
  The steps in order; the device is closed where one fails, except where it could not be made from the descriptor. The route
  is optional.
\<close>

fun nl_steps :: "(string \<times> err option) list \<Rightarrow> err option" where
  "nl_steps [] = None"
| "nl_steps ((name, Some _) # rest) = Some (Errorf name)"
| "nl_steps ((name, None) # rest) = nl_steps rest"

definition NetlinkTun :: "tunsys \<Rightarrow> netlinklib \<Rightarrow> fds \<Rightarrow> string \<Rightarrow> string \<Rightarrow> int \<Rightarrow> fds \<times> (err + int)" where
  "NetlinkTun S N fds ifname ip6 mtu =
     (case bindTun S fds ifname of
        (fds, Inl e) \<Rightarrow> (fds, Inl e)
      | (fds, Inr fd) \<Rightarrow>
          (case sys_TUNFromFD S fd of
             Some e \<Rightarrow> (fds, Inl (Errorf ''CreateUnmonitoredTUNFromFD''))
           | None \<Rightarrow>
               (case nl_steps [(''LinkByName'', LinkByName N ifname), (''LinkSetMTU'', LinkSetMTU N mtu),
                        (''ParseAddr'', nl_ParseAddr N (ip6 @ ''/128'')), (''AddrAdd'', AddrAdd N), (''LinkSetUp'', LinkSetUp N),
                        (''ParseCIDR'', nl_ParseCIDR N)] of
                  Some e \<Rightarrow> (remove1 fd fds, Inl e)
                | None \<Rightarrow> (fds, Inr fd))))"

text \<open>The same in a new network namespace, entered by \<open>newns\<close>.\<close>

definition NetlinkTunWithNamespace ::
  "tunsys \<Rightarrow> netlinklib \<Rightarrow> err option \<Rightarrow> err option \<Rightarrow> fds \<Rightarrow> string \<Rightarrow> string \<Rightarrow> int \<Rightarrow> fds \<times> (err + int)" where
  "NetlinkTunWithNamespace S N origns newns fds ifname ip6 mtu =
     (case origns of
        Some e \<Rightarrow> (fds, Inl e)
      | None \<Rightarrow> (case newns of Some e \<Rightarrow> (fds, Inl e) | None \<Rightarrow> NetlinkTun S N fds ifname ip6 mtu))"

section \<open>NetworkManager\<close>

datatype variant =
    VString string | VUint32 u32 | VBool bool | VStrings "string list" | VBytes "bytes list"
  | VDicts "(string \<times> variant) list list"

type_synonym settings = "string \<rightharpoonup> (string \<rightharpoonup> variant)"

record 'n nmlib =
  ListConnections :: "'n \<Rightarrow> err + string list"
  GetSettings :: "'n \<Rightarrow> string \<Rightarrow> err + settings"
  AddConnectionUnsaved :: "'n \<Rightarrow> settings \<Rightarrow> 'n \<times> (err + string)"
  UpdateUnsaved :: "'n \<Rightarrow> string \<Rightarrow> settings \<Rightarrow> 'n \<times> err option"
  GetDeviceByIpIface :: "'n \<Rightarrow> string \<Rightarrow> err + string"
  ActivateConnection :: "'n \<Rightarrow> string \<Rightarrow> string \<Rightarrow> string \<Rightarrow> 'n \<times> (err + string)"

definition prepareConn :: "string \<Rightarrow> Addr \<Rightarrow> int \<Rightarrow> settings" where
  "prepareConn ifname ip mtu =
     [''connection'' \<mapsto> [''id'' \<mapsto> VString ifname, ''interface-name'' \<mapsto> VString ifname, ''type'' \<mapsto> VString ''tun''],
      ''802-3-ethernet'' \<mapsto> [''mtu'' \<mapsto> VUint32 (word_of_int mtu)],
      ''tun'' \<mapsto> [''pi'' \<mapsto> VBool False],
      ''ipv6'' \<mapsto>
        [''method'' \<mapsto> VString ''manual'',
         ''address-data'' \<mapsto> VDicts [[(''address'', VString (Addr_String ip)), (''prefix'', VUint32 128)]],
         ''route-data'' \<mapsto> VDicts [[(''dest'', VString ''fc00::''), (''prefix'', VUint32 8)]],
         ''dns'' \<mapsto> VBytes [0xfc # replicate 14 0 @ [1]],
         ''dns-search'' \<mapsto> VStrings [''~rovy.'']],
      ''ipv4'' \<mapsto> [''method'' \<mapsto> VString ''disabled'']]"

text \<open>The name of the interface of a connection is asserted to be a string: another type panics.\<close>

definition conn_matches :: "settings \<Rightarrow> string \<Rightarrow> bool option" where
  "conn_matches cfg ifname =
     (case cfg ''connection'' of
        None \<Rightarrow> Some False
      | Some c \<Rightarrow>
          (case c ''interface-name'' of
             None \<Rightarrow> Some False
           | Some (VString s) \<Rightarrow> Some (s = ifname)
           | Some _ \<Rightarrow> None))"

fun find_conns :: "'n nmlib \<Rightarrow> 'n \<Rightarrow> string \<Rightarrow> string list \<Rightarrow> string \<times> settings option \<Rightarrow> (err + string \<times> settings option) option" where
  "find_conns N n ifname [] found = Some (Inr found)"
| "find_conns N n ifname (path # paths) found =
     (case GetSettings N n path of
        Inl _ \<Rightarrow> Some (Inl (Errorf ''GetSettings''))
      | Inr cfg \<Rightarrow> do {
          m \<leftarrow> conn_matches cfg ifname;
          find_conns N n ifname paths (if m then (path, Some cfg) else found) })"

definition findConn :: "'n nmlib \<Rightarrow> 'n \<Rightarrow> string \<Rightarrow> (err + string \<times> settings option) option" where
  "findConn N n ifname =
     (case ListConnections N n of
        Inl _ \<Rightarrow> Some (Inl (Errorf ''ListConnections''))
      | Inr paths \<Rightarrow> find_conns N n ifname paths ([], None))"

definition createConn :: "'n nmlib \<Rightarrow> 'n \<Rightarrow> settings \<Rightarrow> 'n \<times> (err + string)" where
  "createConn N n cfg =
     (case AddConnectionUnsaved N n cfg of
        (n, Inl _) \<Rightarrow> (n, Inl (Errorf ''AddConnectionUnsaved''))
      | (n, Inr path) \<Rightarrow> (n, Inr path))"

definition updateConn :: "'n nmlib \<Rightarrow> 'n \<Rightarrow> string \<Rightarrow> settings \<Rightarrow> 'n \<times> err option" where
  "updateConn N n path cfg = UpdateUnsaved N n path cfg"

text \<open>The groups of a connection that is reused are replaced; an error of the search is dropped, and the path is empty then.\<close>

definition merge_conn :: "settings \<Rightarrow> settings \<Rightarrow> settings" where
  "merge_conn connCfg newCfg =
     connCfg(''802-3-ethernet'' := newCfg ''802-3-ethernet'', ''tun'' := newCfg ''tun'',
             ''ipv6'' := newCfg ''ipv6'', ''ipv4'' := newCfg ''ipv4'')"

definition updateOrCreateConn :: "'n nmlib \<Rightarrow> 'n \<Rightarrow> string \<Rightarrow> Addr \<Rightarrow> int \<Rightarrow> ('n \<times> (err + string)) option" where
  "updateOrCreateConn N n ifname ip mtu = do {
     let newCfg = prepareConn ifname ip mtu;
     r \<leftarrow> findConn N n ifname;
     (case r of
        Inl _ \<Rightarrow> Some (n, Inr [])
      | Inr (connPath, Some connCfg) \<Rightarrow>
          (case updateConn N n connPath (merge_conn connCfg newCfg) of
             (n, Some e) \<Rightarrow> Some (n, Inl e)
           | (n, None) \<Rightarrow> Some (n, Inr connPath))
      | Inr (_, None) \<Rightarrow> Some (createConn N n newCfg)) }"

definition getDevice :: "'n nmlib \<Rightarrow> 'n \<Rightarrow> string \<Rightarrow> err + string" where
  "getDevice N n ifname =
     (case GetDeviceByIpIface N n ifname of Inl _ \<Rightarrow> Inl (Errorf ''GetDeviceByIpIface'') | Inr p \<Rightarrow> Inr p)"

definition activateConn :: "'n nmlib \<Rightarrow> 'n \<Rightarrow> string \<Rightarrow> string \<Rightarrow> 'n \<times> err option" where
  "activateConn N n conn device =
     (case ActivateConnection N n conn device ''/'' of
        (n, Inl _) \<Rightarrow> (n, Some (Errorf ''ActivateConnection''))
      | (n, Inr _) \<Rightarrow> (n, None))"

text \<open>The device is opened before the connection when it is there already, and after it otherwise.\<close>

definition nm_bind :: "tunsys \<Rightarrow> fds \<Rightarrow> bool \<Rightarrow> string \<Rightarrow> fds \<times> (err + int)" where
  "nm_bind S fds wanted ifname = (if wanted then bindTun S fds ifname else (fds, Inr 0))"

text \<open>From the settings of the connection to the device.\<close>

definition nm_activate ::
  "'n nmlib \<Rightarrow> tunsys \<Rightarrow> 'n \<Rightarrow> fds \<Rightarrow> string \<Rightarrow> int \<Rightarrow> string \<Rightarrow> 'n \<times> fds \<times> (err + int)" where
  "nm_activate N S n fds ifname tunfd settingspath =
     (case getDevice N n ifname of
        Inl e \<Rightarrow> (n, fds, Inl e)
      | Inr devpath \<Rightarrow>
          (case activateConn N n settingspath devpath of
             (n, Some e) \<Rightarrow> (n, fds, Inl e)
           | (n, None) \<Rightarrow>
               (case (if tunfd = 0 then bindTun S fds ifname else (fds, Inr tunfd)) of
                  (fds, Inl e) \<Rightarrow> (n, fds, Inl e)
                | (fds, Inr tunfd) \<Rightarrow>
                    (case sys_TUNFromFD S tunfd of
                       Some e \<Rightarrow> (n, fds, Inl e)
                     | None \<Rightarrow> (n, fds, Inr tunfd)))))"

definition NMTUN_Start ::
  "'n nmlib \<Rightarrow> tunsys \<Rightarrow> err option \<Rightarrow> 'n \<Rightarrow> fds \<Rightarrow> string \<Rightarrow> Addr \<Rightarrow> int \<Rightarrow> ('n \<times> fds \<times> (err + int)) option" where
  "NMTUN_Start N S SystemBus n fds ifname ip mtu =
     (case SystemBus of
        Some _ \<Rightarrow> Some (n, fds, Inl (Errorf ''dbus''))
      | None \<Rightarrow>
          (case checkTunExists S ifname of
             Inl _ \<Rightarrow> Some (n, fds, Inl (Errorf ''checkTunExists''))
           | Inr devPresent \<Rightarrow>
               (case nm_bind S fds devPresent ifname of
                  (fds, Inl e) \<Rightarrow> Some (n, fds, Inl e)
                | (fds, Inr tunfd) \<Rightarrow> do {
                    (n, r) \<leftarrow> updateOrCreateConn N n ifname ip mtu;
                    (case r of
                       Inl e \<Rightarrow> Some (n, fds, Inl e)
                     | Inr settingspath \<Rightarrow> Some (nm_activate N S n fds ifname tunfd settingspath)) })))"

end
