(* ===== verification/ApiServer.thy ===== *)
theory ApiServer
  imports Json Durations Discovery Fcnet Tun
begin

text \<open>
  \<^verbatim>\<open>api/server\<close>: the HTTP interface of a node. A handler takes the state of the program behind the server and a request,
  and gives the new state and a response. What the operating system and packages outside the repository
  answer is in the environment.
\<close>

record request =
  rq_path :: string
  rq_body :: body

text \<open>Reading the body of a response may fail.\<close>

record response =
  rs_status :: nat
  rs_body :: "err + body"

definition StatusOK :: nat where "StatusOK = 200"
definition StatusInternalServerError :: nat where "StatusInternalServerError = 500"

text \<open>The node, its services, and the network endpoints that were made for it.\<close>

record apistate =
  st_node :: "fc_handler Node"
  st_services :: ServiceManager
  st_fcnets :: "Fcnet list"

text \<open>Receiving a file descriptor over a socket: dialling, and what the control messages hold.\<close>

record fdio =
  fd_Dial :: "string \<Rightarrow> err option"
  fd_File :: "err option"
  fd_Recvmsg :: "err + bytes"
  ParseSocketControlMessage :: "bytes \<Rightarrow> err + bytes list"
  ParseUnixRights :: "bytes \<Rightarrow> err + int list"

record 'cid apienv =
  ae_crypto :: crypto
  ae_cid :: "'cid cidlib"
  ae_maddr :: maddrlib
  ae_float :: "nat \<Rightarrow> nat \<Rightarrow> nat \<Rightarrow> nat"
  ae_Protocols :: "bytes \<Rightarrow> nat list"
  ae_ListenUDP :: "string \<Rightarrow> Addr \<times> u16 \<Rightarrow> err + Addr \<times> u16"
  ae_LinkLocalListen :: "err option"
  ae_fdio :: fdio
  ae_TUNFromFD :: "int \<Rightarrow> err option"
  ae_CreateNetTUN :: "err option"
  ae_DnsListen :: "err option"

section \<open>Responses\<close>

definition writeError :: response where
  "writeError = \<lparr>rs_status = StatusInternalServerError, rs_body = Inr NoBody\<rparr>"

definition write_ok :: response where
  "write_ok = \<lparr>rs_status = StatusOK, rs_body = Inr NoBody\<rparr>"

definition write_json :: "json \<Rightarrow> response" where
  "write_json v = \<lparr>rs_status = StatusOK, rs_body = Inr (JsonText v False)\<rparr>"

section \<open>The node\<close>

definition serveInfo :: "'cid apienv \<Rightarrow> apistate \<Rightarrow> request \<Rightarrow> apistate \<times> response" where
  "serveInfo E st r =
     (case Node_Info (ae_crypto E) (st_node st) of
        Inl _ \<Rightarrow> (st, write_json (NodeInfo_json (ae_cid E) emptyNodeInfo))
      | Inr ni \<Rightarrow> (st, write_json (NodeInfo_json (ae_cid E) ni)))"

definition serveStart :: "'cid apienv \<Rightarrow> apistate \<Rightarrow> request \<Rightarrow> apistate \<times> response" where
  "serveStart E st r =
     (case Node_StartInfo (ae_crypto E) (st_node st) of
        (node, Inl e) \<Rightarrow> (st\<lparr>st_node := node\<rparr>, writeError)
      | (node, Inr ni) \<Rightarrow> (st\<lparr>st_node := node\<rparr>, write_json (NodeInfo_json (ae_cid E) ni)))"

definition serveStop :: "'cid apienv \<Rightarrow> apistate \<Rightarrow> request \<Rightarrow> apistate \<times> response" where
  "serveStop E st r =
     (case Node_StopInfo (ae_crypto E) (st_node st) of
        (node, Inl e) \<Rightarrow> (st\<lparr>st_node := node\<rparr>, writeError)
      | (node, Inr ni) \<Rightarrow> (st\<lparr>st_node := node\<rparr>, write_json (NodeInfo_json (ae_cid E) ni)))"

section \<open>Peers\<close>

definition servePeerStatus :: "'cid apienv \<Rightarrow> apistate \<Rightarrow> request \<Rightarrow> apistate \<times> response" where
  "servePeerStatus E st r = (st, writeError)"

definition servePeerListen :: "'cid apienv \<Rightarrow> apistate \<Rightarrow> request \<Rightarrow> apistate \<times> response" where
  "servePeerListen E st r =
     (case Decoder_Decode (rq_body r) of
        Inl e \<Rightarrow> (st, writeError)
      | Inr v \<Rightarrow>
          (case decode_struct (addr_param_fields (ae_cid E) (ae_maddr E)) v emptyMultiaddr of
             Inl e \<Rightarrow> (st, writeError)
           | Inr ma \<Rightarrow>
               (case PeerAPI_Listen (ae_Protocols E) (ae_ListenUDP E) (st_node st) ma of
                  (node, Inl e) \<Rightarrow> (st\<lparr>st_node := node\<rparr>, writeError)
                | (node, Inr pl) \<Rightarrow>
                    (st\<lparr>st_node := node\<rparr>, write_json (PeerListener_json (ae_cid E) (ae_maddr E) pl)))))"

definition servePeerConnect :: "'cid apienv \<Rightarrow> apistate \<Rightarrow> request \<Rightarrow> apistate \<times> response" where
  "servePeerConnect E st r = (st, writeError)"

section \<open>Discovery\<close>

definition serveDiscoveryLinkLocalStart :: "'cid apienv \<Rightarrow> apistate \<Rightarrow> request \<Rightarrow> apistate \<times> response" where
  "serveDiscoveryLinkLocalStart E st r =
     (case Decoder_Decode (rq_body r) of
        Inl e \<Rightarrow> (st, writeError)
      | Inr v \<Rightarrow>
          (case decode_struct (string_param_fields ''Interval'') v [] of
             Inl e \<Rightarrow> (st, writeError)
           | Inr s \<Rightarrow>
               (case ParseDuration (ae_float E) s of
                  None \<Rightarrow> (st, writeError)
                | Some interval \<Rightarrow>
                    (case StartLinkLocal (ae_LinkLocalListen E) (st_services st) interval of
                       (sm, Some e) \<Rightarrow> (st\<lparr>st_services := sm\<rparr>, writeError)
                     | (sm, None) \<Rightarrow> (st\<lparr>st_services := sm\<rparr>, write_ok)))))"

definition serveDiscoveryLinkLocalStop :: "'cid apienv \<Rightarrow> apistate \<Rightarrow> request \<Rightarrow> apistate \<times> response" where
  "serveDiscoveryLinkLocalStop E st r =
     (case StopLinkLocal (st_services st) of
        (sm, Some e) \<Rightarrow> (st\<lparr>st_services := sm\<rparr>, writeError)
      | (sm, None) \<Rightarrow> (st\<lparr>st_services := sm\<rparr>, write_ok))"

section \<open>The network\<close>

definition receiveFD :: "fdio \<Rightarrow> string \<Rightarrow> err + int" where
  "receiveFD I socket =
     (case fd_Dial I socket of
        Some _ \<Rightarrow> Inl (Errorf ''dial'')
      | None \<Rightarrow>
          (case fd_File I of
             Some _ \<Rightarrow> Inl (Errorf ''apifd'')
           | None \<Rightarrow>
               (case fd_Recvmsg I of
                  Inl _ \<Rightarrow> Inl (Errorf ''recvmsg'')
                | Inr oob \<Rightarrow>
                    (case ParseSocketControlMessage I oob of
                       Inl _ \<Rightarrow> Inl (Errorf ''ParseSocketControlMessage'')
                     | Inr msgs \<Rightarrow>
                         if length msgs \<noteq> 1 then Inl (Errorf ''recvmsg got more than one UnixRights message'')
                         else case ParseUnixRights I (msgs ! 0) of
                                Inl _ \<Rightarrow> Inl (Errorf ''ParseUnixRights'')
                              | Inr fds \<Rightarrow>
                                  if length fds \<noteq> 1 then Inl (Errorf ''recvmsg got more than one file descriptor'')
                                  else Inr (fds ! 0)))))"

definition serveFcnetStart :: "'cid apienv \<Rightarrow> apistate \<Rightarrow> request \<Rightarrow> apistate \<times> response" where
  "serveFcnetStart E st r =
     (case Decoder_Decode (rq_body r) of
        Inl e \<Rightarrow> (st, writeError)
      | Inr v \<Rightarrow>
          (case decode_struct (string_param_fields ''Socket'') v [] of
             Inl e \<Rightarrow> (st, writeError)
           | Inr s \<Rightarrow>
               (case receiveFD (ae_fdio E) s of
                  Inl e \<Rightarrow> (st, writeError)
                | Inr fd \<Rightarrow>
                    (case FileTUN (ae_TUNFromFD E) fd of
                       Some e \<Rightarrow> (st, writeError)
                     | None \<Rightarrow>
                         (case Fcnet_Start (ae_CreateNetTUN E) (ae_DnsListen E) (st_node st) (NewFcnet (ae_crypto E) (st_node st)) of
                            (node, fc, Some e) \<Rightarrow> (st\<lparr>st_node := node, st_fcnets := st_fcnets st @ [fc]\<rparr>, writeError)
                          | (node, fc, None) \<Rightarrow> (st\<lparr>st_node := node, st_fcnets := st_fcnets st @ [fc]\<rparr>, write_ok))))))"

section \<open>Dispatch\<close>

definition api_routes :: "'cid apienv \<Rightarrow> (string \<times> (apistate \<Rightarrow> request \<Rightarrow> apistate \<times> response)) list" where
  "api_routes E =
     [(''/v0/info'', serveInfo E),
      (''/v0/start'', serveStart E),
      (''/v0/stop'', serveStop E),
      (''/v0/fcnet/start'', serveFcnetStart E),
      (''/v0/peer/status'', servePeerStatus E),
      (''/v0/peer/listen'', servePeerListen E),
      (''/v0/peer/connect'', servePeerConnect E),
      (''/v0/discovery/linklocal/start'', serveDiscoveryLinkLocalStart E),
      (''/v0/discovery/linklocal/stop'', serveDiscoveryLinkLocalStop E)]"

text \<open>
  The router is a parameter: for the registered paths and the path of a request it names the route, or gives the
  status of its own answer.
\<close>

definition Serve :: "(string list \<Rightarrow> string \<Rightarrow> nat + nat) \<Rightarrow> 'cid apienv \<Rightarrow> apistate \<Rightarrow> request \<Rightarrow> apistate \<times> response" where
  "Serve router E st r =
     (case router (map fst (api_routes E)) (rq_path r) of
        Inl status \<Rightarrow> (st, \<lparr>rs_status = status, rs_body = Inr NotJson\<rparr>)
      | Inr i \<Rightarrow> snd (api_routes E ! i) st r)"

text \<open>A request for a registered path goes to the handler of that path.\<close>

definition router_ok :: "(string list \<Rightarrow> string \<Rightarrow> nat + nat) \<Rightarrow> bool" where
  "router_ok router \<longleftrightarrow> (\<forall>ps i. distinct ps \<longrightarrow> i < length ps \<longrightarrow> router ps (ps ! i) = Inr i)"

end
