(* ===== verification/ApiClient.thy ===== *)
theory ApiClient
  imports ApiServer
begin

text \<open>
  \<^verbatim>\<open>api/client\<close>: the interface of a node over HTTP. The transport of requests is a parameter; it may change the
  state at the other end.
\<close>

type_synonym 's http = "'s \<Rightarrow> request \<Rightarrow> 's \<times> (err + response)"

definition http_Get :: "'s http \<Rightarrow> 's \<Rightarrow> string \<Rightarrow> 's \<times> (err + response)" where
  "http_Get http st path = http st \<lparr>rq_path = path, rq_body = NoBody\<rparr>"

definition http_Post :: "'s http \<Rightarrow> 's \<Rightarrow> string \<Rightarrow> json \<Rightarrow> 's \<times> (err + response)" where
  "http_Post http st path v = http st \<lparr>rq_path = path, rq_body = JsonText v False\<rparr>"

section \<open>The node\<close>

text \<open>The body of an answer, whatever its status, as information about the node.\<close>

definition read_info :: "'cid cidlib \<Rightarrow> err + response \<Rightarrow> err + NodeInfo" where
  "read_info L res =
     (case res of
        Inl e \<Rightarrow> Inl e
      | Inr res \<Rightarrow>
          (case rs_body res of
             Inl e \<Rightarrow> Inl e
           | Inr b \<Rightarrow>
               (case json_Unmarshal b of
                  Inl e \<Rightarrow> Inl e
                | Inr v \<Rightarrow> decode_struct (NodeInfo_fields L) v emptyNodeInfo)))"

definition Client_Info :: "'cid cidlib \<Rightarrow> 's http \<Rightarrow> 's \<Rightarrow> 's \<times> (err + NodeInfo)" where
  "Client_Info L http st = (let (st, res) = http_Get http st ''/v0/info'' in (st, read_info L res))"

definition Client_Start :: "'cid cidlib \<Rightarrow> 's http \<Rightarrow> 's \<Rightarrow> 's \<times> (err + NodeInfo)" where
  "Client_Start L http st = (let (st, res) = http_Get http st ''/v0/start'' in (st, read_info L res))"

definition Client_Stop :: "'cid cidlib \<Rightarrow> 's http \<Rightarrow> 's \<Rightarrow> 's \<times> (err + NodeInfo)" where
  "Client_Stop L http st = (let (st, res) = http_Get http st ''/v0/stop'' in (st, read_info L res))"

section \<open>Peers\<close>

definition PeerClient_Status :: "err + PeerStatus" where
  "PeerClient_Status = Inr \<lparr>Peers = [], Listeners = []\<rparr>"

definition PeerClient_Listen ::
  "'cid cidlib \<Rightarrow> maddrlib \<Rightarrow> 's http \<Rightarrow> 's \<Rightarrow> Multiaddr \<Rightarrow> 's \<times> (err + PeerListener)" where
  "PeerClient_Listen L M http st ma =
     (case http_Post http st ''/v0/peer/listen'' (addr_param L M ma) of
        (st, Inl e) \<Rightarrow> (st, Inl e)
      | (st, Inr res) \<Rightarrow>
          if rs_status res \<noteq> StatusOK then (st, Inl (Errorf ''http''))
          else (case rs_body res of
                  Inl e \<Rightarrow> (st, Inl e)
                | Inr b \<Rightarrow>
                    (case Decoder_Decode b of
                       Inl e \<Rightarrow> (st, Inl e)
                     | Inr v \<Rightarrow>
                         (st, decode_struct (PeerListener_fields L M) v
                                \<lparr>ListenAddr = emptyMultiaddr, EffectiveAddrs = [], ExternalAddrs = []\<rparr>))))"

text \<open>No request is made.\<close>

definition PeerClient_Connect :: "Multiaddr \<Rightarrow> err + PeerInfo" where
  "PeerClient_Connect ma = Inr emptyPeerInfo"

section \<open>Discovery\<close>

definition check_status :: "'s \<times> (err + response) \<Rightarrow> 's \<times> err option" where
  "check_status r =
     (case r of
        (st, Inl e) \<Rightarrow> (st, Some e)
      | (st, Inr res) \<Rightarrow> if rs_status res \<noteq> StatusOK then (st, Some (Errorf ''http'')) else (st, None))"

definition DiscoveryClient_Status :: "err + DiscoveryStatus" where
  "DiscoveryClient_Status = Inr \<lparr>ds_LinkLocal = \<lparr>dll_Interval = 0\<rparr>\<rparr>"

definition DiscoveryClient_StartLinkLocal :: "'s http \<Rightarrow> 's \<Rightarrow> int \<Rightarrow> 's \<times> err option" where
  "DiscoveryClient_StartLinkLocal http st interval =
     check_status (http_Post http st ''/v0/discovery/linklocal/start'' (string_param ''Interval'' (Duration_String interval)))"

definition DiscoveryClient_StopLinkLocal :: "'s http \<Rightarrow> 's \<Rightarrow> 's \<times> err option" where
  "DiscoveryClient_StopLinkLocal http st =
     check_status (http_Post http st ''/v0/discovery/linklocal/stop'' (JObj []))"

section \<open>The network\<close>

text \<open>Sending a descriptor to whoever connects first: listening, accepting, the file of the connection, sending.\<close>

definition sendFD :: "err option \<Rightarrow> err option \<Rightarrow> err option \<Rightarrow> (bytes \<Rightarrow> bytes \<Rightarrow> err option) \<Rightarrow> (int \<Rightarrow> bytes) \<Rightarrow> int \<Rightarrow> err option" where
  "sendFD listen accept file Sendmsg UnixRights fd =
     (case listen of
        Some _ \<Rightarrow> Some (Errorf ''listen'')
      | None \<Rightarrow>
          (case accept of
             Some _ \<Rightarrow> Some (Errorf ''accept'')
           | None \<Rightarrow>
               (case file of
                  Some _ \<Rightarrow> Some (Errorf ''unixconn'')
                | None \<Rightarrow>
                    (case Sendmsg [0x42] (UnixRights fd) of Some _ \<Rightarrow> Some (Errorf ''sendmsg'') | None \<Rightarrow> None))))"

text \<open>The descriptor itself travels beside the request; the status of the answer is not looked at.\<close>

definition FcnetClient_Start :: "'s http \<Rightarrow> err + string \<Rightarrow> 's \<Rightarrow> 's \<times> err option" where
  "FcnetClient_Start http MkdirTemp st =
     (case MkdirTemp of
        Inl _ \<Rightarrow> (st, Some (Errorf ''mkdirtemp''))
      | Inr dir \<Rightarrow>
          (let sa = Join dir ''v0-fcnet-start.sock''
           in case http_Post http st ''/v0/fcnet/start'' (string_param ''Socket'' sa) of
                (st, Inl e) \<Rightarrow> (st, Some (Errorf ''http''))
              | (st, Inr _) \<Rightarrow> (st, None)))"

end
