(* ===== verification/Config.thy ===== *)
theory Config
  imports Filesystem
begin

text \<open>
  \<^verbatim>\<open>api/config/config.go\<close>: the key file and the configuration file. The TOML package, the
  multibase codec and the content identifiers are parameters.
\<close>

section \<open>Configuration\<close>

record cfgPeer =
  cfg_Listen :: "Multiaddr list"
  cfg_Connect :: "Multiaddr list"

record cfgFcnet =
  fcnet_Enabled :: bool
  Ifname :: string

record cfgLinkLocal =
  linklocal_Enabled :: bool
  cfg_Interval :: string

record cfgDiscovery =
  cfg_LinkLocal :: cfgLinkLocal

record Config =
  cfg_Peer :: cfgPeer
  cfg_Fcnet :: cfgFcnet
  cfg_Discovery :: cfgDiscovery

text \<open>It panics where one of its constant addresses is not one.\<close>

definition DefaultConfig :: "'cid cidlib \<Rightarrow> maddrlib \<Rightarrow> Config option" where
  "DefaultConfig L M = do {
     l6 \<leftarrow> MustParseMultiaddr L M ''/ip6/::/udp/1312'';
     l4 \<leftarrow> MustParseMultiaddr L M ''/ip4/0.0.0.0/udp/1312'';
     Some \<lparr>cfg_Peer = \<lparr>cfg_Listen = [l6, l4], cfg_Connect = []\<rparr>,
           cfg_Fcnet = \<lparr>fcnet_Enabled = True, Ifname = ''rovy0''\<rparr>,
           cfg_Discovery = \<lparr>cfg_LinkLocal = \<lparr>linklocal_Enabled = True, cfg_Interval = ''5s''\<rparr>\<rparr>\<rparr> }"

section \<open>Parameters\<close>

text \<open>
  Decoding a document into the raw struct of \<^verbatim>\<open>NewKeyfile\<close>, which has the three strings \<^verbatim>\<open>PrivateKey\<close>, \<^verbatim>\<open>PeerID\<close> and
  \<^verbatim>\<open>IPAddr\<close>, and encoding and decoding a configuration.
\<close>

record tomllib =
  toml_DecodeKeyfile :: "bytes \<Rightarrow> err + string \<times> string \<times> string"
  toml_Marshal :: "Config \<Rightarrow> err + bytes"
  toml_DecodeConfig :: "bytes \<Rightarrow> err + Config"

record multibase =
  mb_Encode :: "bytes \<Rightarrow> string"
  mb_Decode :: "string \<Rightarrow> err + bytes"

section \<open>Key files\<close>

record Keyfile =
  kf_PrivateKey :: PrivateKey
  kf_PeerID :: PeerID
  kf_IPAddr :: Addr

definition NewKeyfile ::
  "crypto \<Rightarrow> 'cid cidlib \<Rightarrow> multibase \<Rightarrow> tomllib \<Rightarrow> bytes \<Rightarrow> (err + Keyfile) option" where
  "NewKeyfile C L B T r =
     (case toml_DecodeKeyfile T r of
        Inl e \<Rightarrow> Some (Inl e)
      | Inr (rawkey, rawpid, rawaddr) \<Rightarrow> do {
          key \<leftarrow> ParsePrivateKey (mb_Decode B) rawkey;
          (case key of
             Inl e \<Rightarrow> Some (Inl e)
           | Inr key \<Rightarrow>
               (case cid_Decode L rawpid of
                  Inl e \<Rightarrow> Some (Inl e)
                | Inr c \<Rightarrow>
                    (case PeerIDFromCid L c of
                       Inl e \<Rightarrow> Some (Inl e)
                     | Inr pid \<Rightarrow>
                         (case ParseAddr rawaddr of
                            None \<Rightarrow> Some (Inl (ErrExternal ''netip.ParseAddr''))
                          | Some ip \<Rightarrow>
                              if pid \<noteq> NewPeerID (PrivateKey_PublicKey C key)
                              then Some (Inl (Errorf ''wrong PeerID in keyfile''))
                              else if ip \<noteq> PublicKey_IPAddr C (PrivateKey_PublicKey C key)
                              then Some (Inl (Errorf ''wrong IPAddr in keyfile''))
                              else Some (Inr \<lparr>kf_PrivateKey = key, kf_PeerID = pid, kf_IPAddr = ip\<rparr>))))) })"

definition LoadKeyfile ::
  "crypto \<Rightarrow> 'cid cidlib \<Rightarrow> multibase \<Rightarrow> tomllib \<Rightarrow> os_faults \<Rightarrow> files \<Rightarrow> string \<Rightarrow> (err + Keyfile) option" where
  "LoadKeyfile C L B T F fs path =
     (case os_ReadFile F fs path of
        Inl e \<Rightarrow> Some (Inl e)
      | Inr b \<Rightarrow> NewKeyfile C L B T b)"

definition nl :: string where "nl = [char_of (10 :: nat)]"
definition quote :: string where "quote = [char_of (39 :: nat)]"
definition dquote :: string where "dquote = [char_of (34 :: nat)]"

text \<open>The comment lines of the format string.\<close>

definition keyfile_comments :: "string list" where
  "keyfile_comments =
     [[],
      '' Rovy Keyfile'',
      [],
      '' Privatekey is base64-encoded with a Multibase header.'',
      '' PeerID is the base32-encoded public key, prefixed with the '' @ dquote @ ''bafzqai'' @ dquote @ '' CID header.'',
      '' IPAddr is bytes 16 to 31 of the public key'' @ quote @ ''s double Blake2s-256 hash.'',
      [],
      '' For a PrivateKey and PeerID to be valid, their IPAddr must be within fc00::/8.'',
      []]"

definition keyfile_doc :: "string list \<Rightarrow> string \<Rightarrow> string \<Rightarrow> string \<Rightarrow> string" where
  "keyfile_doc comments key pid addr =
     concat (map (\<lambda>c. ''#'' @ c @ nl) comments) @
     ''PrivateKey = '' @ quote @ key @ quote @ nl @
     ''PeerID = '' @ quote @ pid @ quote @ nl @
     ''IPAddr = '' @ quote @ addr @ quote @ nl"

definition keyfile_text :: "'cid cidlib \<Rightarrow> multibase \<Rightarrow> Keyfile \<Rightarrow> string" where
  "keyfile_text L B kf =
     keyfile_doc keyfile_comments (PrivateKey_String (mb_Encode B) (kf_PrivateKey kf)) (PeerID_String L (kf_PeerID kf))
       (Addr_String (kf_IPAddr kf))"

definition SaveKeyfile ::
  "'cid cidlib \<Rightarrow> multibase \<Rightarrow> os_faults \<Rightarrow> files \<Rightarrow> string \<Rightarrow> Keyfile \<Rightarrow> files \<times> err option" where
  "SaveKeyfile L B F fs path kf = os_WriteFile F fs path (str_bytes (keyfile_text L B kf))"

section \<open>Configuration files\<close>

definition LoadConfig :: "tomllib \<Rightarrow> os_faults \<Rightarrow> files \<Rightarrow> string \<Rightarrow> err + Config" where
  "LoadConfig T F fs path =
     (case os_ReadFile F fs path of Inl e \<Rightarrow> Inl e | Inr b \<Rightarrow> toml_DecodeConfig T b)"

definition SaveConfig :: "tomllib \<Rightarrow> os_faults \<Rightarrow> files \<Rightarrow> string \<Rightarrow> Config \<Rightarrow> files \<times> err option" where
  "SaveConfig T F fs path cfg =
     (case toml_Marshal T cfg of Inl e \<Rightarrow> (fs, Some e) | Inr b \<Rightarrow> os_WriteFile F fs path b)"

section \<open>What is relied on\<close>

text \<open>A character that stands for itself in a comment and in a literal string of TOML.\<close>

definition printing_char :: "char \<Rightarrow> bool" where
  "printing_char c \<longleftrightarrow> 32 \<le> (of_char c :: nat) \<and> (of_char c :: nat) < 127"

definition literal_text :: "string \<Rightarrow> bool" where
  "literal_text s \<longleftrightarrow> (\<forall>c\<in>set s. printing_char c \<and> [c] \<noteq> quote)"

text \<open>
  The TOML package reads comments and literal strings as the format defines them; it writes and reads the
  addresses of a configuration through their text methods, so that a configuration of printable texts is read back when
  these addresses are.
\<close>

definition toml_ok :: "'cid cidlib \<Rightarrow> maddrlib \<Rightarrow> tomllib \<Rightarrow> bool" where
  "toml_ok L M T \<longleftrightarrow>
     (\<forall>cs a b c. (\<forall>x\<in>set cs. \<forall>ch\<in>set x. printing_char ch) \<longrightarrow> literal_text a \<longrightarrow> literal_text b \<longrightarrow> literal_text c \<longrightarrow>
        toml_DecodeKeyfile T (str_bytes (keyfile_doc cs a b c)) = Inr (a, b, c)) \<and>
     (\<forall>cfg. (\<forall>ma\<in>set (cfg_Listen (cfg_Peer cfg)) \<union> set (cfg_Connect (cfg_Peer cfg)).
               literal_text (Multiaddr_String L M ma) \<and>
               (\<exists>t. Multiaddr_MarshalText L M ma = Inr t \<and> Multiaddr_UnmarshalText L M emptyMultiaddr t = (ma, None))) \<longrightarrow>
        literal_text (Ifname (cfg_Fcnet cfg)) \<longrightarrow> literal_text (cfg_Interval (cfg_LinkLocal (cfg_Discovery cfg))) \<longrightarrow>
        (\<exists>b. toml_Marshal T cfg = Inr b \<and> toml_DecodeConfig T b = Inr cfg))"

text \<open>Multibase text has no quotes or control characters, and the codec decodes what it encodes.\<close>

definition multibase_ok :: "multibase \<Rightarrow> bool" where
  "multibase_ok B \<longleftrightarrow> (\<forall>b. mb_Decode B (mb_Encode B b) = Inr b \<and> literal_text (mb_Encode B b))"

section \<open>Lemmas\<close>

lemma digit_printing: "n < 16 \<Longrightarrow> printing_char (digit_char n) \<and> [digit_char n] \<noteq> quote"
proof -
  assume n: "n < 16"
  then have v: "of_char (digit_char n) = (if n < 10 then 48 + n else 87 + n)" by (simp add: digit_char_def)
  then have "digit_char n \<noteq> char_of (39 :: nat)" using n by (force split: if_splits)
  with v n show ?thesis by (simp add: printing_char_def quote_def)
qed

lemma digits_literal: "2 \<le> b \<Longrightarrow> b \<le> 16 \<Longrightarrow> literal_text (digits b n)"
  using digits_set [of b n] digit_printing by (fastforce simp: literal_text_def)

lemma literal_simps [simp]:
  "literal_text []" "literal_text (c # s) \<longleftrightarrow> printing_char c \<and> [c] \<noteq> quote \<and> literal_text s"
  "literal_text (s @ t) \<longleftrightarrow> literal_text s \<and> literal_text t"
  by (auto simp: literal_text_def)

lemma join_literal: "literal_text sep \<Longrightarrow> \<forall>x\<in>set xs. literal_text x \<Longrightarrow> literal_text (join_strings sep xs)"
  by (induction sep xs rule: join_strings.induct) simp_all

lemma addr_literal: "literal_text (Addr_String (Addr6 b []))"
proof -
  have sep: "literal_text '':''" "literal_text ''.''" "literal_text ''ffff:''"
    by (simp_all add: printing_char_def quote_def char_of_def)
  have "literal_text (string4 x)" for x
    unfolding string4_def by (rule join_literal [OF sep(2)]) (simp add: digits_literal)
  moreover have "literal_text (hex_join gs)" for gs
    by (rule join_literal [OF sep(1)]) (simp add: digits_literal)
  ultimately show ?thesis
    using sep by (simp add: string6_def Let_def split: prod.splits)
qed

lemma IPAddr_shape: "crypto_ok C \<Longrightarrow> \<exists>b. PublicKey_IPAddr C k = Addr6 b [] \<and> length b = 16"
  by (simp add: PublicKey_IPAddr_def AddrFromSlice_def crypto_okD Let_def)

lemma comments_printing: "\<forall>x\<in>set keyfile_comments. \<forall>ch\<in>set x. printing_char ch"
  by (simp add: keyfile_comments_def printing_char_def dquote_def quote_def)

text \<open>Reading what was written: the three fields come back, and the two checks are made on them.\<close>

lemma NewKeyfile_text:
  assumes "cid_ok L" and "toml_ok L M T" and "multibase_ok B"
    and "literal_text (PeerID_String L (kf_PeerID kf))" and "\<not> PeerID_Empty (kf_PeerID kf)"
    and "wf_priv (kf_PrivateKey kf)" and "kf_IPAddr kf = Addr6 b []" "length b = 16"
  shows "NewKeyfile C L B T (str_bytes (keyfile_text L B kf)) =
    Some (if kf_PeerID kf \<noteq> NewPeerID (PrivateKey_PublicKey C (kf_PrivateKey kf)) then Inl (Errorf ''wrong PeerID in keyfile'')
          else if kf_IPAddr kf \<noteq> PublicKey_IPAddr C (PrivateKey_PublicKey C (kf_PrivateKey kf)) then Inl (Errorf ''wrong IPAddr in keyfile'')
          else Inr kf)"
proof -
  have toml: "toml_DecodeKeyfile T (str_bytes (keyfile_text L B kf)) =
      Inr (PrivateKey_String (mb_Encode B) (kf_PrivateKey kf), PeerID_String L (kf_PeerID kf), Addr_String (kf_IPAddr kf))"
    using assms(2,3,4) comments_printing addr_literal [of b]
    unfolding keyfile_text_def toml_ok_def multibase_ok_def PrivateKey_String_def assms(7) by blast
  have key: "ParsePrivateKey (mb_Decode B) (PrivateKey_String (mb_Encode B) (kf_PrivateKey kf)) = Some (Inr (kf_PrivateKey kf))"
    using assms(3) NewPrivateKey_Some [OF assms(6)] by (simp add: ParsePrivateKey_def PrivateKey_String_def multibase_ok_def)
  have pid: "cid_Decode L (PeerID_String L (kf_PeerID kf)) = Inr (PeerID_Cid L (kf_PeerID kf))"
    using assms(1,5) by (simp add: PeerID_String_def cid_ok_def)
  have addr: "ParseAddr (Addr_String (kf_IPAddr kf)) = Some (kf_IPAddr kf)"
    using ParseAddr_6 [OF assms(8)] by (simp only: assms(7))
  show ?thesis by (simp add: NewKeyfile_def toml key pid addr PeerIDFromCid_Cid [OF assms(1)])
qed

text \<open>The two addresses a node listens on by default, and their text.\<close>

definition listen6 :: Multiaddr where "listen6 = emptyMultiaddr\<lparr>IP := Addr6 (replicate 16 0) [], Port := 1312\<rparr>"
definition listen4 :: Multiaddr where "listen4 = emptyMultiaddr\<lparr>IP := Addr4 (replicate 4 0), Port := 1312\<rparr>"

lemma listen_texts:
  "Addr_String (Addr6 (replicate 16 0) []) = ''::''" "Addr_String (Addr4 (replicate 4 0)) = ''0.0.0.0''"
  "FormatUint 1312 = ''1312''"
  by code_simp+

lemma listen_String:
  "Multiaddr_String L M listen6 = ''/ip6/::/udp/1312''" "Multiaddr_String L M listen4 = ''/ip4/0.0.0.0/udp/1312''"
  using listen_texts by (simp_all add: Multiaddr_String_def listen6_def listen4_def emptyMultiaddr_def del: Addr_String.simps)

lemma listen_parsed:
  "ParseMultiaddr L M ''/ip6/::/udp/1312'' = Inr listen6" "ParseMultiaddr L M ''/ip4/0.0.0.0/udp/1312'' = Inr listen4"
proof -
  have "ParseAddrPort ''[::]:1312'' = Some (Addr6 (replicate 16 0) [], 1312)"
    "ParseAddrPort ''0.0.0.0:1312'' = Some (Addr4 (replicate 4 0), 1312)"
    using ParseAddrPort_6 [of "replicate 16 0" "[]" 1312] ParseAddrPort_4 [of "replicate 4 0" 1312] listen_texts
    by simp_all
  then show "ParseMultiaddr L M ''/ip6/::/udp/1312'' = Inr listen6" "ParseMultiaddr L M ''/ip4/0.0.0.0/udp/1312'' = Inr listen4"
    by (simp_all add: ParseMultiaddr_def part_ip6_def part_ip4_def part_rovy_def part_more_def listen6_def listen4_def)
qed

definition default_config :: Config where
  "default_config =
     \<lparr>cfg_Peer = \<lparr>cfg_Listen = [listen6, listen4], cfg_Connect = []\<rparr>,
      cfg_Fcnet = \<lparr>fcnet_Enabled = True, Ifname = ''rovy0''\<rparr>,
      cfg_Discovery = \<lparr>cfg_LinkLocal = \<lparr>linklocal_Enabled = True, cfg_Interval = ''5s''\<rparr>\<rparr>\<rparr>"

lemma DefaultConfig_value: "DefaultConfig L M = Some default_config"
  by (simp add: DefaultConfig_def MustParseMultiaddr_def listen_parsed default_config_def)

lemma default_config_read_back:
  assumes "toml_ok L M T"
  shows "\<exists>b. toml_Marshal T default_config = Inr b \<and> toml_DecodeConfig T b = Inr default_config"
proof -
  have "\<forall>ma\<in>set (cfg_Listen (cfg_Peer default_config)) \<union> set (cfg_Connect (cfg_Peer default_config)).
      literal_text (Multiaddr_String L M ma) \<and>
      (\<exists>t. Multiaddr_MarshalText L M ma = Inr t \<and> Multiaddr_UnmarshalText L M emptyMultiaddr t = (ma, None))"
    by (simp add: default_config_def Multiaddr_MarshalText_def Multiaddr_UnmarshalText_def listen_String listen_parsed
        literal_text_def printing_char_def quote_def char_of_def)
  moreover have "literal_text (Ifname (cfg_Fcnet default_config))" "literal_text (cfg_Interval (cfg_LinkLocal (cfg_Discovery default_config)))"
    by (simp_all add: default_config_def literal_text_def printing_char_def quote_def char_of_def)
  ultimately show ?thesis using assms unfolding toml_ok_def by blast
qed

end
