(* ===== verification/Commands.thy ===== *)
theory Commands
  imports Config
begin

text \<open>
  \<^verbatim>\<open>cmd/rovy/init.go\<close> and the parts of \<^verbatim>\<open>cmd/rovy/start.go\<close> and \<^verbatim>\<open>main.go\<close> that choose and read files. The context of the
  command-line package and the expansion of home directories are parameters.
\<close>

definition KeyfileName :: string where "KeyfileName = ''keyfile.toml''"
definition ConfigName :: string where "ConfigName = ''config.toml''"
definition SocketName :: string where "SocketName = ''api.sock''"

record cli_ctx =
  IsSet :: "string \<Rightarrow> bool"
  cli_String :: "string \<Rightarrow> string"
  Args :: "string list"

text \<open>The commands, and the flags each declares, with their default values.\<close>

definition DefaultDirectory :: string where "DefaultDirectory = ''~/.rovy''"

datatype command = CmdInit | CmdStart | CmdInfo | CmdStop | CmdPeerStatus | CmdPeerListen | CmdPeerConnect | CmdPeerPolicy

definition directoryFlag :: "string \<times> string" where "directoryFlag = (''directory'', DefaultDirectory)"
definition socketFlag :: "string \<times> string" where "socketFlag = (''socket'', Join DefaultDirectory SocketName)"

fun command_flags :: "command \<Rightarrow> (string \<times> string) list" where
  "command_flags CmdInit =
     [directoryFlag, (''keyfile'', Join DefaultDirectory KeyfileName), (''config'', Join DefaultDirectory ConfigName)]"
| "command_flags CmdStart =
     [directoryFlag, socketFlag, (''keyfile'', Join DefaultDirectory KeyfileName), (''config'', Join DefaultDirectory ConfigName)]"
| "command_flags CmdInfo = [directoryFlag, socketFlag]"
| "command_flags CmdStop = [directoryFlag, socketFlag]"
| "command_flags _ = []"

text \<open>
  What the command-line package documents: a flag has the value that was given, or its default, and a flag that is not declared reads as
  the empty string.
\<close>

definition cli_ok :: "command \<Rightarrow> (string \<rightharpoonup> string) \<Rightarrow> cli_ctx \<Rightarrow> bool" where
  "cli_ok cmd given c \<longleftrightarrow>
     (\<forall>n. IsSet c n \<longleftrightarrow> n \<in> dom given \<inter> fst ` set (command_flags cmd)) \<and>
     (\<forall>n. cli_String c n =
        (case map_of (command_flags cmd) n of
           None \<Rightarrow> []
         | Some d \<Rightarrow> (case given n of None \<Rightarrow> d | Some v \<Rightarrow> v)))"

section \<open>rovy init\<close>

definition init_paths :: "(string \<Rightarrow> err + string) \<Rightarrow> cli_ctx \<Rightarrow> err + string \<times> string" where
  "init_paths Expand c =
     (case Expand (cli_String c ''directory'') of
        Inl _ \<Rightarrow> Inl (Errorf ''homedir'')
      | Inr directory \<Rightarrow>
          if IsSet c ''directory'' then Inr (Join directory KeyfileName, Join directory ConfigName)
          else case Expand (cli_String c ''keyfile'') of
                 Inl _ \<Rightarrow> Inl (Errorf ''homedir'')
               | Inr kfpath \<Rightarrow>
                   (case Expand (cli_String c ''config'') of
                      Inl _ \<Rightarrow> Inl (Errorf ''homedir'')
                    | Inr cfgpath \<Rightarrow> Inr (kfpath, cfgpath)))"

text \<open>Making the directory and writing the file, for each of the two files.\<close>

definition write_keyfile ::
  "'cid cidlib \<Rightarrow> multibase \<Rightarrow> os_faults \<Rightarrow> files \<Rightarrow> string \<Rightarrow> Keyfile \<Rightarrow> files \<times> err option" where
  "write_keyfile L B F fs kfpath kf =
     (if mkdir_fault F (Dir kfpath) \<noteq> None then (fs, Some (Errorf ''failed to create dir''))
      else case SaveKeyfile L B F fs kfpath kf of
             (fs, Some _) \<Rightarrow> (fs, Some (Errorf ''failed to write keyfile''))
           | (fs, None) \<Rightarrow> (fs, None))"

definition write_config :: "tomllib \<Rightarrow> os_faults \<Rightarrow> files \<Rightarrow> string \<Rightarrow> Config \<Rightarrow> files \<times> err option" where
  "write_config T F fs cfgpath cfg =
     (if mkdir_fault F (Dir cfgpath) \<noteq> None then (fs, Some (Errorf ''failed to create dir''))
      else case SaveConfig T F fs cfgpath cfg of
             (fs, Some _) \<Rightarrow> (fs, Some (Errorf ''failed to write config''))
           | (fs, None) \<Rightarrow> (fs, None))"

definition initCmdFunc ::
  "crypto \<Rightarrow> 'cid cidlib \<Rightarrow> maddrlib \<Rightarrow> multibase \<Rightarrow> tomllib \<Rightarrow> os_faults \<Rightarrow> (string \<Rightarrow> err + string) \<Rightarrow>
   (err + bytes) list \<Rightarrow> files \<Rightarrow> cli_ctx \<Rightarrow> (files \<times> err option) option" where
  "initCmdFunc C L M B T F Expand draws fs c =
     (if IsSet c ''directory'' \<and> (IsSet c ''keyfile'' \<or> IsSet c ''config'')
      then Some (fs, Some (Errorf ''The --directory flag cannot be used alongside --keyfile or --config''))
      else case init_paths Expand c of
        Inl e \<Rightarrow> Some (fs, Some e)
      | Inr (kfpath, cfgpath) \<Rightarrow>
          if os_Stat F fs kfpath = None then Some (fs, Some (Errorf ''keyfile already exists''))
          else if os_Stat F fs cfgpath = None then Some (fs, Some (Errorf ''config already exists''))
          else do {
            cfg \<leftarrow> DefaultConfig L M;
            key \<leftarrow> MustGeneratePrivateKey C draws;
            let kf = \<lparr>kf_PrivateKey = key, kf_PeerID = NewPeerID (PrivateKey_PublicKey C key),
                      kf_IPAddr = PublicKey_IPAddr C (PrivateKey_PublicKey C key)\<rparr>;
            (case write_keyfile L B F fs kfpath kf of
               (fs, Some e) \<Rightarrow> Some (fs, Some e)
             | (fs, None) \<Rightarrow> Some (write_config T F fs cfgpath cfg)) })"

section \<open>The files of rovy start\<close>

record start_files =
  sf_socket :: string
  sf_keyfile :: string
  sf_config :: string
  sf_ephemeral :: bool
  sf_stdin :: bool

definition start_paths :: "(string \<Rightarrow> err + string) \<Rightarrow> cli_ctx \<Rightarrow> err + start_files" where
  "start_paths Expand c =
     (if IsSet c ''directory'' \<and> (IsSet c ''socket'' \<or> IsSet c ''keyfile'' \<or> IsSet c ''config'')
      then Inl (Errorf ''The --directory flag cannot be used alongside --socket, --keyfile or --config'')
      else case Expand (cli_String c ''directory'') of
        Inl _ \<Rightarrow> Inl (Errorf ''homedir'')
      | Inr directory \<Rightarrow>
          if IsSet c ''directory''
          then Inr \<lparr>sf_socket = Join directory SocketName, sf_keyfile = Join directory KeyfileName,
                    sf_config = Join directory ConfigName, sf_ephemeral = False, sf_stdin = False\<rparr>
          else case Expand (cli_String c ''socket'') of
                 Inl _ \<Rightarrow> Inl (Errorf ''homedir'')
               | Inr socket \<Rightarrow>
                   (let keyfile = cli_String c ''keyfile'';
                        ephemeral = (keyfile = ''@'');
                        stdin = (keyfile = ''-'')
                    in case (if \<not> ephemeral \<and> \<not> stdin then Expand keyfile else Inr keyfile) of
                         Inl _ \<Rightarrow> Inl (Errorf ''homedir'')
                       | Inr keyfile \<Rightarrow>
                           (case Expand (cli_String c ''config'') of
                              Inl _ \<Rightarrow> Inl (Errorf ''homedir'')
                            | Inr config \<Rightarrow>
                                Inr \<lparr>sf_socket = socket, sf_keyfile = keyfile, sf_config = config,
                                     sf_ephemeral = ephemeral, sf_stdin = stdin\<rparr>)))"

text \<open>\<^verbatim>\<open>bufio.Reader.ReadString\<close> up to a newline.\<close>

definition ReadString_nl :: "string \<Rightarrow> err + string" where
  "ReadString_nl s =
     (let n = char_of (10 :: nat)
      in if n \<in> set s then Inr (takeWhile (\<lambda>c. c \<noteq> n) s @ [n]) else Inl (ErrExternal ''EOF''))"

definition readPrivateKey ::
  "crypto \<Rightarrow> 'cid cidlib \<Rightarrow> multibase \<Rightarrow> tomllib \<Rightarrow> os_faults \<Rightarrow> (err + bytes) list \<Rightarrow> string \<Rightarrow> files \<Rightarrow> string \<Rightarrow>
   (err + PrivateKey) option" where
  "readPrivateKey C L B T F draws os_Stdin fs keyfile =
     (if keyfile = ''@'' then do {
        r \<leftarrow> GeneratePrivateKey C draws;
        (case r of
           Inl _ \<Rightarrow> Some (Inl (Errorf ''error generating private key''))
         | Inr privkey \<Rightarrow> Some (Inr privkey)) }
      else if keyfile = ''-'' then
        (case ReadString_nl os_Stdin of
           Inl _ \<Rightarrow> Some (Inl (Errorf ''error reading from stdin''))
         | Inr line \<Rightarrow> do {
             r \<leftarrow> ParsePrivateKey (mb_Decode B) line;
             (case r of
                Inl _ \<Rightarrow> Some (Inl (Errorf ''error decoding private key''))
              | Inr privkey \<Rightarrow> Some (Inr privkey)) })
      else do {
        r \<leftarrow> LoadKeyfile C L B T F fs keyfile;
        (case r of
           Inl _ \<Rightarrow> Some (Inl (Errorf ''keyfile''))
         | Inr kf \<Rightarrow> Some (Inr (kf_PrivateKey kf))) })"

section \<open>The socket\<close>

definition getSocket :: "(string \<Rightarrow> err + string) \<Rightarrow> cli_ctx \<Rightarrow> err + string" where
  "getSocket Expand c =
     (case Expand (cli_String c ''directory'') of
        Inl e \<Rightarrow> Inl e
      | Inr directory \<Rightarrow>
          if IsSet c ''directory'' then Inr (Join directory SocketName)
          else Expand (cli_String c ''socket''))"

fun contains_text :: "string \<Rightarrow> string \<Rightarrow> bool" where
  "contains_text sub [] = (sub = [])"
| "contains_text sub (c # cs) = (take (length sub) (c # cs) = sub \<or> contains_text sub cs)"

text \<open>
  Before listening: the result of dialling is \<^const>\<open>None\<close> for a connection, or the text of the error; \<open>remove\<close> is the
  result of removing the file.
\<close>

definition checkSocket ::
  "os_faults \<Rightarrow> string option \<Rightarrow> err option \<Rightarrow> files \<Rightarrow> string \<Rightarrow> files \<times> err option" where
  "checkSocket F dial remove fs socket =
     (case os_Stat F fs socket of
        Some e \<Rightarrow> if e = ErrNotExist then (fs, None) else (fs, Some e)
      | None \<Rightarrow>
          (case dial of
             Some text_of_err \<Rightarrow>
               if contains_text ''refused'' text_of_err then
                 (case remove of Some e \<Rightarrow> (fs, Some e) | None \<Rightarrow> (fs(socket := None), None))
               else (fs, Some (ErrExternal text_of_err))
           | None \<Rightarrow> (fs, Some (Errorf ''used by someone else''))))"

end
