(* ===== verification/StartCommand.thy ===== *)
theory StartCommand
  imports ApiClient Commands
begin

text \<open>
  \<^verbatim>\<open>api/config/nodecfg/nodecfg.go\<close> and \<^verbatim>\<open>cmd/rovy/start.go\<close>: how a node is configured through its own interface and started.
\<close>

section \<open>Configuring a node\<close>

fun listen_all :: "'cid cidlib \<Rightarrow> maddrlib \<Rightarrow> 's http \<Rightarrow> 's \<Rightarrow> Multiaddr list \<Rightarrow> 's \<times> err option" where
  "listen_all L M http st [] = (st, None)"
| "listen_all L M http st (addr # addrs) =
     (case PeerClient_Listen L M http st addr of
        (st, Inl e) \<Rightarrow> (st, Some e)
      | (st, Inr _) \<Rightarrow> listen_all L M http st addrs)"

fun connect_all :: "Multiaddr list \<Rightarrow> err option" where
  "connect_all [] = None"
| "connect_all (addr # addrs) = (case PeerClient_Connect addr of Inl e \<Rightarrow> Some e | Inr _ \<Rightarrow> connect_all addrs)"

definition ConfigurePeering :: "'cid cidlib \<Rightarrow> maddrlib \<Rightarrow> 's http \<Rightarrow> 's \<Rightarrow> Config \<Rightarrow> 's \<times> err option" where
  "ConfigurePeering L M http st cfg =
     (case listen_all L M http st (cfg_Listen (cfg_Peer cfg)) of
        (st, Some e) \<Rightarrow> (st, Some e)
      | (st, None) \<Rightarrow> (st, connect_all (cfg_Connect (cfg_Peer cfg))))"

text \<open>What the host offers: NetworkManager, the device, the bus, and a directory for a socket.\<close>

record 'n host =
  h_nm :: "'n nmlib"
  h_tun :: tunsys
  h_bus :: "err option"
  h_MkdirTemp :: "err + string"

record ('s, 'n) world =
  w_api :: 's
  w_nm :: 'n
  w_fds :: fds

definition ConfigureFcnet ::
  "'n host \<Rightarrow> 's http \<Rightarrow> ('s, 'n) world \<Rightarrow> Config \<Rightarrow> Addr \<Rightarrow> (('s, 'n) world \<times> err option) option" where
  "ConfigureFcnet H http w cfg ip =
     (if \<not> fcnet_Enabled (cfg_Fcnet cfg) then Some (w, None)
      else do {
        (n, fds, r) \<leftarrow> NMTUN_Start (h_nm H) (h_tun H) (h_bus H) (w_nm w) (w_fds w) (Ifname (cfg_Fcnet cfg)) ip UpperMTU;
        let w = w\<lparr>w_nm := n, w_fds := fds\<rparr>;
        (case r of
           Inl _ \<Rightarrow> Some (w, Some (Errorf ''networkmanager''))
         | Inr tunfd \<Rightarrow>
             (case FcnetClient_Start http (h_MkdirTemp H) (w_api w) of
                (st, Some _) \<Rightarrow> Some (w\<lparr>w_api := st\<rparr>, Some (Errorf ''api''))
              | (st, None) \<Rightarrow> Some (w\<lparr>w_api := st\<rparr>, None))) })"

definition Duration_Abs :: "int \<Rightarrow> int" where
  "Duration_Abs d = (if d \<ge> 0 then d else if d = - (2 ^ 63) then 2 ^ 63 - 1 else - d)"

definition ConfigureDiscoveryLinkLocal :: "(nat \<Rightarrow> nat \<Rightarrow> nat \<Rightarrow> nat) \<Rightarrow> 's http \<Rightarrow> 's \<Rightarrow> Config \<Rightarrow> 's \<times> err option" where
  "ConfigureDiscoveryLinkLocal ff http st cfg =
     (let ll = cfg_LinkLocal (cfg_Discovery cfg)
      in if \<not> linklocal_Enabled ll then (st, None)
         else case ParseDuration ff (cfg_Interval ll) of
                None \<Rightarrow> (st, Some (Errorf ''config: ParseDuration interval''))
              | Some interval \<Rightarrow>
                  (case DiscoveryClient_StartLinkLocal http st (Duration_Abs interval) of
                     (st, Some _) \<Rightarrow> (st, Some (Errorf ''api''))
                   | (st, None) \<Rightarrow> (st, None)))"

definition ConfigureAll ::
  "'cid cidlib \<Rightarrow> maddrlib \<Rightarrow> (nat \<Rightarrow> nat \<Rightarrow> nat \<Rightarrow> nat) \<Rightarrow> 'n host \<Rightarrow> 's http \<Rightarrow> ('s, 'n) world \<Rightarrow> Config \<Rightarrow> Addr \<Rightarrow>
   (('s, 'n) world \<times> err option) option" where
  "ConfigureAll L M ff H http w cfg ip =
     (case ConfigurePeering L M http (w_api w) cfg of
        (st, Some _) \<Rightarrow> Some (w\<lparr>w_api := st\<rparr>, Some (Errorf ''error configuring peering''))
      | (st, None) \<Rightarrow> do {
          (w, r) \<leftarrow> ConfigureFcnet H http (w\<lparr>w_api := st\<rparr>) cfg ip;
          (case r of
             Some _ \<Rightarrow> Some (w, Some (Errorf ''error configuring fcnet''))
           | None \<Rightarrow>
               (case ConfigureDiscoveryLinkLocal ff http (w_api w) cfg of
                  (st, Some _) \<Rightarrow> Some (w\<lparr>w_api := st\<rparr>, Some (Errorf ''error configuring discovery''))
                | (st, None) \<Rightarrow> Some (w\<lparr>w_api := st\<rparr>, None))) })"

section \<open>rovy start\<close>

text \<open>The socket of the interface: the answers to dialling it, removing it and listening on it.\<close>

record sockets =
  so_dial :: "string option"
  so_remove :: "err option"
  so_listen :: "err option"

definition startAPI :: "os_faults \<Rightarrow> sockets \<Rightarrow> files \<Rightarrow> string \<Rightarrow> files \<times> err option" where
  "startAPI F K fs socket =
     (case checkSocket F (so_dial K) (so_remove K) fs socket of
        (fs, Some _) \<Rightarrow> (fs, Some (Errorf ''failed to check socket''))
      | (fs, None) \<Rightarrow>
          (case so_listen K of
             Some _ \<Rightarrow> (fs, Some (Errorf ''failed to start socket listener''))
           | None \<Rightarrow> (fs(socket \<mapsto> []), None)))"

text \<open>The configuration is read from the file, or is the default for a key that is not kept.\<close>

definition configureNode ::
  "tomllib \<Rightarrow> os_faults \<Rightarrow> 'cid apienv \<Rightarrow> 'n host \<Rightarrow> 's http \<Rightarrow> ('s, 'n) world \<Rightarrow> files \<Rightarrow> string \<Rightarrow> Addr \<Rightarrow> (('s, 'n) world \<times> err option) option" where
  "configureNode T F E H http w fs config ip =
     (case LoadConfig T F fs config of
        Inl _ \<Rightarrow> Some (w, Some (Errorf ''failed to load config''))
      | Inr cfg \<Rightarrow> ConfigureAll (ae_cid E) (ae_maddr E) (ae_float E) H http w cfg ip)"

definition configureNodeDefault ::
  "'cid apienv \<Rightarrow> 'n host \<Rightarrow> 's http \<Rightarrow> ('s, 'n) world \<Rightarrow> Addr \<Rightarrow> (('s, 'n) world \<times> err option) option" where
  "configureNodeDefault E H http w ip = do {
     cfg \<leftarrow> DefaultConfig (ae_cid E) (ae_maddr E);
     ConfigureAll (ae_cid E) (ae_maddr E) (ae_float E) H http w cfg ip }"

definition new_world :: "crypto \<Rightarrow> PrivateKey \<Rightarrow> 'n \<Rightarrow> fds \<Rightarrow> (apistate, 'n) world" where
  "new_world C privkey n fds =
     \<lparr>w_api = \<lparr>st_node = NewNode C privkey, st_services = NewServiceManager, st_fcnets = []\<rparr>, w_nm = n, w_fds = fds\<rparr>"

text \<open>
  It ends with an error, or starts the node and goes on forever: the result is the world at that point. The client talks to the
  server over \<open>http\<close>.
\<close>

definition startCmdFunc ::
  "'cid apienv \<Rightarrow> multibase \<Rightarrow> tomllib \<Rightarrow> os_faults \<Rightarrow> sockets \<Rightarrow> 'n host \<Rightarrow> apistate http \<Rightarrow> (string \<Rightarrow> err + string) \<Rightarrow>
   (err + bytes) list \<Rightarrow> string \<Rightarrow> files \<Rightarrow> 'n \<Rightarrow> fds \<Rightarrow> cli_ctx \<Rightarrow> (err + (apistate, 'n) world \<times> files) option" where
  "startCmdFunc E B T F K H http Expand draws os_Stdin fs n fds c =
     (case start_paths Expand c of
        Inl e \<Rightarrow> Some (Inl e)
      | Inr sf \<Rightarrow> do {
          r \<leftarrow> readPrivateKey (ae_crypto E) (ae_cid E) B T F draws os_Stdin fs (sf_keyfile sf);
          (case r of
             Inl _ \<Rightarrow> Some (Inl (Errorf ''privkey''))
           | Inr privkey \<Rightarrow>
               (let w = new_world (ae_crypto E) privkey n fds;
                    ip = Node_IPAddr (ae_crypto E) (st_node (w_api w))
                in case startAPI F K fs (sf_socket sf) of
                     (fs, Some _) \<Rightarrow> Some (Inl (Errorf ''api''))
                   | (fs, None) \<Rightarrow> do {
                       (w, r) \<leftarrow> (if sf_stdin sf then Some (w, None)
                                 else if \<not> sf_ephemeral sf then configureNode T F E H http w fs (sf_config sf) ip
                                 else configureNodeDefault E H http w ip);
                       (case r of
                          Some _ \<Rightarrow> Some (Inl (Errorf ''config''))
                        | None \<Rightarrow>
                            (case Node_Start (st_node (w_api w)) of
                               (node, Some _) \<Rightarrow> Some (Inl (Errorf ''node''))
                             | (node, None) \<Rightarrow> Some (Inr (w\<lparr>w_api := (w_api w)\<lparr>st_node := node\<rparr>\<rparr>, fs)))) })) })"

section \<open>Commands of a running node\<close>

definition infoCmdFunc :: "'cid cidlib \<Rightarrow> (string \<Rightarrow> err + string) \<Rightarrow> (string \<Rightarrow> 's http) \<Rightarrow> 's \<Rightarrow> cli_ctx \<Rightarrow> 's \<times> (err + string)" where
  "infoCmdFunc L Expand dial st c =
     (case getSocket Expand c of
        Inl _ \<Rightarrow> (st, Inl (Errorf ''getsocket''))
      | Inr socket \<Rightarrow>
          (case Client_Info L (dial socket) st of
             (st, Inl _) \<Rightarrow> (st, Inl (Errorf ''api''))
           | (st, Inr ni) \<Rightarrow> (st, Inr (''PeerID: '' @ PeerID_String L (ni_PeerID ni) @ nl))))"

definition stopCmdFunc :: "'cid cidlib \<Rightarrow> (string \<Rightarrow> err + string) \<Rightarrow> (string \<Rightarrow> 's http) \<Rightarrow> 's \<Rightarrow> cli_ctx \<Rightarrow> 's \<times> err" where
  "stopCmdFunc L Expand dial st c =
     (case getSocket Expand c of
        Inl _ \<Rightarrow> (st, Errorf ''getsocket'')
      | Inr socket \<Rightarrow>
          (case Client_Stop L (dial socket) st of
             (st, Inl _) \<Rightarrow> (st, Errorf ''api'')
           | (st, Inr _) \<Rightarrow> (st, Errorf ''node operation is paused, but exiting isn't implemented yet'')))"

text \<open>The listeners that were printed before the end or the first error.\<close>

fun listen_args :: "'cid cidlib \<Rightarrow> maddrlib \<Rightarrow> 's http \<Rightarrow> 's \<Rightarrow> string list \<Rightarrow> 's \<times> PeerListener list \<times> err option" where
  "listen_args L M http st [] = (st, [], None)"
| "listen_args L M http st (a # as) =
     (case ParseMultiaddr L M a of
        Inl _ \<Rightarrow> (st, [], Some (Errorf ''multiaddr''))
      | Inr maddr \<Rightarrow>
          (case PeerClient_Listen L M http st maddr of
             (st, Inl _) \<Rightarrow> (st, [], Some (Errorf ''peer/listen''))
           | (st, Inr pl) \<Rightarrow> (case listen_args L M http st as of (st, pls, e) \<Rightarrow> (st, pl # pls, e))))"

definition peerListenCmdFunc ::
  "'cid cidlib \<Rightarrow> maddrlib \<Rightarrow> (string \<Rightarrow> err + string) \<Rightarrow> (string \<Rightarrow> 's http) \<Rightarrow> 's \<Rightarrow> cli_ctx \<Rightarrow> 's \<times> PeerListener list \<times> err option" where
  "peerListenCmdFunc L M Expand dial st c =
     (case getSocket Expand c of
        Inl _ \<Rightarrow> (st, [], Some (Errorf ''getsocket''))
      | Inr socket \<Rightarrow>
          if Args c = [] then (st, [], Some (Errorf ''expecting multiaddr argument''))
          else listen_args L M (dial socket) st (Args c))"

definition peerStatusCmdFunc :: "(string \<Rightarrow> err + string) \<Rightarrow> cli_ctx \<Rightarrow> err + PeerStatus" where
  "peerStatusCmdFunc Expand c =
     (case getSocket Expand c of
        Inl _ \<Rightarrow> Inl (Errorf ''getsocket'')
      | Inr socket \<Rightarrow> (case PeerClient_Status of Inl _ \<Rightarrow> Inl (Errorf ''peer/status'') | Inr s \<Rightarrow> Inr s))"

definition peerConnectCmdFunc :: err where
  "peerConnectCmdFunc = Errorf ''TODO: connect is not yet implemented''"

definition peerPolicyCmdFunc :: err where
  "peerPolicyCmdFunc = Errorf ''TODO: policy is not yet implemented''"

end
