(* ===== verification/Simulation.thy ===== *)
theory Simulation
  imports Prelude
begin

text \<open>
  Refinement of an interface: sequences of calls, and the contract under which two implementations of the
  calls give results that agree. It is used for the table of services and for the client of the interface of a node.
\<close>

fun run_calls :: "('c \<Rightarrow> 's \<Rightarrow> 's \<times> 'r) \<Rightarrow> 'c list \<Rightarrow> 's \<Rightarrow> 's \<times> 'r list" where
  "run_calls f [] s = (s, [])"
| "run_calls f (c # cs) s = (let (s, r) = f c s; (s, rs) = run_calls f cs s in (s, r # rs))"

lemma run_calls_snoc:
  "run_calls f (cs @ [c]) s =
     (fst (f c (fst (run_calls f cs s))), snd (run_calls f cs s) @ [snd (f c (fst (run_calls f cs s)))])"
  by (induction cs arbitrary: s) (auto split: prod.splits)

locale simulation =
  fixes ok :: "'s \<Rightarrow> bool"
    and allowed :: "'c \<Rightarrow> bool"
    and abs_state :: "'s \<Rightarrow> 'a"
    and impl :: "'c \<Rightarrow> 's \<Rightarrow> 's \<times> 'r"
    and spec :: "'c \<Rightarrow> 'a \<Rightarrow> 'a \<times> 'q"
    and agree :: "'q \<Rightarrow> 'r \<Rightarrow> bool"
  assumes keeps: "ok s \<Longrightarrow> allowed c \<Longrightarrow> ok (fst (impl c s))"
    and abs_step: "ok s \<Longrightarrow> allowed c \<Longrightarrow> abs_state (fst (impl c s)) = fst (spec c (abs_state s))"
    and results: "ok s \<Longrightarrow> allowed c \<Longrightarrow> agree (snd (spec c (abs_state s))) (snd (impl c s))"
begin

lemma runs:
  "ok s \<Longrightarrow> list_all allowed cs \<Longrightarrow>
     ok (fst (run_calls impl cs s)) \<and> abs_state (fst (run_calls impl cs s)) = fst (run_calls spec cs (abs_state s)) \<and>
     list_all2 agree (snd (run_calls spec cs (abs_state s))) (snd (run_calls impl cs s))"
proof (induction cs arbitrary: s)
  case (Cons c cs)
  obtain s' r where i: "impl c s = (s', r)" by fastforce
  obtain a q where p: "spec c (abs_state s) = (a, q)" by fastforce
  have "ok s'" "abs_state s' = a" "agree q r"
    using keeps [of s c] abs_step [of s c] results [of s c] Cons.prems i p by simp_all
  with Cons.IH [of s'] Cons.prems i p show ?case by (auto split: prod.splits)
qed simp

end

end
