(* ===== verification/ApiRuns.thy ===== *)
theory ApiRuns
  imports ApiClient Simulation Config
begin

text \<open>The client over the server: what each call of the client does to the node behind the server.\<close>

section \<open>Texts\<close>

lemma literal_ascii: "literal_text s \<Longrightarrow> ascii s"
  by (auto simp: literal_text_def ascii_def printing_char_def code_def)

lemma ascii_simps [simp]:
  "ascii []" "ascii (c # s) \<longleftrightarrow> code c < 0x80 \<and> ascii s" "ascii (s @ t) \<longleftrightarrow> ascii s \<and> ascii t"
  by (auto simp: ascii_def)

lemma ascii_digits: "ascii (digits 10 n)"
  by (simp add: literal_ascii digits_literal)

lemma ascii_frac: "\<forall>d\<in>set ds. d < 10 \<Longrightarrow> ascii (frac_text ds)"
  by (auto simp: frac_text_def ascii_def code_def digit_char_def)

lemma utf8_print_part: "utf8 unit = unit \<Longrightarrow> utf8 (print_part u p unit) = print_part u p unit"
  using ascii_frac fmtFrac_start(2) [of p u]
  by (auto simp: print_part_def utf8_ascii ascii_digits split: prod.splits)

lemma ascii_print_long: "ascii (print_long u)"
  using ascii_frac fmtFrac_start(2) [of 9 u]
  by (auto simp: print_long_def ascii_digits Let_def code_def split: prod.splits)

lemma utf8_duration: "utf8 (Duration_String d) = Duration_String d"
proof -
  have "utf8 micro = micro" by code_simp
  moreover have "utf8 ''ns'' = ''ns''" "utf8 ''ms'' = ''ms''" "utf8 ''0s'' = ''0s''" by code_simp+
  moreover have "utf8 (print_long u) = print_long u" for u using utf8_ascii [OF ascii_print_long, of u "[]"] by simp
  ultimately show ?thesis
    by (simp add: Duration_String_def Let_def utf8_print_part code_def)
qed

text \<open>Addresses and multiaddrs whose JSON is read back.\<close>

definition text_ok :: "'cid cidlib \<Rightarrow> maddrlib \<Rightarrow> Multiaddr \<Rightarrow> bool" where
  "text_ok L M ma \<longleftrightarrow>
     wf_addr (IP ma) \<and> printable (IP ma) \<and> (IsValid (IP ma) \<longleftrightarrow> Port ma \<noteq> 0) \<and> More ma = None \<and>
     utf8 (Multiaddr_String L M ma) = Multiaddr_String L M ma"

text \<open>What is relied on of content identifiers: their text has no slashes and is valid UTF-8.\<close>

definition cid_text_ok :: "'cid cidlib \<Rightarrow> bool" where
  "cid_text_ok L \<longleftrightarrow> cid_ok L \<and>
     (\<forall>p. \<not> PeerID_Empty p \<longrightarrow> CHR ''/'' \<notin> set (PeerID_String L p) \<and> utf8 (PeerID_String L p) = PeerID_String L p)"

lemma multiaddr_json:
  assumes "cid_text_ok L" and "text_ok L M ma"
  shows "Multiaddr_UnmarshalJSON L M (JsonText (Multiaddr_MarshalJSON L M ma) False) = Inr ma"
proof -
  have "ParseMultiaddr L M (Multiaddr_String L M ma) = Inr ma"
    by (rule Multiaddr_String_parsed) (use assms in \<open>auto simp: cid_text_ok_def text_ok_def\<close>)
  with assms(2) show ?thesis
    by (simp add: Multiaddr_UnmarshalJSON_def Multiaddr_MarshalJSON_def json_string_def json_Unmarshal_def decode_string_def text_ok_def)
qed

lemma peerid_json:
  assumes "cid_text_ok L" and "\<not> PeerID_Empty p"
  shows "PeerID_UnmarshalJSON L (JsonText (PeerID_MarshalJSON L p) False) = Inr p"
proof -
  have "cid_Parse L (PeerID_String L p) = Inr (PeerID_Cid L p)"
    using assms by (simp add: PeerID_String_def cid_ok_def cid_text_ok_def)
  then show ?thesis
    using assms PeerIDFromCid_Cid [of L p]
    by (simp add: PeerID_UnmarshalJSON_def PeerID_MarshalJSON_def json_string_def json_Unmarshal_def decode_string_def cid_text_ok_def)
qed

lemma addr_json_read: "length b = 16 \<Longrightarrow> decode_addr (addr_json (Addr6 b [])) old = Inr (Addr6 b [])"
  using ParseAddr_6 [of b "[]"] json_string_ascii [OF literal_ascii, OF addr_literal [of b]]
  by (cases "Addr_String (Addr6 b [])") (simp_all add: addr_json_def decode_addr_def ParseAddr_def del: Addr_String.simps)

lemma info_json_read:
  assumes "cid_text_ok L" and "\<not> PeerID_Empty (ni_PeerID ni)" and "ni_IPAddress ni = Addr6 b []" "length b = 16"
  shows "decode_struct (NodeInfo_fields L) (NodeInfo_json L ni) emptyNodeInfo = Inr ni"
  using assms peerid_json [OF assms(1,2)] addr_json_read [OF assms(4)]
  by (simp add: decode_struct_def NodeInfo_json_def NodeInfo_fields_def lookup_field_def decode_bool_def emptyNodeInfo_def)

lemma listener_json_read:
  assumes "cid_text_ok L" and "text_ok L M ma"
  shows "decode_struct (PeerListener_fields L M) (PeerListener_json L M (newPeerListener ma))
      \<lparr>ListenAddr = emptyMultiaddr, EffectiveAddrs = [], ExternalAddrs = []\<rparr> = Inr (newPeerListener ma)"
  using multiaddr_json [OF assms]
  by (simp add: decode_struct_def PeerListener_json_def PeerListener_fields_def lookup_field_def newPeerListener_def
      slice_json_def decode_slice_def Let_def)

section \<open>The server behind the client\<close>

definition direct :: "(string list \<Rightarrow> string \<Rightarrow> nat + nat) \<Rightarrow> 'cid apienv \<Rightarrow> apistate http" where
  "direct router E st r = (let (st, res) = Serve router E st r in (st, Inr res))"

lemma Serve_route:
  assumes "router_ok router" and "i < length (api_routes E)"
  shows "Serve router E st \<lparr>rq_path = fst (api_routes E ! i), rq_body = b\<rparr> =
    snd (api_routes E ! i) st \<lparr>rq_path = fst (api_routes E ! i), rq_body = b\<rparr>"
proof -
  have "distinct (map fst (api_routes E))" by (simp add: api_routes_def)
  then have "router (map fst (api_routes E)) (map fst (api_routes E) ! i) = Inr i"
    using assms unfolding router_ok_def by (metis length_map)
  then show ?thesis using assms(2) by (simp add: Serve_def)
qed

lemma Serve_paths:
  assumes "router_ok router"
  shows "Serve router E st \<lparr>rq_path = ''/v0/info'', rq_body = b\<rparr> = serveInfo E st \<lparr>rq_path = ''/v0/info'', rq_body = b\<rparr>"
    "Serve router E st \<lparr>rq_path = ''/v0/start'', rq_body = b\<rparr> = serveStart E st \<lparr>rq_path = ''/v0/start'', rq_body = b\<rparr>"
    "Serve router E st \<lparr>rq_path = ''/v0/stop'', rq_body = b\<rparr> = serveStop E st \<lparr>rq_path = ''/v0/stop'', rq_body = b\<rparr>"
    "Serve router E st \<lparr>rq_path = ''/v0/fcnet/start'', rq_body = b\<rparr> =
      serveFcnetStart E st \<lparr>rq_path = ''/v0/fcnet/start'', rq_body = b\<rparr>"
    "Serve router E st \<lparr>rq_path = ''/v0/peer/listen'', rq_body = b\<rparr> =
      servePeerListen E st \<lparr>rq_path = ''/v0/peer/listen'', rq_body = b\<rparr>"
    "Serve router E st \<lparr>rq_path = ''/v0/discovery/linklocal/start'', rq_body = b\<rparr> =
      serveDiscoveryLinkLocalStart E st \<lparr>rq_path = ''/v0/discovery/linklocal/start'', rq_body = b\<rparr>"
    "Serve router E st \<lparr>rq_path = ''/v0/discovery/linklocal/stop'', rq_body = b\<rparr> =
      serveDiscoveryLinkLocalStop E st \<lparr>rq_path = ''/v0/discovery/linklocal/stop'', rq_body = b\<rparr>"
  using Serve_route [OF assms, of 0 E st b] Serve_route [OF assms, of 1 E st b] Serve_route [OF assms, of 2 E st b]
    Serve_route [OF assms, of 3 E st b] Serve_route [OF assms, of 5 E st b] Serve_route [OF assms, of 7 E st b] Serve_route [OF assms, of 8 E st b]
  by (simp_all add: api_routes_def)

text \<open>One call of the client each.\<close>

lemma Client_Info_run:
  assumes "router_ok router" and "cid_text_ok (ae_cid E)" and "crypto_ok (ae_crypto E)" and "\<not> PeerID_Empty (nd_peerid (st_node st))"
  shows "Client_Info (ae_cid E) (direct router E) st = (st, Node_Info (ae_crypto E) (st_node st))"
proof -
  obtain b where "Node_IPAddr (ae_crypto E) (st_node st) = Addr6 b []" "length b = 16"
    using IPAddr_shape [OF assms(3)] by (auto simp: Node_IPAddr_def)
  then show ?thesis
    using info_json_read [OF assms(2), of "\<lparr>ni_PeerID = nd_peerid (st_node st), ni_IPAddress = Node_IPAddr (ae_crypto E) (st_node st),
        ni_Running = Node_Running (st_node st)\<rparr>" b] assms(4)
    by (simp add: Client_Info_def http_Get_def direct_def Serve_paths [OF assms(1)] serveInfo_def Node_Info_def read_info_def
        write_json_def json_Unmarshal_def)
qed

text \<open>Start and stop share this: the answer is the information, or an empty body that is no JSON.\<close>

lemma read_info_answer:
  assumes "cid_text_ok L" and "crypto_ok C" and "\<not> PeerID_Empty (nd_peerid node)"
  shows "read_info L (Inr (case Node_Info C node of Inl e \<Rightarrow> writeError | Inr ni \<Rightarrow> write_json (NodeInfo_json L ni))) = Node_Info C node"
    and "read_info L (Inr writeError) = Inl ErrJson"
proof -
  obtain b where "Node_IPAddr C node = Addr6 b []" "length b = 16"
    using IPAddr_shape [OF assms(2)] by (auto simp: Node_IPAddr_def)
  then show "read_info L (Inr (case Node_Info C node of Inl e \<Rightarrow> writeError | Inr ni \<Rightarrow> write_json (NodeInfo_json L ni))) = Node_Info C node"
    using info_json_read [OF assms(1), of "\<lparr>ni_PeerID = nd_peerid node, ni_IPAddress = Node_IPAddr C node, ni_Running = Node_Running node\<rparr>" b]
      assms(3)
    by (simp add: Node_Info_def read_info_def write_json_def json_Unmarshal_def)
qed (simp add: read_info_def writeError_def json_Unmarshal_def)

lemma Node_peerid_kept: "nd_peerid (fst (Node_Start node)) = nd_peerid node" "nd_peerid (fst (Node_Stop node)) = nd_peerid node"
  by (simp_all add: Node_Start_def Node_Stop_def)

lemma Client_Start_run:
  assumes "router_ok router" and "cid_text_ok (ae_cid E)" and "crypto_ok (ae_crypto E)" and "\<not> PeerID_Empty (nd_peerid (st_node st))"
  shows "Client_Start (ae_cid E) (direct router E) st =
    (st\<lparr>st_node := fst (Node_StartInfo (ae_crypto E) (st_node st))\<rparr>,
     case snd (Node_StartInfo (ae_crypto E) (st_node st)) of Inl e \<Rightarrow> Inl ErrJson | Inr ni \<Rightarrow> Inr ni)"
  using read_info_answer [OF assms(2,3), of "fst (Node_Start (st_node st))"] assms(4) Node_peerid_kept [of "st_node st"]
  by (auto simp: Client_Start_def http_Get_def direct_def Serve_paths [OF assms(1)] serveStart_def Node_StartInfo_def Node_Info_def
      split: prod.splits option.splits)

lemma Client_Stop_run:
  assumes "router_ok router" and "cid_text_ok (ae_cid E)" and "crypto_ok (ae_crypto E)" and "\<not> PeerID_Empty (nd_peerid (st_node st))"
  shows "Client_Stop (ae_cid E) (direct router E) st =
    (st\<lparr>st_node := fst (Node_StopInfo (ae_crypto E) (st_node st))\<rparr>,
     case snd (Node_StopInfo (ae_crypto E) (st_node st)) of Inl e \<Rightarrow> Inl ErrJson | Inr ni \<Rightarrow> Inr ni)"
  using read_info_answer [OF assms(2,3), of "fst (Node_Stop (st_node st))"] assms(4) Node_peerid_kept [of "st_node st"]
  by (auto simp: Client_Stop_def http_Get_def direct_def Serve_paths [OF assms(1)] serveStop_def Node_StopInfo_def Node_Info_def
      split: prod.splits option.splits)

lemma PeerClient_Listen_run:
  assumes "router_ok router" and "cid_text_ok (ae_cid E)" and "text_ok (ae_cid E) (ae_maddr E) ma"
  shows "PeerClient_Listen (ae_cid E) (ae_maddr E) (direct router E) st ma =
    (st\<lparr>st_node := fst (PeerAPI_Listen (ae_Protocols E) (ae_ListenUDP E) (st_node st) ma)\<rparr>,
     case snd (PeerAPI_Listen (ae_Protocols E) (ae_ListenUDP E) (st_node st) ma) of Inl e \<Rightarrow> Inl (Errorf ''http'') | Inr pl \<Rightarrow> Inr pl)"
proof -
  have "decode_struct (addr_param_fields (ae_cid E) (ae_maddr E)) (addr_param (ae_cid E) (ae_maddr E) ma) emptyMultiaddr = Inr ma"
    using multiaddr_json [OF assms(2,3)] by (simp add: decode_struct_def addr_param_def addr_param_fields_def lookup_field_def)
  then show ?thesis
    using listener_json_read [OF assms(2,3)]
    by (auto simp: PeerClient_Listen_def http_Post_def direct_def Serve_paths [OF assms(1)] servePeerListen_def Decoder_Decode_def
        PeerAPI_Listen_def write_json_def writeError_def StatusOK_def StatusInternalServerError_def split: prod.splits option.splits)
qed

lemma string_param_read: "utf8 s = s \<Longrightarrow> decode_struct (string_param_fields name) (string_param name s) old = Inr s"
  by (simp add: decode_struct_def string_param_def string_param_fields_def lookup_field_def decode_string_def json_string_def)

lemma StartLinkLocal_client_run:
  assumes "router_ok router" and "float_ok (ae_float E)" and "- (2 ^ 63) \<le> ivl" "ivl < 2 ^ 63"
  shows "DiscoveryClient_StartLinkLocal (direct router E) st ivl =
    (st\<lparr>st_services := fst (StartLinkLocal (ae_LinkLocalListen E) (st_services st) ivl)\<rparr>,
     case snd (StartLinkLocal (ae_LinkLocalListen E) (st_services st) ivl) of Some e \<Rightarrow> Some (Errorf ''http'') | None \<Rightarrow> None)"
  using duration_text [OF assms(2-4)] string_param_read [OF utf8_duration [of ivl], of "''Interval''" "[]"]
  by (auto simp: DiscoveryClient_StartLinkLocal_def check_status_def http_Post_def direct_def Serve_paths [OF assms(1)]
      serveDiscoveryLinkLocalStart_def Decoder_Decode_def write_ok_def writeError_def StatusOK_def StatusInternalServerError_def
      split: prod.splits option.splits)

lemma StopLinkLocal_client_run:
  assumes "router_ok router"
  shows "DiscoveryClient_StopLinkLocal (direct router E) st =
    (st\<lparr>st_services := fst (StopLinkLocal (st_services st))\<rparr>,
     case snd (StopLinkLocal (st_services st)) of Some e \<Rightarrow> Some (Errorf ''http'') | None \<Rightarrow> None)"
  by (auto simp: DiscoveryClient_StopLinkLocal_def check_status_def http_Post_def direct_def Serve_paths [OF assms(1)]
      serveDiscoveryLinkLocalStop_def write_ok_def writeError_def StatusOK_def StatusInternalServerError_def
      split: prod.splits option.splits)

end
