(* ===== verification/ConfigInstances.thy ===== *)
theory ConfigInstances
  imports Config
begin

text \<open>
  Concrete functions for the parameters of the configuration, which satisfy what is relied on: a reader of key files, a
  writer and reader of configurations with length prefixes, and a hexadecimal text for bytes.
\<close>

section \<open>Key files\<close>

definition line_value :: "string \<Rightarrow> string" where
  "line_value l = takeWhile (\<lambda>c. [c] \<noteq> quote) (drop 1 (dropWhile (\<lambda>c. [c] \<noteq> quote) l))"

definition read_keyfile :: "bytes \<Rightarrow> err + string \<times> string \<times> string" where
  "read_keyfile b =
     (case map line_value (filter (\<lambda>l. l \<noteq> [] \<and> hd l \<noteq> CHR ''#'') (split_on (hd nl) (bytes_str b))) of
        [x, y, z] \<Rightarrow> Inr (x, y, z)
      | _ \<Rightarrow> Inl (ErrExternal ''toml''))"

lemma printing_not_nl: "\<forall>c\<in>set s. printing_char c \<Longrightarrow> hd nl \<notin> set s"
  by (auto simp: nl_def printing_char_def)

lemma literal_printing: "literal_text s \<Longrightarrow> \<forall>c\<in>set s. printing_char c"
  by (simp add: literal_text_def)

lemma split_line: "\<forall>c\<in>set s. printing_char c \<Longrightarrow> split_on (hd nl) (s @ nl @ t) = s # split_on (hd nl) t"
  using split_on_app [OF printing_not_nl, of s t] by (simp add: nl_def)

lemma split_comments:
  "\<forall>x\<in>set cs. \<forall>ch\<in>set x. printing_char ch \<Longrightarrow>
     split_on (hd nl) (concat (map (\<lambda>c. ''#'' @ c @ nl) cs) @ t) = map (\<lambda>c. CHR ''#'' # c) cs @ split_on (hd nl) t"
proof (induction cs)
  case (Cons c cs)
  have "printing_char CHR ''#''" by (simp add: printing_char_def)
  then show ?case using Cons split_line [of "CHR ''#'' # c" "concat (map (\<lambda>c. ''#'' @ c @ nl) cs) @ t"] by simp
qed simp

lemma quoted_value:
  assumes "literal_text v" and "literal_text k"
  shows "line_value (k @ quote @ v @ quote) = v"
proof -
  have no: "\<forall>c\<in>set k. [c] \<noteq> quote" "\<forall>c\<in>set v. [c] \<noteq> quote" using assms by (simp_all add: literal_text_def)
  then have "dropWhile (\<lambda>c. [c] \<noteq> quote) (k @ quote @ v @ quote) = quote @ v @ quote"
    by (simp add: dropWhile_append quote_def)
  with no(2) show ?thesis by (simp add: line_value_def takeWhile_append quote_def)
qed

lemma quoted_printing: "literal_text v \<Longrightarrow> literal_text k \<Longrightarrow> \<forall>c\<in>set (k @ quote @ v @ quote). printing_char c"
  by (auto simp: literal_text_def quote_def printing_char_def)

lemma read_keyfile_doc:
  assumes "\<forall>x\<in>set cs. \<forall>ch\<in>set x. printing_char ch" and "literal_text a" "literal_text b" "literal_text c"
  shows "read_keyfile (str_bytes (keyfile_doc cs a b c)) = Inr (a, b, c)"
proof -
  let ?k = "\<lambda>name v. name @ quote @ v @ quote"
  have names: "literal_text ''PrivateKey = ''" "literal_text ''PeerID = ''" "literal_text ''IPAddr = ''"
    by (simp_all add: printing_char_def quote_def char_of_def)
  have doc: "keyfile_doc cs a b c = concat (map (\<lambda>c. ''#'' @ c @ nl) cs) @
      ?k ''PrivateKey = '' a @ nl @ ?k ''PeerID = '' b @ nl @ ?k ''IPAddr = '' c @ nl @ []"
    by (simp add: keyfile_doc_def)
  have "split_on (hd nl) (keyfile_doc cs a b c) =
      map (\<lambda>c. CHR ''#'' # c) cs @ [?k ''PrivateKey = '' a, ?k ''PeerID = '' b, ?k ''IPAddr = '' c, []]"
    unfolding doc split_comments [OF assms(1)]
    by (simp only: split_line [OF quoted_printing [OF assms(2) names(1)]] split_line [OF quoted_printing [OF assms(3) names(2)]]
        split_line [OF quoted_printing [OF assms(4) names(3)]]) simp
  moreover have "filter (\<lambda>l. l \<noteq> [] \<and> hd l \<noteq> CHR ''#'') (map (\<lambda>c. CHR ''#'' # c) cs) = []" by (induction cs) simp_all
  ultimately have "filter (\<lambda>l. l \<noteq> [] \<and> hd l \<noteq> CHR ''#'') (split_on (hd nl) (keyfile_doc cs a b c)) =
      [?k ''PrivateKey = '' a, ?k ''PeerID = '' b, ?k ''IPAddr = '' c]"
    by simp
  then show ?thesis
    by (simp only: read_keyfile_def bytes_str_bytes list.map quoted_value [OF assms(2) names(1)]
        quoted_value [OF assms(3) names(2)] quoted_value [OF assms(4) names(3)] list.case)
qed

section \<open>Configurations\<close>

text \<open>A count in unary, a string after its length, a list of strings after its length.\<close>

definition put_num :: "nat \<Rightarrow> bytes" where "put_num n = replicate n 1 @ [0]"
definition get_num :: "bytes \<Rightarrow> nat \<times> bytes" where
  "get_num b = (let n = length (takeWhile (\<lambda>x. x = 1) b) in (n, drop (n + 1) b))"

definition put_str :: "string \<Rightarrow> bytes" where "put_str s = put_num (length s) @ str_bytes s"
definition get_str :: "bytes \<Rightarrow> string \<times> bytes" where
  "get_str b = (let (n, b) = get_num b in (bytes_str (take n b), drop n b))"

definition put_strs :: "string list \<Rightarrow> bytes" where "put_strs xs = put_num (length xs) @ concat (map put_str xs)"

fun get_n_strs :: "nat \<Rightarrow> bytes \<Rightarrow> string list \<times> bytes" where
  "get_n_strs 0 b = ([], b)"
| "get_n_strs (Suc n) b = (let (s, b) = get_str b; (ss, b) = get_n_strs n b in (s # ss, b))"

definition get_strs :: "bytes \<Rightarrow> string list \<times> bytes" where
  "get_strs b = (let (n, b) = get_num b in get_n_strs n b)"

fun parse_all :: "(string \<Rightarrow> err + 'a) \<Rightarrow> string list \<Rightarrow> err + 'a list" where
  "parse_all f [] = Inr []"
| "parse_all f (s # ss) =
     (case f s of Inl e \<Rightarrow> Inl e | Inr x \<Rightarrow> (case parse_all f ss of Inl e \<Rightarrow> Inl e | Inr xs \<Rightarrow> Inr (x # xs)))"

definition write_cfg :: "'cid cidlib \<Rightarrow> maddrlib \<Rightarrow> Config \<Rightarrow> bytes" where
  "write_cfg L M cfg =
     put_strs (map (Multiaddr_String L M) (cfg_Listen (cfg_Peer cfg))) @
     put_strs (map (Multiaddr_String L M) (cfg_Connect (cfg_Peer cfg))) @
     put_num (if fcnet_Enabled (cfg_Fcnet cfg) then 1 else 0) @ put_str (Ifname (cfg_Fcnet cfg)) @
     put_num (if linklocal_Enabled (cfg_LinkLocal (cfg_Discovery cfg)) then 1 else 0) @
     put_str (cfg_Interval (cfg_LinkLocal (cfg_Discovery cfg)))"

text \<open>The six parts in order, and the configuration they make.\<close>

definition read_parts :: "bytes \<Rightarrow> string list \<times> string list \<times> nat \<times> string \<times> nat \<times> string" where
  "read_parts b =
     (case get_strs b of (ls, b) \<Rightarrow> case get_strs b of (cs, b) \<Rightarrow> case get_num b of (fe, b) \<Rightarrow>
      case get_str b of (fi, b) \<Rightarrow> case get_num b of (le, b) \<Rightarrow> (ls, cs, fe, fi, le, fst (get_str b)))"

definition make_cfg :: "'cid cidlib \<Rightarrow> maddrlib \<Rightarrow> string list \<times> string list \<times> nat \<times> string \<times> nat \<times> string \<Rightarrow> err + Config" where
  "make_cfg L M = (\<lambda>(ls, cs, fe, fi, le, li).
     case parse_all (ParseMultiaddr L M) ls of
       Inl e \<Rightarrow> Inl e
     | Inr ls \<Rightarrow>
         (case parse_all (ParseMultiaddr L M) cs of
            Inl e \<Rightarrow> Inl e
          | Inr cs \<Rightarrow>
              Inr \<lparr>cfg_Peer = \<lparr>cfg_Listen = ls, cfg_Connect = cs\<rparr>, cfg_Fcnet = \<lparr>fcnet_Enabled = fe = 1, Ifname = fi\<rparr>,
                   cfg_Discovery = \<lparr>cfg_LinkLocal = \<lparr>linklocal_Enabled = le = 1, cfg_Interval = li\<rparr>\<rparr>\<rparr>))"

definition read_cfg :: "'cid cidlib \<Rightarrow> maddrlib \<Rightarrow> bytes \<Rightarrow> err + Config" where
  "read_cfg L M b = make_cfg L M (read_parts b)"

lemma get_put_num [simp]: "get_num (put_num n @ b) = (n, b)"
proof -
  have "takeWhile (\<lambda>x. x = (1 :: byte)) (replicate n 1 @ 0 # b) = replicate n 1"
    by (simp add: takeWhile_append)
  then show ?thesis by (simp add: get_num_def put_num_def)
qed

lemma get_put_str [simp]: "get_str (put_str s @ b) = (s, b)"
proof -
  have "length (str_bytes s) = length s" by (simp add: str_bytes_def)
  then show ?thesis by (simp add: get_str_def put_str_def)
qed

lemma get_put_strs [simp]: "get_strs (put_strs xs @ b) = (xs, b)"
proof -
  have "get_n_strs (length xs) (concat (map put_str xs) @ b) = (xs, b)" by (induction xs) simp_all
  then show ?thesis by (simp add: get_strs_def put_strs_def)
qed

lemma parse_all_map: "\<forall>x\<in>set xs. f (g x) = Inr x \<Longrightarrow> parse_all f (map g xs) = Inr xs"
  by (induction xs) simp_all

lemma read_write_cfg:
  assumes "\<forall>ma\<in>set (cfg_Listen (cfg_Peer cfg)) \<union> set (cfg_Connect (cfg_Peer cfg)). ParseMultiaddr L M (Multiaddr_String L M ma) = Inr ma"
  shows "read_cfg L M (write_cfg L M cfg) = Inr cfg"
proof -
  have "read_parts (put_strs ls @ put_strs cs @ put_num fe @ put_str fi @ put_num le @ put_str li) = (ls, cs, fe, fi, le, li)"
    for ls cs fe fi le li
    using get_put_str [of li "[]"] by (simp add: read_parts_def)
  then have "read_cfg L M (write_cfg L M cfg) = make_cfg L M
      (map (Multiaddr_String L M) (cfg_Listen (cfg_Peer cfg)), map (Multiaddr_String L M) (cfg_Connect (cfg_Peer cfg)),
       if fcnet_Enabled (cfg_Fcnet cfg) then 1 else 0, Ifname (cfg_Fcnet cfg),
       if linklocal_Enabled (cfg_LinkLocal (cfg_Discovery cfg)) then 1 else 0, cfg_Interval (cfg_LinkLocal (cfg_Discovery cfg)))"
    by (simp only: read_cfg_def write_cfg_def)
  moreover have "parse_all (ParseMultiaddr L M) (map (Multiaddr_String L M) (cfg_Listen (cfg_Peer cfg))) = Inr (cfg_Listen (cfg_Peer cfg))"
    "parse_all (ParseMultiaddr L M) (map (Multiaddr_String L M) (cfg_Connect (cfg_Peer cfg))) = Inr (cfg_Connect (cfg_Peer cfg))"
    by (rule parse_all_map; use assms in blast)+
  ultimately show ?thesis by (simp add: make_cfg_def)
qed

section \<open>The parameters\<close>

definition ref_toml :: "'cid cidlib \<Rightarrow> maddrlib \<Rightarrow> tomllib" where
  "ref_toml L M = \<lparr>toml_DecodeKeyfile = read_keyfile, toml_Marshal = (\<lambda>cfg. Inr (write_cfg L M cfg)), toml_DecodeConfig = read_cfg L M\<rparr>"

lemma ref_toml_ok: "toml_ok L M (ref_toml L M)"
proof -
  have parsed: "ParseMultiaddr L M (Multiaddr_String L M ma) = Inr ma"
    if "\<exists>t. Multiaddr_MarshalText L M ma = Inr t \<and> Multiaddr_UnmarshalText L M emptyMultiaddr t = (ma, None)" for ma
    using that by (auto simp: Multiaddr_MarshalText_def Multiaddr_UnmarshalText_def split: sum.splits)
  have cfg: "\<exists>b. toml_Marshal (ref_toml L M) cfg = Inr b \<and> toml_DecodeConfig (ref_toml L M) b = Inr cfg"
    if "\<forall>ma\<in>set (cfg_Listen (cfg_Peer cfg)) \<union> set (cfg_Connect (cfg_Peer cfg)). literal_text (Multiaddr_String L M ma) \<and>
      (\<exists>t. Multiaddr_MarshalText L M ma = Inr t \<and> Multiaddr_UnmarshalText L M emptyMultiaddr t = (ma, None))" for cfg
  proof -
    have "read_cfg L M (write_cfg L M cfg) = Inr cfg" by (rule read_write_cfg) (use that parsed in blast)
    then show ?thesis by (simp add: ref_toml_def)
  qed
  have kf: "toml_DecodeKeyfile (ref_toml L M) = read_keyfile" by (simp add: ref_toml_def)
  show ?thesis unfolding toml_ok_def kf by (intro conjI allI impI) (simp_all only: read_keyfile_doc cfg)
qed

definition hex_multibase :: multibase where
  "hex_multibase = \<lparr>mb_Encode = to_hex, mb_Decode = (\<lambda>s. Inr (of_hex s))\<rparr>"

lemma to_hex_literal: "literal_text (to_hex bs)"
proof (induction bs)
  case (Cons b bs)
  have "unat b div 16 < 16" "unat b mod 16 < 16" using unat_byte_less [of b] by simp_all
  with Cons digit_printing show ?case by (simp add: to_hex_def)
qed (simp add: to_hex_def)

lemma hex_multibase_ok: "multibase_ok hex_multibase"
  by (simp add: multibase_ok_def hex_multibase_def of_to_hex to_hex_literal)

lemma hex_cid_literal: "\<not> PeerID_Empty p \<Longrightarrow> literal_text (PeerID_String hex_cid p)"
  by (simp add: PeerID_String_def hex_cid_def to_hex_literal)

end
