(* ===== verification/NodeInvariants.thy ===== *)
theory NodeInvariants
  imports Node
begin

text \<open>
  What holds of a node at every moment: its session table, forwarder and routing table satisfy their
  invariants, slot 0 of the forwarder is the node itself, and no queue exceeds its capacity.
\<close>

definition queues_ok :: "'h Node \<Rightarrow> bool" where
  "queues_ok node \<longleftrightarrow>
     rb_inv (helloSendQ node) \<and> rb_inv (lowerSendQ node) \<and> rb_inv (upperSendQ node) \<and>
     rb_inv (helloRecvQ node) \<and> rb_inv (lowerRecvQ node) \<and> rb_inv (lowerMuxQ node) \<and>
     rb_inv (upperRecvQ node) \<and> rb_inv (upperMuxQ node) \<and>
     (\<forall>tpt\<in>set (transports node). rb_inv (sendQ tpt))"

definition tables_ok :: "crypto \<Rightarrow> PrivateKey \<Rightarrow> 'h Node \<Rightarrow> bool" where
  "tables_ok C k node \<longleftrightarrow>
     sm_inv C (sessions node) \<and> sm_privkey (sessions node) = k \<and>
     nd_peerid node = NewPeerID (PrivateKey_PublicKey C k) \<and>
     fwd_inv (forwarder node) \<and> slots (forwarder node) 0 = Some (Slot (nd_peerid node) Local) \<and>
     routing_inv C (routing node)"

definition node_inv :: "crypto \<Rightarrow> PrivateKey \<Rightarrow> 'h Node \<Rightarrow> bool" where
  "node_inv C k node \<longleftrightarrow> tables_ok C k node \<and> queues_ok node"

section \<open>Session operations keep the key\<close>

lemma session_ops_key:
  "CreateHello C ts kd ids sm p pid ra = Some (sm', r1) \<Longrightarrow> sm_privkey sm' = sm_privkey sm"
  "HandleHello C kd ids sm p ra = Some (sm', r2) \<Longrightarrow> sm_privkey sm' = sm_privkey sm"
  "HandleResponse C sm p ra = Some (sm', r3) \<Longrightarrow> sm_privkey sm' = sm_privkey sm"
  "CreateData C ord sm p pid = Some (sm', r4) \<Longrightarrow> sm_privkey sm' = sm_privkey sm"
  "HandleData C sm p = Some (sm', r5) \<Longrightarrow> sm_privkey sm' = sm_privkey sm"
proof -
  have swap: "sm_privkey (Swap t i j) = sm_privkey t" for t i j
    by (simp add: Swap_def Let_def split: option.splits)
  show "CreateHello C ts kd ids sm p pid ra = Some (sm', r1) \<Longrightarrow> sm_privkey sm' = sm_privkey sm"
    by (auto simp: CreateHello_def Let_def split: op_splits dest!: Insert_set)
  show "HandleHello C kd ids sm p ra = Some (sm', r2) \<Longrightarrow> sm_privkey sm' = sm_privkey sm"
    by (auto simp: HandleHello_def Let_def split: op_splits dest!: Insert_set)
  show "HandleResponse C sm p ra = Some (sm', r3) \<Longrightarrow> sm_privkey sm' = sm_privkey sm"
    by (auto simp: HandleResponse_def Get_def Let_def swap split: op_splits)
  show "CreateData C ord sm p pid = Some (sm', r4) \<Longrightarrow> sm_privkey sm' = sm_privkey sm"
    by (auto simp: CreateData_def split: op_splits)
  show "HandleData C sm p = Some (sm', r5) \<Longrightarrow> sm_privkey sm' = sm_privkey sm"
    by (auto simp: HandleData_def Get_def split: op_splits)
qed

lemma node_inv_sessions:
  "node_inv C k node \<Longrightarrow> sm_inv C sm \<Longrightarrow> sm_privkey sm = k \<Longrightarrow> node_inv C k (node\<lparr>sessions := sm\<rparr>)"
  by (simp add: node_inv_def tables_ok_def queues_ok_def)

lemma node_invD:
  assumes "node_inv C k node"
  shows "sm_inv C (sessions node)" "sm_privkey (sessions node) = k" "fwd_inv (forwarder node)"
    "routing_inv C (routing node)" "slots (forwarder node) 0 = Some (Slot (nd_peerid node) Local)"
  using assms by (simp_all add: node_inv_def tables_ok_def)

section \<open>Queues\<close>

lemma Put_inv: "rb_inv q \<Longrightarrow> Put q p = Some q' \<Longrightarrow> rb_inv q'"
  using ring.put_ok [of q p] by auto

lemma Backpressure_inv: "rb_inv q \<Longrightarrow> PutWithBackpressure q p = Some q' \<Longrightarrow> rb_inv q'"
  by (auto simp: PutWithBackpressure_def chan_send_def rb_inv_def split: if_splits)

lemma node_inv_queues:
  assumes "node_inv C k node" and "rb_inv q"
  shows "node_inv C k (node\<lparr>helloSendQ := q\<rparr>)" "node_inv C k (node\<lparr>lowerSendQ := q\<rparr>)"
    "node_inv C k (node\<lparr>upperSendQ := q\<rparr>)" "node_inv C k (node\<lparr>helloRecvQ := q\<rparr>)"
    "node_inv C k (node\<lparr>lowerRecvQ := q\<rparr>)" "node_inv C k (node\<lparr>lowerMuxQ := q\<rparr>)"
    "node_inv C k (node\<lparr>upperRecvQ := q\<rparr>)" "node_inv C k (node\<lparr>upperMuxQ := q\<rparr>)"
  using assms by (simp_all add: node_inv_def tables_ok_def queues_ok_def)

lemma node_inv_rb:
  assumes "node_inv C k node"
  shows "rb_inv (helloSendQ node)" "rb_inv (lowerSendQ node)" "rb_inv (upperSendQ node)" "rb_inv (helloRecvQ node)"
    "rb_inv (lowerRecvQ node)" "rb_inv (lowerMuxQ node)" "rb_inv (upperRecvQ node)" "rb_inv (upperMuxQ node)"
    "\<And>tpt. tpt \<in> set (transports node) \<Longrightarrow> rb_inv (sendQ tpt)"
  using assms by (simp_all add: node_inv_def queues_ok_def)

lemma node_inv_transports:
  "node_inv C k node \<Longrightarrow> (\<And>tpt. tpt \<in> set tpts \<Longrightarrow> rb_inv (sendQ tpt)) \<Longrightarrow> node_inv C k (node\<lparr>transports := tpts\<rparr>)"
  by (simp add: node_inv_def tables_ok_def queues_ok_def)

lemma puts_inv:
  assumes "node_inv C k node"
  shows "put_helloSendQ node p = Some n1 \<Longrightarrow> node_inv C k n1" "put_lowerSendQ node p = Some n2 \<Longrightarrow> node_inv C k n2"
    "put_upperRecvQ node p = Some n3 \<Longrightarrow> node_inv C k n3" "put_lowerMuxQ node p = Some n4 \<Longrightarrow> node_inv C k n4"
    "put_upperMuxQ node p = Some n5 \<Longrightarrow> node_inv C k n5" "put_helloRecvQ node p = Some n6 \<Longrightarrow> node_inv C k n6"
    "SendUpper node u = Some n7 \<Longrightarrow> node_inv C k n7"
  by (auto simp: put_helloSendQ_def put_lowerSendQ_def put_upperRecvQ_def put_lowerMuxQ_def put_upperMuxQ_def
      put_helloRecvQ_def SendUpper_def split: Option.bind_splits
      intro!: node_inv_queues [OF assms] intro: Put_inv Backpressure_inv node_inv_rb [OF assms])

lemma sendTransport_inv:
  assumes inv: "node_inv C k node" and "sendTransport node p = Some node'"
  shows "node_inv C k node'"
proof -
  from assms(2) obtain tpt rest q where "transports node = tpt # rest"
    and q: "PutWithBackpressure (sendQ tpt) p = Some q" and n: "node' = node\<lparr>transports := tpt\<lparr>sendQ := q\<rparr> # rest\<rparr>"
    by (auto simp: sendTransport_def Transport_Send_def split: list.splits Option.bind_splits)
  then show ?thesis
    unfolding n using node_inv_rb(9) [OF inv] Backpressure_inv [OF node_inv_rb(9) [OF inv] q]
    by (intro node_inv_transports [OF inv]) auto
qed

lemma call_port_inv: "node_inv C k node \<Longrightarrow> call_port node pt l = Some node' \<Longrightarrow> node_inv C k node'"
  by (cases pt) (auto intro: puts_inv)

lemma forwarded_post:
  "node_inv C k node \<Longrightarrow> yields (forwarded node r) (node_inv C k \<circ> fst)"
  "node_inv C k node \<Longrightarrow> yields (sent node r) (node_inv C k \<circ> fst)"
  unfolding forwarded_def sent_def by (intro yields_rules; simp add: call_port_inv)+

lemma Attach_keeps_slot0:
  assumes "slots fwd 0 = Some (Slot p s)" and "Attach fwd pid t = (fwd', r)"
  shows "slots fwd' 0 = Some (Slot p s)"
  using assms(2) by (cases rule: Attach_cases) (use assms(1) in auto)

lemma node_inv_tables:
  "node_inv C k node \<Longrightarrow> fwd_inv fwd \<Longrightarrow> slots fwd 0 = Some (Slot (nd_peerid node) Local) \<Longrightarrow>
     node_inv C k (node\<lparr>forwarder := fwd\<rparr>)"
  "node_inv C k node \<Longrightarrow> node_inv C k (node\<lparr>routing := AddRoute C (routing node) pid rt\<rparr>)"
  "node_inv C k node \<Longrightarrow> node_inv C k (node\<lparr>woken := w, nd_waiters := ws\<rparr>)"
  "node_inv C k node \<Longrightarrow> node_inv C k (node\<lparr>lower_calls := l\<rparr>)"
  "node_inv C k node \<Longrightarrow> node_inv C k (node\<lparr>upper_calls := u\<rparr>)"
  by (simp_all add: node_inv_def tables_ok_def queues_ok_def routing_inv_Add)

lemma connectedCallback_inv:
  assumes "node_inv C k node"
  shows "node_inv C k (connectedCallback C node pid lower)"
proof -
  obtain fwd r where at: "Attach (forwarder node) pid Remote = (fwd, r)" by fastforce
  have 1: "node_inv C k (node\<lparr>forwarder := fwd\<rparr>)"
    using fwd_inv_Attach [OF node_invD(3) [OF assms] at] Attach_keeps_slot0 [OF node_invD(5) [OF assms] at]
    by (intro node_inv_tables [OF assms])
  have 2: "node_inv C k (node\<lparr>forwarder := fwd, routing := AddRoute C (routing node) pid rt\<rparr>)" for rt
    using node_inv_tables(2) [OF 1] by simp
  show ?thesis
    unfolding connectedCallback_def Let_def at
    by (cases lower; cases r; simp add: assms 1 2 node_inv_tables split: option.splits)
qed

section \<open>The handlers of the queues\<close>

lemma sessions_post:
  assumes C: "crypto_ok C" and inv: "node_inv C k node"
  shows "CreateHello C ts kd ids (sessions node) p pid ra = Some (sm, r1) \<Longrightarrow> node_inv C k (node\<lparr>sessions := sm\<rparr>)"
    "HandleHello C kd ids (sessions node) p ra = Some (sm, r2) \<Longrightarrow> node_inv C k (node\<lparr>sessions := sm\<rparr>)"
    "HandleResponse C (sessions node) p ra = Some (sm, r3) \<Longrightarrow> node_inv C k (node\<lparr>sessions := sm\<rparr>)"
    "CreateData C ord (sessions node) p pid = Some (sm, r4) \<Longrightarrow> node_inv C k (node\<lparr>sessions := sm\<rparr>)"
    "HandleData C (sessions node) p = Some (sm, r5) \<Longrightarrow> node_inv C k (node\<lparr>sessions := sm\<rparr>)"
proof -
  note s = node_invD(1) [OF inv] and key = node_invD(2) [OF inv]
  have sub: "node_inv C k (node\<lparr>sessions := sm\<rparr>)" if "sm_inv C sm" and "sm_privkey sm = sm_privkey (sessions node)" for sm
    using node_inv_sessions [OF inv that(1)] that(2) key by simp
  show "CreateHello C ts kd ids (sessions node) p pid ra = Some (sm, r1) \<Longrightarrow> node_inv C k (node\<lparr>sessions := sm\<rparr>)"
    using sub CreateHello_inv [OF s] session_ops_key(1) by blast
  show "HandleHello C kd ids (sessions node) p ra = Some (sm, r2) \<Longrightarrow> node_inv C k (node\<lparr>sessions := sm\<rparr>)"
    using sub HandleHello_inv [OF C s] session_ops_key(2) by blast
  show "HandleResponse C (sessions node) p ra = Some (sm, r3) \<Longrightarrow> node_inv C k (node\<lparr>sessions := sm\<rparr>)"
    using sub HandleResponse_inv(1) [OF C s] session_ops_key(3) by blast
  show "CreateData C ord (sessions node) p pid = Some (sm, r4) \<Longrightarrow> node_inv C k (node\<lparr>sessions := sm\<rparr>)"
    using sub CreateData_inv [OF s] session_ops_key(4) by blast
  show "HandleData C (sessions node) p = Some (sm, r5) \<Longrightarrow> node_inv C k (node\<lparr>sessions := sm\<rparr>)"
    using sub HandleData_inv [OF s] session_ops_key(5) by blast
qed

lemma send_handlers_post:
  assumes C: "crypto_ok (env_C E)" and inv: "node_inv (env_C E) k node"
  shows "yields (doLowerHelloSend E node p) (node_inv (env_C E) k \<circ> fst)"
    "yields (doUpperHelloSend E node p) (node_inv (env_C E) k \<circ> fst)"
    "yields (doLowerSend E node p) (node_inv (env_C E) k \<circ> fst)"
    "yields (doUpperSend E node p) (node_inv (env_C E) k \<circ> fst)"
  unfolding doLowerHelloSend_def doUpperHelloSend_def doLowerSend_def doUpperSend_def Let_def
  by ((intro yields_rules forwarded_post; simp);
      auto intro: inv sessions_post [OF C inv] sendTransport_inv [OF sessions_post(1) [OF C inv]]
        sendTransport_inv [OF sessions_post(4) [OF C inv]] puts_inv [OF inv])+

lemma recv_handlers_post:
  assumes C: "crypto_ok (env_C E)" and inv: "node_inv (env_C E) k node"
  shows "yields (doLowerHelloRecv E node p) (node_inv (env_C E) k \<circ> fst)"
    "yields (doUpperHelloRecv E node p) (node_inv (env_C E) k \<circ> fst)"
    "yields (doLowerRecv E node p) (node_inv (env_C E) k \<circ> fst)"
    "yields (doUpperRecv E node p) (node_inv (env_C E) k \<circ> fst)"
proof -
  have data: "node_inv (env_C E) k (if f then connectedCallback (env_C E) (node\<lparr>sessions := sm\<rparr>) pid b else node\<lparr>sessions := sm\<rparr>)"
    if "HandleData (env_C E) (sessions node) q = Some (sm, r)" for q sm r f pid b
    using sessions_post(5) [OF C inv that] by (auto intro: connectedCallback_inv)
  show "yields (doLowerHelloRecv E node p) (node_inv (env_C E) k \<circ> fst)"
    "yields (doUpperHelloRecv E node p) (node_inv (env_C E) k \<circ> fst)"
    unfolding doLowerHelloRecv_def doUpperHelloRecv_def Let_def
    by ((intro yields_rules forwarded_post; simp);
        auto intro: inv sessions_post [OF C inv] connectedCallback_inv sendTransport_inv [OF sessions_post(2) [OF C inv]])+
  show "yields (doLowerRecv E node p) (node_inv (env_C E) k \<circ> fst)"
    "yields (doUpperRecv E node p) (node_inv (env_C E) k \<circ> fst)"
    unfolding doLowerRecv_def doUpperRecv_def Let_def
    by ((intro yields_rules; clarsimp);
        erule sessions_post(5) [OF C inv] puts_inv(4) [OF data, rotated] puts_inv(5) [OF node_inv_tables(2) [OF data], rotated];
        assumption?)+
qed

lemma mux_handlers_post:
  assumes inv: "node_inv (env_C E) k node"
  shows "yields (doLowerMux E node p) (node_inv (env_C E) k \<circ> fst)"
    "yields (doUpperMux E node p) (node_inv (env_C E) k \<circ> fst)"
  unfolding doLowerMux_def doUpperMux_def Let_def
  using inv
  by ((intro yields_rules forwarded_post; simp); blast intro: puts_inv node_inv_tables)+


section \<open>Steps of a node\<close>

lemma get_inv:
  assumes "node_inv C k node"
  shows "RingBuffer_Get (helloSendQ node) = Some (p, q) \<Longrightarrow> node_inv C k (node\<lparr>helloSendQ := q\<rparr>)"
    "RingBuffer_Get (lowerSendQ node) = Some (p, q) \<Longrightarrow> node_inv C k (node\<lparr>lowerSendQ := q\<rparr>)"
    "RingBuffer_Get (upperSendQ node) = Some (p, q) \<Longrightarrow> node_inv C k (node\<lparr>upperSendQ := q\<rparr>)"
    "RingBuffer_Get (helloRecvQ node) = Some (p, q) \<Longrightarrow> node_inv C k (node\<lparr>helloRecvQ := q\<rparr>)"
    "RingBuffer_Get (lowerRecvQ node) = Some (p, q) \<Longrightarrow> node_inv C k (node\<lparr>lowerRecvQ := q\<rparr>)"
    "RingBuffer_Get (lowerMuxQ node) = Some (p, q) \<Longrightarrow> node_inv C k (node\<lparr>lowerMuxQ := q\<rparr>)"
    "RingBuffer_Get (upperRecvQ node) = Some (p, q) \<Longrightarrow> node_inv C k (node\<lparr>upperRecvQ := q\<rparr>)"
    "RingBuffer_Get (upperMuxQ node) = Some (p, q) \<Longrightarrow> node_inv C k (node\<lparr>upperMuxQ := q\<rparr>)"
  by (rule node_inv_queues [OF assms Get_Put_order(2)]; (assumption | rule node_inv_rb [OF assms]))+

lemma logged_post: "yields r (P \<circ> fst) \<Longrightarrow> yields (logged r) P"
  by (auto simp: yields_def logged_def)

lemma routines_post:
  assumes C: "crypto_ok (env_C E)" and inv: "node_inv (env_C E) k node"
  shows "yields (helloSendRoutine E node) (node_inv (env_C E) k)" "yields (lowerSendRoutine E node) (node_inv (env_C E) k)"
    "yields (upperSendRoutine E node) (node_inv (env_C E) k)" "yields (helloRecvRoutine E node) (node_inv (env_C E) k)"
    "yields (lowerRecvRoutine E node) (node_inv (env_C E) k)" "yields (lowerMuxRoutine E node) (node_inv (env_C E) k)"
    "yields (upperRecvRoutine E node) (node_inv (env_C E) k)" "yields (upperMuxRoutine E node) (node_inv (env_C E) k)"
proof -
  have put: "yields (put_helloRecvQ n p) (node_inv (env_C E) k)" if "node_inv (env_C E) k n" for n :: "'a Node" and p
    using puts_inv(6) [OF that] by (auto simp: yields_def)
  show "yields (helloSendRoutine E node) (node_inv (env_C E) k)"
    unfolding helloSendRoutine_def Let_def
    by (intro yields_rules logged_post send_handlers_post(1,2) [OF C]) (auto intro: get_inv(1) [OF inv])
  show "yields (lowerSendRoutine E node) (node_inv (env_C E) k)"
    unfolding lowerSendRoutine_def Let_def
    by (intro yields_rules logged_post send_handlers_post(3) [OF C]) (auto intro: get_inv(2) [OF inv])
  show "yields (upperSendRoutine E node) (node_inv (env_C E) k)"
    unfolding upperSendRoutine_def Let_def
    by (intro yields_rules logged_post send_handlers_post(4) [OF C]) (auto intro: get_inv(3) [OF inv])
  show "yields (helloRecvRoutine E node) (node_inv (env_C E) k)"
    unfolding helloRecvRoutine_def Let_def
    by (intro yields_rules logged_post recv_handlers_post(1,2) [OF C]) (auto intro: get_inv(4) [OF inv])
  show "yields (lowerRecvRoutine E node) (node_inv (env_C E) k)"
    unfolding lowerRecvRoutine_def Let_def
    by (intro yields_rules logged_post recv_handlers_post(3) [OF C] put) (auto intro: get_inv(5) [OF inv])
  show "yields (lowerMuxRoutine E node) (node_inv (env_C E) k)"
    unfolding lowerMuxRoutine_def Let_def
    by (intro yields_rules logged_post mux_handlers_post(1)) (auto intro: get_inv(6) [OF inv])
  show "yields (upperRecvRoutine E node) (node_inv (env_C E) k)"
    unfolding upperRecvRoutine_def Let_def
    by (intro yields_rules logged_post recv_handlers_post(4) [OF C] put) (auto intro: get_inv(7) [OF inv])
  show "yields (upperMuxRoutine E node) (node_inv (env_C E) k)"
    unfolding upperMuxRoutine_def Let_def
    by (intro yields_rules logged_post mux_handlers_post(2)) (auto intro: get_inv(8) [OF inv])
qed


text \<open>
  The steps of a node: an iteration of a routine, a datagram that arrives, a transport that
  sends, and the calls of its interface.
\<close>

inductive node_step :: "env \<Rightarrow> 'h Node \<Rightarrow> 'h Node \<Rightarrow> bool" for E where
  hello_send: "helloSendRoutine E node = Some node' \<Longrightarrow> node_step E node node'"
| lower_send: "lowerSendRoutine E node = Some node' \<Longrightarrow> node_step E node node'"
| upper_send: "upperSendRoutine E node = Some node' \<Longrightarrow> node_step E node node'"
| hello_recv: "helloRecvRoutine E node = Some node' \<Longrightarrow> node_step E node node'"
| lower_recv: "lowerRecvRoutine E node = Some node' \<Longrightarrow> node_step E node node'"
| lower_mux: "lowerMuxRoutine E node = Some node' \<Longrightarrow> node_step E node node'"
| upper_recv: "upperRecvRoutine E node = Some node' \<Longrightarrow> node_step E node node'"
| upper_mux: "upperMuxRoutine E node = Some node' \<Longrightarrow> node_step E node node'"
| datagram: "Transport_RecvStep read (lowerRecvQ node) = Some q \<Longrightarrow> node_step E node (node\<lparr>lowerRecvQ := q\<rparr>)"
| transmit: "transports node = ts @ tpt # ts' \<Longrightarrow> Transport_SendStep tpt = Some (tpt', out) \<Longrightarrow>
    node_step E node (node\<lparr>transports := ts @ tpt' # ts'\<rparr>)"
| connect: "Connect node pid raddr w = Some node' \<Longrightarrow> node_step E node node'"
| send: "Node_Send (env_V E) node pid codec p = Some (node', e) \<Longrightarrow> node_step E node node'"
| handle: "node_step E node (Handle node codec cb)"
| handle_lower: "node_step E node (HandleLower node codec cb)"
| start: "node_step E node (fst (Node_Start node))"
| stop: "node_step E node (fst (Node_Stop node))"
| listen: "node_step E node (fst (Listen mp lis node ma))"

lemma api_inv:
  assumes inv: "node_inv C k node"
  shows "Connect node pid raddr w = Some n1 \<Longrightarrow> node_inv C k n1"
    "Node_Send V node pid codec p = Some (n2, e) \<Longrightarrow> node_inv C k n2"
    "node_inv C k (Handle node codec cb)" "node_inv C k (HandleLower node codec cb)"
proof -
  have "node_inv C k (WaitFor n pid w)" if "node_inv C k n" for n :: "'a Node"
    using that by (simp add: WaitFor_def Let_def node_inv_def tables_ok_def queues_ok_def)
  then show "Connect node pid raddr w = Some n1 \<Longrightarrow> node_inv C k n1"
    by (auto simp: Connect_def Let_def split: Option.bind_splits if_splits dest!: puts_inv(1) [OF inv])
  show "Node_Send V node pid codec p = Some (n2, e) \<Longrightarrow> node_inv C k n2"
    using inv by (auto simp: Node_Send_def Let_def split: op_splits dest!: puts_inv(7) [OF inv])
  show "node_inv C k (Handle node codec cb)" "node_inv C k (HandleLower node codec cb)"
    using inv by (simp_all add: Handle_def HandleLower_def node_inv_def tables_ok_def queues_ok_def)
qed

lemma life_inv:
  assumes inv: "node_inv C k node"
  shows "node_inv C k (fst (Node_Start node))" "node_inv C k (fst (Node_Stop node))"
    "node_inv C k (fst (Listen mp lis node ma))"
proof -
  have run: "node_inv C k (n\<lparr>nd_running := c\<rparr>)" if "node_inv C k n" for n :: "'a Node" and c
    using that by (simp add: node_inv_def tables_ok_def queues_ok_def)
  have q: "sendQ (fst (Transport_Start t)) = sendQ t" "sendQ (fst (Transport_Stop t)) = sendQ t" for t
    by (simp_all add: Transport_Start_def Transport_Stop_def)
  have new: "rb_inv (sendQ t)" if "NewTransport mp lis ma = Inr t" for t
    using that by (auto simp: NewTransport_def Let_def NewRingBuffer_def rb_inv_def TransportBufferSize_def split: op_splits)
  have "node_inv C k ((node\<lparr>nd_running := c\<rparr>)\<lparr>transports := map (fst \<circ> f) (transports node)\<rparr>)"
    if "\<And>t. sendQ (fst (f t)) = sendQ t" for c and f :: "Transport \<Rightarrow> Transport \<times> err option"
    using node_inv_rb(9) [OF inv] by (intro node_inv_transports [OF run [OF inv]]) (auto simp: that)
  from this [OF q(1), of ChanOpen] this [OF q(2), of ChanClosed]
  show "node_inv C k (fst (Node_Start node))" "node_inv C k (fst (Node_Stop node))"
    using inv by (simp_all add: Node_Start_def Node_Stop_def)
  show "node_inv C k (fst (Listen mp lis node ma))"
    using inv node_inv_rb(9) [OF inv] new
    by (auto simp: Listen_def q split: sum.splits intro!: node_inv_transports)
qed

lemma transport_inv:
  assumes inv: "node_inv C k node"
  shows "Transport_RecvStep read (lowerRecvQ node) = Some q \<Longrightarrow> node_inv C k (node\<lparr>lowerRecvQ := q\<rparr>)"
    "transports node = ts @ tpt # ts' \<Longrightarrow> Transport_SendStep tpt = Some (tpt', out) \<Longrightarrow>
       node_inv C k (node\<lparr>transports := ts @ tpt' # ts'\<rparr>)"
proof -
  show "Transport_RecvStep read (lowerRecvQ node) = Some q \<Longrightarrow> node_inv C k (node\<lparr>lowerRecvQ := q\<rparr>)"
    using node_inv_rb(5) [OF inv]
    by (auto simp: Transport_RecvStep_def split: op_splits intro!: node_inv_queues(5) [OF inv] intro: Put_inv)
  assume ts: "transports node = ts @ tpt # ts'" and "Transport_SendStep tpt = Some (tpt', out)"
  then have "rb_inv (sendQ tpt')"
    using node_inv_rb(9) [OF inv, of tpt] Get_Put_order(2)
    by (fastforce simp: Transport_SendStep_def Let_def split: op_splits)
  then show "node_inv C k (node\<lparr>transports := ts @ tpt' # ts'\<rparr>)"
    using node_inv_rb(9) [OF inv] ts by (intro node_inv_transports [OF inv]) auto
qed

lemma node_step_inv:
  assumes C: "crypto_ok (env_C E)" and inv: "node_inv (env_C E) k node" and step: "node_step E node node'"
  shows "node_inv (env_C E) k node'"
  using step
proof cases
  case hello_send
  then show ?thesis by (rule yieldsD [OF routines_post(1) [OF C inv]])
next
  case lower_send
  then show ?thesis by (rule yieldsD [OF routines_post(2) [OF C inv]])
next
  case upper_send
  then show ?thesis by (rule yieldsD [OF routines_post(3) [OF C inv]])
next
  case hello_recv
  then show ?thesis by (rule yieldsD [OF routines_post(4) [OF C inv]])
next
  case lower_recv
  then show ?thesis by (rule yieldsD [OF routines_post(5) [OF C inv]])
next
  case lower_mux
  then show ?thesis by (rule yieldsD [OF routines_post(6) [OF C inv]])
next
  case upper_recv
  then show ?thesis by (rule yieldsD [OF routines_post(7) [OF C inv]])
next
  case upper_mux
  then show ?thesis by (rule yieldsD [OF routines_post(8) [OF C inv]])
next
  case (datagram read q)
  with transport_inv(1) [OF inv] show ?thesis by simp
next
  case (transmit ts tpt ts' tpt' out)
  with transport_inv(2) [OF inv] show ?thesis by simp
next
  case connect
  then show ?thesis by (rule api_inv(1) [OF inv])
next
  case send
  then show ?thesis by (rule api_inv(2) [OF inv])
qed (simp_all add: api_inv(3,4) [OF inv] life_inv [OF inv])

lemma NewNode_inv:
  assumes "crypto_ok C" and "wf_priv k"
  shows "node_inv C k (NewNode C k)"
proof -
  let ?pid = "NewPeerID (PrivateKey_PublicKey C k)"
  obtain fwd r where at: "Attach (NewForwarder :: port Forwarder) ?pid Local = (fwd, r)" by fastforce
  then have slot: "slots fwd 0 = Some (Slot ?pid Local)"
    by (cases rule: Attach_cases) (use NewForwarder_slot [of 0] in \<open>auto simp: NumSlots_def dest: spec [of _ 0]\<close>)
  have "fwd_inv fwd" by (rule fwd_inv_Attach [OF fwd_inv_New at])
  with slot show ?thesis
    using sm_inv_New [OF assms(2)] at
    by (simp add: node_inv_def tables_ok_def queues_ok_def NewNode_def Let_def routing_inv_New rb_inv_def
        NewRingBuffer_def DefaultQueueSize_def NewSessionManager_def)
qed

text \<open>The environment may differ from step to step, but not the cryptographic package.\<close>

inductive node_reachable :: "crypto \<Rightarrow> PrivateKey \<Rightarrow> 'h Node \<Rightarrow> bool" for C k where
  new: "node_reachable C k (NewNode C k)"
| step: "node_reachable C k node \<Longrightarrow> node_step E node node' \<Longrightarrow> env_C E = C \<Longrightarrow> node_reachable C k node'"

lemma node_reachable_inv:
  assumes "crypto_ok C" and "wf_priv k" and "node_reachable C k node"
  shows "node_inv C k node"
  using assms(3)
proof (induction rule: node_reachable.induct)
  case (step node E node')
  with node_step_inv [of E k node node'] assms(1) show ?case by simp
qed (rule NewNode_inv [OF assms(1,2)])

end
