(* ===== verification/Delivery.thy ===== *)
theory Delivery
  imports NodeInvariants
begin

text \<open>
  A payload on its way from \<^verbatim>\<open>Node.Send\<close> on one node to the handler on a neighbouring one: seven steps of
  two nodes and the datagram between them. Each lemma runs one step.
\<close>

section \<open>The sender\<close>

definition empty_queue :: "'p RingBuffer \<Rightarrow> bool" where
  "empty_queue q \<longleftrightarrow> ch q = [] \<and> 0 < rb_cap q"

lemma empty_queue_ops:
  assumes "empty_queue q"
  obtains q' where "Put q p = Some q'" "PutWithBackpressure q p = Some q'" "RingBuffer_Get q' = Some (p, q)"
  using assms that [of "q\<lparr>ch := [p]\<rparr>"]
  by (simp add: empty_queue_def Put_def PutWithBackpressure_def chan_send_def RingBuffer_Get_def chan_recv_def)

text \<open>The packet in flight: buffer \<open>b\<close> of length \<open>n\<close> with the two codecs and the payload in place.\<close>

definition direct_body :: "varint \<Rightarrow> u64 \<Rightarrow> bytes \<Rightarrow> bytes \<Rightarrow> int \<Rightarrow> bool" where
  "direct_body V codec pl b n \<longleftrightarrow>
     n = 88 + int (length pl) \<and> length b = TptMTU \<and> n \<le> int TptMTU \<and>
     (\<exists>c. slice_of b 16 20 = Some c \<and> FromUvarint V c = Inr (DirectUpperCodec, int (length (ToUvarint V DirectUpperCodec)))) \<and>
     (\<exists>c. slice_of b 52 56 = Some c \<and> FromUvarint V c = Inr (codec, int (length (ToUvarint V codec)))) \<and>
     slice_of b 56 (56 + int (length pl)) = Some pl"

text \<open>Only the bytes from 16 to 16 before the end matter.\<close>

lemma direct_body_inner:
  assumes "direct_body V codec pl b n" and "slice_of b 16 (n - 16) = slice_of c 16 (n - 16)" and "length c = TptMTU"
  shows "direct_body V codec pl c n"
proof -
  obtain xs where xs: "slice_of b 16 (n - 16) = Some xs"
    using slice_total [of 16 "n - 16" b] assms(1) by (auto simp: direct_body_def)
  then have "slice_of b i j = slice_of c i j" if "16 \<le> i" "i \<le> j" "j \<le> n - 16" for i j
    using slice_inner [OF xs _ that] assms(2) by simp
  with assms(1,3) show ?thesis by (simp add: direct_body_def)
qed

lemma direct_body_len:
  assumes "direct_body V codec pl (Buf Q) (Length Q)"
  shows "length (Buf Q) = TptMTU" "32 \<le> Length Q" "Length Q \<le> int TptMTU"
  using assms by (auto simp: direct_body_def)

lemma Send_run:
  assumes V: "varint_ok V" and small: "codec < 2 ^ 28" and fits: "int (length pl) \<le> UpperMTU"
    and rt: "GetRoute (routing node) to = Inr (NewRoute hs)" "length hs \<le> 14" and q: "empty_queue (upperSendQ node)"
  obtains P uq where "Node_Send V node to codec pl = Some (node\<lparr>upperSendQ := uq\<rparr>, None)"
    "RingBuffer_Get uq = Some (P, upperSendQ node)" "UpperDst P = to" "labelled (Buf P) 0 hs"
    "Length P = 88 + int (length pl)" "length (Buf P) = TptMTU"
    "slice_of (Buf P) 56 (56 + int (length pl)) = Some pl"
    "slice_of (Buf P) 52 56 = Some (ToUvarint V codec @ replicate (4 - length (ToUvarint V codec)) 0)"
proof -
  let ?P = "(NewPacket (replicate TptMTU 0))\<lparr>UpperDst := to\<rparr>"
  have blank: "Buf ?P = replicate TptMTU 0" and up: "(NewUpperPacket (NewPacket (replicate TptMTU 0)))\<lparr>base := ?P\<rparr> = NewUpperPacket ?P"
    and b0: "base (NewUpperPacket (NewPacket (replicate TptMTU 0))) = NewPacket (replicate TptMTU 0)"
    by (simp_all add: NewPacket_def NewUpperPacket_def)
  have l: "length (hops (NewRoute hs)) \<le> 14" using rt(2) by simp
  obtain p u r where set: "UpperPacket_SetCodec V (NewUpperPacket ?P) codec = Some p"
    "UpperPacket_SetRoute p (NewRoute hs) = Some u" "UpperPacket_SetPayload u pl = Some r"
    and r: "base r = ?P\<lparr>Buf := fbuf r, Length := 88 + int (length pl)\<rparr>" "length (fbuf r) = TptMTU"
      "labelled (fbuf r) 0 (hops (NewRoute hs))" "slice_of (fbuf r) 56 (56 + int (length pl)) = Some pl"
      "slice_of (fbuf r) 52 56 = Some (ToUvarint V codec @ replicate (4 - length (ToUvarint V codec)) 0)"
    by (rule upper_packet_made [OF V small l fits blank]) (rule that)
  obtain uq where uq: "PutWithBackpressure (upperSendQ node) (base r) = Some uq" "RingBuffer_Get uq = Some (base r, upperSendQ node)"
    by (rule empty_queue_ops [OF q]) (rule that)
  have "Node_Send V node to codec pl = Some (node\<lparr>upperSendQ := uq\<rparr>, None)"
    using rt(1) set uq(1) unfolding Node_Send_def Let_def b0 up by (simp add: SendUpper_def)
  moreover have "UpperDst (base r) = to" "Length (base r) = 88 + int (length pl)"
    by (subst r(1), simp)+
  ultimately show thesis using that uq(2) r(2-5) by simp
qed

lemma upperSend_run:
  assumes V: "varint_ok (env_V E)" and small: "codec < 2 ^ 28" and dst: "\<not> PeerID_Empty to" "UpperDst P = to"
    and lab: "labelled (Buf P) 0 [slot]" and len: "Length P = 88 + int (length pl)" "length (Buf P) = TptMTU"
    and fits: "int (length pl) \<le> UpperMTU"
    and pl: "slice_of (Buf P) 56 (56 + int (length pl)) = Some pl"
    and cd: "slice_of (Buf P) 52 56 = Some (ToUvarint (env_V E) codec @ replicate (4 - length (ToUvarint (env_V E) codec)) 0)"
    and q: "empty_queue (lowerSendQ node)" "empty_queue (upperSendQ node)" "RingBuffer_Get uq = Some (P, upperSendQ node)"
  obtains Q lq where "upperSendRoutine E (node\<lparr>upperSendQ := uq\<rparr>) = Some (node\<lparr>lowerSendQ := lq\<rparr>)"
    "RingBuffer_Get lq = Some (Q, lowerSendQ node)" "LowerDst Q = to"
    "direct_body (env_V E) codec pl (Buf Q) (Length Q)"
proof -
  let ?V = "env_V E"
  obtain pre post where b: "Buf P = pre @ label 0 [slot] @ post" "length pre = 20" using lab by (auto simp: labelled_def)
  have d28: "DirectUpperCodec < 2 ^ 28" "DirectUpperCodec < 2 ^ 63" by (simp_all add: DirectUpperCodec_def)
  have c63: "codec < 2 ^ 63" using small by (rule less_trans) simp
  obtain pre' where set: "LowerPacket_SetCodec ?V (NewLowerPacket P) DirectUpperCodec =
      Some \<lparr>LOffset = 16, lbase = P\<lparr>Buf := pre' @ label 0 [slot] @ post\<rparr>\<rparr>"
    and pre': "length pre' = 20" "take (length (ToUvarint ?V DirectUpperCodec)) (drop 16 pre') = ToUvarint ?V DirectUpperCodec"
    by (rule SetCodec_window [OF V d28(1) b]) (rule that)
  let ?Q = "P\<lparr>Buf := pre' @ label 0 [slot] @ post, LowerDst := to\<rparr>"
  have rl: "UpperPacket_RouteLen (NewUpperPacket P) = Some HopLength"
    using Route_labelled(2) [of "NewUpperPacket P"] lab by (simp add: NewUpperPacket_def HopLength_def)
  obtain lq where lq: "PutWithBackpressure (lowerSendQ node) ?Q = Some lq" "RingBuffer_Get lq = Some (?Q, lowerSendQ node)"
    by (rule empty_queue_ops [OF q(1)]) (rule that)
  have same_node: "node\<lparr>upperSendQ := upperSendQ node\<rparr> = node" by simp
  have run: "upperSendRoutine E (node\<lparr>upperSendQ := uq\<rparr>) = Some (node\<lparr>lowerSendQ := lq\<rparr>)"
    using q(3) dst rl set lq(1)
    by (simp add: upperSendRoutine_def doUpperSend_def logged_def put_lowerSendQ_def NewUpperPacket_def same_node)
  have cdir: "slice_of (Buf ?Q) 16 20 = Some (ToUvarint ?V DirectUpperCodec @ drop (length (ToUvarint ?V DirectUpperCodec)) (drop 16 pre'))"
  proof -
    have "slice_of (Buf ?Q) 16 20 = Some (drop 16 pre')" using pre'(1) by (simp add: slice_of_def)
    then show ?thesis using append_take_drop_id [of "length (ToUvarint ?V DirectUpperCodec)" "drop 16 pre'"] pre'(2) by simp
  qed
  have lb: "length (Buf ?Q) = TptMTU" using len b pre' by simp
  have same: "slice_of (Buf ?Q) i j = slice_of (Buf P) i j" if "20 \<le> i" for i j
    using that b pre'(1) lb len by (intro slice_cong) (auto simp: nth_append)
  have "direct_body ?V codec pl (Buf ?Q) (Length ?Q)"
    unfolding direct_body_def using len fits lb cdir same cd pl V d28(2) c63
    by (simp add: varint_ok_def UpperMTU_def TptMTU_def)
  with that [OF run lq(2)] show thesis by simp
qed


text \<open>The lower send step: the packet is sealed and handed to the transport.\<close>

lemma header_written:
  assumes "wrote 0 4 \<lparr>Offset = LowerOffset, Padding = LowerPadding, base = P\<rparr> D"
  shows "Offset D = 0" "Padding D = 0" "base D = P\<lparr>Buf := fbuf D\<rparr>" "length (fbuf D) = length (Buf P)"
    "4 \<le> i \<Longrightarrow> slice_of (fbuf D) i j = slice_of (Buf P) i j"
proof -
  from assms obtain xs c where c: "copy_at (Buf P) 0 4 xs = Some c"
    and D: "D = with_buf \<lparr>Offset = LowerOffset, Padding = LowerPadding, base = P\<rparr> c"
    by (auto simp: wrote_def LowerOffset_def)
  show "Offset D = 0" "Padding D = 0" "base D = P\<lparr>Buf := fbuf D\<rparr>" "length (fbuf D) = length (Buf P)"
    using copy_at_length [OF c] by (simp_all add: D layout_defs)
  assume "4 \<le> i"
  with slice_copy_other [OF c] D show "slice_of (fbuf D) i j = slice_of (Buf P) i j" by simp
qed

lemma NewDataPacket_run:
  assumes "length (Buf P) = TptMTU"
  obtains D where "NewDataPacket P LowerOffset LowerPadding = Some D" "Offset D = 0" "Padding D = 0"
    "base D = P\<lparr>Buf := fbuf D\<rparr>" "length (fbuf D) = TptMTU"
    "\<And>i j. 4 \<le> i \<Longrightarrow> slice_of (fbuf D) i j = slice_of (Buf P) i j"
proof -
  obtain D where D: "NewDataPacket P LowerOffset LowerPadding = Some D"
    using data_mt.put_total [of "\<lparr>Offset = LowerOffset, Padding = LowerPadding, base = P\<rparr>"] assms
    by (auto simp: NewDataPacket_def layout_defs)
  note w = header_written [OF data_mt.put_wrote [OF D [unfolded NewDataPacket_def]]]
  show thesis by (rule that [OF D w(1-3)]) (use w(4,5) assms in simp_all)
qed

lemma lowerSend_run:
  assumes C: "crypto_ok (env_C E)" and len: "length (Buf Q) = TptMTU" "32 \<le> Length Q" "Length Q \<le> int TptMTU"
    and dst: "\<not> PeerID_Empty (LowerDst Q)"
    and found: "Find (env_order E) (sessions node) (LowerDst Q) = Some (Some (s, ix))"
    and m: "matched (handshake s) h" and addr: "\<not> Multiaddr_Empty (remoteAddr s)"
    and q: "RingBuffer_Get lq = Some (Q, lowerSendQ node)" and tpt: "transports node = tpt # tpts" "empty_queue (sendQ tpt)"
  obtains hs hdr ct D tpt' dgram xs where
    "lowerSendRoutine E (node\<lparr>lowerSendQ := lq\<rparr>) =
       Some (node\<lparr>sessions := set_session (sessions node) ix (s\<lparr>handshake := hs\<rparr>), transports := tpt' # tpts\<rparr>)"
    "Transport_SendStep tpt' = Some (tpt, Some (dgram, Multiaddr_AddrPort (remoteAddr s)))"
    "MakeMessage (env_C E) (handshake s) xs = (hs, Inr (hdr, ct))" "slice_of (Buf Q) 16 (Length Q - 16) = Some xs"
    "data_carries D ix hdr ct" "Offset D = 0" "Padding D = 0" "length (fbuf D) = TptMTU" "Length (base D) = Length Q"
    "Packet_Bytes (base D) = Some dgram"
proof -
  obtain D0 where D0: "NewDataPacket Q LowerOffset LowerPadding = Some D0" "Offset D0 = 0" "Padding D0 = 0"
    "base D0 = Q\<lparr>Buf := fbuf D0\<rparr>" "length (fbuf D0) = TptMTU"
    "\<And>i j. 4 \<le> i \<Longrightarrow> slice_of (fbuf D0) i j = slice_of (Buf Q) i j"
    by (rule NewDataPacket_run [OF len(1)]) (rule that)
  have b0: "Length (base D0) = Length Q" "LowerDst (base D0) = LowerDst Q" by (subst D0(4), simp)+
  obtain xs where xs: "slice_of (Buf Q) 16 (Length Q - 16) = Some xs"
    using slice_total [of 16 "Length Q - 16" "Buf Q"] len by auto
  have ready: "data_ready D0 xs"
    using D0 b0 len xs by (simp add: data_ready_def Data_Plaintext_def)
  obtain hs hdr ct D where mk: "MakeMessage (env_C E) (handshake s) xs = (hs, Inr (hdr, ct))"
    and run: "CreateData (env_C E) (env_order E) (sessions node) D0 (LowerDst Q) =
      Some (set_session (sessions node) ix (s\<lparr>handshake := hs\<rparr>), Inr (D, remoteAddr s))"
    and D: "data_carries D ix hdr ct" "Offset D = Offset D0" "Padding D = Padding D0"
      "length (fbuf D) = length (fbuf D0)" "Length (base D) = Length (base D0)" "base D = (base D0)\<lparr>Buf := fbuf D\<rparr>"
    by (rule CreateData_run [OF C found m ready]) (rule that)
  let ?P = "(base D)\<lparr>TptDst := remoteAddr s\<rparr>"
  obtain dgram where dg: "Packet_Bytes (base D) = Some dgram"
    using slice_total [of 0 "Length (base D)" "fbuf D"] D D0 b0 len by (auto simp: Packet_Bytes_def)
  obtain sq where sq: "PutWithBackpressure (sendQ tpt) ?P = Some sq" "RingBuffer_Get sq = Some (?P, sendQ tpt)"
    by (rule empty_queue_ops [OF tpt(2)]) (rule that)
  have base: "base (with_buf D0 (fbuf D)) = base D" using D(6) by simp
  have same_node: "node\<lparr>lowerSendQ := lowerSendQ node\<rparr> = node" by simp
  have step: "lowerSendRoutine E (node\<lparr>lowerSendQ := lq\<rparr>) =
       Some (node\<lparr>sessions := set_session (sessions node) ix (s\<lparr>handshake := hs\<rparr>), transports := tpt\<lparr>sendQ := sq\<rparr> # tpts\<rparr>)"
    using q dst D0(1) b0(2) run tpt(1) sq(1)
    by (simp add: lowerSendRoutine_def doLowerSend_def logged_def sendTransport_def Transport_Send_def base same_node
        del: with_buf_simps)
  have out: "Transport_SendStep (tpt\<lparr>sendQ := sq\<rparr>) = Some (tpt, Some (dgram, Multiaddr_AddrPort (remoteAddr s)))"
    using sq(2) addr dg by (simp add: Transport_SendStep_def Packet_Bytes_def)
  show thesis
    by (rule that [OF step out mk xs D(1) _ _ _ _ dg]) (use D D0 b0 in simp_all)
qed


section \<open>The receiver\<close>

lemma connectedCallback_frame [simp]:
  "upperMuxQ (connectedCallback C node pid lower) = upperMuxQ node"
  "lowerMuxQ (connectedCallback C node pid lower) = lowerMuxQ node"
  "lowerRecvQ (connectedCallback C node pid lower) = lowerRecvQ node"
  "upperHandlers (connectedCallback C node pid lower) = upperHandlers node"
  "upper_calls (connectedCallback C node pid lower) = upper_calls node"
  "sessions (connectedCallback C node pid lower) = sessions node"
  by (simp_all add: connectedCallback_def Let_def split: option.splits prod.splits sum.splits)

text \<open>
  What the arrival of data over the session \<open>s\<close> does to a node, besides its queues: the first packet of a session
  connects the peer.
\<close>

definition greeted :: "crypto \<Rightarrow> 'h Node \<Rightarrow> Session \<Rightarrow> SessionManager \<Rightarrow> 'h Node" where
  "greeted C node s sm =
     (if stage s \<noteq> 3 then connectedCallback C (node\<lparr>sessions := sm\<rparr>) (remotePeerID s) True else node\<lparr>sessions := sm\<rparr>)"

text \<open>The datagram is opened; the callback of a first packet touches forwarder, routes and waiters only.\<close>

lemma lowerRecv_run:
  assumes C: "crypto_ok (env_C E)" and D: "data_carries D ix hdr ct" "Offset D = 0" "Padding D = 0"
      "length (fbuf D) = TptMTU" "Packet_Bytes (base D) = Some dgram"
    and s: "store (sessions node) ix = Some (Some s)" and con: "ConsumeMessage (env_C E) (handshake s) hdr ct = Inr xs"
    and len: "length ct = length xs + 16"
    and q: "RingBuffer_Get rq = Some (received dgram src, lowerRecvQ node)" "empty_queue (lowerMuxQ node)"
  obtains node' M mq where
    "lowerRecvRoutine E (node\<lparr>lowerRecvQ := rq\<rparr>) = Some (node'\<lparr>lowerMuxQ := mq\<rparr>)"
    "RingBuffer_Get mq = Some (M, lowerMuxQ node)" "lowerMuxQ node' = lowerMuxQ node"
    "LowerSrc M = remotePeerID s" "Length M = Length (base D)" "length (Buf M) = TptMTU"
    "slice_of (Buf M) 16 (Length M - 16) = Some xs"
    "upperMuxQ node' = upperMuxQ node" "upperHandlers node' = upperHandlers node" "upper_calls node' = upper_calls node"
    "sessions node' = set_session (sessions node) ix (s\<lparr>stage := 3\<rparr>)"
    "node' = greeted (env_C E) node s (set_session (sessions node) ix (s\<lparr>stage := 3\<rparr>))"
proof -
  let ?R = "received dgram src"
  note rb = received_bytes [OF D(5,4), where raddr = src]
  have ctl: "16 + int (length ct) = Length (base D)" and n16: "16 \<le> Length (base D)"
    using D(1-3) by (auto simp: data_carries_def Data_Ciphertext_def slice_of_def split: if_splits)
  obtain D1 where D1: "NewDataPacket ?R LowerOffset LowerPadding = Some D1" "Offset D1 = 0" "Padding D1 = 0"
    "base D1 = ?R\<lparr>Buf := fbuf D1\<rparr>" "length (fbuf D1) = TptMTU"
    "\<And>i j. 4 \<le> i \<Longrightarrow> slice_of (fbuf D1) i j = slice_of (Buf ?R) i j"
    by (rule NewDataPacket_run [OF rb(2)]) (rule that)
  have l1: "Length (base D1) = Length (base D)" by (subst D1(4)) (simp add: rb)
  have sl: "slice_of (fbuf D1) i j = slice_of (fbuf D) i j" if "4 \<le> i" "j \<le> Length (base D)" for i j
    using D1(6) rb(3) that by simp
  have carries: "data_carries D1 ix hdr ct"
    using D(1-3) D1(2,3) sl l1 n16 data_mt.get_put [OF D1(1) [unfolded NewDataPacket_def]]
    by (simp add: data_carries_def Data_SessionIndex_def Data_Nonce_def Data_Ciphertext_def)
  have mt: "Packet_MsgType ?R = Some DataMsgType"
    using D(1,2) rb(3) [of 4 0] n16 by (simp add: Packet_MsgType_def data_carries_def Data_MsgType_def)
  have bound: "0 \<le> Length (base D)" "Length (base D) \<le> int TptMTU"
    using D(4,5) by (auto simp: Packet_Bytes_def slice_of_def split: if_splits)
  have room: "0 \<le> Offset D1" "Length (base D1) - Padding D1 \<le> int (length (fbuf D1))"
    using D1 l1 bound by simp_all
  obtain q' where run: "HandleData (env_C E) (sessions node) D1 =
      Some (if stage s = 3 then sessions node else set_session (sessions node) ix (s\<lparr>stage := 3\<rparr>),
            Inr (q', remotePeerID s, stage s \<noteq> 3))"
    and q': "Data_Plaintext q' = Some xs" "Offset q' = Offset D1" "Padding q' = Padding D1"
      "Length (base q') = Length (base D1)" "keeps_upto 16 D1 q'"
    by (rule HandleData_run [OF C s con carries len room]) (rule that)
  have sm: "(if stage s = 3 then sessions node else set_session (sessions node) ix (s\<lparr>stage := 3\<rparr>)) =
      set_session (sessions node) ix (s\<lparr>stage := 3\<rparr>)" (is "_ = ?sm")
  proof (cases "stage s = 3")
    case True
    then have "s\<lparr>stage := 3\<rparr> = s" by (cases s) simp
    with True s show ?thesis by (simp add: set_session_def fun_upd_idem)
  qed simp
  let ?node = "greeted (env_C E) node s ?sm"
  let ?M = "(base D1)\<lparr>Buf := fbuf q', LowerSrc := remotePeerID s\<rparr>"
  obtain mq where mq: "Put (lowerMuxQ node) ?M = Some mq" "RingBuffer_Get mq = Some (?M, lowerMuxQ node)"
    by (rule empty_queue_ops [OF q(2)]) (rule that)
  have same_node: "node\<lparr>lowerRecvQ := lowerRecvQ node\<rparr> = node" by simp
  have frame: "lowerMuxQ ?node = lowerMuxQ node" "upperMuxQ ?node = upperMuxQ node" "upperHandlers ?node = upperHandlers node"
    "upper_calls ?node = upper_calls node" "sessions ?node = ?sm" by (simp_all add: greeted_def)
  have "doLowerRecv E node ?R = Some (?node\<lparr>lowerMuxQ := mq\<rparr>, None)"
    using D1(1) run mq(1) frame(1) unfolding doLowerRecv_def put_lowerMuxQ_def sm greeted_def by simp
  then have step: "lowerRecvRoutine E (node\<lparr>lowerRecvQ := rq\<rparr>) = Some (?node\<lparr>lowerMuxQ := mq\<rparr>)"
    using q(1) mt by (simp add: lowerRecvRoutine_def logged_def same_node)
  have "slice_of (Buf ?M) 16 (Length ?M - 16) = Some xs"
    using q'(1-4) D1(2,3) by (simp add: Data_Plaintext_def)
  moreover have "length (Buf ?M) = TptMTU" using keeps_uptoD [OF q'(5)] D1(5) by simp
  ultimately show thesis
    by (intro that [OF step mq(2) frame(1)]) (use l1 frame in simp_all)
qed

lemma muxes_run:
  assumes V: "varint_ok (env_V E)" and body: "direct_body (env_V E) codec pl (Buf M) (Length M)"
    and src: "\<not> PeerID_Empty (LowerSrc M)" and h: "upperHandlers node codec = Some cb"
    and q: "RingBuffer_Get mq = Some (M, lowerMuxQ node)" "empty_queue (upperMuxQ node)"
  obtains node1 node2 where "lowerMuxRoutine E (node\<lparr>lowerMuxQ := mq\<rparr>) = Some node1" "upperMuxRoutine E node1 = Some node2"
    "upper_calls node2 = upper_calls node @ [(cb, NewUpperPacket (M\<lparr>UpperSrc := LowerSrc M\<rparr>))]"
    "sessions node2 = sessions node"
    "node2 = node\<lparr>upper_calls := upper_calls node @ [(cb, NewUpperPacket (M\<lparr>UpperSrc := LowerSrc M\<rparr>))]\<rparr>"
proof -
  let ?U = "M\<lparr>UpperSrc := LowerSrc M\<rparr>"
  obtain uq where uq: "Put (upperMuxQ node) ?U = Some uq" "RingBuffer_Get uq = Some (?U, upperMuxQ node)"
    by (rule empty_queue_ops [OF q(2)]) (rule that)
  have lc: "LowerPacket_Codec (env_V E) (NewLowerPacket M) = Some (Inr DirectUpperCodec)"
    using body by (auto simp: direct_body_def LowerPacket_Codec_def NewLowerPacket_def)
  have uc: "UpperPacket_Codec (env_V E) (NewUpperPacket ?U) = Some (Inr codec)"
    using body by (auto simp: direct_body_def UpperPacket_Codec_def NewUpperPacket_def UpperOffset_def)
  have same_node: "node\<lparr>lowerMuxQ := lowerMuxQ node\<rparr> = node" "node\<lparr>upperMuxQ := upperMuxQ node\<rparr> = node" by simp_all
  have "doLowerMux E node M = Some (node\<lparr>upperMuxQ := uq\<rparr>, None)"
    using lc uq(1) by (simp add: doLowerMux_def put_upperMuxQ_def DirectUpperCodec_def DataMulticodec_def NewLowerPacket_def)
  then have 1: "lowerMuxRoutine E (node\<lparr>lowerMuxQ := mq\<rparr>) = Some (node\<lparr>upperMuxQ := uq\<rparr>)"
    using q(1) src by (simp add: lowerMuxRoutine_def logged_def same_node)
  have "doUpperMux E node ?U = Some (node\<lparr>upper_calls := upper_calls node @ [(cb, NewUpperPacket ?U)]\<rparr>, None)"
    using uc h by (simp add: doUpperMux_def)
  then have 2: "upperMuxRoutine E (node\<lparr>upperMuxQ := uq\<rparr>) =
      Some (node\<lparr>upper_calls := upper_calls node @ [(cb, NewUpperPacket ?U)]\<rparr>)"
    using uq(2) by (simp add: upperMuxRoutine_def logged_def same_node)
  show thesis by (rule that [OF 1 2]) simp_all
qed

section \<open>The whole way\<close>

lemma direct_run:
  assumes C: "crypto_ok (env_C E)" and V: "varint_ok (env_V E)"
    and a: "node_inv (env_C E) ka a" and b: "node_inv (env_C E) kb b"
    and pair: "paired (sessions a) (sessions b) ix" and order: "set (env_order E) = dom (store (sessions a))"
    and unique: "\<forall>i s. store (sessions a) i = Some (Some s) \<longrightarrow> remotePeerID s = nd_peerid b \<longrightarrow>
      i = ix \<and> \<not> Multiaddr_Empty (remoteAddr s)"
    and ids: "\<not> PeerID_Empty (nd_peerid a)" "\<not> PeerID_Empty (nd_peerid b)"
    and qa: "empty_queue (upperSendQ a)" "empty_queue (lowerSendQ a)" "transports a = tpt # tpts" "empty_queue (sendQ tpt)"
    and qb: "empty_queue (lowerRecvQ b)" "empty_queue (lowerMuxQ b)" "empty_queue (upperMuxQ b)"
    and handler: "upperHandlers b codec = Some cb" and small: "codec < 2 ^ 28" and fits: "int (length pl) \<le> UpperMTU"
    and P: "RingBuffer_Get uq = Some (P, upperSendQ a)" "UpperDst P = nd_peerid b" "labelled (Buf P) 0 [slot]"
      "Length P = 88 + int (length pl)" "length (Buf P) = TptMTU"
      "slice_of (Buf P) 56 (56 + int (length pl)) = Some pl"
      "slice_of (Buf P) 52 56 = Some (ToUvarint (env_V E) codec @ replicate (4 - length (ToUvarint (env_V E) codec)) 0)"
  shows "\<exists>a2 a3 tpt1 tpt2 dgram dst rq b1 b2 b3 upkt.
    upperSendRoutine E (a\<lparr>upperSendQ := uq\<rparr>) = Some a2 \<and> lowerSendRoutine E a2 = Some a3 \<and> transports a3 = tpt1 # tpts \<and>
    Transport_SendStep tpt1 = Some (tpt2, Some (dgram, dst)) \<and>
    Transport_RecvStep (Inr (dgram, src)) (lowerRecvQ b) = Some rq \<and>
    lowerRecvRoutine E (b\<lparr>lowerRecvQ := rq\<rparr>) = Some b1 \<and> lowerMuxRoutine E b1 = Some b2 \<and>
    upperMuxRoutine E b2 = Some b3 \<and> upper_calls b3 = upper_calls b @ [(cb, upkt)] \<and>
    UpperPacket_Payload upkt = Some pl \<and> UpperPacket_Codec (env_V E) upkt = Some (Inr codec) \<and>
    UpperSrc (base upkt) = nd_peerid a \<and> paired (sessions a3) (sessions b3) ix \<and>
    (\<exists>s hs. store (sessions a) ix = Some (Some s) \<and> dst = Multiaddr_AddrPort (remoteAddr s) \<and>
       a3\<lparr>transports := tpt2 # tpts\<rparr> = a\<lparr>sessions := set_session (sessions a) ix (s\<lparr>handshake := hs\<rparr>)\<rparr>) \<and>
    (\<exists>t. store (sessions b) ix = Some (Some t) \<and>
       b3 = (greeted (env_C E) b t (set_session (sessions b) ix (t\<lparr>stage := 3\<rparr>)))\<lparr>upper_calls := upper_calls b @ [(cb, upkt)]\<rparr>)"
proof -
  have pid: "sm_peerid (sessions a) = nd_peerid a" "sm_peerid (sessions b) = nd_peerid b"
    using a b by (auto simp: node_inv_def tables_ok_def sm_inv_def)
  obtain s t where s: "store (sessions a) ix = Some (Some s)" "remotePeerID s = nd_peerid b"
    and t: "store (sessions b) ix = Some (Some t)" "remotePeerID t = nd_peerid a"
    and m: "matched (handshake s) (handshake t)"
    using pair pid by (auto simp: paired_def)
  have found: "Find (env_order E) (sessions a) (nd_peerid b) = Some (Some (s, ix))"
    by (rule Find_unique [OF order _ s]) (use sm_inv_no_nil [OF node_invD(1) [OF a]] unique in auto)
  have addr: "\<not> Multiaddr_Empty (remoteAddr s)" using unique s by blast
  obtain Q lq where up: "upperSendRoutine E (a\<lparr>upperSendQ := uq\<rparr>) = Some (a\<lparr>lowerSendQ := lq\<rparr>)"
    and Q: "RingBuffer_Get lq = Some (Q, lowerSendQ a)" "LowerDst Q = nd_peerid b"
      "direct_body (env_V E) codec pl (Buf Q) (Length Q)"
    by (rule upperSend_run [OF V small ids(2) P(2-5) fits P(6,7) qa(2,1) P(1)]) (rule that)
  obtain hs hdr ct D tpt' dgram xs where low: "lowerSendRoutine E (a\<lparr>lowerSendQ := lq\<rparr>) =
       Some (a\<lparr>sessions := set_session (sessions a) ix (s\<lparr>handshake := hs\<rparr>), transports := tpt' # tpts\<rparr>)"
    and wire: "Transport_SendStep tpt' = Some (tpt, Some (dgram, Multiaddr_AddrPort (remoteAddr s)))"
    and mk: "MakeMessage (env_C E) (handshake s) xs = (hs, Inr (hdr, ct))"
    and xs: "slice_of (Buf Q) 16 (Length Q - 16) = Some xs"
    and D: "data_carries D ix hdr ct" "Offset D = 0" "Padding D = 0" "length (fbuf D) = TptMTU"
      "Length (base D) = Length Q" "Packet_Bytes (base D) = Some dgram"
    by (rule lowerSend_run [OF C direct_body_len [OF Q(3)] ids(2) [folded Q(2)] found [folded Q(2)] m addr Q(1) qa(3,4)]) (rule that)
  note rt = message_roundtrip [OF C m mk]
  obtain rq where rq: "Put (lowerRecvQ b) (received dgram src) = Some rq"
    "RingBuffer_Get rq = Some (received dgram src, lowerRecvQ b)"
    by (rule empty_queue_ops [OF qb(1)]) (rule that)
  obtain b' M mq where recv: "lowerRecvRoutine E (b\<lparr>lowerRecvQ := rq\<rparr>) = Some (b'\<lparr>lowerMuxQ := mq\<rparr>)"
    and M: "RingBuffer_Get mq = Some (M, lowerMuxQ b)" "lowerMuxQ b' = lowerMuxQ b" "LowerSrc M = remotePeerID t"
      "Length M = Length (base D)" "length (Buf M) = TptMTU" "slice_of (Buf M) 16 (Length M - 16) = Some xs"
    and b': "upperMuxQ b' = upperMuxQ b" "upperHandlers b' = upperHandlers b" "upper_calls b' = upper_calls b"
      "sessions b' = set_session (sessions b) ix (t\<lparr>stage := 3\<rparr>)"
      "b' = greeted (env_C E) b t (set_session (sessions b) ix (t\<lparr>stage := 3\<rparr>))"
    by (rule lowerRecv_run [OF C D(1-4,6) t(1) rt(1,3) rq(2) qb(2)]) (rule that)
  have body: "direct_body (env_V E) codec pl (Buf M) (Length M)"
    using direct_body_inner [OF Q(3) _ M(5)] xs M(4,6) D(5) by simp
  have ne: "\<not> PeerID_Empty (LowerSrc M)" and hb: "upperHandlers b' codec = Some cb" and eb: "empty_queue (upperMuxQ b')"
    using M(3) t(2) ids(1) b' handler qb(3) by simp_all
  obtain b2 b3 where mux: "lowerMuxRoutine E (b'\<lparr>lowerMuxQ := mq\<rparr>) = Some b2" "upperMuxRoutine E b2 = Some b3"
      "upper_calls b3 = upper_calls b' @ [(cb, NewUpperPacket (M\<lparr>UpperSrc := LowerSrc M\<rparr>))]" "sessions b3 = sessions b'"
      "b3 = b'\<lparr>upper_calls := upper_calls b' @ [(cb, NewUpperPacket (M\<lparr>UpperSrc := LowerSrc M\<rparr>))]\<rparr>"
    by (rule muxes_run [OF V body ne hb M(1) [folded M(2)] eb]) (rule that)
  let ?u = "NewUpperPacket (M\<lparr>UpperSrc := LowerSrc M\<rparr>)"
  have u: "UpperPacket_Payload ?u = Some pl" "UpperPacket_Codec (env_V E) ?u = Some (Inr codec)" "UpperSrc (base ?u) = nd_peerid a"
    using body M(3) t(2)
    by (auto simp: direct_body_def UpperPacket_Payload_def UpperPacket_Codec_def NewUpperPacket_def UpperOffset_def)
  let ?a3 = "a\<lparr>sessions := set_session (sessions a) ix (s\<lparr>handshake := hs\<rparr>), transports := tpt' # tpts\<rparr>"
  have tp: "transports ?a3 = tpt' # tpts" by simp
  have rs: "Transport_RecvStep (Inr (dgram, src)) (lowerRecvQ b) = Some rq"
    using rq(1) by (simp add: Transport_RecvStep_def)
  have pr: "paired (sessions ?a3) (sessions b3) ix"
    using rt(2) s t pid mux(4) b'(4) by (simp add: paired_def set_session_def)
  have a3: "?a3\<lparr>transports := tpt # tpts\<rparr> = a\<lparr>sessions := set_session (sessions a) ix (s\<lparr>handshake := hs\<rparr>)\<rparr>"
    using qa(3) by (cases a) simp
  have b3: "b3 = (greeted (env_C E) b t (set_session (sessions b) ix (t\<lparr>stage := 3\<rparr>)))\<lparr>upper_calls := upper_calls b @ [(cb, ?u)]\<rparr>"
    using mux(5) b'(3) unfolding b'(5) by simp
  show ?thesis
    by (intro exI conjI)
      (rule up low tp wire rs recv mux(1) mux(2) mux(3) [unfolded b'(3)] u(1) u(2) u(3) pr refl s(1) a3 t(1) b3)+
qed

end
