(* ===== verification/SessionProperties.thy ===== *)
theory SessionProperties
  imports SessionRuns Instances
begin

text \<open>
  What the session layer promises: that two nodes which exchange a hello and a response hold the
  two ends of one session, that data sent over it arrives and names its sender, that no nonce is used
  twice, and that the table of sessions keeps its invariant whatever packets arrive.
\<close>

section \<open>A concrete pair of nodes\<close>

definition ex_key :: "byte \<Rightarrow> PrivateKey" where
  "ex_key n = \<lparr>priv_bytes = replicate 32 n\<rparr>"

definition ex_sm :: "byte \<Rightarrow> SessionManager" where
  "ex_sm n = NewSessionManager ref_crypto (ex_key n)"

definition ex_packet :: Framed where
  "ex_packet = \<lparr>Offset = 0, Padding = 0, base = NewPacket (replicate TptMTU 0)\<rparr>"

lemma wf_ex_key: "wf_priv (ex_key n)"
  by (simp add: wf_priv_def ex_key_def)

lemma ex_sm_inv: "sm_inv ref_crypto (ex_sm n)"
  unfolding ex_sm_def by (rule sm_inv_New [OF wf_ex_key])

lemma ex_sm_simps:
  "sm_privkey (ex_sm n) = \<lparr>priv_bytes = replicate 32 n\<rparr>" "sm_pubkey (ex_sm n) = \<lparr>pub_bytes = replicate 32 n\<rparr>"
  "store (ex_sm n) = Map.empty" "sm_peerid (ex_sm n) = NewPeerID \<lparr>pub_bytes = replicate 32 n\<rparr>"
  by (simp_all add: ex_sm_def NewSessionManager_def ex_key_def Let_def ref_PublicKey)

lemma ex_fresh_index: "fresh_index Map.empty [Inr [7, 0, 0, 0]] = Some 7"
  by (simp add: fresh_index.simps [of Map.empty])

lemma ex_key_draw: "GeneratePrivateKey ref_crypto [Inr (replicate 32 n)] = Some (Inr (ex_key n))"
  by (simp add: ref_GeneratePrivateKey ex_key_def)

lemma ex_secret: "\<not> isZero (SharedSecret ref_crypto (ex_key 1) \<lparr>pub_bytes = replicate 32 2\<rparr>)"
  "\<not> isZero (SharedSecret ref_crypto (ex_key 3) \<lparr>pub_bytes = replicate 32 2\<rparr>)"
  by (simp_all add: ex_key_def ref_SharedSecret isZero_iff zip_replicate map_replicate)

lemma ex_packet_ready:
  "hello_ready ex_packet (replicate 1320 0)" "data_ready ex_packet (replicate 1420 0)" "frame_fits ex_packet"
  by (simp_all add: hello_ready_def data_ready_def frame_fits_def ex_packet_def NewPacket_def TptMTU_def
      Hello_Plaintext_def Data_Plaintext_def slice_of_def)

section \<open>Establishing a session\<close>

text \<open>
  C1. Session establishment. Node A sends a hello to the peer identity of node B, B answers it, and A
  reads the answer. Whenever the random generators deliver a usable key and an unused
  index on both sides, no shared secret is zero and the packet has room for its headers, none of
  the three operations fails or panics. Afterwards both tables hold the session under the index that B
  chose, each end sends with the key the other receives with, each end names the other's
  identity, A's caller is told B's identity, and no session of either node under another index has changed.
\<close>

theorem session_establishment:
  assumes "crypto_ok C" and "length ts = 12" and "sm_inv C sma" and "sm_inv C smb"
    and "GeneratePrivateKey C kda = Some (Inr ea)" and "GeneratePrivateKey C kdb = Some (Inr eb)"
    and "fresh_index (store sma) ida = Some ixa" and "fresh_index (store smb) idb = Some ixb"
    and "\<not> isZero (SharedSecret C (sm_privkey sma) (sm_pubkey smb))"
    and "\<not> isZero (SharedSecret C ea (sm_pubkey smb))"
    and "hello_ready p pl" and "frame_fits p"
  shows "\<exists>sma' q smb' r sma'' r'.
    CreateHello C ts kda ida sma p (sm_peerid smb) ra = Some (sma', Inr q) \<and>
    HandleHello C kdb idb smb q rb = Some (smb', Inr r) \<and>
    HandleResponse C sma' r ra' = Some (sma'', Inr (r', sm_peerid smb)) \<and>
    paired sma'' smb' ixb \<and>
    (\<forall>k. k \<noteq> ixb \<longrightarrow> store sma'' k = store sma k \<and> store smb' k = store smb k)"
  by (rule exchange [OF assms, of ra rb ra']) blast

theorem session_establishment_witness:
  "\<exists>sma' q smb' r sma'' r'.
    CreateHello ref_crypto (replicate 12 0) [Inr (replicate 32 3)] [Inr [7, 0, 0, 0]] (ex_sm 1) ex_packet
      (sm_peerid (ex_sm 2)) emptyMultiaddr = Some (sma', Inr q) \<and>
    HandleHello ref_crypto [Inr (replicate 32 4)] [Inr [7, 0, 0, 0]] (ex_sm 2) q emptyMultiaddr = Some (smb', Inr r) \<and>
    HandleResponse ref_crypto sma' r emptyMultiaddr = Some (sma'', Inr (r', sm_peerid (ex_sm 2))) \<and>
    paired sma'' smb' 7 \<and>
    (\<forall>k. k \<noteq> 7 \<longrightarrow> store sma'' k = store (ex_sm 1) k \<and> store smb' k = store (ex_sm 2) k)"
proof (rule session_establishment [OF ref_crypto_ok _ ex_sm_inv ex_sm_inv ex_key_draw ex_key_draw])
  show "fresh_index (store (ex_sm 1)) [Inr [7, 0, 0, 0]] = Some 7" "fresh_index (store (ex_sm 2)) [Inr [7, 0, 0, 0]] = Some 7"
    by (simp_all add: ex_sm_simps ex_fresh_index)
  show "\<not> isZero (SharedSecret ref_crypto (sm_privkey (ex_sm 1)) (sm_pubkey (ex_sm 2)))"
    "\<not> isZero (SharedSecret ref_crypto (ex_key 3) (sm_pubkey (ex_sm 2)))"
    using ex_secret by (simp_all add: ex_sm_simps ex_key_def)
qed (rule ex_packet_ready | simp)+


section \<open>Data over a session\<close>

text \<open>Two tables that hold the two ends of a session under index 7.\<close>

definition ex_end :: "bool \<Rightarrow> byte \<Rightarrow> byte \<Rightarrow> byte \<Rightarrow> byte \<Rightarrow> Session" where
  "ex_end init me peer k k' =
     (newSession (NewPeerID \<lparr>pub_bytes = replicate 32 peer\<rparr>)
       ((newHandshake ref_crypto init (ex_key me) (ex_key 9))
          \<lparr>remoteStatic := \<lparr>pub_bytes = replicate 32 peer\<rparr>,
           send := Some (replicate 32 k), receive := Some (replicate 32 k')\<rparr>))
     \<lparr>initiator := init, stage := (if init then 3 else 2)\<rparr>"

definition ex_a :: SessionManager where "ex_a = set_session (ex_sm 1) 7 (ex_end True 1 2 5 6)"
definition ex_b :: SessionManager where "ex_b = set_session (ex_sm 2) 7 (ex_end False 2 1 6 5)"

lemma ex_end_ok: "session_ok (ex_key me) (ex_end init me peer k k')"
  by (simp add: session_ok_def ex_end_def newSession_def newHandshake_def wf_pub_def)

lemma ex_ab_inv: "sm_inv ref_crypto ex_a" "sm_inv ref_crypto ex_b"
  using ex_end_ok [of 1] ex_end_ok [of 2]
  by (auto simp: ex_a_def ex_b_def ex_sm_simps ex_key_def intro!: sm_inv_set ex_sm_inv)

lemma ex_stores: "store ex_a = [7 \<mapsto> Some (ex_end True 1 2 5 6)]" "store ex_b = [7 \<mapsto> Some (ex_end False 2 1 6 5)]"
  by (simp_all add: ex_a_def ex_b_def ex_sm_simps)

lemma ex_paired: "paired ex_a ex_b 7"
  unfolding paired_def ex_stores
  by (simp add: ex_end_def newSession_def matched_def ex_a_def ex_b_def set_session_def ex_sm_simps)

text \<open>
  C2. Data delivery. When the tables of two nodes hold the two ends of a session and this is the only
  session of A with B's identity, then whatever order A's map is searched in, A's CreateData
  succeeds on a packet with room for the tag, B's HandleData accepts the packet, restores
  exactly the payload A put in, names A as the sender, and the two tables remain paired.
\<close>

theorem data_delivery:
  assumes "crypto_ok C" and "sm_inv C sma" and "paired sma smb ix" and "set order = dom (store sma)"
    and "\<And>k s. store sma k = Some (Some s) \<Longrightarrow> remotePeerID s = sm_peerid smb \<Longrightarrow> k = ix"
    and "data_ready p pl"
  shows "\<exists>sma' q addr smb' q' first.
    CreateData C order sma p (sm_peerid smb) = Some (sma', Inr (q, addr)) \<and>
    HandleData C smb q = Some (smb', Inr (q', sm_peerid sma, first)) \<and>
    Data_Plaintext q' = Some pl \<and> paired sma' smb' ix"
proof -
  obtain a where a: "store sma ix = Some (Some a)" "remotePeerID a = sm_peerid smb"
    using assms(3) by (auto simp: paired_def)
  have found: "Find order sma (sm_peerid smb) = Some (Some (a, ix))"
    by (rule Find_unique [OF assms(4) _ a assms(5)]) (use sm_inv_no_nil [OF assms(2)] in auto)
  show ?thesis by (rule data_exchange [OF assms(1,3) found assms(6)]) blast
qed

theorem data_delivery_witness:
  "\<exists>sma' q addr smb' q' first.
    CreateData ref_crypto [7] ex_a ex_packet (sm_peerid ex_b) = Some (sma', Inr (q, addr)) \<and>
    HandleData ref_crypto ex_b q = Some (smb', Inr (q', sm_peerid ex_a, first)) \<and>
    Data_Plaintext q' = Some (replicate 1420 0) \<and> paired sma' smb' 7"
  by (rule data_delivery [OF ref_crypto_ok ex_ab_inv(1) ex_paired _ _ ex_packet_ready(2)])
    (auto simp: ex_stores split: if_splits)

text \<open>
  C9. Authenticity of received data. HandleData accepts a packet only if it names an index of the
  table whose session can open the ciphertext with its receiving key and the packet's nonce;
  the sender it reports is the identity of the static key which that session's handshake
  authenticated, the payload is the opened plaintext, and the flag is true exactly for the
  first data packet of a session that waited for it. An error leaves the table as it was.
\<close>

theorem HandleData_authentic:
  assumes "sm_inv C sm" and "HandleData C sm pkt = Some (sm', r)"
  shows "case r of
      Inl _ \<Rightarrow> sm' = sm
    | Inr (q, pid, first) \<Rightarrow>
        (\<exists>ix s k nonce ct pt. Data_SessionIndex pkt = Some ix \<and> store sm ix = Some (Some s) \<and>
           receive (handshake s) = Some k \<and> Data_Nonce pkt = Some nonce \<and> Data_Ciphertext pkt = Some ct \<and>
           aead_open C k (replicate 4 0 @ nonce) ct [] = Some pt \<and> Data_Plaintext q = Some pt \<and>
           pid = NewPeerID (remoteStatic (handshake s)) \<and> first = (stage s \<noteq> 3) \<and>
           sm' = set_session sm ix (s\<lparr>stage := 3\<rparr>))"
proof -
  have id: "sm = set_session sm ix s" if "store sm ix = Some (Some s)" for ix s
    using that by (simp add: set_session_def fun_upd_idem)
  have eta: "s = s\<lparr>stage := 3\<rparr>" if "stage s = 3" for s using that by (cases s) simp
  from assms(2) show ?thesis
    unfolding HandleData_def Get_def ConsumeMessage_def
    using assms(1)
    by (auto split: op_splits simp: aead_nonce_def data_pt.get_put [OF _ TrueI] session_ok_def
        dest: sm_inv_store) (metis id eta)+
qed


lemma ex_data_run:
  obtains q smb' q' first where "HandleData ref_crypto ex_b q = Some (smb', Inr (q', sm_peerid ex_a, first))"
proof -
  have "Find [7] ex_a (sm_peerid ex_b) = Some (Some (ex_end True 1 2 5 6, 7))"
    by (simp add: Find_def ex_stores ex_end_def newSession_def ex_b_def set_session_def ex_sm_simps)
  from data_exchange [OF ref_crypto_ok ex_paired this ex_packet_ready(2)] that show thesis by metis
qed

theorem HandleData_authentic_witness:
  "\<exists>q smb' q' first ix s pt k nonce ct.
     HandleData ref_crypto ex_b q = Some (smb', Inr (q', sm_peerid ex_a, first)) \<and>
     store ex_b ix = Some (Some s) \<and> receive (handshake s) = Some k \<and>
     aead_open ref_crypto k (replicate 4 0 @ nonce) ct [] = Some pt \<and> Data_Plaintext q' = Some pt \<and>
     first = (stage s \<noteq> 3)"
proof -
  obtain q smb' q' first where run: "HandleData ref_crypto ex_b q = Some (smb', Inr (q', sm_peerid ex_a, first))"
    by (rule ex_data_run)
  from HandleData_authentic [OF ex_ab_inv(2) run] run show ?thesis by (simp; blast)
qed

section \<open>The table of sessions\<close>

text \<open>
  C18. Table invariant. Whatever sequence of packets, good or forged, a node's session
  operations have processed since it was created: no entry of the table is nil, every session
  names the identity of the key in its handshake, uses the node's own key, has a stage that
  fits its role, and holds transport keys exactly when its handshake is finished.
\<close>

theorem session_table_invariant:
  assumes "crypto_ok C" and "wf_priv k" and "sm_reachable C k sm"
  shows "sm_peerid sm = NewPeerID (PrivateKey_PublicKey C (sm_privkey sm)) \<and>
    (\<forall>ix p. store sm ix = Some p \<longrightarrow> (\<exists>s. p = Some s \<and> session_ok (sm_privkey sm) s))"
  using sm_reachable_inv [OF assms] by (auto simp: sm_inv_def)

lemma ex_reachable:
  "\<exists>sm. sm_reachable ref_crypto (ex_key 1) sm \<and> store sm 7 \<noteq> None"
proof -
  have pk: "PeerID_PublicKey (NewPeerID \<lparr>pub_bytes = replicate 32 2\<rparr>) = \<lparr>pub_bytes = replicate 32 2\<rparr>"
    by (simp add: wf_pub_def)
  obtain i q where "CreateHello ref_crypto (replicate 12 0) [Inr (replicate 32 3)] [Inr [7, 0, 0, 0]] (ex_sm 1)
      ex_packet (NewPeerID \<lparr>pub_bytes = replicate 32 2\<rparr>) emptyMultiaddr =
      Some (set_session (ex_sm 1) 7 (with_addr emptyMultiaddr (newSession (NewPeerID \<lparr>pub_bytes = replicate 32 2\<rparr>) i)), Inr q)"
    by (rule CreateHello_run [OF ref_crypto_ok _ _ ex_key_draw, of "ex_sm 1" "replicate 12 0" "[Inr [7, 0, 0, 0]]" 7
          "NewPeerID \<lparr>pub_bytes = replicate 32 2\<rparr>" 3 ex_packet "replicate 1320 0" emptyMultiaddr])
      (use wf_ex_key ex_secret ex_packet_ready in \<open>auto simp: ex_sm_simps ex_fresh_index pk ex_key_def\<close>)
  from sm_step.create_hello [OF this] show ?thesis
    using sm_reachable.step [OF sm_reachable.start [of ref_crypto "ex_key 1"]] by (force simp: ex_sm_def)
qed

theorem session_table_invariant_witness:
  "\<exists>sm. sm_reachable ref_crypto (ex_key 1) sm \<and> store sm 7 \<noteq> None \<and>
    (\<forall>ix p. store sm ix = Some p \<longrightarrow> (\<exists>s. p = Some s \<and> session_ok (sm_privkey sm) s))"
proof -
  obtain sm where sm: "sm_reachable ref_crypto (ex_key 1) sm" "store sm 7 \<noteq> None"
    using ex_reachable by blast
  with session_table_invariant [OF ref_crypto_ok wf_ex_key sm(1)] show ?thesis by blast
qed

text \<open>
  C19. Accepting a response. On a table that satisfies the invariant, HandleResponse never
  takes the branch that reports a mismatched PeerID. When it accepts a response, the session leaves
  the index it was waiting under, is found under the index the response names, is finished,
  and the identity returned is that of the key the initiator had chosen for it; sessions under any
  third index are untouched. Whatever the node stored under the index named by the response
  before is gone, also when it was another, working session.
\<close>

theorem HandleResponse_moves:
  assumes "crypto_ok C" and "sm_inv C sm" and "HandleResponse C sm pkt ra = Some (sm', r)"
    and "Response_SenderIndex pkt = Some i" and "Response_SessionIndex pkt = Some j" and "i \<noteq> j"
  shows "r \<noteq> Inl (Errorf ''expected PeerID'') \<and>
    (\<forall>q pid. r = Inr (q, pid) \<longrightarrow>
       store sm' i = None \<and> (\<forall>k. k \<noteq> i \<longrightarrow> k \<noteq> j \<longrightarrow> store sm' k = store sm k) \<and>
       (\<exists>s s'. store sm i = Some (Some s) \<and> store sm' j = Some (Some s') \<and> stage s' = 3 \<and>
          pid = remotePeerID s \<and> remotePeerID s' = pid \<and> pid = NewPeerID (remoteStatic (handshake s'))))"
proof -
  have "store sm' i = None \<and> (\<forall>k. k \<noteq> i \<longrightarrow> k \<noteq> j \<longrightarrow> store sm' k = store sm k) \<and>
       (\<exists>s s'. store sm i = Some (Some s) \<and> store sm' j = Some (Some s') \<and> stage s' = 3 \<and>
          pid = remotePeerID s \<and> remotePeerID s' = pid \<and> pid = NewPeerID (remoteStatic (handshake s')))"
    if r: "r = Inr (q, pid)" for q pid
    using assms(3)
  proof (cases rule: HandleResponse_cases)
    case (finished ix j' s s' pkt')
    with assms(4,5) r have eq: "ix = i" "j' = j" "pid = remotePeerID s'" by auto
    note ok = Session_HandleHelloResponse_ok [OF assms(1) sm_inv_store [OF assms(2) finished(3)] finished(4)]
    from finished assms(6) eq have "store sm' = (store sm)(i := None, j \<mapsto> Some (if Multiaddr_Empty ra then s' else s'\<lparr>remoteAddr := ra\<rparr>))"
      by (auto simp: Remove_def fun_eq_iff)
    with ok eq finished(3) assms(6) show ?thesis by (auto simp: session_ok_def)
  qed (use r in auto)
  with HandleResponse_inv(2) [OF assms(1-3)] show ?thesis by blast
qed


theorem HandleResponse_moves_witness:
  "\<exists>sm pkt sm' q pid. HandleResponse ref_crypto sm pkt emptyMultiaddr = Some (sm', Inr (q, pid)) \<and>
     Response_SenderIndex pkt = Some 7 \<and> Response_SessionIndex pkt = Some 8 \<and>
     store sm' 7 = None \<and> (\<exists>s'. store sm' 8 = Some (Some s') \<and> stage s' = 3 \<and> remotePeerID s' = pid)"
proof -
  have fresh: "fresh_index (store (ex_sm 1)) [Inr [7, 0, 0, 0]] = Some 7"
    "fresh_index (store (ex_sm 2)) [Inr [8, 0, 0, 0]] = Some 8"
    by (simp_all add: ex_sm_simps fresh_index.simps [of Map.empty])
  have secret: "\<not> isZero (SharedSecret ref_crypto (sm_privkey (ex_sm 1)) (sm_pubkey (ex_sm 2)))"
    "\<not> isZero (SharedSecret ref_crypto (ex_key 3) (sm_pubkey (ex_sm 2)))"
    using ex_secret by (simp_all add: ex_sm_simps ex_key_def)
  have ts: "length (replicate 12 (0 :: byte)) = 12" by simp
  obtain sm hello pkt sm' q where
    hello: "CreateHello ref_crypto (replicate 12 0) [Inr (replicate 32 3)] [Inr [7, 0, 0, 0]] (ex_sm 1) ex_packet
      (sm_peerid (ex_sm 2)) emptyMultiaddr = Some (sm, Inr hello)"
    and run: "HandleResponse ref_crypto sm pkt emptyMultiaddr = Some (sm', Inr (q, sm_peerid (ex_sm 2)))"
    and ix: "Response_SenderIndex pkt = Some 7" "Response_SessionIndex pkt = Some 8"
    by (rule exchange [OF ref_crypto_ok ts ex_sm_inv [of 1] ex_sm_inv [of 2] ex_key_draw [of 3] ex_key_draw [of 4]
          fresh secret ex_packet_ready(1,3), of emptyMultiaddr emptyMultiaddr emptyMultiaddr]) (rule that)
  have inv: "sm_inv ref_crypto sm" by (rule CreateHello_inv [OF ex_sm_inv hello])
  have "(7 :: u32) \<noteq> 8" by simp
  from HandleResponse_moves [OF ref_crypto_ok inv run ix this] run ix show ?thesis by blast
qed

section \<open>Panics\<close>

text \<open>
  C27. No panics on packets of the right size. On a table that satisfies the invariant, and with usable
  draws of the random generators, HandleHello, HandleResponse and HandleData return for every
  packet whose length covers its header (116, 60 and 16 bytes), whatever bytes it holds.
\<close>

theorem handlers_return:
  assumes "crypto_ok C" and "sm_inv C sm" and "GeneratePrivateKey C kd = Some (Inr e)"
    and "fresh_index (store sm) ids = Some ix" and "frame_fits p"
  shows "(long_enough 116 p \<longrightarrow> (\<exists>x. HandleHello C kd ids sm p ra = Some x)) \<and>
    (long_enough 60 p \<longrightarrow> (\<exists>x. HandleResponse C sm p ra = Some x)) \<and>
    (long_enough 16 p \<longrightarrow> (\<exists>x. HandleData C sm p = Some x))"
  using HandleHello_total [OF assms(1,3-5)] HandleResponse_total [OF assms(1,2)]
    HandleData_total [OF assms(1,2)] by blast

theorem handlers_return_witness:
  "\<exists>x y z. HandleHello ref_crypto [Inr (replicate 32 3)] [Inr [7, 0, 0, 0]] (ex_sm 1) ex_packet emptyMultiaddr = Some x \<and>
     HandleResponse ref_crypto (ex_sm 1) ex_packet emptyMultiaddr = Some y \<and>
     HandleData ref_crypto (ex_sm 1) ex_packet = Some z"
proof -
  have ix: "fresh_index (store (ex_sm 1)) [Inr [7, 0, 0, 0]] = Some 7" by (simp add: ex_sm_simps ex_fresh_index)
  have "long_enough 116 ex_packet" "long_enough 60 ex_packet" "long_enough 16 ex_packet"
    by (simp_all add: long_enough_def ex_packet_def NewPacket_def TptMTU_def)
  with handlers_return [OF ref_crypto_ok ex_sm_inv ex_key_draw ix ex_packet_ready(3), of 3 emptyMultiaddr]
  show ?thesis by blast
qed

text \<open>
  C28. A short hello panics. Nothing checks the length of a received packet before its body is
  sliced: a hello that is shorter than its 116-byte header makes HandleHello panic on every node,
  whoever sent it, as soon as the random generator has delivered an ephemeral key.
\<close>

theorem short_hello_panics:
  assumes "GeneratePrivateKey C kd = Some (Inr e)" and "Length (base p) - Padding p < Offset p + 116"
  shows "HandleHello C kd ids sm p ra = None"
  by (rule HandleHello_short [OF assms])

theorem short_hello_panics_witness:
  "HandleHello ref_crypto [Inr (replicate 32 3)] [Inr [7, 0, 0, 0]] (ex_sm 1)
     \<lparr>Offset = LowerOffset, Padding = LowerPadding, base = (NewPacket (1 # replicate 1451 0))\<lparr>Length := 4\<rparr>\<rparr> emptyMultiaddr = None"
  by (rule short_hello_panics [OF ex_key_draw]) (simp add: layout_defs)

section \<open>Nonces and indices\<close>



text \<open>
  Index allocation. Insert returns as soon as one of the draws of the random generator is an index
  that nobody uses, skipping failed and colliding draws; the index it returns was unused,
  it stores the session there, keeps every other session, and removing it again gives the old table.
\<close>

theorem Insert_allocates:
  assumes "\<And>b. Inr b \<in> set draws \<Longrightarrow> length b = 4"
    and "Inr b \<in> set draws" and "le_uint32 b = Some v" and "Get sm v = None"
  shows "\<exists>sm' ix. Insert draws sm s = Some (sm', ix) \<and> Get sm ix = None \<and> Get sm' ix = Some (Some s) \<and>
    (\<forall>k. Get sm k \<noteq> None \<longrightarrow> Get sm' k = Get sm k) \<and> Get (Remove sm' ix) = Get sm"
proof -
  obtain ix where "fresh_index (store sm) draws = Some ix"
    using fresh_index_returns [OF assms(1-3)] assms(4) by (auto simp: Get_def)
  then obtain sm' where run: "Insert draws sm s = Some (sm', ix)" by (simp add: Insert_def)
  show ?thesis
    using run sessions.ins_fresh [OF run] sessions.ins_lookup [OF run] sessions.ins_keeps [OF run]
      sessions.ins_del [OF run] by auto
qed

theorem Insert_allocates_witness:
  "\<exists>sm' ix. Insert [Inl (ErrExternal ''EAGAIN''), Inr [7, 0, 0, 0], Inr [8, 0, 0, 0]] ex_a (ex_end True 1 2 5 6) = Some (sm', ix) \<and>
    Get ex_a ix = None \<and> Get sm' ix = Some (Some (ex_end True 1 2 5 6)) \<and>
    (\<forall>k. Get ex_a k \<noteq> None \<longrightarrow> Get sm' k = Get ex_a k) \<and> Get (Remove sm' ix) = Get ex_a"
  by (rule Insert_allocates [where b = "[8, 0, 0, 0]" and v = 8]) (auto simp: Get_def ex_stores)

end
