(* ===== verification/NodeProperties.thy ===== *)
theory NodeProperties
  imports Delivery SessionProperties
begin

text \<open>What a node promises as a whole.\<close>

text \<open>The fields of a new node.\<close>

lemma NewNode_simps:
  "nd_peerid (NewNode C k) = NewPeerID (PrivateKey_PublicKey C k)" "routing (NewNode C k) = NewRouting"
  "upperSendQ (NewNode C k) = NewRingBuffer DefaultQueueSize" "lowerSendQ (NewNode C k) = NewRingBuffer DefaultQueueSize"
  "lowerRecvQ (NewNode C k) = NewRingBuffer DefaultQueueSize" "lowerMuxQ (NewNode C k) = NewRingBuffer DefaultQueueSize"
  "upperMuxQ (NewNode C k) = NewRingBuffer DefaultQueueSize" "upperHandlers (NewNode C k) = Map.empty"
  "upper_calls (NewNode C k) = []" "lowerHandlers (NewNode C k) = Map.empty" "nd_waiters (NewNode C k) = Map.empty"
  "woken (NewNode C k) = []" "nd_running (NewNode C k) = ChanNil"
  by (simp_all add: NewNode_def Let_def split: prod.splits)

section \<open>Invariant\<close>

text \<open>
  C8. Node invariant. Whatever sequence of steps a node has taken since NewNode, in any interleaving of its eight
  routines, arriving datagrams and calls of its interface: its session table satisfies the session
  invariant for its own key, slot 0 of its forwarder leads to itself and every slot
  recorded for a peer leads to that peer, its routing table has no empty or repeated entries, and
  no queue holds more packets than its capacity.
\<close>

theorem node_invariant:
  assumes "crypto_ok C" and "wf_priv k" and "node_reachable C k node"
  shows "tables_ok C k node \<and> queues_ok node"
  using node_reachable_inv [OF assms] by (simp add: node_inv_def)

definition ex_env :: env where
  "ex_env = \<lparr>env_C = ref_crypto, env_V = ref_varint, env_ts = replicate 12 0, env_kd = [Inr (replicate 32 3)],
     env_ids = [Inr [7, 0, 0, 0]], env_order = [7]\<rparr>"

theorem node_invariant_witness:
  "\<exists>node :: nat Node. node_reachable ref_crypto (ex_key 1) node \<and> Node_Running node \<and> upperHandlers node 5 = Some 0 \<and>
    tables_ok ref_crypto (ex_key 1) node \<and> queues_ok node"
proof -
  let ?n0 = "NewNode ref_crypto (ex_key 1) :: nat Node"
  let ?n1 = "Handle ?n0 5 0"
  let ?n2 = "fst (Node_Start ?n1)"
  have E: "env_C ex_env = ref_crypto" by (simp add: ex_env_def)
  have "node_reachable ref_crypto (ex_key 1) ?n1"
    by (rule node_reachable.step [OF node_reachable.new node_step.handle E])
  then have r: "node_reachable ref_crypto (ex_key 1) ?n2"
    by (rule node_reachable.step [OF _ node_step.start E])
  moreover have "Node_Running ?n2" "upperHandlers ?n2 5 = Some 0"
    by (simp_all add: Node_Start_def Node_Running_def Handle_def NewNode_simps)
  ultimately show ?thesis using node_invariant [OF ref_crypto_ok wf_ex_key r] by blast
qed

section \<open>Delivery to a neighbour\<close>

text \<open>
  C7. Direct delivery. Two nodes share an established session, A's route to B is one hop, and
  the queues involved are empty. Then Node.Send on A with a payload that fits the upper MTU, one step
  each of A's upper and lower sending routines and of its transport, the arrival of the datagram at
  B, and one step each of B's lower receiving, lower mux and upper mux routines succeed; they
  end with a call of the handler that B registered for the codec, on a packet whose payload and
  codec are those given to Send and whose UpperSrc is A's identity.
\<close>

theorem direct_delivery:
  assumes C: "crypto_ok (env_C E)" and V: "varint_ok (env_V E)"
    and a: "node_inv (env_C E) ka a" and b: "node_inv (env_C E) kb b"
    and pair: "paired (sessions a) (sessions b) ix" and order: "set (env_order E) = dom (store (sessions a))"
    and unique: "\<And>i s. store (sessions a) i = Some (Some s) \<Longrightarrow> remotePeerID s = nd_peerid b \<Longrightarrow>
      i = ix \<and> \<not> Multiaddr_Empty (remoteAddr s)"
    and route: "GetRoute (routing a) (nd_peerid b) = Inr (NewRoute [slot])"
    and ids: "\<not> PeerID_Empty (nd_peerid a)" "\<not> PeerID_Empty (nd_peerid b)"
    and qa: "empty_queue (upperSendQ a)" "empty_queue (lowerSendQ a)" "transports a = tpt # tpts" "empty_queue (sendQ tpt)"
    and qb: "empty_queue (lowerRecvQ b)" "empty_queue (lowerMuxQ b)" "empty_queue (upperMuxQ b)"
    and handler: "upperHandlers b codec = Some cb" and small: "codec < 2 ^ 28" and fits: "int (length pl) \<le> UpperMTU"
  shows "\<exists>a1 a2 a3 tpt1 tpt2 dgram dst rq b1 b2 b3 upkt.
    Node_Send (env_V E) a (nd_peerid b) codec pl = Some (a1, None) \<and>
    upperSendRoutine E a1 = Some a2 \<and> lowerSendRoutine E a2 = Some a3 \<and> transports a3 = tpt1 # tpts \<and>
    Transport_SendStep tpt1 = Some (tpt2, Some (dgram, dst)) \<and>
    Transport_RecvStep (Inr (dgram, src)) (lowerRecvQ b) = Some rq \<and>
    lowerRecvRoutine E (b\<lparr>lowerRecvQ := rq\<rparr>) = Some b1 \<and> lowerMuxRoutine E b1 = Some b2 \<and>
    upperMuxRoutine E b2 = Some b3 \<and> upper_calls b3 = upper_calls b @ [(cb, upkt)] \<and>
    UpperPacket_Payload upkt = Some pl \<and> UpperPacket_Codec (env_V E) upkt = Some (Inr codec) \<and>
    UpperSrc (base upkt) = nd_peerid a \<and> paired (sessions a3) (sessions b3) ix"
proof -
  obtain P uq where send: "Node_Send (env_V E) a (nd_peerid b) codec pl = Some (a\<lparr>upperSendQ := uq\<rparr>, None)"
    and P: "RingBuffer_Get uq = Some (P, upperSendQ a)" "UpperDst P = nd_peerid b" "labelled (Buf P) 0 [slot]"
      "Length P = 88 + int (length pl)" "length (Buf P) = TptMTU"
      "slice_of (Buf P) 56 (56 + int (length pl)) = Some pl"
      "slice_of (Buf P) 52 56 = Some (ToUvarint (env_V E) codec @ replicate (4 - length (ToUvarint (env_V E) codec)) 0)"
    by (rule Send_run [OF V small fits route _ qa(1)]) (simp, rule that)
  have un: "\<forall>i s. store (sessions a) i = Some (Some s) \<longrightarrow> remotePeerID s = nd_peerid b \<longrightarrow>
      i = ix \<and> \<not> Multiaddr_Empty (remoteAddr s)" using unique by blast
  note run = direct_run [OF C V a b pair order un ids qa qb handler small fits P, where src = src]
  then show ?thesis using send by blast
qed

text \<open>The two nodes of the concrete run: one session, one route, one transport.\<close>

definition ex_addr :: Multiaddr where "ex_addr = FromAddrPort (Addr4 [127, 0, 0, 1], 1312)"

definition ex_tpt :: Transport where
  "ex_tpt = \<lparr>conn_local = (Addr4 [127, 0, 0, 1], 1312), listenAddr = ex_addr, tpt_running = ChanNil,
     sendQ = NewRingBuffer TransportBufferSize\<rparr>"

definition ex_node_a :: "'h Node" where
  "ex_node_a = (NewNode ref_crypto (ex_key 1))
     \<lparr>sessions := set_session (ex_sm 1) 7 ((ex_end True 1 2 5 6)\<lparr>remoteAddr := ex_addr\<rparr>),
      routing := AddRoute ref_crypto NewRouting (NewPeerID \<lparr>pub_bytes = replicate 32 2\<rparr>) (NewRoute [1]),
      transports := [ex_tpt]\<rparr>"

definition ex_node_b :: "nat Node" where
  "ex_node_b = Handle ((NewNode ref_crypto (ex_key 2))\<lparr>sessions := ex_b\<rparr>) 0x42000 9"

lemma ex_node_a_inv: "node_inv ref_crypto (ex_key 1) (ex_node_a :: 'h Node)"
proof -
  have "sm_inv ref_crypto (set_session (ex_sm 1) 7 ((ex_end True 1 2 5 6)\<lparr>remoteAddr := ex_addr\<rparr>))"
    using ex_end_ok [of 1] by (intro sm_inv_set [OF ex_sm_inv]) (simp add: ex_sm_simps ex_key_def)
  then have n1: "node_inv ref_crypto (ex_key 1) ((NewNode ref_crypto (ex_key 1) :: 'h Node)
      \<lparr>sessions := set_session (ex_sm 1) 7 ((ex_end True 1 2 5 6)\<lparr>remoteAddr := ex_addr\<rparr>)\<rparr>)" (is "node_inv _ _ ?n1")
    by (rule node_inv_sessions [OF NewNode_inv [OF ref_crypto_ok wf_ex_key]]) (simp add: ex_sm_simps ex_key_def)
  have r: "routing ?n1 = NewRouting" by (simp add: NewNode_simps)
  have "rb_inv (sendQ ex_tpt)" by (simp add: ex_tpt_def rb_inv_def NewRingBuffer_def TransportBufferSize_def)
  then show ?thesis
    unfolding ex_node_a_def
    by (intro node_inv_transports node_inv_tables(2) [OF n1, unfolded r]) simp
qed

lemma ex_node_b_inv: "node_inv ref_crypto (ex_key 2) ex_node_b"
  unfolding ex_node_b_def
  by (intro api_inv(3) node_inv_sessions NewNode_inv ref_crypto_ok wf_ex_key ex_ab_inv(2))
    (simp add: ex_b_def ex_sm_simps ex_key_def)

lemma ex_nodes_simps:
  "nd_peerid ex_node_a = NewPeerID \<lparr>pub_bytes = replicate 32 1\<rparr>" "nd_peerid ex_node_b = NewPeerID \<lparr>pub_bytes = replicate 32 2\<rparr>"
  "sessions ex_node_b = ex_b" "upperHandlers ex_node_b 0x42000 = Some 9"
  by (simp_all add: ex_node_a_def ex_node_b_def Handle_def NewNode_simps ex_key_def ref_PublicKey)

lemma ex_peer_id:
  assumes "n \<noteq> 0"
  shows "\<not> PeerID_Empty (NewPeerID \<lparr>pub_bytes = replicate 32 n\<rparr>)"
proof
  assume "PeerID_Empty (NewPeerID \<lparr>pub_bytes = replicate 32 n\<rparr>)"
  then have "NewPeerID \<lparr>pub_bytes = replicate 32 n\<rparr> = emptyPeerID" by (simp add: PeerID_Empty_def)
  also have "emptyPeerID = NewPeerID \<lparr>pub_bytes = replicate 32 0\<rparr>"
    by (simp add: emptyPeerID_def NewPeerID_def Let_def PublicKey_Bytes_def beUint64_def)
  finally have "replicate 32 n = replicate 32 (0 :: byte)"
    using NewPeerID_inject [of "\<lparr>pub_bytes = replicate 32 n\<rparr>" "\<lparr>pub_bytes = replicate 32 0\<rparr>"]
    by (simp add: wf_pub_def)
  with assms show False by simp
qed

lemmas ex_peerids = ex_peer_id [of 1, simplified] ex_peer_id [of 2, simplified]

lemma ex_nodes_paired: "paired (sessions ex_node_a) (sessions ex_node_b) 7"
  using ex_paired by (simp add: paired_def ex_node_a_def ex_nodes_simps ex_a_def set_session_def)

theorem direct_delivery_witness:
  "\<exists>a1 a2 a3 tpt1 tpt2 dgram dst rq b1 b2 b3 upkt.
    Node_Send ref_varint (ex_node_a :: nat Node) (nd_peerid ex_node_b) 0x42000 [1, 2, 3] = Some (a1, None) \<and>
    upperSendRoutine ex_env a1 = Some a2 \<and> lowerSendRoutine ex_env a2 = Some a3 \<and> transports a3 = tpt1 # [] \<and>
    Transport_SendStep tpt1 = Some (tpt2, Some (dgram, dst)) \<and>
    Transport_RecvStep (Inr (dgram, (Addr4 [127, 0, 0, 1], 1312))) (lowerRecvQ ex_node_b) = Some rq \<and>
    lowerRecvRoutine ex_env (ex_node_b\<lparr>lowerRecvQ := rq\<rparr>) = Some b1 \<and> lowerMuxRoutine ex_env b1 = Some b2 \<and>
    upperMuxRoutine ex_env b2 = Some b3 \<and> upper_calls b3 = upper_calls ex_node_b @ [(9, upkt)] \<and>
    UpperPacket_Payload upkt = Some [1, 2, 3] \<and> UpperPacket_Codec ref_varint upkt = Some (Inr 0x42000) \<and>
    UpperSrc (base upkt) = nd_peerid (ex_node_a :: nat Node) \<and> paired (sessions a3) (sessions b3) 7"
proof -
  have E: "env_C ex_env = ref_crypto" "env_V ex_env = ref_varint" "env_order ex_env = [7]" by (simp_all add: ex_env_def)
  have q: "empty_queue (NewRingBuffer DefaultQueueSize)" "empty_queue (sendQ ex_tpt)"
    by (simp_all add: empty_queue_def NewRingBuffer_def DefaultQueueSize_def ex_tpt_def TransportBufferSize_def)
  have addr: "\<not> Multiaddr_Empty ex_addr"
    by (simp add: ex_addr_def FromAddrPort_def Multiaddr_Empty_def emptyMultiaddr_def)
  have st: "store (sessions (ex_node_a :: nat Node)) = [7 \<mapsto> Some ((ex_end True 1 2 5 6)\<lparr>remoteAddr := ex_addr\<rparr>)]"
    by (simp add: ex_node_a_def ex_sm_simps)
  have rt: "GetRoute (routing (ex_node_a :: nat Node)) (nd_peerid ex_node_b) = Inr (NewRoute [1])"
    by (simp add: ex_nodes_simps) (simp add: ex_node_a_def GetRoute_def AddRoute_def NewRouting_def)
  show ?thesis
    unfolding E [symmetric]
    by (rule direct_delivery [where ka = "ex_key 1" and kb = "ex_key 2" and slot = 1 and tpt = ex_tpt])
      (use ref_crypto_ok ref_varint_ok ex_node_a_inv ex_node_b_inv ex_nodes_paired st addr rt ex_peerids q in
        \<open>auto simp: E ex_nodes_simps UpperMTU_def split: if_splits\<close>,
       simp_all add: ex_node_a_def ex_node_b_def Handle_def NewNode_simps)
qed

section \<open>Connecting\<close>

text \<open>
  C37. Waiters. When a peer connects, everyone who waits for it is woken exactly once and removed, and
  is told that there was no error. That holds also when the forwarder had no free slot for the
  peer, in which case no route to it was added: the error is assigned to a variable that shadows the
  one the waiters get.
\<close>

theorem waiters_woken:
  assumes "nd_waiters node pid = Some ws"
  shows "woken (connectedCallback C node pid lower) = woken node @ map (\<lambda>w. (w, None)) ws \<and>
    nd_waiters (connectedCallback C node pid lower) pid = None \<and>
    ((\<forall>i<256. slots (forwarder node) i \<noteq> Some NullSlot) \<longrightarrow>
       routing (connectedCallback C node pid lower) = routing node)"
proof -
  obtain fwd r where at: "Attach (forwarder node) pid Remote = (fwd, r)" by fastforce
  have "isl r" if "\<forall>i<256. slots (forwarder node) i \<noteq> Some NullSlot"
    using at by (cases rule: Attach_cases) (use that in \<open>auto simp: NumSlots_def\<close>)
  then show ?thesis
    using assms at by (cases r) (auto simp: connectedCallback_def)
qed

theorem waiters_woken_witness:
  "woken (connectedCallback ref_crypto (WaitFor ex_node_b emptyPeerID 4) emptyPeerID True) = [(4, None)]"
  using waiters_woken [of "WaitFor ex_node_b emptyPeerID 4" emptyPeerID "[4]" ref_crypto True]
  by (simp add: WaitFor_def ex_node_b_def Handle_def NewNode_simps)

section \<open>Handlers and lifecycle\<close>

text \<open>
  Handlers. The handler that runs for an upper codec is the one that was registered for it first, whatever
  was registered later and for whichever codecs; the same holds for lower codecs.
\<close>

theorem first_handler_stays:
  "upperHandlers (fold (\<lambda>(codec, cb) node. Handle node codec cb) regs (NewNode C k)) codec = map_of regs codec \<and>
   lowerHandlers (fold (\<lambda>(codec, cb) node. HandleLower node codec cb) regs (NewNode C k)) codec = map_of regs codec"
  using upper_handlers.look_adds [of regs "NewNode C k" codec] lower_handlers.look_adds [of regs "NewNode C k" codec]
  by (simp add: NewNode_simps)

text \<open>
  Starting and stopping. After any sequence of Start and Stop calls a node runs exactly when the last call was a
  Start; a call fails exactly when the node is already in the state it asks for, with ErrRunning or
  ErrNotRunning, and then changes nothing.
\<close>

theorem node_lifecycle:
  "Node_Running (fold (\<lambda>b n. fst (if b then Node_Start n else Node_Stop n)) calls node) =
     (if calls = [] then Node_Running node else last calls) \<and>
   (Node_Running node \<longrightarrow> Node_Start node = (node, Some ErrRunning) \<and> snd (Node_Stop node) = None) \<and>
   (\<not> Node_Running node \<longrightarrow> Node_Stop node = (node, Some ErrNotRunning) \<and> snd (Node_Start node) = None)"
  using node_life.calls_running [of calls node] node_life.start_again [of node] node_life.stop_again [of node]
    node_life.start_fresh [of node] node_life.stop_running [of node]
  by (simp add: node_life.call_def)

theorem node_lifecycle_witness:
  "\<not> Node_Running (fold (\<lambda>b n. fst (if b then Node_Start n else Node_Stop n)) [True, False] (ex_node_a :: nat Node)) \<and>
   Node_Stop (ex_node_a :: nat Node) = ((ex_node_a :: nat Node), Some ErrNotRunning)"
  using node_lifecycle [of "[True, False]" "ex_node_a :: nat Node"]
  by (simp add: ex_node_a_def Node_Running_def NewNode_simps)

end
