(* ===== verification/ApiProperties.thy ===== *)
theory ApiProperties
  imports ApiRuns ConfigInstances NodeProperties
begin

text \<open>The client beside the node: for which calls the two agree, and where they do not.\<close>

section \<open>The interface as calls\<close>

text \<open>
  The calls of \<^verbatim>\<open>NodeAPI\<close>, \<^verbatim>\<open>PeerAPI\<close> and \<^verbatim>\<open>DiscoveryAPI\<close>. \<^verbatim>\<open>Fcnet().Start\<close> is not among them: the node does not
  implement it (\<^verbatim>\<open>Fcnet()\<close> of a node is nil), so that there is nothing to compare the client with.
\<close>

datatype api_call =
    ApiInfo | ApiStart | ApiStop
  | ApiPeerStatus | ApiListen Multiaddr | ApiConnect Multiaddr
  | ApiDiscoveryStatus | ApiStartLinkLocal int | ApiStopLinkLocal

datatype api_result =
    ResInfo NodeInfo | ResStatus PeerStatus | ResListener PeerListener | ResPeer PeerInfo
  | ResDiscovery DiscoveryStatus | ResNone

definition res_info :: "err + NodeInfo \<Rightarrow> err + api_result" where
  "res_info r = (case r of Inl e \<Rightarrow> Inl e | Inr ni \<Rightarrow> Inr (ResInfo ni))"

definition res_err :: "err option \<Rightarrow> err + api_result" where
  "res_err r = (case r of Some e \<Rightarrow> Inl e | None \<Rightarrow> Inr ResNone)"

definition res_listener :: "err + PeerListener \<Rightarrow> err + api_result" where
  "res_listener r = (case r of Inl e \<Rightarrow> Inl e | Inr pl \<Rightarrow> Inr (ResListener pl))"

definition res_status :: "err + PeerStatus \<Rightarrow> err + api_result" where
  "res_status r = (case r of Inl e \<Rightarrow> Inl e | Inr s \<Rightarrow> Inr (ResStatus s))"

definition res_discovery :: "err + DiscoveryStatus \<Rightarrow> err + api_result" where
  "res_discovery r = (case r of Inl e \<Rightarrow> Inl e | Inr s \<Rightarrow> Inr (ResDiscovery s))"

definition res_peer :: "err + PeerInfo \<Rightarrow> err + api_result" where
  "res_peer r = (case r of Inl e \<Rightarrow> Inl e | Inr p \<Rightarrow> Inr (ResPeer p))"

text \<open>The calls on the node itself.\<close>

fun node_call :: "'cid apienv \<Rightarrow> api_call \<Rightarrow> apistate \<Rightarrow> apistate \<times> (err + api_result)" where
  "node_call E ApiInfo st = (st, res_info (Node_Info (ae_crypto E) (st_node st)))"
| "node_call E ApiStart st =
     (let (node, r) = Node_StartInfo (ae_crypto E) (st_node st) in (st\<lparr>st_node := node\<rparr>, res_info r))"
| "node_call E ApiStop st =
     (let (node, r) = Node_StopInfo (ae_crypto E) (st_node st) in (st\<lparr>st_node := node\<rparr>, res_info r))"
| "node_call E ApiPeerStatus st = (st, res_status (PeerAPI_Status (st_node st)))"
| "node_call E (ApiListen ma) st =
     (let (node, r) = PeerAPI_Listen (ae_Protocols E) (ae_ListenUDP E) (st_node st) ma
      in (st\<lparr>st_node := node\<rparr>, res_listener r))"
| "node_call E (ApiConnect ma) st = (st, res_peer (PeerAPI_Connect (st_node st) ma))"
| "node_call E ApiDiscoveryStatus st = (st, res_discovery (DiscoveryAPI_Status (st_node st)))"
| "node_call E (ApiStartLinkLocal ivl) st =
     (let (sm, r) = StartLinkLocal (ae_LinkLocalListen E) (st_services st) ivl in (st\<lparr>st_services := sm\<rparr>, res_err r))"
| "node_call E ApiStopLinkLocal st =
     (let (sm, r) = StopLinkLocal (st_services st) in (st\<lparr>st_services := sm\<rparr>, res_err r))"

text \<open>The same calls through the client.\<close>

fun client_call :: "'cid apienv \<Rightarrow> 's http \<Rightarrow> api_call \<Rightarrow> 's \<Rightarrow> 's \<times> (err + api_result)" where
  "client_call E http ApiInfo st = (let (st, r) = Client_Info (ae_cid E) http st in (st, res_info r))"
| "client_call E http ApiStart st = (let (st, r) = Client_Start (ae_cid E) http st in (st, res_info r))"
| "client_call E http ApiStop st = (let (st, r) = Client_Stop (ae_cid E) http st in (st, res_info r))"
| "client_call E http ApiPeerStatus st = (st, res_status PeerClient_Status)"
| "client_call E http (ApiListen ma) st =
     (let (st, r) = PeerClient_Listen (ae_cid E) (ae_maddr E) http st ma in (st, res_listener r))"
| "client_call E http (ApiConnect ma) st = (st, res_peer (PeerClient_Connect ma))"
| "client_call E http ApiDiscoveryStatus st = (st, res_discovery DiscoveryClient_Status)"
| "client_call E http (ApiStartLinkLocal ivl) st =
     (let (st, r) = DiscoveryClient_StartLinkLocal http st ivl in (st, res_err r))"
| "client_call E http ApiStopLinkLocal st =
     (let (st, r) = DiscoveryClient_StopLinkLocal http st in (st, res_err r))"

text \<open>
  What the client returns where the node returns the first argument: the same value, or an error where the node returns
  an error, whose text is not sent; but an empty status of the peers whatever the node has.
\<close>

fun client_result :: "err + api_result \<Rightarrow> err + api_result \<Rightarrow> bool" where
  "client_result (Inr (ResStatus s)) r \<longleftrightarrow> r = Inr (ResStatus \<lparr>Peers = [], Listeners = []\<rparr>)"
| "client_result (Inr x) r \<longleftrightarrow> r = Inr x"
| "client_result (Inl _) r \<longleftrightarrow> (\<exists>e. r = Inl e)"

text \<open>
  The arguments that are covered. An address to listen on is sent as its text, and must be read back from it: an IP address and a port that is not
  0, no further part. An interval that is not positive is left out, since the announcing routine ends the process for it.
\<close>

fun sendable :: "'cid apienv \<Rightarrow> api_call \<Rightarrow> bool" where
  "sendable E (ApiListen ma) \<longleftrightarrow> text_ok (ae_cid E) (ae_maddr E) ma"
| "sendable E (ApiStartLinkLocal ivl) \<longleftrightarrow> 0 < ivl \<and> ivl < 2 ^ 63"
| "sendable E _ \<longleftrightarrow> True"

definition env_ok :: "(string list \<Rightarrow> string \<Rightarrow> nat + nat) \<Rightarrow> 'cid apienv \<Rightarrow> bool" where
  "env_ok router E \<longleftrightarrow> router_ok router \<and> cid_text_ok (ae_cid E) \<and> crypto_ok (ae_crypto E) \<and> float_ok (ae_float E)"

lemma Listen_peerid: "nd_peerid (fst (PeerAPI_Listen P U node ma)) = nd_peerid node"
  by (simp add: PeerAPI_Listen_def Listen_def split: sum.splits)

lemma client_simulates:
  assumes "env_ok router E"
  shows "simulation (\<lambda>st. \<not> PeerID_Empty (nd_peerid (st_node st))) (sendable E) (\<lambda>st. st)
    (client_call E (direct router E)) (node_call E) client_result"
proof -
  note E = assms [unfolded env_ok_def]
  have step: "\<not> PeerID_Empty (nd_peerid (st_node (fst (client_call E (direct router E) c s)))) \<and>
      fst (client_call E (direct router E) c s) = fst (node_call E c s) \<and>
      client_result (snd (node_call E c s)) (snd (client_call E (direct router E) c s))"
    if "\<not> PeerID_Empty (nd_peerid (st_node s))" "sendable E c" for c s
  proof (cases c)
    case ApiInfo
    then show ?thesis using that Client_Info_run [of router E s] E by (simp add: res_info_def Node_Info_def)
  next
    case ApiStart
    then show ?thesis
      using that Client_Start_run [of router E s] E Node_peerid_kept(1) [of "st_node s"]
      by (auto simp: res_info_def Node_StartInfo_def split: prod.splits sum.splits option.splits)
  next
    case ApiStop
    then show ?thesis
      using that Client_Stop_run [of router E s] E Node_peerid_kept(2) [of "st_node s"]
      by (auto simp: res_info_def Node_StopInfo_def split: prod.splits sum.splits option.splits)
  next
    case (ApiListen ma)
    then show ?thesis
      using that PeerClient_Listen_run [of router E ma s] E Listen_peerid [of "ae_Protocols E" "ae_ListenUDP E" "st_node s" ma]
      by (auto simp: res_listener_def split: prod.splits sum.splits)
  next
    case ApiPeerStatus
    then show ?thesis using that by (simp add: PeerClient_Status_def PeerAPI_Status_def res_status_def)
  next
    case ApiDiscoveryStatus
    then show ?thesis using that by (simp add: DiscoveryClient_Status_def DiscoveryAPI_Status_def res_discovery_def)
  next
    case (ApiConnect ma)
    then show ?thesis using that by (simp add: PeerClient_Connect_def PeerAPI_Connect_def res_peer_def)
  next
    case (ApiStartLinkLocal ivl)
    then show ?thesis
      using that StartLinkLocal_client_run [of router E ivl s] E by (auto simp: res_err_def split: prod.splits option.splits)
  next
    case ApiStopLinkLocal
    then show ?thesis
      using that StopLinkLocal_client_run [of router E s] E by (auto simp: res_err_def split: prod.splits option.splits)
  qed
  show ?thesis by unfold_locales (use step in blast)+
qed

section \<open>Properties\<close>

text \<open>
  C13. The client refines the node. Take any sequence of the calls \<^verbatim>\<open>Info\<close>, \<^verbatim>\<open>Start\<close>, \<^verbatim>\<open>Stop\<close>, \<^verbatim>\<open>Peer().Status\<close>, \<^verbatim>\<open>Peer().Listen\<close>,
  \<^verbatim>\<open>Peer().Connect\<close>, \<^verbatim>\<open>Discovery().Status\<close>, \<^verbatim>\<open>StartLinkLocal\<close> and \<^verbatim>\<open>StopLinkLocal\<close>, where the addresses to listen on have an IP address, a port other than 0 and no
  further part (or no IP address and no port) and a text without slashes in the zone and of valid UTF-8, and the intervals are positive. Made through the client and the
  HTTP server, every request being answered, it leaves the node and its services as the same calls on the
  node itself would, and every call returns the same value, or an error where the node returns one. The exception is \<^verbatim>\<open>Peer().Status\<close>: the client
  answers it with an empty status where the node lists its listeners.
\<close>

theorem client_refines_node:
  assumes "env_ok router E" and "\<not> PeerID_Empty (nd_peerid (st_node st))" and "list_all (sendable E) cs"
  shows "fst (run_calls (client_call E (direct router E)) cs st) = fst (run_calls (node_call E) cs st) \<and>
    list_all2 client_result (snd (run_calls (node_call E) cs st)) (snd (run_calls (client_call E (direct router E)) cs st))"
  using simulation.runs [OF client_simulates [OF assms(1)] assms(2,3)] by simp

text \<open>A concrete environment: paths are matched exactly, every socket opens, one descriptor is passed.\<close>

definition ref_router :: "string list \<Rightarrow> string \<Rightarrow> nat + nat" where
  "ref_router ps p = (if p \<in> set ps then Inr (length (takeWhile (\<lambda>q. q \<noteq> p) ps)) else Inl 404)"

definition ref_float :: "nat \<Rightarrow> nat \<Rightarrow> nat \<Rightarrow> nat" where "ref_float f k unit = f * unit div 10 ^ k"

definition ref_fdio :: fdio where
  "ref_fdio = \<lparr>fd_Dial = (\<lambda>_. None), fd_File = None, fd_Recvmsg = Inr [3],
     ParseSocketControlMessage = (\<lambda>b. Inr [b]), ParseUnixRights = (\<lambda>b. Inr (map uint b))\<rparr>"

definition ref_apienv :: "(u64 \<times> bytes) apienv" where
  "ref_apienv = \<lparr>ae_crypto = ref_crypto, ae_cid = hex_cid, ae_maddr = ref_maddr, ae_float = ref_float, ae_Protocols = (\<lambda>_. []),
     ae_ListenUDP = (\<lambda>_ a. Inr a), ae_LinkLocalListen = None, ae_fdio = ref_fdio, ae_TUNFromFD = (\<lambda>_. None),
     ae_CreateNetTUN = None, ae_DnsListen = None\<rparr>"

lemma ref_router_ok: "router_ok ref_router"
proof -
  have "length (takeWhile (\<lambda>q. q \<noteq> ps ! i) ps) = i" if "distinct ps" "i < length ps" for ps :: "string list" and i
  proof -
    have no: "\<forall>q\<in>set (take i ps). q \<noteq> ps ! i" using that by (auto simp: in_set_conv_nth nth_eq_iff_index_eq)
    have "takeWhile (\<lambda>q. q \<noteq> ps ! i) ps = takeWhile (\<lambda>q. q \<noteq> ps ! i) (take i ps @ ps ! i # drop (Suc i) ps)"
      by (rule arg_cong [OF id_take_nth_drop [OF that(2)]])
    also have "\<dots> = take i ps" using no by (simp add: takeWhile_append2)
    finally have "takeWhile (\<lambda>q. q \<noteq> ps ! i) ps = take i ps" .
    then show ?thesis using that(2) by simp
  qed
  then show ?thesis by (simp add: router_ok_def ref_router_def)
qed

lemma ref_env_ok: "env_ok ref_router ref_apienv"
proof -
  have "float_ok ref_float" by (simp add: float_ok_def ref_float_def div_mult_swap)
  moreover have "cid_text_ok hex_cid"
  proof -
    have "cid_ok hex_cid" using ref_cid_ok by (simp add: cid_ok_def hex_cid_def of_to_hex)
    then show ?thesis
      using hex_cid_ok(2) utf8_ascii [OF literal_ascii [OF hex_cid_literal], of _ "[]"] by (simp add: cid_text_ok_def)
  qed
  ultimately show ?thesis by (simp add: env_ok_def ref_apienv_def ref_router_ok ref_crypto_ok)
qed

definition ex_state :: apistate where
  "ex_state = \<lparr>st_node = NewNode ref_crypto \<lparr>priv_bytes = replicate 32 7\<rparr>, st_services = NewServiceManager, st_fcnets = []\<rparr>"

lemma ex_state_peerid: "\<not> PeerID_Empty (nd_peerid (st_node ex_state))"
  by code_simp

lemma listen_text_ok: "text_ok L M listen6" "text_ok L M listen4"
proof -
  have "ascii ''/ip6/::/udp/1312''" "ascii ''/ip4/0.0.0.0/udp/1312''" by code_simp+
  then have "utf8 ''/ip6/::/udp/1312'' = ''/ip6/::/udp/1312''" "utf8 ''/ip4/0.0.0.0/udp/1312'' = ''/ip4/0.0.0.0/udp/1312''"
    using utf8_ascii [of _ "[]"] by (metis append_Nil2 utf8.simps(1))+
  then show "text_ok L M listen6" "text_ok L M listen4"
    using listen_String [of L M] by (simp_all add: text_ok_def listen6_def listen4_def emptyMultiaddr_def)
qed

theorem client_refines_node_witness:
  "list_all2 client_result
     (snd (run_calls (node_call ref_apienv) [ApiStart, ApiListen listen6, ApiPeerStatus, ApiStart, ApiStartLinkLocal 1500000000, ApiStop] ex_state))
     (snd (run_calls (client_call ref_apienv (direct ref_router ref_apienv))
        [ApiStart, ApiListen listen6, ApiPeerStatus, ApiStart, ApiStartLinkLocal 1500000000, ApiStop] ex_state))"
  using client_refines_node [OF ref_env_ok ex_state_peerid, of "[ApiStart, ApiListen listen6, ApiPeerStatus, ApiStart, ApiStartLinkLocal 1500000000, ApiStop]"]
  by (simp add: listen_text_ok)

text \<open>
  A network that was not started. The client reports that the network endpoint was started whenever the request was
  answered at all: when the server could not dial the socket of the client, which happens when the routine that listens on it
  has not done so yet, no endpoint is made and the client returns no error.
\<close>

theorem fcnet_start_unchecked:
  assumes "router_ok router" and "fd_Dial (ae_fdio E) (Join dir ''v0-fcnet-start.sock'') = Some e"
    and "utf8 (Join dir ''v0-fcnet-start.sock'') = Join dir ''v0-fcnet-start.sock''"
  shows "FcnetClient_Start (direct router E) (Inr dir) st = (st, None)"
  using assms string_param_read [OF assms(3), of "''Socket''" "[]"]
  by (simp add: FcnetClient_Start_def http_Post_def direct_def Serve_paths [OF assms(1)] serveFcnetStart_def Decoder_Decode_def
      receiveFD_def Let_def)

theorem fcnet_start_unchecked_witness:
  "FcnetClient_Start (direct ref_router (ref_apienv\<lparr>ae_fdio := ref_fdio\<lparr>fd_Dial := (\<lambda>_. Some (ErrExternal ''connect: no such file''))\<rparr>\<rparr>))
     (Inr ''/tmp/rovy0-1'') ex_state = (ex_state, None)"
proof -
  have "utf8 (Join ''/tmp/rovy0-1'' ''v0-fcnet-start.sock'') = Join ''/tmp/rovy0-1'' ''v0-fcnet-start.sock''" by code_simp
  then show ?thesis by (rule fcnet_start_unchecked [OF ref_router_ok, rotated]) simp
qed

end
