(* ===== verification/CommandProperties.thy ===== *)
theory CommandProperties
  imports Commands ConfigInstances
begin

text \<open>What \<^verbatim>\<open>rovy init\<close> leaves for \<^verbatim>\<open>rovy start\<close>, and what it leaves alone.\<close>

section \<open>The files of both commands\<close>

text \<open>With the same flags both commands choose the same files, unless the key is not to come from a file.\<close>

lemma start_paths_init:
  assumes "init_paths E c = Inr (kfpath, cfgpath)" and "start_paths E c = Inr sf" and "\<not> sf_ephemeral sf" and "\<not> sf_stdin sf"
  shows "sf_keyfile sf = kfpath" and "sf_config sf = cfgpath"
  using assms by (auto simp: init_paths_def start_paths_def Let_def split: sum.splits if_splits)

lemma write_keyfile_frame:
  assumes "p \<noteq> kfpath" shows "fst (write_keyfile L B F fs kfpath kf) p = fs p"
proof -
  have "fst (SaveKeyfile L B F fs kfpath kf) p = fs p" using assms by (simp add: SaveKeyfile_def os_WriteFile_frame)
  then show ?thesis by (auto simp: write_keyfile_def split: prod.splits option.splits)
qed

lemma write_config_frame:
  assumes "p \<noteq> cfgpath" shows "fst (write_config T F fs cfgpath cfg) p = fs p"
proof -
  have "fst (SaveConfig T F fs cfgpath cfg) p = fs p" using assms by (simp add: SaveConfig_def os_WriteFile_frame split: sum.splits)
  then show ?thesis by (auto simp: write_config_def split: prod.splits option.splits)
qed

lemma write_keyfile_ok:
  assumes "mkdir_fault F (Dir kfpath) = None" and "write_fault F kfpath = None"
  shows "write_keyfile L B F fs kfpath kf = (fs(kfpath \<mapsto> str_bytes (keyfile_text L B kf)), None)"
  using assms by (simp add: write_keyfile_def SaveKeyfile_def os_WriteFile_ok)

lemma write_config_ok:
  assumes "mkdir_fault F (Dir cfgpath) = None" and "write_fault F cfgpath = None" and "toml_Marshal T cfg = Inr b"
  shows "write_config T F fs cfgpath cfg = (fs(cfgpath \<mapsto> b), None)"
  using assms by (simp add: write_config_def SaveConfig_def os_WriteFile_ok)

lemma os_Stat_existing: "stat_fault F p = None \<Longrightarrow> fs p \<noteq> None \<Longrightarrow> os_Stat F fs p = None"
  by (auto simp: os_Stat_def)

text \<open>An init that passes its checks, as one equation.\<close>

lemma initCmdFunc_run:
  assumes "\<not> (IsSet c ''directory'' \<and> (IsSet c ''keyfile'' \<or> IsSet c ''config''))"
    and "init_paths E c = Inr (kfpath, cfgpath)" and "os_Stat F fs kfpath \<noteq> None" "os_Stat F fs cfgpath \<noteq> None"
    and "GeneratePrivateKey C draws = Some (Inr key)"
    and "mkdir_fault F (Dir kfpath) = None" "write_fault F kfpath = None"
    and "mkdir_fault F (Dir cfgpath) = None" "write_fault F cfgpath = None" and "toml_Marshal T default_config = Inr b"
  shows "initCmdFunc C L M B T F E draws fs c =
    Some (fs(kfpath \<mapsto> str_bytes (keyfile_text L B \<lparr>kf_PrivateKey = key, kf_PeerID = NewPeerID (PrivateKey_PublicKey C key),
        kf_IPAddr = PublicKey_IPAddr C (PrivateKey_PublicKey C key)\<rparr>), cfgpath \<mapsto> b), None)"
  using assms
  by (auto simp: initCmdFunc_def DefaultConfig_value MustGeneratePrivateKey_def write_keyfile_ok write_config_ok Let_def)

section \<open>Properties\<close>

text \<open>
  C15. A first start. When the two files of \<^verbatim>\<open>rovy init\<close> do not exist yet and can be written, it ends without an error; \<^verbatim>\<open>rovy start\<close>
  with the same flags then reads from the key file the key that was generated, the first draw whose
  address is in fc00::/8, and from the configuration file the default configuration. No other file has changed.
\<close>

theorem init_then_start:
  assumes ok: "crypto_ok C" "cid_ok L" "toml_ok L M T" "multibase_ok B"
    and lit: "\<And>p. \<not> PeerID_Empty p \<Longrightarrow> literal_text (PeerID_String L p)"
    and flags: "\<not> (IsSet c ''directory'' \<and> (IsSet c ''keyfile'' \<or> IsSet c ''config''))" "init_paths E c = Inr (kfpath, cfgpath)"
    and start: "start_paths E c = Inr sf" "\<not> sf_ephemeral sf" "\<not> sf_stdin sf" "kfpath \<noteq> ''@''" "kfpath \<noteq> ''-''"
    and new: "os_Stat F fs kfpath \<noteq> None" "os_Stat F fs cfgpath \<noteq> None" "kfpath \<noteq> cfgpath"
    and io: "mkdir_fault F (Dir kfpath) = None" "write_fault F kfpath = None" "read_fault F kfpath = None"
      "mkdir_fault F (Dir cfgpath) = None" "write_fault F cfgpath = None" "read_fault F cfgpath = None"
    and draw: "\<And>x. x \<in> set rejected \<Longrightarrow> \<not> in_fc00 C x" "in_fc00 C r"
    and nonzero: "\<not> PeerID_Empty (NewPeerID (PrivateKey_PublicKey C \<lparr>priv_bytes = to_array 32 r\<rparr>))"
  shows "\<exists>fs'. initCmdFunc C L M B T F E (map Inr rejected @ Inr r # rest) fs c = Some (fs', None) \<and>
    readPrivateKey C L B T F draws stdin fs' (sf_keyfile sf) = Some (Inr \<lparr>priv_bytes = to_array 32 r\<rparr>) \<and>
    Some (LoadConfig T F fs' (sf_config sf)) = map_option Inr (DefaultConfig L M) \<and>
    (\<forall>p. p \<noteq> kfpath \<longrightarrow> p \<noteq> cfgpath \<longrightarrow> fs' p = fs p)"
proof -
  define key where "key = \<lparr>priv_bytes = to_array 32 r\<rparr>"
  define kf where "kf = \<lparr>kf_PrivateKey = key, kf_PeerID = NewPeerID (PrivateKey_PublicKey C key),
    kf_IPAddr = PublicKey_IPAddr C (PrivateKey_PublicKey C key)\<rparr>"
  obtain b where b: "toml_Marshal T default_config = Inr b" "toml_DecodeConfig T b = Inr default_config"
    using default_config_read_back [OF ok(3)] by blast
  define fs' where "fs' = fs(kfpath \<mapsto> str_bytes (keyfile_text L B kf), cfgpath \<mapsto> b)"
  have "GeneratePrivateKey C (map Inr rejected @ Inr r # rest) = Some (Inr key)"
    using draw by (simp add: GeneratePrivateKey_skip GeneratePrivateKey_step key_def)
  then have init: "initCmdFunc C L M B T F E (map Inr rejected @ Inr r # rest) fs c = Some (fs', None)"
    using initCmdFunc_run [OF flags new(1,2) _ io(1,2,4,5) b(1)] by (simp add: fs'_def kf_def)
  obtain a where a: "kf_IPAddr kf = Addr6 a []" "length a = 16" using IPAddr_shape [OF ok(1)] by (auto simp: kf_def)
  have "wf_priv key" by (simp add: wf_priv_def key_def)
  then have "NewKeyfile C L B T (str_bytes (keyfile_text L B kf)) = Some (Inr kf)"
    using NewKeyfile_text [OF ok(2,3,4) _ _ _ a] lit nonzero by (simp add: kf_def key_def)
  then have "readPrivateKey C L B T F draws stdin fs' kfpath = Some (Inr key)"
    using start(4,5) new(3) io(3) by (simp add: readPrivateKey_def LoadKeyfile_def os_ReadFile_def fs'_def kf_def)
  moreover have "LoadConfig T F fs' cfgpath = Inr default_config"
    using io(6) b(2) by (simp add: LoadConfig_def os_ReadFile_def fs'_def)
  ultimately show ?thesis
    using init start_paths_init [OF flags(2) start(1,2,3)]
    by (simp add: DefaultConfig_value key_def fs'_def)
qed

definition no_faults :: os_faults where
  "no_faults = \<lparr>stat_fault = Map.empty, read_fault = Map.empty, write_fault = Map.empty, mkdir_fault = Map.empty\<rparr>"

definition ex_ctx :: cli_ctx where
  "ex_ctx = \<lparr>IsSet = (\<lambda>n. n = ''directory''), cli_String = (\<lambda>n. if n = ''directory'' then ''/r/./x/..'' else []), Args = []\<rparr>"

theorem init_then_start_witness:
  "\<exists>fs'. initCmdFunc ref_crypto hex_cid ref_maddr hex_multibase (ref_toml hex_cid ref_maddr) no_faults Inr
      (map Inr [] @ Inr (replicate 32 7) # []) Map.empty ex_ctx = Some (fs', None) \<and>
    readPrivateKey ref_crypto hex_cid hex_multibase (ref_toml hex_cid ref_maddr) no_faults [] [] fs' ''/r/keyfile.toml'' =
      Some (Inr \<lparr>priv_bytes = replicate 32 7\<rparr>)"
proof -
  have p: "Join ''/r/./x/..'' KeyfileName = ''/r/keyfile.toml''" "Join ''/r/./x/..'' ConfigName = ''/r/config.toml''" by code_simp+
  have key: "\<not> PeerID_Empty (NewPeerID (PrivateKey_PublicKey ref_crypto \<lparr>priv_bytes = to_array 32 (replicate 32 7)\<rparr>))"
    by code_simp
  then have cid: "cid_ok hex_cid" by (rule hex_cid_ok(1))
  show ?thesis
    using init_then_start [of ref_crypto hex_cid ref_maddr "ref_toml hex_cid ref_maddr" hex_multibase ex_ctx Inr
        "''/r/keyfile.toml''" "''/r/config.toml''" "\<lparr>sf_socket = Join ''/r/./x/..'' SocketName, sf_keyfile = ''/r/keyfile.toml'',
          sf_config = ''/r/config.toml'', sf_ephemeral = False, sf_stdin = False\<rparr>" no_faults Map.empty "[]" "replicate 32 7" "[]" "[]" "[]",
        OF ref_crypto_ok cid ref_toml_ok hex_multibase_ok hex_cid_literal] key
    by (auto simp: ex_ctx_def init_paths_def start_paths_def p no_faults_def os_Stat_def ref_in_fc00)
qed

text \<open>
  C23. Init overwrites nothing. Whatever happens, every file that existed before \<^verbatim>\<open>rovy init\<close> (and whose existence can
  be seen) is unchanged after it; and when one of its two files exists it fails without having changed anything.
\<close>

theorem init_keeps_files:
  assumes "initCmdFunc C L M B T F E draws fs c = Some (fs', result)" and "fs p \<noteq> None" and "stat_fault F p = None"
  shows "fs' p = fs p \<and> (init_paths E c = Inr (kfpath, cfgpath) \<longrightarrow> p = kfpath \<or> p = cfgpath \<longrightarrow> fs' = fs \<and> result \<noteq> None)"
proof (cases "\<exists>k g. init_paths E c = Inr (k, g) \<and> os_Stat F fs k \<noteq> None \<and> os_Stat F fs g \<noteq> None \<and>
    \<not> (IsSet c ''directory'' \<and> (IsSet c ''keyfile'' \<or> IsSet c ''config''))")
  case True
  then obtain k g where kg: "init_paths E c = Inr (k, g)" "os_Stat F fs k \<noteq> None" "os_Stat F fs g \<noteq> None"
    "\<not> (IsSet c ''directory'' \<and> (IsSet c ''keyfile'' \<or> IsSet c ''config''))" by blast
  then have p: "p \<noteq> k" "p \<noteq> g" using os_Stat_existing [of F p fs] assms(2,3) by auto
  obtain key where key: "MustGeneratePrivateKey C draws = Some key"
    using assms(1) kg by (auto simp: initCmdFunc_def bind_eq_Some_conv split: sum.splits if_splits)
  define kf where "kf = \<lparr>kf_PrivateKey = key, kf_PeerID = NewPeerID (PrivateKey_PublicKey C key),
    kf_IPAddr = PublicKey_IPAddr C (PrivateKey_PublicKey C key)\<rparr>"
  obtain fs1 e1 where w: "write_keyfile L B F fs k kf = (fs1, e1)" by fastforce
  have "fs1 p = fs p" using write_keyfile_frame [OF p(1), of L B F fs kf] w by simp
  moreover have "fs' = fs1 \<or> fs' = fst (write_config T F fs1 g default_config)"
    using assms(1) kg key w
    by (auto simp: initCmdFunc_def DefaultConfig_value Let_def kf_def split: option.splits)
  ultimately have "fs' p = fs p" using write_config_frame [OF p(2), of T F fs1] by auto
  then show ?thesis using p kg(1) by auto
next
  case False
  then show ?thesis
    using assms(1) by (auto simp: initCmdFunc_def split: sum.splits if_splits prod.splits)
qed

theorem init_keeps_files_witness:
  "initCmdFunc ref_crypto hex_cid ref_maddr hex_multibase (ref_toml hex_cid ref_maddr) no_faults Inr
      [Inr (replicate 32 7)] [''/r/config.toml'' \<mapsto> [1]] ex_ctx = Some ([''/r/config.toml'' \<mapsto> [1]], Some (Errorf ''config already exists'')) \<and>
   [''/r/config.toml'' \<mapsto> [1]] ''/r/config.toml'' = Some [1 :: byte]"
proof -
  have p: "Join ''/r/./x/..'' KeyfileName = ''/r/keyfile.toml''" "Join ''/r/./x/..'' ConfigName = ''/r/config.toml''" by code_simp+
  have run: "initCmdFunc ref_crypto hex_cid ref_maddr hex_multibase (ref_toml hex_cid ref_maddr) no_faults Inr
      [Inr (replicate 32 7)] [''/r/config.toml'' \<mapsto> [1]] ex_ctx = Some ([''/r/config.toml'' \<mapsto> [1]], Some (Errorf ''config already exists''))"
    by (simp add: initCmdFunc_def init_paths_def ex_ctx_def p os_Stat_def no_faults_def)
  show ?thesis using run init_keeps_files [OF run, of "''/r/config.toml''"] by (simp add: no_faults_def)
qed

section \<open>Where the commands look for the node\<close>

text \<open>
  The subcommands of \<^verbatim>\<open>rovy peer\<close> declare no flags, and the expansion of a path that does not start with a tilde is the path itself: they
  connect to the socket with the empty name, whatever is given on the command line.
\<close>

lemma peer_socket_empty:
  assumes "cmd \<in> {CmdPeerStatus, CmdPeerListen}" and "cli_ok cmd given c" and "E [] = Inr []"
  shows "getSocket E c = Inr []"
  using assms by (auto simp: cli_ok_def getSocket_def)

text \<open>The commands that declare them look where \<^verbatim>\<open>rovy start\<close> listens when both get the same flags.\<close>

lemma cli_directory:
  assumes "cli_ok cmd given c" and "cmd = CmdStart \<or> cmd = CmdInfo \<or> cmd = CmdStop"
  shows "cli_String c ''directory'' = (case given ''directory'' of None \<Rightarrow> DefaultDirectory | Some v \<Rightarrow> v)"
    "cli_String c ''socket'' = (case given ''socket'' of None \<Rightarrow> Join DefaultDirectory SocketName | Some v \<Rightarrow> v)"
    "IsSet c ''directory'' \<longleftrightarrow> given ''directory'' \<noteq> None"
proof -
  have s: "cli_String c n = (case map_of (command_flags cmd) n of None \<Rightarrow> [] | Some d \<Rightarrow> (case given n of None \<Rightarrow> d | Some v \<Rightarrow> v))"
    and i: "IsSet c n \<longleftrightarrow> n \<in> dom given \<inter> fst ` set (command_flags cmd)" for n
    using assms(1) unfolding cli_ok_def by blast+
  have "map_of (command_flags cmd) ''directory'' = Some DefaultDirectory" "map_of (command_flags cmd) ''socket'' = Some (Join DefaultDirectory SocketName)"
    "''directory'' \<in> fst ` set (command_flags cmd)"
    using assms(2) by (auto simp: directoryFlag_def socketFlag_def)
  then show "cli_String c ''directory'' = (case given ''directory'' of None \<Rightarrow> DefaultDirectory | Some v \<Rightarrow> v)"
    "cli_String c ''socket'' = (case given ''socket'' of None \<Rightarrow> Join DefaultDirectory SocketName | Some v \<Rightarrow> v)"
    "IsSet c ''directory'' \<longleftrightarrow> given ''directory'' \<noteq> None"
    unfolding s i by (simp_all add: dom_def)
qed

lemma getSocket_start:
  assumes "cli_ok CmdStart given c" and "cli_ok cmd given c'" and "cmd = CmdInfo \<or> cmd = CmdStop" and "start_paths E c = Inr sf"
  shows "getSocket E c' = Inr (sf_socket sf)"
proof -
  have "cmd = CmdStart \<or> cmd = CmdInfo \<or> cmd = CmdStop" using assms(3) by blast
  note c = cli_directory [OF assms(1)] and c' = cli_directory [OF assms(2) this]
  have "cli_String c' ''directory'' = cli_String c ''directory''" "cli_String c' ''socket'' = cli_String c ''socket''"
    "IsSet c' ''directory'' = IsSet c ''directory''" by (simp_all only: c c' simp_thms)
  with assms(4) show ?thesis
    unfolding getSocket_def start_paths_def Let_def by (auto split: sum.splits if_splits)
qed

text \<open>A socket is removed only when dialling it is refused, and a success leaves none.\<close>

lemma checkSocket_safe:
  assumes "checkSocket F dial remove fs socket = (fs', result)"
  shows "\<And>p. p \<noteq> socket \<Longrightarrow> fs' p = fs p"
    and "fs' socket \<noteq> fs socket \<Longrightarrow> \<exists>t. dial = Some t \<and> contains_text ''refused'' t"
    and "result = None \<Longrightarrow> stat_fault F socket = None \<Longrightarrow> fs' socket = None"
  using assms by (auto simp: checkSocket_def os_Stat_def split: option.splits if_splits)

end
