(* ===== verification/TunProperties.thy ===== *)
theory TunProperties
  imports Tun
begin

text \<open>What opening and configuring the tunnel device does to descriptors and connections.\<close>

section \<open>The device\<close>

lemma bindTun_fds: "bindTun S fds ifname = (fds', Inl e) \<Longrightarrow> fds' = fds"
  by (auto simp: bindTun_def Let_def split: sum.splits if_splits option.splits)

lemma bindTun_ok:
  "bindTun S fds ifname = (fds', Inr fd) \<Longrightarrow>
     fds' = fd # fds \<and> length ifname < IFNAMSIZ \<and> sys_Ioctl S fd (tun_request ifname) = None"
  by (auto simp: bindTun_def Let_def str_bytes_def split: sum.splits if_splits option.splits)

lemma tun_request_layout:
  assumes "length ifname < IFNAMSIZ"
  shows "tun_request ifname = str_bytes ifname @ replicate (16 - length ifname) 0 @ [0x01, 0x10] @ replicate 62 0"
proof -
  have f: "[ucast tun_flags, ucast (drop_bit 8 tun_flags)] = [0x01, 0x10 :: byte]" by code_simp
  have len: "length (str_bytes ifname) = length ifname" by (simp add: str_bytes_def)
  have "splice (replicate ifReqSize 0) 0 (take ifReqSize (str_bytes ifname)) =
      (str_bytes ifname @ replicate (16 - length ifname) 0) @ replicate 64 0"
    using assms len by (simp add: splice_def ifReqSize_def IFNAMSIZ_def replicate_add [symmetric])
  moreover have "length (str_bytes ifname @ replicate (16 - length ifname) (0 :: byte)) = 16"
    using assms len by (simp add: IFNAMSIZ_def)
  ultimately show ?thesis
    unfolding tun_request_def f by (simp add: splice_def IFNAMSIZ_def)
qed

text \<open>
  C25. Opening the device. The request of the ioctl has 80 bytes whatever the name; a name that reaches the system is
  shorter than 16 bytes and is followed by at least one zero byte before the flags; and a failing call leaves no
  descriptor open, a successful one exactly the one it returns.
\<close>

theorem tun_bind:
  assumes "bindTun S fds ifname = (fds', r)"
  shows "length (tun_request ifname) = 80 \<and>
    (case r of
       Inl _ \<Rightarrow> fds' = fds
     | Inr fd \<Rightarrow> fds' = fd # fds \<and>
         (\<exists>pad. pad > 0 \<and> length ifname + pad = 16 \<and>
            tun_request ifname = str_bytes ifname @ replicate pad 0 @ [0x01, 0x10] @ replicate 62 0))"
proof -
  have "length (tun_request ifname) = 80"
    by (simp add: tun_request_def splice_def ifReqSize_def IFNAMSIZ_def str_bytes_def)
  moreover have "\<exists>pad. pad > 0 \<and> length ifname + pad = 16 \<and>
      tun_request ifname = str_bytes ifname @ replicate pad 0 @ [0x01, 0x10] @ replicate 62 0" if "r = Inr fd" for fd
    using bindTun_ok [of S fds ifname fds' fd] assms that tun_request_layout [of ifname]
    by (intro exI [of _ "16 - length ifname"]) (simp add: IFNAMSIZ_def)
  ultimately show ?thesis
    using assms bindTun_fds [of S fds ifname] bindTun_ok [of S fds ifname] by (auto split: sum.splits)
qed

definition ref_tunsys :: tunsys where
  "ref_tunsys = \<lparr>sys_Open = Inr 5, sys_Ioctl = (\<lambda>_ _. None), sys_SetNonblock = (\<lambda>_. None),
     sys_InterfaceByName = (\<lambda>_. Some ''no such network interface''), sys_TUNFromFD = (\<lambda>_. None)\<rparr>"

theorem tun_bind_witness:
  "bindTun ref_tunsys [0, 1, 2] ''rovy0'' = ([5, 0, 1, 2], Inr 5) \<and> length (tun_request ''rovy0'') = 80"
proof -
  have run: "bindTun ref_tunsys [0, 1, 2] ''rovy0'' = ([5, 0, 1, 2], Inr 5)"
    by (simp add: bindTun_def ref_tunsys_def str_bytes_def IFNAMSIZ_def)
  then show ?thesis using tun_bind [OF run] by blast
qed

section \<open>NetworkManager\<close>

text \<open>Everything the first settings say holds in the second.\<close>

definition group_le :: "(string \<rightharpoonup> variant) option \<Rightarrow> (string \<rightharpoonup> variant) option \<Rightarrow> bool" where
  "group_le g h \<longleftrightarrow> (\<forall>m. g = Some m \<longrightarrow> (\<exists>m'. h = Some m' \<and> m \<subseteq>\<^sub>m m'))"

text \<open>
  The documented calls, over the connections and the active one: a connection that is added or updated has what was given,
  possibly among further settings; paths are unique.
\<close>

definition nm_ok :: "'n nmlib \<Rightarrow> ('n \<Rightarrow> (string \<times> settings) list) \<Rightarrow> ('n \<Rightarrow> (string \<times> string) option) \<Rightarrow> bool" where
  "nm_ok N conns active \<longleftrightarrow>
     (\<forall>n. distinct (map fst (conns n))) \<and>
     (\<forall>n ps. ListConnections N n = Inr ps \<longrightarrow> ps = map fst (conns n)) \<and>
     (\<forall>n p s. GetSettings N n p = Inr s \<longrightarrow> map_of (conns n) p = Some s) \<and>
     (\<forall>n cfg n' p. AddConnectionUnsaved N n cfg = (n', Inr p) \<longrightarrow>
        (\<exists>s. (\<forall>g. group_le (cfg g) (s g)) \<and> conns n' = conns n @ [(p, s)])) \<and>
     (\<forall>n p cfg n'. UpdateUnsaved N n p cfg = (n', None) \<longrightarrow>
        (\<exists>s. (\<forall>g. group_le (cfg g) (s g)) \<and> conns n' = map (\<lambda>(q, t). (q, if q = p then s else t)) (conns n))) \<and>
     (\<forall>n c d x n' a. ActivateConnection N n c d x = (n', Inr a) \<longrightarrow> conns n' = conns n \<and> active n' = Some (c, d))"

lemma nm_okD:
  assumes "nm_ok N conns active"
  shows "ListConnections N n = Inr ps \<Longrightarrow> ps = map fst (conns n)"
    "GetSettings N n p = Inr s \<Longrightarrow> map_of (conns n) p = Some s"
    "AddConnectionUnsaved N n cfg = (n', Inr p) \<Longrightarrow> \<exists>s. (\<forall>g. group_le (cfg g) (s g)) \<and> conns n' = conns n @ [(p, s)]"
    "UpdateUnsaved N n p cfg = (n', None) \<Longrightarrow>
       \<exists>s. (\<forall>g. group_le (cfg g) (s g)) \<and> conns n' = map (\<lambda>(q, t). (q, if q = p then s else t)) (conns n)"
    "ActivateConnection N n c d x = (n', Inr a) \<Longrightarrow> conns n' = conns n \<and> active n' = Some (c, d)"
    "distinct (map fst (conns n))"
proof -
  note laws = assms [unfolded nm_ok_def]
  show "ListConnections N n = Inr ps \<Longrightarrow> ps = map fst (conns n)" using laws by blast
  show "GetSettings N n p = Inr s \<Longrightarrow> map_of (conns n) p = Some s" using laws by blast
  show "AddConnectionUnsaved N n cfg = (n', Inr p) \<Longrightarrow> \<exists>s. (\<forall>g. group_le (cfg g) (s g)) \<and> conns n' = conns n @ [(p, s)]"
    using laws by blast
  show "UpdateUnsaved N n p cfg = (n', None) \<Longrightarrow>
       \<exists>s. (\<forall>g. group_le (cfg g) (s g)) \<and> conns n' = map (\<lambda>(q, t). (q, if q = p then s else t)) (conns n)"
    using laws by blast
  show "ActivateConnection N n c d x = (n', Inr a) \<Longrightarrow> conns n' = conns n \<and> active n' = Some (c, d)"
    using laws by blast
  show "distinct (map fst (conns n))" by (rule laws [THEN conjunct1, THEN spec])
qed

lemma find_conns_found:
  "find_conns N n ifname ps found = Some (Inr (p, Some cfg)) \<Longrightarrow>
     (p, Some cfg) = found \<or> (p \<in> set ps \<and> GetSettings N n p = Inr cfg \<and> conn_matches cfg ifname = Some True)"
proof (induction ps arbitrary: found)
  case (Cons q ps)
  then obtain t m where t: "GetSettings N n q = Inr t" "conn_matches t ifname = Some m"
    "find_conns N n ifname ps (if m then (q, Some t) else found) = Some (Inr (p, Some cfg))"
    by (auto simp: bind_eq_Some_conv split: sum.splits)
  from Cons.IH [OF t(3)] t(1,2) show ?case by (auto split: if_splits)
qed simp

lemma find_conns_none:
  "find_conns N n ifname ps found = Some (Inr (p, None)) \<Longrightarrow>
     snd found = None \<and> (\<forall>q\<in>set ps. \<exists>t. GetSettings N n q = Inr t \<and> conn_matches t ifname = Some False)"
proof (induction ps arbitrary: found)
  case (Cons q ps)
  then obtain t m where t: "GetSettings N n q = Inr t" "conn_matches t ifname = Some m"
    "find_conns N n ifname ps (if m then (q, Some t) else found) = Some (Inr (p, None))"
    by (auto simp: bind_eq_Some_conv split: sum.splits)
  from Cons.IH [OF t(3)] t(1,2) show ?case by (auto split: if_splits)
qed simp

lemma merge_conn_groups:
  "g \<in> {''802-3-ethernet'', ''tun'', ''ipv6'', ''ipv4''} \<Longrightarrow> merge_conn c m g = m g"
  "merge_conn c m ''connection'' = c ''connection''"
  by (auto simp: merge_conn_def)

text \<open>The connection of an interface, as the code prepares it.\<close>

definition configured :: "string \<Rightarrow> Addr \<Rightarrow> int \<Rightarrow> settings \<Rightarrow> bool" where
  "configured ifname ip mtu s \<longleftrightarrow>
     conn_matches s ifname = Some True \<and>
     (\<forall>g\<in>{''802-3-ethernet'', ''tun'', ''ipv6'', ''ipv4''}. group_le (prepareConn ifname ip mtu g) (s g))"

lemma map_leD: "m \<subseteq>\<^sub>m m' \<Longrightarrow> m k = Some v \<Longrightarrow> m' k = Some v"
  by (metis domI map_le_def)

lemma conn_matches_True:
  "conn_matches c ifname = Some True \<longleftrightarrow> (\<exists>m. c ''connection'' = Some m \<and> m ''interface-name'' = Some (VString ifname))"
  unfolding conn_matches_def by (simp split: option.split variant.split)

lemma group_leD: "group_le g h \<Longrightarrow> g = Some m \<Longrightarrow> \<exists>m'. h = Some m' \<and> m \<subseteq>\<^sub>m m'"
  by (simp add: group_le_def)

lemma matches_le:
  assumes "conn_matches c ifname = Some True" and "group_le (c ''connection'') (s ''connection'')"
  shows "conn_matches s ifname = Some True"
proof -
  obtain m where m: "c ''connection'' = Some m" "m ''interface-name'' = Some (VString ifname)"
    using iffD1 [OF conn_matches_True assms(1)] by (elim exE conjE) (rule that)
  obtain m' where m': "s ''connection'' = Some m'" "m \<subseteq>\<^sub>m m'"
    using group_leD [OF assms(2) m(1)] by (elim exE conjE) (rule that)
  have "m' ''interface-name'' = Some (VString ifname)" by (rule map_leD [where k = "''interface-name''", OF m'(2) m(2)])
  with m'(1) show ?thesis by (simp add: conn_matches_True)
qed

lemma map_of_updated: "map_of (map (\<lambda>(q, t). (q, if q = p then s else t)) xs) q = (if q = p then map_option (\<lambda>_. s) (map_of xs p) else map_of xs q)"
  by (induction xs) auto

lemma updateOrCreateConn_spec:
  assumes nm: "nm_ok N conns active" and run: "updateOrCreateConn N n ifname ip mtu = Some (n', Inr p)"
    and found: "findConn N n ifname = Some (Inr f)"
  shows "\<exists>s. map_of (conns n') p = Some s \<and> configured ifname ip mtu s \<and>
    (\<forall>q. q \<noteq> p \<longrightarrow> map_of (conns n') q = map_of (conns n) q) \<and>
    length (conns n') = length (conns n) + (if \<exists>t\<in>set (conns n). conn_matches (snd t) ifname = Some True then 0 else 1)"
proof -
  obtain ps where ps: "ListConnections N n = Inr ps" "find_conns N n ifname ps ([], None) = Some (Inr f)"
    using found by (auto simp: findConn_def split: sum.splits)
  have paths: "ps = map fst (conns n)" by (rule nm_okD(1) [OF nm ps(1)])
  obtain fp fc where f: "f = (fp, fc)" by fastforce
  show ?thesis
  proof (cases fc)
    case (Some cfg)
    have got: "GetSettings N n fp = Inr cfg" "conn_matches cfg ifname = Some True"
      using find_conns_found [of N n ifname ps "([], None)" fp cfg] ps(2) f Some by simp_all
    then have old: "map_of (conns n) fp = Some cfg" using nm_okD(2) [OF nm] by blast
    have up: "UpdateUnsaved N n fp (merge_conn cfg (prepareConn ifname ip mtu)) = (n', None)" and p: "p = fp"
      using run found f Some by (auto simp: updateOrCreateConn_def updateConn_def split: prod.splits option.splits)
    obtain s where s: "\<forall>g. group_le (merge_conn cfg (prepareConn ifname ip mtu) g) (s g)"
      "conns n' = map (\<lambda>(q, t). (q, if q = p then s else t)) (conns n)"
      using nm_okD(4) [OF nm up] p by blast
    have "configured ifname ip mtu s"
      unfolding configured_def
      using matches_le [OF got(2), of s] s(1) [THEN spec, of "''connection''"] s(1) merge_conn_groups(1) [of _ cfg "prepareConn ifname ip mtu"] merge_conn_groups(2) [of cfg "prepareConn ifname ip mtu"]
      by (intro conjI ballI) (simp, metis)
    moreover have "\<exists>t\<in>set (conns n). conn_matches (snd t) ifname = Some True"
      using map_of_SomeD [OF old] got(2) by (intro bexI [of _ "(fp, cfg)"]) simp_all
    ultimately show ?thesis using s(2) old p by (simp add: map_of_updated)
  next
    case None
    have no: "\<forall>q\<in>set ps. \<exists>t. GetSettings N n q = Inr t \<and> conn_matches t ifname = Some False"
      using find_conns_none [of N n ifname ps "([], None)" fp] ps(2) f None by simp
    have none: "\<not> (\<exists>t\<in>set (conns n). conn_matches (snd t) ifname = Some True)"
    proof
      assume "\<exists>t\<in>set (conns n). conn_matches (snd t) ifname = Some True"
      then obtain q t where qt: "(q, t) \<in> set (conns n)" "conn_matches t ifname = Some True" by auto
      then have "map_of (conns n) q = Some t" using nm_okD(6) [OF nm] by (simp add: map_of_is_SomeI)
      moreover obtain t' where "GetSettings N n q = Inr t'" "conn_matches t' ifname = Some False"
        using no qt(1) paths by force
      ultimately show False using nm_okD(2) [OF nm] qt(2) by fastforce
    qed
    have add: "AddConnectionUnsaved N n (prepareConn ifname ip mtu) = (n', Inr p)"
      using run found f None by (auto simp: updateOrCreateConn_def createConn_def split: prod.splits sum.splits)
    obtain s where s: "\<forall>g. group_le (prepareConn ifname ip mtu g) (s g)" "conns n' = conns n @ [(p, s)]" using nm_okD(3) [OF nm add] by blast
    have "distinct (map fst (conns n'))" by (rule nm_okD(6) [OF nm])
    then have "p \<notin> fst ` set (conns n)" unfolding s(2) by auto
    then have new: "map_of (conns n) p = None" by (simp add: map_of_eq_None_iff)
    have "conn_matches (prepareConn ifname ip mtu) ifname = Some True" by (simp add: conn_matches_def prepareConn_def)
    then have "configured ifname ip mtu s" using matches_le s(1) unfolding configured_def by blast
    then show ?thesis using s(2) new none by (simp add: map_add_def split: option.splits)
  qed
qed

lemma nm_activate_ok:
  assumes "nm_activate N S n fds ifname tunfd p = (n', fds', Inr fd)"
  shows "\<exists>d a. ActivateConnection N n p d ''/'' = (n', Inr a) \<and>
    (if tunfd = 0 then bindTun S fds ifname else (fds, Inr tunfd)) = (fds', Inr fd)"
proof -
  obtain d where d: "getDevice N n ifname = Inr d" using assms by (auto simp: nm_activate_def split: sum.splits)
  obtain n1 where act: "activateConn N n p d = (n1, None)"
    using assms d by (auto simp: nm_activate_def split: prod.splits option.splits)
  obtain fds1 fd1 where b: "(if tunfd = 0 then bindTun S fds ifname else (fds, Inr tunfd)) = (fds1, Inr fd1)"
    using assms d act by (cases "if tunfd = 0 then bindTun S fds ifname else (fds, Inr tunfd)") (auto simp: nm_activate_def split: sum.splits)
  have "n1 = n'" "fds1 = fds'" "fd1 = fd" using assms by (simp_all add: nm_activate_def d act b split: option.splits)
  moreover obtain a where "ActivateConnection N n p d ''/'' = (n1, Inr a)"
    using act by (auto simp: activateConn_def split: prod.splits sum.splits)
  ultimately show ?thesis using b by blast
qed

text \<open>
  C22. Configuring the tunnel. When NetworkManager lists its connections and starting the tunnel succeeds, the active connection belongs to the
  interface and has the MTU, the address, the route and the name server of the node; a connection that the interface had is reused,
  every other connection is unchanged; and the descriptor of the device is open.
\<close>

theorem nm_configures:
  assumes "nm_ok N conns active" and "NMTUN_Start N S bus n fds ifname ip mtu = Some (n', fds', Inr fd)"
    and "findConn N n ifname = Some (Inr f)"
  shows "\<exists>p d s. active n' = Some (p, d) \<and> map_of (conns n') p = Some s \<and> configured ifname ip mtu s \<and>
    (\<forall>q. q \<noteq> p \<longrightarrow> map_of (conns n') q = map_of (conns n) q) \<and>
    length (conns n') = length (conns n) + (if \<exists>t\<in>set (conns n). conn_matches (snd t) ifname = Some True then 0 else 1) \<and>
    fd \<in> set fds'"
proof -
  obtain present fds1 tunfd n1 p where b: "nm_bind S fds present ifname = (fds1, Inr tunfd)"
    and up: "updateOrCreateConn N n ifname ip mtu = Some (n1, Inr p)"
    and act: "nm_activate N S n1 fds1 ifname tunfd p = (n', fds', Inr fd)"
    using assms(2)
    by (auto simp: NMTUN_Start_def bind_eq_Some_conv split: option.splits sum.splits prod.splits) (metis Inl_Inr_False sum.exhaust)
  obtain d a where r: "ActivateConnection N n1 p d ''/'' = (n', Inr a)"
    "(if tunfd = 0 then bindTun S fds1 ifname else (fds1, Inr tunfd)) = (fds', Inr fd)"
    using nm_activate_ok [OF act] by blast
  have open_if: "tunfd = 0 \<or> present" using b by (auto simp: nm_bind_def split: if_splits)
  have act: "conns n' = conns n1" "active n' = Some (p, d)" using nm_okD(5) [OF assms(1) r(1)] by simp_all
  have "fd \<in> set fds'"
  proof (cases "tunfd = 0")
    case False
    then have "bindTun S fds ifname = (fds1, Inr tunfd)" using b open_if by (simp add: nm_bind_def)
    from bindTun_ok [OF this] show ?thesis using r(2) False by auto
  qed (use r(2) bindTun_ok in \<open>fastforce split: if_splits\<close>)
  with updateOrCreateConn_spec [OF assms(1) up assms(3)] act show ?thesis by auto
qed

text \<open>A NetworkManager that keeps its connections in a list and names them by their position.\<close>

definition nm_path :: "nat \<Rightarrow> string" where "nm_path i = CHR ''/'' # replicate i CHR ''c''"

definition ref_conns :: "settings list \<times> (string \<times> string) option \<Rightarrow> (string \<times> settings) list" where
  "ref_conns n = map (\<lambda>i. (nm_path i, fst n ! i)) [0..<length (fst n)]"

definition ref_nm :: "(settings list \<times> (string \<times> string) option) nmlib" where
  "ref_nm =
     \<lparr>ListConnections = (\<lambda>n. Inr (map fst (ref_conns n))),
      GetSettings = (\<lambda>n p. case map_of (ref_conns n) p of None \<Rightarrow> Inl (ErrExternal ''UnknownConnection'') | Some s \<Rightarrow> Inr s),
      AddConnectionUnsaved = (\<lambda>(ss, a) cfg. ((ss @ [cfg], a), Inr (nm_path (length ss)))),
      UpdateUnsaved = (\<lambda>(ss, a) p cfg.
        if p \<in> nm_path ` set [0..<length ss] then ((ss[length p - 1 := cfg], a), None) else ((ss, a), Some (ErrExternal ''UnknownConnection''))),
      GetDeviceByIpIface = (\<lambda>_ _. Inr ''/dev''),
      ActivateConnection = (\<lambda>(ss, a) c d _. ((ss, Some (c, d)), Inr ''/act''))\<rparr>"

lemma nm_path_eq [simp]: "nm_path i = nm_path j \<longleftrightarrow> i = j"
  by (auto simp: nm_path_def dest: arg_cong [where f = length])

lemma group_le_refl [simp]: "group_le g g"
  by (simp add: group_le_def)

lemma ref_nm_ok: "nm_ok ref_nm ref_conns snd"
proof -
  have up: "\<exists>s. (\<forall>g. group_le (cfg g) (s g)) \<and> ref_conns n' = map (\<lambda>(q, t). (q, if q = p then s else t)) (ref_conns n)"
    if "UpdateUnsaved ref_nm n p cfg = (n', None)" for n p cfg n'
  proof -
    obtain ss a where n: "n = (ss, a)" by fastforce
    from that n obtain i where i: "p = nm_path i" "i < length ss" "n' = (ss[i := cfg], a)"
      by (auto simp: ref_nm_def nm_path_def split: if_splits)
    then have "ref_conns n' = map (\<lambda>(q, t). (q, if q = p then cfg else t)) (ref_conns n)"
      by (auto simp: ref_conns_def n nth_list_update)
    then show ?thesis by (intro exI [of _ cfg]) simp
  qed
  have add: "\<exists>s. (\<forall>g. group_le (cfg g) (s g)) \<and> ref_conns n' = ref_conns n @ [(p, s)]"
    if "AddConnectionUnsaved ref_nm n cfg = (n', Inr p)" for n cfg n' p
    using that by (intro exI [of _ cfg]) (auto simp: ref_nm_def ref_conns_def nth_append split: prod.splits)
  have "distinct (map fst (ref_conns n))" for n
    by (simp add: ref_conns_def distinct_map inj_on_def comp_def)
  moreover have "ListConnections ref_nm n = Inr ps \<Longrightarrow> ps = map fst (ref_conns n)" for n ps by (simp add: ref_nm_def)
  moreover have "GetSettings ref_nm n p = Inr s \<Longrightarrow> map_of (ref_conns n) p = Some s" for n p s
    by (simp add: ref_nm_def split: option.splits)
  moreover have "ActivateConnection ref_nm n c d x = (n', Inr a) \<Longrightarrow> ref_conns n' = ref_conns n \<and> snd n' = Some (c, d)" for n c d x n' a
    by (auto simp: ref_nm_def ref_conns_def split: prod.splits)
  ultimately show ?thesis using up add unfolding nm_ok_def by (intro conjI allI impI) simp_all
qed

lemma ref_nm_run:
  "NMTUN_Start ref_nm ref_tunsys None ([], None) fds ''rovy0'' ip mtu =
     Some (([prepareConn ''rovy0'' ip mtu], Some (nm_path 0, ''/dev'')), 5 # fds, Inr 5)"
  by (simp add: NMTUN_Start_def checkTunExists_def nm_bind_def updateOrCreateConn_def findConn_def createConn_def nm_activate_def
      getDevice_def activateConn_def bindTun_def ref_nm_def ref_conns_def ref_tunsys_def str_bytes_def IFNAMSIZ_def)

theorem nm_configures_witness:
  "\<exists>n' fds'. NMTUN_Start ref_nm ref_tunsys None ([], None) [0, 1, 2] ''rovy0'' (Addr6 (0xfc # replicate 15 7) []) 1292 = Some (n', fds', Inr 5) \<and>
    (\<exists>p d s. snd n' = Some (p, d) \<and> map_of (ref_conns n') p = Some s \<and> configured ''rovy0'' (Addr6 (0xfc # replicate 15 7) []) 1292 s)"
proof -
  have "findConn ref_nm ([], None) ''rovy0'' = Some (Inr ([], None))" by (simp add: findConn_def ref_nm_def ref_conns_def)
  from nm_configures [OF ref_nm_ok ref_nm_run this] ref_nm_run show ?thesis by blast
qed

text \<open>An error of the search is dropped: nothing is created, and the start goes on with an empty path.\<close>

lemma nm_search_error_dropped:
  assumes "ListConnections N n = Inl e"
  shows "updateOrCreateConn N n ifname ip mtu = Some (n, Inr [])"
  using assms by (simp add: updateOrCreateConn_def findConn_def)

end
