(* ===== verification/Cbor.thy ===== *)
theory Cbor
  imports Discovery Instances
begin

text \<open>
  An executable coder for the CBOR of announcements, with the layout that the CBOR package gives the
  type: a map per struct with the names of its fields as text keys, byte strings for the types with a
  binary form, and null for a missing further part. It shows that what \<open>discovery_roundtrip\<close> relies on of
  the package can hold.
\<close>

section \<open>Heads and strings\<close>

definition cbor_head :: "byte \<Rightarrow> u16 \<Rightarrow> bytes" where
  "cbor_head major n =
     (if n < 24 then [major + ucast n] else if n < 256 then [major + 24, ucast n] else (major + 25) # be_bytes16 n)"

fun read_head :: "byte \<Rightarrow> bytes \<Rightarrow> (u16 \<times> bytes) option" where
  "read_head major [] = None"
| "read_head major (b # r) =
     (let v = b - major
      in if v < 24 then Some (ucast v, r)
         else if v = 24 then (case r of [] \<Rightarrow> None | x # r \<Rightarrow> Some (ucast x, r))
         else if v = 25 then map_option (\<lambda>n. (n, drop 2 r)) (be_uint16 r)
         else None)"

lemma u16_byte:
  fixes n :: u16
  assumes "n < 256"
  shows "ucast (ucast n :: byte) = n" "uint (ucast n :: byte) = uint n"
proof -
  have "uint n < 256" using assms by (simp add: word_less_def)
  then show "ucast (ucast n :: byte) = n" "uint (ucast n :: byte) = uint n"
    by (simp_all add: word_uint_eq_iff unsigned_ucast_eq unsigned_take_bit_eq take_bit_int_eq_self)
qed

lemma read_head_head [simp]: "read_head major (cbor_head major n @ r) = Some (n, r)"
proof -
  consider "n < 24" | "\<not> n < 24" "n < 256" | "\<not> n < 24" "\<not> n < 256" by blast
  then show ?thesis
  proof cases
    case 1
    then have "n < 256" by (simp add: word_less_def)
    with 1 u16_byte [of n] show ?thesis by (simp add: cbor_head_def word_less_def)
  next
    case 2
    with u16_byte [of n] show ?thesis by (simp add: cbor_head_def)
  next
    case 3
    then show ?thesis by (simp add: cbor_head_def)
  qed
qed

lemma length_cbor_head: "length (cbor_head major n) \<le> 3"
  by (simp add: cbor_head_def)

definition cbor_string :: "byte \<Rightarrow> bytes \<Rightarrow> bytes" where
  "cbor_string major b = cbor_head major (of_nat (length b)) @ b"

definition read_string :: "byte \<Rightarrow> bytes \<Rightarrow> (bytes \<times> bytes) option" where
  "read_string major r = do {
     (n, r) \<leftarrow> read_head major r;
     if length r < unat n then None else Some (take (unat n) r, drop (unat n) r) }"

lemma read_string_string [simp]: "length b < 2 ^ 16 \<Longrightarrow> read_string major (cbor_string major b @ r) = Some (b, r)"
  by (simp add: read_string_def cbor_string_def unat_of_nat)

lemma length_cbor_string: "length (cbor_string major b) \<le> 3 + length b"
  using length_cbor_head [of major "of_nat (length b)"] by (simp add: cbor_string_def)

definition cbor_key :: "string \<Rightarrow> bytes" where "cbor_key name = cbor_string 0x60 (str_bytes name)"

definition read_key :: "string \<Rightarrow> bytes \<Rightarrow> bytes option" where
  "read_key name r = do { (k, r) \<leftarrow> read_string 0x60 r; if k = str_bytes name then Some r else None }"

lemma read_key_key [simp]: "length name < 2 ^ 16 \<Longrightarrow> read_key name (cbor_key name @ r) = Some r"
  by (simp add: read_key_def cbor_key_def str_bytes_def)

section \<open>Announcements\<close>

text \<open>The binary form of an address: its bytes and its zone.\<close>

fun addr_binary :: "Addr \<Rightarrow> bytes" where
  "addr_binary AddrZero = []"
| "addr_binary (Addr4 b) = b"
| "addr_binary (Addr6 b zone) = b @ str_bytes zone"

definition read_addr_binary :: "bytes \<Rightarrow> Addr option" where
  "read_addr_binary b =
     (if b = [] then Some AddrZero else if length b = 4 then Some (Addr4 b)
      else if length b < 16 then None else Some (Addr6 (take 16 b) (map (\<lambda>b. char_of (unat b)) (drop 16 b))))"

definition cbor_multiaddr :: "'cid cidlib \<Rightarrow> Multiaddr \<Rightarrow> bytes" where
  "cbor_multiaddr L ma =
     cbor_head 0xa0 4 @ cbor_key ''IP'' @ cbor_string 0x40 (addr_binary (IP ma)) @ cbor_key ''Port'' @ cbor_head 0 (Port ma) @
     cbor_key ''PeerID'' @ cbor_string 0x40 (PeerID_Bytes L (MaPeerID ma)) @ cbor_key ''More'' @ [0xf6]"

definition cbor_encodable :: "'cid cidlib \<Rightarrow> LinkLocalPacket \<Rightarrow> bool" where
  "cbor_encodable L p \<longleftrightarrow> length (PeerID_Bytes L (llp_PeerID p)) < 2 ^ 16 \<and> length (llp_Addrs p) < 2 ^ 16 \<and>
     list_all (\<lambda>ma. length (addr_binary (IP ma)) < 2 ^ 16 \<and> length (PeerID_Bytes L (MaPeerID ma)) < 2 ^ 16 \<and> More ma = None) (llp_Addrs p)"

definition cbor_Marshal :: "'cid cidlib \<Rightarrow> LinkLocalPacket \<Rightarrow> err + bytes" where
  "cbor_Marshal L p =
     (if cbor_encodable L p
      then Inr (cbor_head 0xa0 2 @ cbor_key ''PeerID'' @ cbor_string 0x40 (PeerID_Bytes L (llp_PeerID p)) @
             cbor_key ''Addrs'' @ cbor_head 0x80 (of_nat (length (llp_Addrs p))) @ concat (map (cbor_multiaddr L) (llp_Addrs p)))
      else Inl (ErrExternal ''cbor: not supported''))"

text \<open>Decoding, the fields in the order in which they were written.\<close>

definition read_peerid :: "'cid cidlib \<Rightarrow> bytes \<Rightarrow> (PeerID \<times> bytes) option" where
  "read_peerid L r = do {
     (b, r) \<leftarrow> read_string 0x40 r;
     pid \<leftarrow> PeerID_UnmarshalBinary L b;
     (case pid of Inl _ \<Rightarrow> None | Inr pid \<Rightarrow> Some (pid, r)) }"

definition read_multiaddr :: "'cid cidlib \<Rightarrow> bytes \<Rightarrow> (Multiaddr \<times> bytes) option" where
  "read_multiaddr L r = do {
     (n, r) \<leftarrow> read_head 0xa0 r;
     if n \<noteq> 4 then None else do {
       r \<leftarrow> read_key ''IP'' r;
       (b, r) \<leftarrow> read_string 0x40 r;
       ip \<leftarrow> read_addr_binary b;
       r \<leftarrow> read_key ''Port'' r;
       (port, r) \<leftarrow> read_head 0 r;
       r \<leftarrow> read_key ''PeerID'' r;
       (pid, r) \<leftarrow> read_peerid L r;
       r \<leftarrow> read_key ''More'' r;
       (case r of [] \<Rightarrow> None
        | x # r \<Rightarrow> if x \<noteq> 0xf6 then None else Some (\<lparr>IP = ip, Port = port, MaPeerID = pid, More = None\<rparr>, r)) } }"

fun read_multiaddrs :: "'cid cidlib \<Rightarrow> nat \<Rightarrow> bytes \<Rightarrow> (Multiaddr list \<times> bytes) option" where
  "read_multiaddrs L 0 r = Some ([], r)"
| "read_multiaddrs L (Suc n) r = do {
     (ma, r) \<leftarrow> read_multiaddr L r;
     (mas, r) \<leftarrow> read_multiaddrs L n r;
     Some (ma # mas, r) }"

definition read_packet :: "'cid cidlib \<Rightarrow> bytes \<Rightarrow> (LinkLocalPacket \<times> bytes) option" where
  "read_packet L r = do {
     (n, r) \<leftarrow> read_head 0xa0 r;
     if n \<noteq> 2 then None else do {
       r \<leftarrow> read_key ''PeerID'' r;
       (pid, r) \<leftarrow> read_peerid L r;
       r \<leftarrow> read_key ''Addrs'' r;
       (k, r) \<leftarrow> read_head 0x80 r;
       (mas, r) \<leftarrow> read_multiaddrs L (unat k) r;
       Some (\<lparr>llp_PeerID = pid, llp_Addrs = mas\<rparr>, r) } }"

definition cbor_Unmarshal :: "'cid cidlib \<Rightarrow> bytes \<Rightarrow> err + LinkLocalPacket" where
  "cbor_Unmarshal L b =
     (case read_packet L b of Some (p, []) \<Rightarrow> Inr p | _ \<Rightarrow> Inl (ErrExternal ''cbor: invalid''))"

section \<open>Round trip\<close>

text \<open>Addresses that are read from an interface: no zone.\<close>

definition plain_addr :: "Addr \<Rightarrow> bool" where
  "plain_addr a \<longleftrightarrow> (\<exists>b. a = Addr6 b [] \<and> length b = 16)"

lemma read_peerid_string:
  assumes "cid_ok L" and "length (PeerID_Bytes L pid) < 2 ^ 16"
  shows "read_peerid L (cbor_string 0x40 (PeerID_Bytes L pid) @ r) = Some (pid, r)"
  using assms PeerID_Unmarshal_Marshal [OF assms(1), of pid "PeerID_Bytes L pid"]
  by (simp add: read_peerid_def PeerID_MarshalBinary_def PeerID_Bytes_def)

lemma read_multiaddr_multiaddr:
  assumes "cid_ok L" and "plain_addr (IP ma)" and "More ma = None" and "length (PeerID_Bytes L (MaPeerID ma)) < 2 ^ 16"
  shows "read_multiaddr L (cbor_multiaddr L ma @ r) = Some (ma, r)"
proof -
  obtain b where b: "IP ma = Addr6 b []" "length b = 16" using assms(2) by (auto simp: plain_addr_def)
  then have "read_addr_binary (addr_binary (IP ma)) = Some (IP ma)" "length (addr_binary (IP ma)) < 2 ^ 16"
    by (auto simp: read_addr_binary_def str_bytes_def)
  with assms(3) read_peerid_string [OF assms(1,4)] show ?thesis
    by (simp add: read_multiaddr_def cbor_multiaddr_def)
qed

lemma read_multiaddrs_concat:
  assumes "cid_ok L"
  shows "list_all (\<lambda>ma. plain_addr (IP ma) \<and> More ma = None \<and> length (PeerID_Bytes L (MaPeerID ma)) < 2 ^ 16) mas \<Longrightarrow>
    read_multiaddrs L (length mas) (concat (map (cbor_multiaddr L) mas) @ r) = Some (mas, r)"
  by (induction mas) (simp_all add: read_multiaddr_multiaddr [OF assms])

lemma cbor_roundtrip:
  assumes "cid_ok L" and "cbor_Marshal L p = Inr b" and "list_all (\<lambda>ma. plain_addr (IP ma)) (llp_Addrs p)"
  shows "cbor_Unmarshal L b = Inr p"
proof -
  have e: "cbor_encodable L p" and b: "b = cbor_head 0xa0 2 @ cbor_key ''PeerID'' @ cbor_string 0x40 (PeerID_Bytes L (llp_PeerID p)) @
      cbor_key ''Addrs'' @ cbor_head 0x80 (of_nat (length (llp_Addrs p))) @ concat (map (cbor_multiaddr L) (llp_Addrs p)) @ []"
    using assms(2) by (simp_all add: cbor_Marshal_def split: if_splits)
  have l: "unat (of_nat (length (llp_Addrs p)) :: u16) = length (llp_Addrs p)" "length (PeerID_Bytes L (llp_PeerID p)) < 2 ^ 16"
    using e by (simp_all add: cbor_encodable_def unat_of_nat)
  have mas: "read_multiaddrs L (length (llp_Addrs p)) (concat (map (cbor_multiaddr L) (llp_Addrs p)) @ []) = Some (llp_Addrs p, [])"
    by (rule read_multiaddrs_concat [OF assms(1)]) (use e assms(3) in \<open>auto simp: cbor_encodable_def list_all_iff\<close>)
  show ?thesis
    unfolding cbor_Unmarshal_def read_packet_def b using l mas read_peerid_string [OF assms(1) l(2)] by simp
qed

text \<open>One address without a zone, with identities of up to 100 bytes: far below the size of the receiver's buffer.\<close>

lemma cbor_length:
  assumes "cbor_Marshal L \<lparr>llp_PeerID = pid, llp_Addrs = [ma]\<rparr> = Inr b" and "plain_addr (IP ma)" and "\<And>p. length (PeerID_Bytes L p) \<le> 100"
  shows "length b \<le> 1280"
proof -
  obtain a where "IP ma = Addr6 a []" "length a = 16" using assms(2) by (auto simp: plain_addr_def)
  then have ip: "length (addr_binary (IP ma)) = 16" by (simp add: str_bytes_def)
  have k: "length (cbor_key name) \<le> 3 + length name" for name
    using length_cbor_string [of "0x60" "str_bytes name"] by (simp add: cbor_key_def str_bytes_def)
  have "length (cbor_multiaddr L ma) \<le> 200"
    using length_cbor_head [of "0xa0" 4] length_cbor_head [of 0 "Port ma"] length_cbor_string [of "0x40" "addr_binary (IP ma)"] ip
      length_cbor_string [of "0x40" "PeerID_Bytes L (MaPeerID ma)"] assms(3) [of "MaPeerID ma"] k [of "''IP''"] k [of "''Port''"] k [of "''PeerID''"] k [of "''More''"]
    by (simp add: cbor_multiaddr_def)
  then show ?thesis
    using assms(1) length_cbor_head [of "0xa0" 2] length_cbor_head [of "0x80" 1] length_cbor_string [of "0x40" "PeerID_Bytes L pid"] assms(3) [of pid]
      k [of "''PeerID''"] k [of "''Addrs''"]
    by (auto simp: cbor_Marshal_def split: if_splits)
qed

lemma ref_cid_length: "length (PeerID_Bytes ref_cid pid) \<le> 100"
  by (simp add: PeerID_Bytes_def PeerID_Cid_def ref_cid_def PublicKey_Bytes_def PeerID_PublicKey_bytes)

end
