(* ===== verification/DiscoveryProperties.thy ===== *)
theory DiscoveryProperties
  imports Cbor NodeProperties Simulation
begin

text \<open>What the discovery service promises: one service at a time, and announcements that can be used.\<close>

section \<open>The calls\<close>

text \<open>
  The contract of the two calls, over what a caller can know: whether a service was ever started and
  whether it runs.
\<close>

datatype disco_call = CallStart "err option" int | CallStop

fun spec_call :: "disco_call \<Rightarrow> bool option \<Rightarrow> bool option \<times> err option" where
  "spec_call (CallStart ListenUDP _) _ = (Some True, map_option (\<lambda>_. Errorf ''discovery'') ListenUDP)"
| "spec_call CallStop None = (None, Some ErrServiceUnknown)"
| "spec_call CallStop (Some r) = (Some False, if r then None else Some ErrServiceNotRunning)"

fun impl_call :: "disco_call \<Rightarrow> ServiceManager \<Rightarrow> ServiceManager \<times> err option" where
  "impl_call (CallStart ListenUDP ivl) sm = StartLinkLocal ListenUDP sm ivl"
| "impl_call CallStop sm = StopLinkLocal sm"

definition abs_service :: "ServiceManager \<Rightarrow> bool option" where
  "abs_service sm = map_option (\<lambda>p. LL_Running (objects sm ! p)) (services sm ServiceTagLinkLocal)"

definition services_ok :: "ServiceManager \<Rightarrow> bool" where
  "services_ok sm \<longleftrightarrow> (\<forall>tag p. services sm tag = Some p \<longrightarrow> p < length (objects sm))"

text \<open>What the two calls do to the table and the objects.\<close>

lemma StartLinkLocal_run:
  assumes "services_ok sm"
  obtains objs where "StartLinkLocal lis sm ivl =
      (sm\<lparr>services := (services sm)(ServiceTagLinkLocal \<mapsto> length (objects sm)),
          objects := objs @ [fst (LL_Start lis (newLinkLocal ivl))]\<rparr>, snd (LL_Start lis (newLinkLocal ivl)))"
    "objs = (case services sm ServiceTagLinkLocal of None \<Rightarrow> objects sm
             | Some p \<Rightarrow> (objects sm)[p := fst (LL_Stop (objects sm ! p))])" "length objs = length (objects sm)"
proof -
  define objs where "objs = (case services sm ServiceTagLinkLocal of None \<Rightarrow> objects sm
             | Some p \<Rightarrow> (objects sm)[p := fst (LL_Stop (objects sm ! p))])"
  have len: "length objs = length (objects sm)" by (simp add: objs_def split: option.splits)
  have "Services_Add (sm\<lparr>objects := objects sm @ [newLinkLocal ivl]\<rparr>) ServiceTagLinkLocal (length (objects sm)) =
      (sm\<lparr>services := (services sm)(ServiceTagLinkLocal \<mapsto> length (objects sm)), objects := objs @ [newLinkLocal ivl]\<rparr>, None)"
    using assms
    by (auto simp: Services_Add_def objs_def on_object_def services_ok_def list_update_append nth_append split: option.splits prod.splits)
  then have "StartLinkLocal lis sm ivl =
      (sm\<lparr>services := (services sm)(ServiceTagLinkLocal \<mapsto> length (objects sm)),
          objects := objs @ [fst (LL_Start lis (newLinkLocal ivl))]\<rparr>, snd (LL_Start lis (newLinkLocal ivl)))"
    using len by (simp add: StartLinkLocal_def Services_Start_def on_object_def list_update_append nth_append split: prod.splits)
  with that len show thesis by (simp add: objs_def)
qed

lemma StopLinkLocal_run:
  "StopLinkLocal sm = (case services sm ServiceTagLinkLocal of
     None \<Rightarrow> (sm, Some ErrServiceUnknown)
   | Some p \<Rightarrow> (sm\<lparr>objects := (objects sm)[p := fst (LL_Stop (objects sm ! p))]\<rparr>, snd (LL_Stop (objects sm ! p))))"
  by (simp add: StopLinkLocal_def Services_Stop_def on_object_def split: option.splits prod.splits)

lemma newLinkLocal_start:
  "LL_Running (fst (LL_Start lis (newLinkLocal ivl)))"
  "snd (LL_Start lis (newLinkLocal ivl)) = map_option (\<lambda>_. Errorf ''discovery'') lis"
  by (simp_all add: LL_Start_def LL_Running_def newLinkLocal_def Let_def split: option.splits)

lemma call_refines:
  assumes "services_ok sm"
  shows "services_ok (fst (impl_call c sm))" "abs_service (fst (impl_call c sm)) = fst (spec_call c (abs_service sm))"
    "snd (impl_call c sm) = snd (spec_call c (abs_service sm))"
proof -
  have "services_ok (fst (impl_call c sm)) \<and> abs_service (fst (impl_call c sm)) = fst (spec_call c (abs_service sm)) \<and>
    snd (impl_call c sm) = snd (spec_call c (abs_service sm))"
  proof (cases c)
    case (CallStart lis ivl)
    obtain objs where run: "StartLinkLocal lis sm ivl =
        (sm\<lparr>services := (services sm)(ServiceTagLinkLocal \<mapsto> length (objects sm)),
            objects := objs @ [fst (LL_Start lis (newLinkLocal ivl))]\<rparr>, snd (LL_Start lis (newLinkLocal ivl)))"
      "length objs = length (objects sm)" using StartLinkLocal_run [OF assms] by metis
    have "services_ok (fst (impl_call c sm))"
      using assms run CallStart by (auto simp: services_ok_def less_Suc_eq)
    with CallStart run show ?thesis by (simp add: abs_service_def newLinkLocal_start nth_append)
  next
    case CallStop
    show ?thesis
    proof (cases "services sm ServiceTagLinkLocal")
      case (Some p)
      then have "p < length (objects sm)" using assms by (auto simp: services_ok_def)
      moreover have "\<not> LL_Running (fst (LL_Stop ll))" "snd (LL_Stop ll) = (if LL_Running ll then None else Some ErrServiceNotRunning)" for ll
        using linklocal.stop_running [of ll] linklocal.stop_again [of ll] by (cases "LL_Running ll"; simp)+
      ultimately show ?thesis
        using CallStop Some assms by (simp add: StopLinkLocal_run abs_service_def services_ok_def)
    qed (use CallStop assms in \<open>simp add: StopLinkLocal_run abs_service_def\<close>)
  qed
  then show "services_ok (fst (impl_call c sm))" "abs_service (fst (impl_call c sm)) = fst (spec_call c (abs_service sm))"
    "snd (impl_call c sm) = snd (spec_call c (abs_service sm))" by simp_all
qed

interpretation services: simulation services_ok "\<lambda>_. True" abs_service impl_call spec_call "(=)"
  by unfold_locales (simp_all add: call_refines)

section \<open>The routines\<close>

text \<open>
  An iteration of a routine; \<^const>\<open>None\<close> is the end of the process by a panic. A tick of the announcing routine writes
  datagrams and changes nothing here.
\<close>

definition set_object :: "ServiceManager \<Rightarrow> nat \<Rightarrow> LinkLocal \<Rightarrow> ServiceManager" where
  "set_object sm p ll = sm\<lparr>objects := (objects sm)[p := ll]\<rparr>"

inductive routine_step :: "ServiceManager \<Rightarrow> ServiceManager option \<Rightarrow> bool" where
  check: "p < length (objects sm) \<Longrightarrow> ll_recv (objects sm ! p) = RecvCheck \<Longrightarrow>
    routine_step sm (Some (set_object sm p (receiveRoutine_check (objects sm ! p))))"
| read: "p < length (objects sm) \<Longrightarrow> ll_recv (objects sm ! p) = RecvRead \<Longrightarrow>
    routine_step sm (Some (set_object sm p (receiveRoutine_read unm (objects sm ! p) rd)))"
| begin_announce: "p < length (objects sm) \<Longrightarrow> ll_announcing (objects sm ! p) \<Longrightarrow> \<not> ll_ticker (objects sm ! p) \<Longrightarrow>
    routine_step sm (map_option (set_object sm p) (announceRoutine_begin (objects sm ! p)))"
| end_announce: "p < length (objects sm) \<Longrightarrow> ll_ticker (objects sm ! p) \<Longrightarrow>
    routine_step sm (Some (set_object sm p (announceRoutine_stop (objects sm ! p))))"

text \<open>Calls that are made one after another, with their results, and any iterations of routines between them.\<close>

inductive disco_run :: "disco_call list \<Rightarrow> err option list \<Rightarrow> ServiceManager option \<Rightarrow> bool" where
  new: "disco_run [] [] (Some NewServiceManager)"
| call: "disco_run cs rs (Some sm) \<Longrightarrow> impl_call c sm = (sm', r) \<Longrightarrow> disco_run (cs @ [c]) (rs @ [r]) (Some sm')"
| routine: "disco_run cs rs (Some sm) \<Longrightarrow> routine_step sm st \<Longrightarrow> disco_run cs rs st"

lemma routine_props:
  "LL_Running (receiveRoutine_check ll) = LL_Running ll" "LL_Running (receiveRoutine_read unm ll rd) = LL_Running ll"
  "LL_Running (announceRoutine_stop ll) = LL_Running ll" "announceRoutine_begin ll = Some ll' \<Longrightarrow> LL_Running ll' = LL_Running ll"
  by (auto simp: receiveRoutine_check_def receiveRoutine_read_def announceRoutine_stop_def announceRoutine_begin_def LL_Running_def Let_def
      split: sum.split prod.split if_splits)

lemma routine_announcing:
  "ll_announcing (receiveRoutine_check ll) = ll_announcing ll" "ll_announcing (receiveRoutine_read unm ll rd) = ll_announcing ll"
  "ll_announcing (announceRoutine_stop ll) \<Longrightarrow> ll_announcing ll" "announceRoutine_begin ll = Some ll' \<Longrightarrow> ll_announcing ll' = ll_announcing ll"
  "Interval (receiveRoutine_check ll) = Interval ll" "Interval (receiveRoutine_read unm ll rd) = Interval ll"
  "Interval (announceRoutine_stop ll) = Interval ll" "announceRoutine_begin ll = Some ll' \<Longrightarrow> Interval ll' = Interval ll"
  by (auto simp: receiveRoutine_check_def receiveRoutine_read_def announceRoutine_stop_def announceRoutine_begin_def Let_def
      split: sum.split prod.split if_splits)

text \<open>A step of a routine changes one object, starts nothing, and ends the process only for an interval that is not positive.\<close>

lemma routine_step_object:
  assumes "routine_step sm (Some sm')"
  obtains p ll where "p < length (objects sm)" "sm' = set_object sm p ll" "LL_Running ll = LL_Running (objects sm ! p)"
    "Interval ll = Interval (objects sm ! p)" "ll_announcing ll \<Longrightarrow> ll_announcing (objects sm ! p)"
  using assms
proof cases
  case (check p)
  with that [of p "receiveRoutine_check (objects sm ! p)"] show thesis by (simp add: routine_props routine_announcing)
next
  case (read p unm rd)
  with that [of p "receiveRoutine_read unm (objects sm ! p) rd"] show thesis by (simp add: routine_props routine_announcing)
next
  case (begin_announce p)
  then obtain ll where "announceRoutine_begin (objects sm ! p) = Some ll" "sm' = set_object sm p ll"
    by (cases "announceRoutine_begin (objects sm ! p)") auto
  with that [of p ll] begin_announce show thesis by (simp add: routine_props routine_announcing)
next
  case (end_announce p)
  with that [of p "announceRoutine_stop (objects sm ! p)"] show thesis by (auto simp: routine_props routine_announcing)
qed

lemma routine_step_panic:
  "routine_step sm None \<Longrightarrow> \<exists>ll\<in>set (objects sm). ll_announcing ll \<and> Interval ll \<le> 0"
  by (erule routine_step.cases) (auto simp: announceRoutine_begin_def split: if_splits)

lemma newly_stopped: "\<not> LL_Running (fst (LL_Stop ll))"
  by (simp add: LL_Stop_def LL_Running_def)

lemma set_object_service:
  assumes "p < length (objects sm)" and "LL_Running ll = LL_Running (objects sm ! p)"
  shows "abs_service (set_object sm p ll) = abs_service sm" "services_ok (set_object sm p ll) = services_ok sm"
  using assms by (auto simp: abs_service_def services_ok_def set_object_def nth_list_update split: option.splits)

text \<open>The service that announces with an interval was started with it, and its socket was opened.\<close>

definition announces_started :: "disco_call list \<Rightarrow> ServiceManager \<Rightarrow> bool" where
  "announces_started cs sm \<longleftrightarrow> list_all (\<lambda>ll. ll_announcing ll \<longrightarrow> CallStart None (Interval ll) \<in> set cs) (objects sm)"

lemma LL_Stop_keeps: "ll_announcing (fst (LL_Stop ll)) = ll_announcing ll" "Interval (fst (LL_Stop ll)) = Interval ll"
  by (simp_all add: LL_Stop_def)

lemma announces_update:
  "announces_started cs sm \<Longrightarrow> (ll_announcing ll \<Longrightarrow> ll_announcing (objects sm ! p)) \<Longrightarrow> Interval ll = Interval (objects sm ! p) \<Longrightarrow>
     announces_started cs (set_object sm p ll)"
  by (cases "p < length (objects sm)") (auto simp: announces_started_def list_all_length set_object_def nth_list_update list_update_beyond)

lemma announces_call:
  assumes "services_ok sm" and "announces_started cs sm"
  shows "announces_started (cs @ [c]) (fst (impl_call c sm))"
proof -
  have st: "announces_started (cs @ [c]) (set_object sm p (fst (LL_Stop (objects sm ! p))))" for p
    by (rule announces_update) (use assms(2) in \<open>auto simp: announces_started_def list_all_iff LL_Stop_keeps\<close>)
  have old: "announces_started (cs @ [c]) sm" using assms(2) by (auto simp: announces_started_def list_all_iff)
  show ?thesis
  proof (cases c)
    case (CallStart lis ivl)
    obtain objs where run: "fst (impl_call c sm) = sm\<lparr>services := (services sm)(ServiceTagLinkLocal \<mapsto> length (objects sm)),
            objects := objs @ [fst (LL_Start lis (newLinkLocal ivl))]\<rparr>"
      and objs: "objs = (case services sm ServiceTagLinkLocal of None \<Rightarrow> objects sm
             | Some p \<Rightarrow> (objects sm)[p := fst (LL_Stop (objects sm ! p))])"
      by (rule StartLinkLocal_run [OF assms(1), of lis ivl]) (simp add: CallStart)
    have "list_all (\<lambda>ll. ll_announcing ll \<longrightarrow> CallStart None (Interval ll) \<in> set (cs @ [c])) objs"
      using st old unfolding objs announces_started_def set_object_def by (cases "services sm ServiceTagLinkLocal") simp_all
    then show ?thesis
      unfolding announces_started_def run
      by (cases lis) (simp_all add: CallStart LL_Start_def newLinkLocal_def LL_Running_def)
  next
    case CallStop
    then show ?thesis
      using st old by (cases "services sm ServiceTagLinkLocal") (simp_all add: StopLinkLocal_run set_object_def)
  qed
qed

lemma disco_run_props:
  "disco_run cs rs st \<Longrightarrow> rs = snd (run_calls spec_call cs None) \<and>
     (case st of Some sm \<Rightarrow> services_ok sm \<and> announces_started cs sm \<and> abs_service sm = fst (run_calls spec_call cs None)
      | None \<Rightarrow> \<exists>ivl. CallStart None ivl \<in> set cs \<and> ivl \<le> 0)"
proof (induction rule: disco_run.induct)
  case new
  show ?case by (simp add: services_ok_def announces_started_def abs_service_def NewServiceManager_def)
next
  case (call cs rs sm c sm' r)
  then show ?case
    using services.keeps [of sm c] services.abs_step [of sm c] services.results [of sm c] announces_call [of sm cs c]
    by (simp add: run_calls_snoc)
next
  case (routine cs rs sm st)
  show ?case
  proof (cases st)
    case None
    with routine.hyps(2) have "\<exists>ll\<in>set (objects sm). ll_announcing ll \<and> Interval ll \<le> 0" by (blast intro: routine_step_panic)
    then show ?thesis using routine.IH None by (auto simp: announces_started_def list_all_iff)
  next
    case (Some sm')
    obtain p ll where "p < length (objects sm)" "sm' = set_object sm p ll" "LL_Running ll = LL_Running (objects sm ! p)"
      "Interval ll = Interval (objects sm ! p)" "ll_announcing ll \<Longrightarrow> ll_announcing (objects sm ! p)"
      using routine_step_object routine.hyps(2) Some by metis
    then show ?thesis
      using routine.IH Some announces_update [of cs sm ll p] by (simp add: set_object_service)
  qed
qed

lemma start_panics:
  assumes "disco_run cs rs (Some sm)" and "ivl \<le> 0"
  shows "disco_run (cs @ [CallStart None ivl]) (rs @ [None]) None"
proof -
  have ok: "services_ok sm" using disco_run_props [OF assms(1)] by simp
  let ?ll = "fst (LL_Start None (newLinkLocal ivl))"
  obtain objs where run: "StartLinkLocal None sm ivl = (sm\<lparr>services := (services sm)(ServiceTagLinkLocal \<mapsto> length (objects sm)),
      objects := objs @ [?ll]\<rparr>, snd (LL_Start None (newLinkLocal ivl)))" and len: "length objs = length (objects sm)"
    by (rule StartLinkLocal_run [OF ok, of None ivl])
  let ?sm = "fst (StartLinkLocal None sm ivl)"
  have 1: "disco_run (cs @ [CallStart None ivl]) (rs @ [None]) (Some ?sm)"
    by (rule disco_run.call [OF assms(1)]) (simp add: run newLinkLocal_start)
  have o: "objects ?sm ! length objs = ?ll" "length objs < length (objects ?sm)" by (simp_all add: run)
  have ll: "ll_announcing ?ll" "\<not> ll_ticker ?ll" "announceRoutine_begin ?ll = None"
    using assms(2) by (simp_all add: LL_Start_def newLinkLocal_def LL_Running_def announceRoutine_begin_def)
  have "routine_step ?sm None"
    using routine_step.begin_announce [of "length objs" ?sm] o ll by simp
  with 1 show ?thesis by (rule disco_run.routine)
qed

text \<open>
  C16. Services refine their contract. Let StartLinkLocal and StopLinkLocal be called one after another from a new node,
  with any outcome of opening the socket and any iterations of the routines of all started services between the calls. The table of
  services with its objects, channels and replaced services then behaves as a state that is unknown, running or stopped: every
  call returns the result of the contract, and whether the service runs afterwards is what the contract says. In particular a
  start always leaves a running service, also when it reports that the socket could not be opened. A routine
  ends the process only if some start with an interval that is not positive opened its socket; and after each such start, which reports
  success, the process can end in that way.
\<close>

theorem services_refine:
  assumes "disco_run cs rs st"
  shows "rs = snd (run_calls spec_call cs None) \<and>
    (\<forall>sm. st = Some sm \<longrightarrow> abs_service sm = fst (run_calls spec_call cs None)) \<and>
    (st = None \<longrightarrow> (\<exists>ivl. CallStart None ivl \<in> set cs \<and> ivl \<le> 0)) \<and>
    (\<forall>ivl. st \<noteq> None \<and> ivl \<le> 0 \<longrightarrow> disco_run (cs @ [CallStart None ivl]) (rs @ [None]) None)"
  using disco_run_props [OF assms] start_panics assms by (cases st) auto

text \<open>A start, a first iteration of both routines, a stop, and a second stop.\<close>

theorem services_refine_witness:
  "\<exists>st. disco_run [CallStart None 10, CallStop, CallStop] [None, None, Some ErrServiceNotRunning] st \<and>
     [None, None, Some ErrServiceNotRunning] = snd (run_calls spec_call [CallStart None 10, CallStop, CallStop] None)"
proof -
  let ?s1 = "fst (StartLinkLocal None NewServiceManager 10)"
  let ?s2 = "set_object ?s1 0 (receiveRoutine_check (objects ?s1 ! 0))"
  let ?s3 = "set_object ?s2 0 ((objects ?s2 ! 0)\<lparr>ll_ticker := True\<rparr>)"
  let ?s4 = "fst (StopLinkLocal ?s3)"
  note ev = StartLinkLocal_def StopLinkLocal_def Services_Add_def Services_Start_def Services_Stop_def on_object_def
    LL_Start_def LL_Stop_def LL_Running_def newLinkLocal_def NewServiceManager_def receiveRoutine_check_def set_object_def announceRoutine_begin_def
  have "disco_run ([] @ [CallStart None 10]) ([] @ [None]) (Some ?s1)"
    by (rule disco_run.call [OF disco_run.new]) (simp add: ev)
  from disco_run.routine [OF this routine_step.check [of 0]]
  have "disco_run ([] @ [CallStart None 10]) ([] @ [None]) (Some ?s2)" by (simp add: ev)
  from disco_run.routine [OF this routine_step.begin_announce [of 0]]
  have "disco_run ([] @ [CallStart None 10]) ([] @ [None]) (Some ?s3)" by (simp add: ev)
  then have "disco_run (([] @ [CallStart None 10]) @ [CallStop]) (([] @ [None]) @ [None]) (Some ?s4)"
    by (rule disco_run.call) (simp add: ev)
  then have "disco_run ((([] @ [CallStart None 10]) @ [CallStop]) @ [CallStop]) ((([] @ [None]) @ [None]) @ [Some ErrServiceNotRunning]) (Some ?s4)"
    by (rule disco_run.call) (simp add: ev)
  then have r: "disco_run [CallStart None 10, CallStop, CallStop] [None, None, Some ErrServiceNotRunning] (Some ?s4)" by simp
  with services_refine [OF this] show ?thesis by blast
qed

section \<open>One service\<close>

definition holds_socket :: "LinkLocal \<Rightarrow> bool" where
  "holds_socket ll \<longleftrightarrow> ll_recv ll \<noteq> RecvNone"

definition port_free :: "ServiceManager \<Rightarrow> bool" where
  "port_free sm \<longleftrightarrow> list_all (\<lambda>ll. \<not> holds_socket ll) (objects sm)"

text \<open>
  The states that calls and routines lead to: a call, made while no other call runs, or an iteration of a routine. The
  system opens a socket only while no other holds the port.
\<close>

inductive disco_step :: "ServiceManager \<Rightarrow> ServiceManager \<Rightarrow> bool" where
  start: "(lis = None \<longrightarrow> port_free sm) \<Longrightarrow> disco_step sm (fst (StartLinkLocal lis sm ivl))"
| stop: "disco_step sm (fst (StopLinkLocal sm))"
| routine: "routine_step sm (Some sm') \<Longrightarrow> disco_step sm sm'"

inductive disco_reachable :: "ServiceManager \<Rightarrow> bool" where
  new: "disco_reachable NewServiceManager"
| step: "disco_reachable sm \<Longrightarrow> disco_step sm sm' \<Longrightarrow> disco_reachable sm'"

definition disco_inv :: "ServiceManager \<Rightarrow> bool" where
  "disco_inv sm \<longleftrightarrow> services_ok sm \<and>
     (\<forall>p<length (objects sm). LL_Running (objects sm ! p) \<longrightarrow> services sm ServiceTagLinkLocal = Some p) \<and>
     (\<forall>p<length (objects sm). ll_running (objects sm ! p) = ChanNil \<longrightarrow>
        \<not> holds_socket (objects sm ! p) \<and> \<not> ll_announcing (objects sm ! p))"

text \<open>Changing one object keeps the invariant if it starts nothing.\<close>

lemma disco_inv_object:
  assumes "disco_inv sm" and "LL_Running ll \<Longrightarrow> LL_Running (objects sm ! p)"
    and "ll_running ll = ChanNil \<Longrightarrow> ll_running (objects sm ! p) = ChanNil \<and>
      (holds_socket ll \<longrightarrow> holds_socket (objects sm ! p)) \<and> (ll_announcing ll \<longrightarrow> ll_announcing (objects sm ! p))"
  shows "disco_inv (set_object sm p ll)"
proof (cases "p < length (objects sm)")
  case True
  have "services_ok (set_object sm p ll)" using assms(1) by (simp add: disco_inv_def services_ok_def set_object_def)
  moreover have "services sm ServiceTagLinkLocal = Some q" if "q < length (objects sm)" "LL_Running ((objects sm)[p := ll] ! q)" for q
    using that assms(1,2) by (cases "q = p") (simp_all add: disco_inv_def)
  moreover have "\<not> holds_socket ((objects sm)[p := ll] ! q) \<and> \<not> ll_announcing ((objects sm)[p := ll] ! q)"
    if "q < length (objects sm)" "ll_running ((objects sm)[p := ll] ! q) = ChanNil" for q
    using that assms(1,3) by (cases "q = p") (auto simp: disco_inv_def)
  ultimately show ?thesis unfolding disco_inv_def by (simp add: set_object_def)
qed (use assms(1) in \<open>simp add: set_object_def list_update_beyond\<close>)

lemma disco_inv_stop: "disco_inv sm \<Longrightarrow> disco_inv (set_object sm p (fst (LL_Stop (objects sm ! p))))"
  by (erule disco_inv_object) (auto simp: newly_stopped LL_Stop_def split: if_splits)

text \<open>Putting a new object into the table, when no other one runs.\<close>

lemma disco_inv_new:
  assumes "disco_inv sm" and "list_all (\<lambda>ll. \<not> LL_Running ll) (objects sm)" and "ll_running ll \<noteq> ChanNil"
  shows "disco_inv (sm\<lparr>services := (services sm)(ServiceTagLinkLocal \<mapsto> length (objects sm)), objects := objects sm @ [ll]\<rparr>)"
  using assms by (auto simp: disco_inv_def services_ok_def list_all_length nth_append less_Suc_eq)

lemma routine_step_inv:
  assumes "routine_step sm (Some sm')" and "disco_inv sm"
  shows "disco_inv sm'"
  using assms(1)
proof cases
  case (check p)
  show ?thesis unfolding check(1)
    by (rule disco_inv_object [OF assms(2)]) (use check(3) in \<open>auto simp: receiveRoutine_check_def LL_Running_def holds_socket_def split: if_splits\<close>)
next
  case (read p unm rd)
  have "ll_running (receiveRoutine_read unm ll rd) = ll_running ll" for ll
    by (simp add: receiveRoutine_read_def Let_def split: sum.split prod.split)
  then show ?thesis unfolding read(1)
    by (intro disco_inv_object [OF assms(2)]) (use read(3) in \<open>simp_all add: routine_props routine_announcing holds_socket_def\<close>)
next
  case (begin_announce p)
  then obtain ll where "announceRoutine_begin (objects sm ! p) = Some ll" "sm' = set_object sm p ll"
    by (cases "announceRoutine_begin (objects sm ! p)") auto
  then show ?thesis
    by (auto intro!: disco_inv_object [OF assms(2)] simp: announceRoutine_begin_def LL_Running_def holds_socket_def split: if_splits)
next
  case (end_announce p)
  show ?thesis unfolding end_announce(1)
    by (rule disco_inv_object [OF assms(2)]) (auto simp: announceRoutine_stop_def LL_Running_def holds_socket_def split: if_splits)
qed

lemma disco_step_inv:
  assumes "disco_step sm sm'" and "disco_inv sm"
  shows "disco_inv sm'"
  using assms(1)
proof cases
  case (start lis ivl)
  have ok: "services_ok sm" using assms(2) by (simp add: disco_inv_def)
  let ?new = "fst (LL_Start lis (newLinkLocal ivl))"
  obtain objs where run: "fst (StartLinkLocal lis sm ivl) =
      sm\<lparr>services := (services sm)(ServiceTagLinkLocal \<mapsto> length (objects sm)), objects := objs @ [?new]\<rparr>"
    and objs: "objs = (case services sm ServiceTagLinkLocal of None \<Rightarrow> objects sm
             | Some p \<Rightarrow> (objects sm)[p := fst (LL_Stop (objects sm ! p))])" and len: "length objs = length (objects sm)"
    by (rule StartLinkLocal_run [OF ok, of lis ivl]) simp
  have inv: "disco_inv (sm\<lparr>objects := objs\<rparr>)"
    using assms(2) disco_inv_stop unfolding objs set_object_def by (cases "services sm ServiceTagLinkLocal") simp_all
  have "\<not> LL_Running (objs ! p)" if "p < length objs" for p
    using that assms(2) len newly_stopped ok
    by (cases "services sm ServiceTagLinkLocal") (auto simp: objs disco_inv_def services_ok_def nth_list_update split: if_splits)
  then have "list_all (\<lambda>ll. \<not> LL_Running ll) objs" by (simp add: list_all_length)
  moreover have "ll_running ?new \<noteq> ChanNil"
    by (cases lis) (simp_all add: LL_Start_def newLinkLocal_def LL_Running_def)
  ultimately show ?thesis using disco_inv_new [OF inv] len unfolding start(1) run by simp
next
  case stop
  then show ?thesis
    using assms(2) disco_inv_stop by (cases "services sm ServiceTagLinkLocal") (simp_all add: StopLinkLocal_run set_object_def)
next
  case routine
  then show ?thesis using assms(2) by (rule routine_step_inv)
qed

lemma disco_reachable_inv: "disco_reachable sm \<Longrightarrow> disco_inv sm"
proof (induction rule: disco_reachable.induct)
  case new
  show ?case by (simp add: disco_inv_def services_ok_def NewServiceManager_def)
qed (blast intro: disco_step_inv)

text \<open>
  C17. One discovery service. As long as the calls are made one after another, and however the routines of all services
  that were ever started interleave with them, a service that runs is the one in the table of services, so that at most one runs. A
  service that does not run is about to end: the next check of its receiving routine closes the socket, and the
  next look of its announcing routine at the channel ends that routine. There is no lock in the code: calls
  that overlap are not covered, and \<open>discovery_race\<close> below is a pair of them that leaves two running services.
\<close>

theorem discovery_single:
  assumes "disco_reachable sm" and "p < length (objects sm)" and "q < length (objects sm)"
  shows "(LL_Running (objects sm ! p) \<longrightarrow> services sm ServiceTagLinkLocal = Some p) \<and>
    (LL_Running (objects sm ! p) \<and> LL_Running (objects sm ! q) \<longrightarrow> p = q) \<and>
    (\<not> LL_Running (objects sm ! p) \<longrightarrow>
       \<not> holds_socket (receiveRoutine_check (objects sm ! p)) \<and> \<not> ll_announcing (announceRoutine_stop (objects sm ! p)))"
proof -
  have inv: "disco_inv sm" using assms(1) by (rule disco_reachable_inv)
  have "\<not> holds_socket (receiveRoutine_check (objects sm ! p)) \<and> \<not> ll_announcing (announceRoutine_stop (objects sm ! p))"
    if "\<not> LL_Running (objects sm ! p)"
    using that inv assms(2)
    by (cases "ll_running (objects sm ! p)")
      (auto simp: disco_inv_def receiveRoutine_check_def announceRoutine_stop_def holds_socket_def LL_Running_def)
  moreover have "LL_Running (objects sm ! r) \<longrightarrow> services sm ServiceTagLinkLocal = Some r" if "r < length (objects sm)" for r
    using that inv by (simp add: disco_inv_def)
  ultimately show ?thesis using assms(2,3) by (metis option.inject)
qed

text \<open>A service that was started, stopped and started again; the first socket is still open.\<close>

definition ex_sm1 :: ServiceManager where "ex_sm1 = fst (StartLinkLocal None NewServiceManager 10)"

definition ex_sm2 :: ServiceManager where
  "ex_sm2 = fst (StopLinkLocal (set_object ex_sm1 0 (receiveRoutine_check (objects ex_sm1 ! 0))))"

lemmas disco_evals = StartLinkLocal_def StopLinkLocal_def Services_Add_def Services_Start_def Services_Stop_def on_object_def
  LL_Start_def LL_Stop_def LL_Running_def newLinkLocal_def NewServiceManager_def receiveRoutine_check_def set_object_def

lemma ex_sm_evals:
  "objects ex_sm1 = [\<lparr>Interval = 10, ll_running = ChanOpen, ll_recv = RecvCheck, ll_announcing = True, ll_ticker = False, ll_found = []\<rparr>]"
  "services ex_sm1 = [ServiceTagLinkLocal \<mapsto> 0]"
  "objects ex_sm2 = [\<lparr>Interval = 10, ll_running = ChanClosed, ll_recv = RecvRead, ll_announcing = True, ll_ticker = False, ll_found = []\<rparr>]"
  "services ex_sm2 = [ServiceTagLinkLocal \<mapsto> 0]"
  by (simp_all add: ex_sm1_def ex_sm2_def disco_evals)

lemma ex_sm2_reachable: "disco_reachable ex_sm2"
proof -
  have 1: "disco_reachable ex_sm1" unfolding ex_sm1_def
    by (rule disco_reachable.step [OF disco_reachable.new disco_step.start]) (simp add: port_free_def NewServiceManager_def)
  have "disco_reachable (set_object ex_sm1 0 (receiveRoutine_check (objects ex_sm1 ! 0)))"
    by (rule disco_reachable.step [OF 1 disco_step.routine [OF routine_step.check]]) (simp_all add: ex_sm_evals)
  then show ?thesis unfolding ex_sm2_def by (rule disco_reachable.step [OF _ disco_step.stop])
qed

theorem discovery_single_witness:
  "disco_reachable ex_sm1 \<and> LL_Running (objects ex_sm1 ! 0) \<and> services ex_sm1 ServiceTagLinkLocal = Some 0"
proof -
  have 1: "disco_reachable ex_sm1" unfolding ex_sm1_def
    by (rule disco_reachable.step [OF disco_reachable.new disco_step.start]) (simp add: port_free_def NewServiceManager_def)
  moreover have "LL_Running (objects ex_sm1 ! 0)" by (simp add: ex_sm_evals LL_Running_def)
  ultimately show ?thesis using discovery_single [OF 1, of 0 0] by (simp add: ex_sm_evals)
qed

text \<open>
  Two starts that overlap. The first has put its service into the table and looked it up, and has not called its
  \<^verbatim>\<open>Start\<close> yet when the second makes all of its steps. When the first goes on, two services run, whatever the outcome of opening
  the second socket: the service of the first call is not in the table and survives a stop.
\<close>

lemma discovery_race:
  fixes lis lis' :: "err option"
  defines "sm1 \<equiv> fst (Services_Add (NewServiceManager\<lparr>objects := [newLinkLocal 10]\<rparr>) ServiceTagLinkLocal 0)"
  defines "sm2 \<equiv> fst (StartLinkLocal lis sm1 20)"
  defines "sm3 \<equiv> fst (on_object (LL_Start lis') sm2 0)"
  shows "services sm1 ServiceTagLinkLocal = Some 0 \<and> services sm3 ServiceTagLinkLocal = Some 1 \<and>
    LL_Running (objects sm3 ! 0) \<and> LL_Running (objects sm3 ! 1) \<and> LL_Running (objects (fst (StopLinkLocal sm3)) ! 0)"
  by (cases lis; cases lis') (simp_all add: sm1_def sm2_def sm3_def disco_evals)

text \<open>
  C31. A restart can fail and look running. There is a reachable state, after a start and a stop, in which no
  service runs and yet the port is still held, since the receiving routine closes its socket only after one more
  datagram. The system cannot open a second socket there; a start then reports that, but leaves a service that counts as
  running, answers a stop with success, and neither announces nor receives.
\<close>

theorem discovery_restart:
  "\<exists>sm. disco_reachable sm \<and> list_all (\<lambda>ll. \<not> LL_Running ll) (objects sm) \<and> \<not> port_free sm \<and>
     (\<forall>e ivl. let (sm', r) = StartLinkLocal (Some e) sm ivl in
        r = Some (Errorf ''discovery'') \<and> abs_service sm' = Some True \<and> snd (StopLinkLocal sm') = None \<and>
        list_all (\<lambda>ll. \<not> (LL_Running ll \<and> (ll_announcing ll \<or> holds_socket ll))) (objects sm'))"
  by (intro exI [of _ ex_sm2] conjI ex_sm2_reachable)
    (simp_all add: ex_sm_evals abs_service_def port_free_def holds_socket_def disco_evals)

section \<open>Announcements\<close>

lemma scan_ifaddrs_props:
  assumes "scan_ifaddrs ads cap rv ad = Inr (capable, isrovy, addr)"
  shows "(rv \<or> (\<exists>p. Inr p \<in> set ads \<and> Contains fcpref (pfx_addr p)) \<longrightarrow> isrovy) \<and>
    (capable \<longrightarrow> (cap \<and> addr = ad) \<or> (\<exists>p. Inr p \<in> set ads \<and> addr = pfx_addr p \<and> Is6 addr \<and> IsLinkLocalUnicast addr))"
  using assms
proof (induction ads arbitrary: cap rv ad)
  case (Cons x ads)
  obtain p where x: "x = Inr p" using Cons.prems by (cases x) auto
  let ?a = "pfx_addr p"
  define ll where "ll \<longleftrightarrow> Is6 ?a \<and> IsLinkLocalUnicast ?a"
  have "scan_ifaddrs ads (if ll then True else cap) (rv \<or> Contains fcpref ?a) (if ll then ?a else ad) = Inr (capable, isrovy, addr)"
    using Cons.prems x by (cases ll) (simp_all add: Let_def ll_def [symmetric])
  note IH = Cons.IH [OF this]
  then have "rv \<or> (\<exists>q. Inr q \<in> set (x # ads) \<and> Contains fcpref (pfx_addr q)) \<longrightarrow> isrovy" using x by auto
  moreover have "(cap \<and> addr = ad) \<or> (\<exists>q. Inr q \<in> set (x # ads) \<and> addr = pfx_addr q \<and> Is6 addr \<and> IsLinkLocalUnicast addr)"
    if capable
  proof (cases "\<exists>q. Inr q \<in> set ads \<and> addr = pfx_addr q \<and> Is6 addr \<and> IsLinkLocalUnicast addr")
    case False
    with IH that have "(if ll then True else cap) \<and> addr = (if ll then ?a else ad)" by blast
    then show ?thesis using x by (cases ll) (auto simp: ll_def)
  qed auto
  ultimately show ?case by blast
qed simp

text \<open>The interfaces a node announces itself on: one of their addresses is link-local, none is of the network itself.\<close>

definition announced_on :: "(string \<times> (err + (err + Prefix) list)) list \<Rightarrow> string \<Rightarrow> Addr \<Rightarrow> bool" where
  "announced_on ifaces ifname addr \<longleftrightarrow>
     (\<exists>ads. (ifname, Inr ads) \<in> set ifaces \<and> (\<exists>p. Inr p \<in> set ads \<and> addr = pfx_addr p) \<and>
        Is6 addr \<and> IsLinkLocalUnicast addr \<and> (\<forall>p. Inr p \<in> set ads \<longrightarrow> \<not> Contains fcpref (pfx_addr p)))"

lemma announced_on_Cons: "announced_on ifaces n a \<Longrightarrow> announced_on (x # ifaces) n a"
  by (auto simp: announced_on_def)

lemma scan_ifaces_props:
  "scan_ifaces ifaces out = Inr out' \<Longrightarrow> out' n = Some a \<Longrightarrow> out n = Some a \<or> announced_on ifaces n a"
proof (induction ifaces out rule: scan_ifaces.induct)
  case (3 name ads rest out)
  obtain capable isrovy addr where s: "scan_ifaddrs ads False False AddrZero = Inr (capable, isrovy, addr)"
    using 3(2) by (auto split: sum.splits)
  have IH: "(if capable \<and> \<not> isrovy then out(name \<mapsto> addr) else out) n = Some a \<or> announced_on rest n a"
    using 3(1) [OF s refl refl] 3(2,3) s by simp
  show ?case
  proof (cases "capable \<and> \<not> isrovy")
    case True
    then have "announced_on ((name, Inr ads) # rest) name addr"
      using scan_ifaddrs_props [OF s] unfolding announced_on_def
      by (intro exI [of _ ads]) auto
    with IH True show ?thesis using announced_on_Cons by (auto split: if_splits)
  next
    case False
    with IH show ?thesis using announced_on_Cons by auto
  qed
qed auto

lemma announce_all_mem:
  "(buf, dst) \<in> set (announce_all mar pid port ifs) \<Longrightarrow>
     \<exists>n a. (n, a) \<in> set ifs \<and> dst = (WithZone IPv6LinkLocalAllNodes n, LinkLocalPort) \<and>
       mar \<lparr>llp_PeerID = pid, llp_Addrs = [emptyMultiaddr\<lparr>IP := a, Port := port\<rparr>]\<rparr> = Inr buf"
proof (induction ifs)
  case (Cons x ifs)
  obtain n a where x: "x = (n, a)" by (cases x)
  let ?m = "mar \<lparr>llp_PeerID = pid, llp_Addrs = [emptyMultiaddr\<lparr>IP := a, Port := port\<rparr>]\<rparr>"
  from Cons.prems x obtain b where b: "?m = Inr b" by (cases ?m) simp_all
  then have "(buf, dst) = (b, (WithZone IPv6LinkLocalAllNodes n, LinkLocalPort)) \<or> (buf, dst) \<in> set (announce_all mar pid port ifs)"
    using Cons.prems x by simp
  then show ?case using Cons.IH b x by force
qed simp

text \<open>The packet that is announced for an address of a link.\<close>

definition announcement :: "'h Node \<Rightarrow> Addr \<Rightarrow> LinkLocalPacket" where
  "announcement node a = \<lparr>llp_PeerID = nd_peerid node, llp_Addrs = [emptyMultiaddr\<lparr>IP := a,
     Port := our_port (map (\<lambda>tpt. newPeerListener (LocalMultiaddr tpt)) (transports node))\<rparr>]\<rparr>"

text \<open>
  C20. Announcements can be used. Every datagram a tick of the announcing routine writes goes to all nodes of a link
  whose interface has a link-local address and no address of the network itself. A
  service of another node that reads it from a link-local sender finds exactly one address: the announced
  link-local address in the zone of its own link, the port of the announcer's first IPv6 listener, and the announcer's identity.
  It is relied on that the CBOR package reads back what it wrote for an announcement, that is for one identity and one IPv6 address without a zone, and needs
  at most 1280 bytes for it; and that \<^verbatim>\<open>ParsePrefix\<close> gives IPv6 addresses without a zone.
\<close>

theorem discovery_roundtrip:
  assumes cbor: "\<And>a b. plain_addr a \<Longrightarrow> mar (announcement node a) = Inr b \<Longrightarrow> unm b = Inr (announcement node a) \<and> length b \<le> 1280"
    and prefixes: "\<And>n ads pfx. (n, Inr ads) \<in> set ifaces \<Longrightarrow> Inr pfx \<in> set ads \<Longrightarrow> Is6 (pfx_addr pfx) \<Longrightarrow> plain_addr (pfx_addr pfx)"
    and sent: "(buf, dst) \<in> set (announceRoutine_tick mar (Inr ifaces) order node)"
    and raddr: "Is6 raddr" "IsLinkLocalUnicast raddr"
  shows "\<exists>ifname addr. announced_on ifaces ifname addr \<and> dst = (WithZone IPv6LinkLocalAllNodes ifname, LinkLocalPort) \<and>
    ll_found (receiveRoutine_read unm ll (Inr (buf, (raddr, rport)))) = ll_found ll @
      [\<lparr>IP = WithZone addr (Addr_Zone raddr),
        Port = our_port (map (\<lambda>tpt. newPeerListener (LocalMultiaddr tpt)) (transports node)),
        MaPeerID = nd_peerid node, More = None\<rparr>]"
proof -
  obtain out where out: "scan_ifaces ifaces Map.empty = Inr out"
    using sent by (cases "scan_ifaces ifaces Map.empty") (simp_all add: announceRoutine_tick_def linklocalCapableInterfaces_def)
  have mem: "(buf, dst) \<in> set (announce_all mar (nd_peerid node)
      (our_port (map (\<lambda>tpt. newPeerListener (LocalMultiaddr tpt)) (transports node)))
      (List.map_filter (\<lambda>n. map_option (Pair n) (out n)) order))"
    using sent out by (simp add: announceRoutine_tick_def linklocalCapableInterfaces_def PeerAPI_Status_def)
  obtain n a where na: "out n = Some a" and dst: "dst = (WithZone IPv6LinkLocalAllNodes n, LinkLocalPort)"
    and mar: "mar (announcement node a) = Inr buf"
    using announce_all_mem [OF mem] by (auto simp: List.map_filter_def announcement_def)
  have on: "announced_on ifaces n a" using scan_ifaces_props [OF out na] by simp
  then have "plain_addr a" using prefixes by (auto simp: announced_on_def)
  then have "unm (take 1280 buf) = Inr (announcement node a)" using cbor [OF _ mar] by simp
  with on show ?thesis
    using raddr dst by (intro exI [of _ n] exI [of _ a]) (simp add: receiveRoutine_read_def emptyMultiaddr_def announcement_def)
qed

text \<open>With the executable coder: what one node announces on a link, and what its neighbour finds.\<close>

theorem discovery_roundtrip_witness:
  "\<exists>buf dst ifname addr. (buf, dst) \<in> set (announceRoutine_tick (cbor_Marshal ref_cid)
       (Inr [(''eth0'', Inr [Inr \<lparr>pfx_addr = Addr6 (0xfe # 0x80 # replicate 14 1) [], pfx_bits = 64\<rparr>])]) [''eth0''] ex_node_b) \<and>
    announced_on [(''eth0'', Inr [Inr \<lparr>pfx_addr = Addr6 (0xfe # 0x80 # replicate 14 1) [], pfx_bits = 64\<rparr>])] ifname addr \<and>
    ll_found (receiveRoutine_read (cbor_Unmarshal ref_cid) (newLinkLocal 10)
      (Inr (buf, (Addr6 (0xfe # 0x80 # replicate 14 2) ''eth1'', 12344)))) =
      [\<lparr>IP = WithZone addr ''eth1'', Port = 0, MaPeerID = nd_peerid ex_node_b, More = None\<rparr>]"
proof -
  let ?a = "Addr6 (0xfe # 0x80 # replicate 14 1) []" and ?r = "Addr6 (0xfe # 0x80 # replicate 14 2) ''eth1''"
  let ?mar = "cbor_Marshal ref_cid" and ?unm = "cbor_Unmarshal ref_cid"
  let ?ifs = "[(''eth0'', Inr [Inr \<lparr>pfx_addr = ?a, pfx_bits = 64\<rparr>])]"
  have t: "transports ex_node_b = []" by (simp add: ex_node_b_def Handle_def NewNode_def Let_def split: prod.splits)
  have cbor: "?unm b = Inr (announcement ex_node_b a) \<and> length b \<le> 1280"
    if "plain_addr a" "?mar (announcement ex_node_b a) = Inr b" for a b
  proof
    show "?unm b = Inr (announcement ex_node_b a)"
      by (rule cbor_roundtrip [OF ref_cid_ok that(2)]) (use that(1) in \<open>simp add: announcement_def\<close>)
    show "length b \<le> 1280"
      by (rule cbor_length [OF that(2) [unfolded announcement_def] _ ref_cid_length]) (use that(1) in simp)
  qed
  have lla: "IsLinkLocalUnicast ?a" "\<not> Contains fcpref ?a" by (simp_all add: fcpref_def same_bits_def)
  have pl: "plain_addr ?a" by (simp add: plain_addr_def)
  have "length (PeerID_Bytes ref_cid p) < 65536" for p using ref_cid_length [of p] by simp
  then have "cbor_encodable ref_cid (announcement ex_node_b ?a)"
    by (simp add: cbor_encodable_def announcement_def emptyMultiaddr_def str_bytes_def)
  then obtain buf where buf: "?mar (announcement ex_node_b ?a) = Inr buf" by (simp add: cbor_Marshal_def)
  then have sent: "(buf, (WithZone IPv6LinkLocalAllNodes ''eth0'', LinkLocalPort)) \<in> set (announceRoutine_tick ?mar (Inr ?ifs) [''eth0''] ex_node_b)"
    using lla t by (simp add: announceRoutine_tick_def linklocalCapableInterfaces_def PeerAPI_Status_def List.map_filter_def announcement_def)
  from discovery_roundtrip [OF cbor _ sent, of ?r "newLinkLocal 10" 12344] sent show ?thesis
    using t pl by (simp add: newLinkLocal_def) blast
qed

end
