(* ===== verification/StartProperties.thy ===== *)
theory StartProperties
  imports StartCommand ApiProperties CommandProperties TunProperties DiscoveryProperties
begin

text \<open>A node that was started from the default configuration.\<close>

section \<open>The steps\<close>

text \<open>A node that does not run gets a transport that does not run.\<close>

definition new_transport :: "Multiaddr \<Rightarrow> Addr \<times> u16 \<Rightarrow> Transport" where
  "new_transport ma local = \<lparr>conn_local = local, listenAddr = ma, tpt_running = ChanNil, sendQ = NewRingBuffer TransportBufferSize\<rparr>"

lemma NewTransport_default:
  assumes "\<And>net a. U net a = Inr (bound net a)"
  shows "NewTransport P U listen6 = Inr (new_transport listen6 (bound ''udp6'' (Multiaddr_AddrPort listen6)))"
    "NewTransport P U listen4 = Inr (new_transport listen4 (bound ''udp4'' (Multiaddr_AddrPort listen4)))"
proof -
  have "Multiaddr_Protocols P listen6 = [IP6MultiaddrCodec, UDPMultiaddrCodec]" "Multiaddr_Protocols P listen4 = [IP4MultiaddrCodec, UDPMultiaddrCodec]"
    by (simp_all add: Multiaddr_Protocols_def listen6_def listen4_def emptyMultiaddr_def)
  moreover have "IP6MultiaddrCodec \<noteq> IP4MultiaddrCodec" by (simp add: IP6MultiaddrCodec_def IP4MultiaddrCodec_def)
  ultimately show "NewTransport P U listen6 = Inr (new_transport listen6 (bound ''udp6'' (Multiaddr_AddrPort listen6)))"
    "NewTransport P U listen4 = Inr (new_transport listen4 (bound ''udp4'' (Multiaddr_AddrPort listen4)))"
    by (simp_all add: NewTransport_def assms new_transport_def)
qed

lemma Listen_default:
  assumes "\<not> Node_Running node" and "NewTransport P U ma = Inr t"
  shows "PeerAPI_Listen P U node ma = (node\<lparr>transports := transports node @ [t]\<rparr>, Inr (newPeerListener ma))"
  using assms by (simp add: PeerAPI_Listen_def Listen_def)

lemma peering_default:
  assumes "env_ok router E" and "\<not> Node_Running (st_node st)" and "\<And>net a. ae_ListenUDP E net a = Inr (bound net a)"
  obtains l6 l4 where "ConfigurePeering (ae_cid E) (ae_maddr E) (direct router E) st default_config =
    (st\<lparr>st_node := (st_node st)\<lparr>transports := transports (st_node st) @ [new_transport listen6 l6, new_transport listen4 l4]\<rparr>\<rparr>, None)"
proof -
  have E: "router_ok router" "cid_text_ok (ae_cid E)" using assms(1) by (simp_all add: env_ok_def)
  define l6 l4 where "l6 = bound ''udp6'' (Multiaddr_AddrPort listen6)" and "l4 = bound ''udp4'' (Multiaddr_AddrPort listen4)"
  note tpt = NewTransport_default [of "ae_ListenUDP E" bound "ae_Protocols E", OF assms(3), folded l6_def l4_def]
  define st1 where "st1 = st\<lparr>st_node := (st_node st)\<lparr>transports := transports (st_node st) @ [new_transport listen6 l6]\<rparr>\<rparr>"
  have nr: "\<not> Node_Running (st_node st1)" using assms(2) by (simp add: st1_def Node_Running_def)
  note l6 = Listen_default [OF assms(2) tpt(1)] and l4 = Listen_default [OF nr tpt(2)]
  have "PeerClient_Listen (ae_cid E) (ae_maddr E) (direct router E) st listen6 = (st1, Inr (newPeerListener listen6))"
    using PeerClient_Listen_run [OF E listen_text_ok(1), of st] l6 by (simp add: st1_def)
  moreover have "PeerClient_Listen (ae_cid E) (ae_maddr E) (direct router E) st1 listen4 =
      (st1\<lparr>st_node := (st_node st1)\<lparr>transports := transports (st_node st1) @ [new_transport listen4 l4]\<rparr>\<rparr>, Inr (newPeerListener listen4))"
    using PeerClient_Listen_run [OF E listen_text_ok(2), of st1] l4 by simp
  ultimately have "ConfigurePeering (ae_cid E) (ae_maddr E) (direct router E) st default_config =
      (st\<lparr>st_node := (st_node st)\<lparr>transports := transports (st_node st) @ [new_transport listen6 l6, new_transport listen4 l4]\<rparr>\<rparr>, None)"
    by (simp add: ConfigurePeering_def default_config_def st1_def)
  then show thesis by (rule that)
qed

text \<open>A descriptor that arrives makes an endpoint.\<close>

definition started_fcnet :: "crypto \<Rightarrow> 'h Node \<Rightarrow> Fcnet" where
  "started_fcnet C node = (NewFcnet C node)\<lparr>fc1_tun := True, fc1_dns := True\<rparr>"

definition with_handlers :: "fc_handler Node \<Rightarrow> fc_handler Node" where
  "with_handlers node = Handle (HandleLower node PingMulticodec PingHandler) FcnetMulticodec FcnetHandler"

definition passes_fd :: "'cid apienv \<Rightarrow> string \<Rightarrow> bool" where
  "passes_fd E dir \<longleftrightarrow>
     (let sa = Join dir ''v0-fcnet-start.sock''
      in utf8 sa = sa \<and> (\<exists>fd. receiveFD (ae_fdio E) sa = Inr fd \<and> ae_TUNFromFD E fd = None)) \<and>
     ae_CreateNetTUN E = None \<and> ae_DnsListen E = None"

lemma FcnetClient_Start_run:
  assumes "env_ok router E" and "passes_fd E dir"
  shows "FcnetClient_Start (direct router E) (Inr dir) st =
    (st\<lparr>st_node := with_handlers (st_node st), st_fcnets := st_fcnets st @ [started_fcnet (ae_crypto E) (st_node st)]\<rparr>, None)"
proof -
  have r: "router_ok router" using assms(1) by (simp add: env_ok_def)
  obtain fd where fd: "receiveFD (ae_fdio E) (Join dir ''v0-fcnet-start.sock'') = Inr fd" "ae_TUNFromFD E fd = None"
    and u: "utf8 (Join dir ''v0-fcnet-start.sock'') = Join dir ''v0-fcnet-start.sock''"
    using assms(2) by (auto simp: passes_fd_def Let_def)
  show ?thesis
    using fd assms(2) string_param_read [OF u, of "''Socket''" "[]"]
    by (simp add: FcnetClient_Start_def http_Post_def direct_def Serve_paths [OF r] serveFcnetStart_def Decoder_Decode_def
        FileTUN_def Fcnet_Start_def initFcnet1_def initDns_def passes_fd_def with_handlers_def started_fcnet_def Let_def)
qed

lemma default_interval: "float_ok ff \<Longrightarrow> ParseDuration ff ''5s'' = Some 5000000000"
proof -
  assume ff: "float_ok ff"
  have "fmtFrac (Suc (Suc (Suc (Suc (Suc (Suc (Suc (Suc (Suc 0))))))))) 5000000000 [] = ([], 5)" by simp
  moreover have "Suc (Suc (Suc (Suc (Suc (Suc (Suc (Suc (Suc 0)))))))) = 9" by simp
  ultimately have "fmtFrac 9 5000000000 [] = ([], 5)" by (simp only:)
  moreover have "digits 10 5 = ''5''" by code_simp
  ultimately have "Duration_String 5000000000 = ''5s''" by (simp add: Duration_String_def Second_def print_long_def frac_text_def)
  with duration_text [OF ff, of 5000000000] show ?thesis by simp
qed

lemma discovery_default:
  assumes "env_ok router E" and "ae_LinkLocalListen E = None" and "services_ok (st_services st)"
  obtains sm where "ConfigureDiscoveryLinkLocal (ae_float E) (direct router E) st default_config = (st\<lparr>st_services := sm\<rparr>, None)"
    and "\<exists>p. services sm ServiceTagLinkLocal = Some p \<and> p < length (objects sm) \<and> LL_Running (objects sm ! p) \<and> Interval (objects sm ! p) = 5000000000"
proof -
  have E: "router_ok router" "float_ok (ae_float E)" using assms(1) by (simp_all add: env_ok_def)
  obtain objs where run: "StartLinkLocal None (st_services st) 5000000000 =
      ((st_services st)\<lparr>services := (services (st_services st))(ServiceTagLinkLocal \<mapsto> length (objects (st_services st))),
          objects := objs @ [fst (LL_Start None (newLinkLocal 5000000000))]\<rparr>, snd (LL_Start None (newLinkLocal 5000000000)))"
    "length objs = length (objects (st_services st))"
    by (rule StartLinkLocal_run [OF assms(3), of None 5000000000]) (rule that)
  have start: "snd (LL_Start None (newLinkLocal 5000000000)) = None" "LL_Running (fst (LL_Start None (newLinkLocal 5000000000)))"
    using newLinkLocal_start [of None 5000000000] by simp_all
  have "Interval (fst (LL_Start None (newLinkLocal 5000000000))) = 5000000000" by (simp add: LL_Start_def newLinkLocal_def LL_Running_def)
  moreover have "ConfigureDiscoveryLinkLocal (ae_float E) (direct router E) st default_config =
      (st\<lparr>st_services := fst (StartLinkLocal None (st_services st) 5000000000)\<rparr>, None)"
    using StartLinkLocal_client_run [OF E, of 5000000000 st] default_interval [OF E(2)] assms(2) run(1) start(1)
    by (simp add: ConfigureDiscoveryLinkLocal_def default_config_def Duration_Abs_def)
  ultimately show thesis
    using run start by (intro that [of "fst (StartLinkLocal None (st_services st) 5000000000)"]) (simp_all add: nth_append)
qed

lemma NewNode_fields:
  "nd_running (NewNode C key) = ChanNil" "transports (NewNode C key) = []" "upperHandlers (NewNode C key) = Map.empty"
  "lowerHandlers (NewNode C key) = Map.empty" "nd_peerid (NewNode C key) = NewPeerID (PrivateKey_PublicKey C key)"
  by (simp_all add: NewNode_def Let_def split: prod.splits)

text \<open>A node as the default configuration leaves it, before it is started.\<close>

definition default_state :: "crypto \<Rightarrow> PeerID \<Rightarrow> apistate \<Rightarrow> bool" where
  "default_state C pid st \<longleftrightarrow>
     nd_peerid (st_node st) = pid \<and>
     map listenAddr (transports (st_node st)) = [listen6, listen4] \<and>
     upperHandlers (st_node st) FcnetMulticodec = Some FcnetHandler \<and>
     lowerHandlers (st_node st) PingMulticodec = Some PingHandler \<and>
     (\<exists>fc. st_fcnets st = [fc] \<and> fc_ip fc = PublicKey_IPAddr C (PeerID_PublicKey pid) \<and> fc1_tun fc \<and> fc1_dns fc) \<and>
     (\<exists>p. services (st_services st) ServiceTagLinkLocal = Some p \<and> p < length (objects (st_services st)) \<and>
        LL_Running (objects (st_services st) ! p) \<and> Interval (objects (st_services st) ! p) = 5000000000)"

lemma configure_default:
  assumes env: "env_ok router E" "\<And>net a. ae_ListenUDP E net a = Inr (bound net a)" "ae_LinkLocalListen E = None"
    and dir: "h_MkdirTemp H = Inr dir" "passes_fd E dir"
    and nm: "NMTUN_Start (h_nm H) (h_tun H) (h_bus H) n fds ''rovy0'' ip UpperMTU = Some (n', fds', Inr fd)"
  shows "\<exists>st. ConfigureAll (ae_cid E) (ae_maddr E) (ae_float E) H (direct router E) (new_world (ae_crypto E) key n fds) default_config ip =
      Some (\<lparr>w_api = st, w_nm = n', w_fds = fds'\<rparr>, None) \<and>
    default_state (ae_crypto E) (NewPeerID (PrivateKey_PublicKey (ae_crypto E) key)) st \<and> \<not> Node_Running (st_node st)"
proof -
  define st0 where "st0 = w_api (new_world (ae_crypto E) key n fds)"
  have w0: "new_world (ae_crypto E) key n fds = \<lparr>w_api = st0, w_nm = n, w_fds = fds\<rparr>" by (simp add: st0_def new_world_def)
  have node0: "\<not> Node_Running (st_node st0)" "transports (st_node st0) = []" "upperHandlers (st_node st0) = Map.empty"
    "lowerHandlers (st_node st0) = Map.empty" "nd_peerid (st_node st0) = NewPeerID (PrivateKey_PublicKey (ae_crypto E) key)"
    "st_fcnets st0 = []" "st_services st0 = NewServiceManager"
    by (simp_all add: st0_def new_world_def NewNode_fields Node_Running_def)
  obtain l6 l4 where peering: "ConfigurePeering (ae_cid E) (ae_maddr E) (direct router E) st0 default_config =
      (st0\<lparr>st_node := (st_node st0)\<lparr>transports := transports (st_node st0) @ [new_transport listen6 l6, new_transport listen4 l4]\<rparr>\<rparr>, None)"
    by (rule peering_default [OF env(1) node0(1) env(2)]) (rule that)
  define st1 where "st1 = st0\<lparr>st_node := (st_node st0)\<lparr>transports := [new_transport listen6 l6, new_transport listen4 l4]\<rparr>\<rparr>"
  define st2 where "st2 = st1\<lparr>st_node := with_handlers (st_node st1), st_fcnets := st_fcnets st1 @ [started_fcnet (ae_crypto E) (st_node st1)]\<rparr>"
  have fcnet: "ConfigureFcnet H (direct router E) \<lparr>w_api = st1, w_nm = n, w_fds = fds\<rparr> default_config ip =
      Some (\<lparr>w_api = st2, w_nm = n', w_fds = fds'\<rparr>, None)"
    using nm FcnetClient_Start_run [OF env(1) dir(2), of st1] dir(1)
    by (simp add: ConfigureFcnet_def default_config_def st2_def)
  have ok: "services_ok (st_services st2)"
    using node0(7) by (simp add: st2_def st1_def services_ok_def NewServiceManager_def)
  obtain sm where disco: "ConfigureDiscoveryLinkLocal (ae_float E) (direct router E) st2 default_config = (st2\<lparr>st_services := sm\<rparr>, None)"
    and sm: "\<exists>p. services sm ServiceTagLinkLocal = Some p \<and> p < length (objects sm) \<and> LL_Running (objects sm ! p) \<and> Interval (objects sm ! p) = 5000000000"
    by (rule discovery_default [OF env(1,3) ok]) (rule that)
  have "ConfigureAll (ae_cid E) (ae_maddr E) (ae_float E) H (direct router E) (new_world (ae_crypto E) key n fds) default_config ip =
      Some (\<lparr>w_api = st2\<lparr>st_services := sm\<rparr>, w_nm = n', w_fds = fds'\<rparr>, None)"
    using peering fcnet disco node0(2) by (simp add: ConfigureAll_def w0 st1_def)
  moreover have "default_state (ae_crypto E) (NewPeerID (PrivateKey_PublicKey (ae_crypto E) key)) (st2\<lparr>st_services := sm\<rparr>)"
    using sm node0
    by (simp add: default_state_def st2_def st1_def with_handlers_def Handle_def HandleLower_def started_fcnet_def NewFcnet_def new_transport_def)
  moreover have "\<not> Node_Running (st_node st2)"
    using node0(1) by (simp add: st2_def st1_def with_handlers_def Handle_def HandleLower_def Node_Running_def)
  ultimately show ?thesis by (intro exI [of _ "st2\<lparr>st_services := sm\<rparr>"]) simp
qed

lemma Node_Start_default:
  assumes "default_state C pid st" and "\<not> Node_Running (st_node st)"
  shows "snd (Node_Start (st_node st)) = None"
    "Node_Running (fst (Node_Start (st_node st)))"
    "list_all Transport_Running (transports (fst (Node_Start (st_node st))))"
    "default_state C pid (st\<lparr>st_node := fst (Node_Start (st_node st))\<rparr>)"
proof -
  have run: "Node_Start (st_node st) =
      ((st_node st)\<lparr>nd_running := ChanOpen, transports := map (fst \<circ> Transport_Start) (transports (st_node st))\<rparr>, None)"
    using assms(2) by (simp add: Node_Start_def)
  have "Transport_Running (fst (Transport_Start t))" "listenAddr (fst (Transport_Start t)) = listenAddr t" for t
    using tpt_life.start_fresh [of t] tpt_life.start_again [of t] by (cases "Transport_Running t"; simp add: Transport_Start_def)+
  moreover have "map listenAddr (transports (st_node st)) = [listen6, listen4]" using assms(1) by (simp add: default_state_def)
  ultimately show "snd (Node_Start (st_node st)) = None"
    "Node_Running (fst (Node_Start (st_node st)))"
    "list_all Transport_Running (transports (fst (Node_Start (st_node st))))"
    "default_state C pid (st\<lparr>st_node := fst (Node_Start (st_node st))\<rparr>)"
    using assms(1) by (simp_all add: run Node_Running_def list_all_iff default_state_def comp_def)
qed

section \<open>Properties\<close>

text \<open>
  C14. Starting a node. With a key that can be read and the default configuration in its file, and when the host grants what
  is asked for, \<^verbatim>\<open>rovy start\<close> leaves a running node with the identity of the key: it listens on both
  default addresses with running transports, its network endpoint has the address of the identity and its handlers, its name service is up,
  link-local discovery runs every five seconds, and the socket of its interface exists. All of this is configured through the client
  and the server of that interface.
\<close>

theorem start_configures:
  assumes env: "env_ok router E" "\<And>net a. ae_ListenUDP E net a = Inr (bound net a)" "ae_LinkLocalListen E = None"
    and dir: "h_MkdirTemp H = Inr dir" "passes_fd E dir"
    and paths: "start_paths Expand c = Inr sf" "\<not> sf_ephemeral sf" "\<not> sf_stdin sf" "sf_socket sf \<noteq> sf_config sf"
    and key: "readPrivateKey (ae_crypto E) (ae_cid E) B T F draws stdin fs (sf_keyfile sf) = Some (Inr key)"
    and cfg: "Some (LoadConfig T F fs (sf_config sf)) = map_option Inr (DefaultConfig (ae_cid E) (ae_maddr E))"
    and sock: "os_Stat F fs (sf_socket sf) = Some ErrNotExist" "so_listen K = None"
    and nm: "NMTUN_Start (h_nm H) (h_tun H) (h_bus H) n fds ''rovy0'' (PublicKey_IPAddr (ae_crypto E) (PeerID_PublicKey
        (NewPeerID (PrivateKey_PublicKey (ae_crypto E) key)))) UpperMTU = Some (n', fds', Inr fd)"
  shows "\<exists>w fs'. startCmdFunc E B T F K H (direct router E) Expand draws stdin fs n fds c = Some (Inr (w, fs')) \<and>
    Node_Running (st_node (w_api w)) \<and> list_all Transport_Running (transports (st_node (w_api w))) \<and>
    default_state (ae_crypto E) (NewPeerID (PrivateKey_PublicKey (ae_crypto E) key)) (w_api w) \<and>
    w_nm w = n' \<and> fs' (sf_socket sf) \<noteq> None"
proof -
  have pid: "nd_peerid (st_node (w_api (new_world (ae_crypto E) key n fds))) = NewPeerID (PrivateKey_PublicKey (ae_crypto E) key)"
    by (simp add: new_world_def NewNode_fields)
  obtain st where all: "ConfigureAll (ae_cid E) (ae_maddr E) (ae_float E) H (direct router E) (new_world (ae_crypto E) key n fds) default_config
        (PublicKey_IPAddr (ae_crypto E) (PeerID_PublicKey (NewPeerID (PrivateKey_PublicKey (ae_crypto E) key)))) =
      Some (\<lparr>w_api = st, w_nm = n', w_fds = fds'\<rparr>, None)"
    and st: "default_state (ae_crypto E) (NewPeerID (PrivateKey_PublicKey (ae_crypto E) key)) st" "\<not> Node_Running (st_node st)"
    using configure_default [OF env dir nm] by blast
  note started = Node_Start_default [OF st]
  obtain node where node: "Node_Start (st_node st) = (node, None)" using started(1) by (cases "Node_Start (st_node st)") simp
  have api: "startAPI F K fs (sf_socket sf) = (fs(sf_socket sf \<mapsto> []), None)"
    using sock by (simp add: startAPI_def checkSocket_def)
  have "os_ReadFile F (fs(sf_socket sf \<mapsto> [])) (sf_config sf) = os_ReadFile F fs (sf_config sf)"
    using paths(4) by (simp add: os_ReadFile_def split: option.split)
  then have "LoadConfig T F (fs(sf_socket sf \<mapsto> [])) (sf_config sf) = Inr default_config"
    using cfg by (simp add: LoadConfig_def DefaultConfig_value)
  then have "configureNode T F E H (direct router E) (new_world (ae_crypto E) key n fds) (fs(sf_socket sf \<mapsto> [])) (sf_config sf)
      (Node_IPAddr (ae_crypto E) (st_node (w_api (new_world (ae_crypto E) key n fds)))) = Some (\<lparr>w_api = st, w_nm = n', w_fds = fds'\<rparr>, None)"
    using all pid by (simp add: configureNode_def Node_IPAddr_def)
  then have "startCmdFunc E B T F K H (direct router E) Expand draws stdin fs n fds c =
      Some (Inr (\<lparr>w_api = st\<lparr>st_node := node\<rparr>, w_nm = n', w_fds = fds'\<rparr>, fs(sf_socket sf \<mapsto> [])))"
    using paths(1-3) key api node by (simp add: startCmdFunc_def Let_def)
  then show ?thesis using started node by simp
qed

text \<open>A host that grants everything, and the files that \<^verbatim>\<open>rovy init\<close> leaves.\<close>

definition ref_host :: "(settings list \<times> (string \<times> string) option) host" where
  "ref_host = \<lparr>h_nm = ref_nm, h_tun = ref_tunsys, h_bus = None, h_MkdirTemp = Inr ''/tmp/rovy0-1''\<rparr>"

definition ex_kf :: Keyfile where
  "ex_kf = (let key = \<lparr>priv_bytes = replicate 32 7\<rparr>
     in \<lparr>kf_PrivateKey = key, kf_PeerID = NewPeerID (PrivateKey_PublicKey ref_crypto key),
         kf_IPAddr = PublicKey_IPAddr ref_crypto (PrivateKey_PublicKey ref_crypto key)\<rparr>)"

definition ex_files :: files where
  "ex_files = [''/r/keyfile.toml'' \<mapsto> str_bytes (keyfile_text hex_cid hex_multibase ex_kf),
     ''/r/config.toml'' \<mapsto> write_cfg hex_cid ref_maddr default_config]"

lemma ex_files_read:
  "readPrivateKey ref_crypto hex_cid hex_multibase (ref_toml hex_cid ref_maddr) no_faults [] [] ex_files ''/r/keyfile.toml'' =
     Some (Inr \<lparr>priv_bytes = replicate 32 7\<rparr>)"
  "LoadConfig (ref_toml hex_cid ref_maddr) no_faults ex_files ''/r/config.toml'' = Inr default_config"
proof -
  obtain a where a: "kf_IPAddr ex_kf = Addr6 a []" "length a = 16"
    using IPAddr_shape [OF ref_crypto_ok] by (auto simp: ex_kf_def Let_def)
  have pid: "\<not> PeerID_Empty (kf_PeerID ex_kf)" by code_simp
  have "NewKeyfile ref_crypto hex_cid hex_multibase (ref_toml hex_cid ref_maddr) (str_bytes (keyfile_text hex_cid hex_multibase ex_kf)) = Some (Inr ex_kf)"
    using NewKeyfile_text [OF hex_cid_ok(1) [OF pid] ref_toml_ok hex_multibase_ok hex_cid_literal [OF pid] pid _ a]
    by (simp add: ex_kf_def Let_def wf_priv_def)
  then show "readPrivateKey ref_crypto hex_cid hex_multibase (ref_toml hex_cid ref_maddr) no_faults [] [] ex_files ''/r/keyfile.toml'' =
     Some (Inr \<lparr>priv_bytes = replicate 32 7\<rparr>)"
    by (simp add: readPrivateKey_def LoadKeyfile_def os_ReadFile_def no_faults_def ex_files_def ex_kf_def Let_def)
  have "ParseMultiaddr hex_cid ref_maddr (Multiaddr_String hex_cid ref_maddr ma) = Inr ma" if "ma = listen6 \<or> ma = listen4" for ma
    using that listen_String [of hex_cid ref_maddr] listen_parsed [of hex_cid ref_maddr] by auto
  then show "LoadConfig (ref_toml hex_cid ref_maddr) no_faults ex_files ''/r/config.toml'' = Inr default_config"
    using read_write_cfg [of default_config hex_cid ref_maddr]
    by (simp add: LoadConfig_def os_ReadFile_def no_faults_def ex_files_def ref_toml_def default_config_def)
qed

theorem start_configures_witness:
  "\<exists>w fs'. startCmdFunc ref_apienv hex_multibase (ref_toml hex_cid ref_maddr) no_faults \<lparr>so_dial = None, so_remove = None, so_listen = None\<rparr>
      ref_host (direct ref_router ref_apienv) Inr [] [] ex_files ([], None) [0, 1, 2] ex_ctx = Some (Inr (w, fs')) \<and>
    Node_Running (st_node (w_api w)) \<and>
    default_state ref_crypto (NewPeerID (PrivateKey_PublicKey ref_crypto \<lparr>priv_bytes = replicate 32 7\<rparr>)) (w_api w)"
proof -
  have p: "Join ''/r/./x/..'' KeyfileName = ''/r/keyfile.toml''" "Join ''/r/./x/..'' ConfigName = ''/r/config.toml''"
    "Join ''/r/./x/..'' SocketName = ''/r/api.sock''" by code_simp+
  let ?sf = "\<lparr>sf_socket = ''/r/api.sock'', sf_keyfile = ''/r/keyfile.toml'', sf_config = ''/r/config.toml'', sf_ephemeral = False, sf_stdin = False\<rparr>"
  have sa: "utf8 (Join ''/tmp/rovy0-1'' ''v0-fcnet-start.sock'') = Join ''/tmp/rovy0-1'' ''v0-fcnet-start.sock''" by code_simp
  have fd: "passes_fd ref_apienv ''/tmp/rovy0-1''"
    by (simp add: passes_fd_def sa ref_apienv_def receiveFD_def ref_fdio_def)
  have C: "ae_crypto ref_apienv = ref_crypto" "ae_cid ref_apienv = hex_cid" "ae_maddr ref_apienv = ref_maddr" by (simp_all add: ref_apienv_def)
  have "\<exists>w fs'. startCmdFunc ref_apienv hex_multibase (ref_toml hex_cid ref_maddr) no_faults \<lparr>so_dial = None, so_remove = None, so_listen = None\<rparr>
      ref_host (direct ref_router ref_apienv) Inr [] [] ex_files ([], None) [0, 1, 2] ex_ctx = Some (Inr (w, fs')) \<and>
    Node_Running (st_node (w_api w)) \<and> list_all Transport_Running (transports (st_node (w_api w))) \<and>
    default_state (ae_crypto ref_apienv) (NewPeerID (PrivateKey_PublicKey (ae_crypto ref_apienv) \<lparr>priv_bytes = replicate 32 7\<rparr>)) (w_api w) \<and>
    w_nm w = ([prepareConn ''rovy0'' (PublicKey_IPAddr ref_crypto (PeerID_PublicKey
        (NewPeerID (PrivateKey_PublicKey ref_crypto \<lparr>priv_bytes = replicate 32 7\<rparr>)))) UpperMTU], Some (nm_path 0, ''/dev'')) \<and> fs' (sf_socket ?sf) \<noteq> None"
  proof (rule start_configures [where bound = "\<lambda>_ a. a" and dir = "''/tmp/rovy0-1''"])
    show "env_ok ref_router ref_apienv" by (rule ref_env_ok)
    show "passes_fd ref_apienv ''/tmp/rovy0-1''" by (rule fd)
    show "start_paths Inr ex_ctx = Inr ?sf" by (simp add: start_paths_def ex_ctx_def p)
    show "readPrivateKey (ae_crypto ref_apienv) (ae_cid ref_apienv) hex_multibase (ref_toml hex_cid ref_maddr) no_faults [] [] ex_files
        (sf_keyfile ?sf) = Some (Inr \<lparr>priv_bytes = replicate 32 7\<rparr>)" by (simp add: C ex_files_read)
    show "Some (LoadConfig (ref_toml hex_cid ref_maddr) no_faults ex_files (sf_config ?sf)) = map_option Inr (DefaultConfig (ae_cid ref_apienv) (ae_maddr ref_apienv))"
      by (simp add: ex_files_read DefaultConfig_value)
    show "NMTUN_Start (h_nm ref_host) (h_tun ref_host) (h_bus ref_host) ([], None) [0, 1, 2] ''rovy0''
        (PublicKey_IPAddr (ae_crypto ref_apienv) (PeerID_PublicKey (NewPeerID (PrivateKey_PublicKey (ae_crypto ref_apienv) \<lparr>priv_bytes = replicate 32 7\<rparr>))))
        UpperMTU = Some (([prepareConn ''rovy0'' (PublicKey_IPAddr ref_crypto (PeerID_PublicKey
        (NewPeerID (PrivateKey_PublicKey ref_crypto \<lparr>priv_bytes = replicate 32 7\<rparr>)))) UpperMTU], Some (nm_path 0, ''/dev'')), [5, 0, 1, 2], Inr 5)"
      by (simp add: ref_host_def C ref_nm_run)
  qed (simp_all add: ref_apienv_def ref_host_def os_Stat_def no_faults_def ex_files_def)
  then show ?thesis unfolding C by blast
qed

end
