(* ===== verification/PacketTypes.thy ===== *)
theory PacketTypes
  imports NodeProperties
begin

text \<open>
  Every packet that a node keeps in a queue is backed by a buffer of the transport's size. The Go type of the buffer does not say
  so: it is a slice, and the accessors of all packet formats index it at fixed offsets.
\<close>

section \<open>Operations on packets keep the size of the buffer\<close>

named_theorems keeps_size "operations that keep the size of the buffer of their packet"

lemmas setters_size [keeps_size] =
  wrote_keeps(3) [OF hello_mt.put_wrote] wrote_keeps(3) [OF hello_sidx.put_wrote] wrote_keeps(3) [OF hello_eph.put_wrote]
  wrote_keeps(3) [OF hello_static.put_wrote] wrote_keeps(3) [OF hello_ts.put_wrote] wrote_keeps(3) [OF resp_mt.put_wrote]
  wrote_keeps(3) [OF resp_sidx.put_wrote] wrote_keeps(3) [OF resp_idx.put_wrote] wrote_keeps(3) [OF resp_eph.put_wrote]
  wrote_keeps(3) [OF resp_empty.put_wrote] wrote_keeps(3) [OF data_mt.put_wrote] wrote_keeps(3) [OF data_idx.put_wrote]
  wrote_keeps(3) [OF data_nonce.put_wrote]

lemma bodies_size [keeps_size]:
  "Hello_SetCiphertext p xs = Some q \<Longrightarrow> length (fbuf q) = length (fbuf p)"
  "Response_SetCiphertext p xs = Some q \<Longrightarrow> length (fbuf q) = length (fbuf p)"
  "Data_SetCiphertext p xs = Some q \<Longrightarrow> length (fbuf q) = length (fbuf p)"
  "Data_SetPlaintext p xs = Some q \<Longrightarrow> length (fbuf q) = length (fbuf p)"
  using keeps_uptoD [OF hello_ct.put_keeps] keeps_uptoD [OF resp_ct.put_keeps] keeps_uptoD [OF data_ct.put_keeps] keeps_uptoD [OF data_pt.put_keeps]
  by simp_all

lemma new_packets_size [keeps_size]:
  "NewHelloPacket P i j = Some h \<Longrightarrow> length (fbuf h) = length (Buf P)"
  "NewResponsePacket P i j = Some r \<Longrightarrow> length (fbuf r) = length (Buf P)"
  "NewDataPacket P i j = Some d \<Longrightarrow> length (fbuf d) = length (Buf P)"
  by (auto simp: NewHelloPacket_def NewResponsePacket_def NewDataPacket_def dest: keeps_size)

lemma zero_fill_size: "zero_fill b off i = Some c \<Longrightarrow> length c = length b"
proof (induction b off i rule: zero_fill.induct)
  case (1 b off i)
  then show ?case by (subst (asm) (2) zero_fill.simps) (auto split: if_splits Option.bind_splits dest: upd_length)
qed

lemma upper_lower_size [keeps_size]:
  "UpperPacket_SetRoute u rt = Some u' \<Longrightarrow> length (fbuf u') = length (fbuf u)"
  "UpperPacket_SetCodec V u codec = Some u' \<Longrightarrow> length (fbuf u') = length (fbuf u)"
  "UpperPacket_SetPayload u pl = Some u' \<Longrightarrow> length (fbuf u') = length (fbuf u)"
  "LowerPacket_SetCodec V l codec = Some l' \<Longrightarrow> length (Buf (lbase l')) = length (Buf (lbase l))"
  by (auto simp: UpperPacket_SetRoute_def UpperPacket_SetCodec_def UpperPacket_SetPayload_def LowerPacket_SetCodec_def put_route_def Let_def
      with_length_def split: if_splits Option.bind_splits dest!: zero_fill_size upd_length copy_at_length)

lemma put_label_size [keeps_size]: "put_label l b = Some l' \<Longrightarrow> length (Buf (lbase l')) = length (Buf (lbase l))"
  by (auto simp: put_label_def split: Option.bind_splits dest: copy_at_length)

lemma slot_send_size: "slot_send se l = Some (Inr (s, l')) \<Longrightarrow> l' = l"
  by (cases se) (auto split: Option.bind_splits)

lemma forwarder_size [keeps_size]:
  "Forwarder_HandlePacket fwd l = Some (Inr (s, l')) \<Longrightarrow> length (Buf (lbase l')) = length (Buf (lbase l))"
  "SendPacket V fwd u = Some (Inr (s, l')) \<Longrightarrow> length (Buf (lbase l')) = length (fbuf u)"
  by (auto simp: Forwarder_HandlePacket_def SendPacket_def SendRaw_def set_LowerDst_def NewLowerPacket_def Let_def
      split: if_splits Option.bind_splits option.splits dest!: slot_send_size keeps_size)

text \<open>The session layer: the packets it returns to be sent or delivered.\<close>

lemma session_packets_size [keeps_size]:
  "CreateHello C ts kd ids sm p pid ra = Some (sm1, Inr h) \<Longrightarrow> length (fbuf h) = length (fbuf p)"
  "HandleHello C kd ids sm p ra = Some (sm2, Inr r) \<Longrightarrow> length (fbuf r) = TptMTU"
  "CreateData C order sm p pid = Some (sm3, Inr (d, ra')) \<Longrightarrow> length (fbuf d) = length (fbuf p)"
  "HandleData C sm p = Some (sm4, Inr (q, pid', first)) \<Longrightarrow> length (fbuf q) = length (fbuf p)"
proof -
  have mk: "Session_CreateHello C ts s p = Some (s', Inr q) \<Longrightarrow> length (fbuf q) = length (fbuf p)" for s s' p q
    by (auto simp: Session_CreateHello_def split: if_splits Option.bind_splits prod.splits sum.splits dest!: keeps_size)
  have mr: "Session_CreateResponse C s p = Some (s', Inr q) \<Longrightarrow> length (fbuf q) = length (fbuf p)" for s s' p q
    by (auto simp: Session_CreateResponse_def split: if_splits Option.bind_splits prod.splits sum.splits dest!: keeps_size)
  show "CreateHello C ts kd ids sm p pid ra = Some (sm1, Inr h) \<Longrightarrow> length (fbuf h) = length (fbuf p)"
    by (auto simp: CreateHello_def Let_def split: Option.bind_splits prod.splits sum.splits dest!: mk keeps_size)
  show "HandleHello C kd ids sm p ra = Some (sm2, Inr r) \<Longrightarrow> length (fbuf r) = TptMTU"
    by (auto simp: HandleHello_def Let_def NewPacket_def split: Option.bind_splits prod.splits sum.splits dest!: mr keeps_size)
  show "CreateData C order sm p pid = Some (sm3, Inr (d, ra')) \<Longrightarrow> length (fbuf d) = length (fbuf p)"
    by (auto simp: CreateData_def split: Option.bind_splits option.splits prod.splits sum.splits dest!: keeps_size)
  show "HandleData C sm p = Some (sm4, Inr (q, pid', first)) \<Longrightarrow> length (fbuf q) = length (fbuf p)"
    by (auto simp: HandleData_def split: Option.bind_splits option.splits sum.splits if_splits dest!: keeps_size)
qed


section \<open>The queues of a node\<close>

definition sized :: "Packet \<Rightarrow> bool" where
  "sized p \<longleftrightarrow> length (Buf p) = TptMTU"

definition queued :: "'h Node \<Rightarrow> Packet set" where
  "queued node =
     set (ch (helloSendQ node)) \<union> set (ch (lowerSendQ node)) \<union> set (ch (upperSendQ node)) \<union> set (ch (helloRecvQ node)) \<union>
     set (ch (lowerRecvQ node)) \<union> set (ch (lowerMuxQ node)) \<union> set (ch (upperRecvQ node)) \<union> set (ch (upperMuxQ node)) \<union>
     (\<Union>tpt\<in>set (transports node). set (ch (sendQ tpt)))"

definition typed :: "'h Node \<Rightarrow> bool" where
  "typed node \<longleftrightarrow> (\<forall>p\<in>queued node. sized p)"

lemma Put_queued: "Put q p = Some q' \<Longrightarrow> set (ch q') \<subseteq> insert p (set (ch q))" "PutWithBackpressure q p = Some q' \<Longrightarrow> set (ch q') \<subseteq> insert p (set (ch q))"
  by (auto simp: Put_def PutWithBackpressure_def chan_send_def chan_recv_def Let_def split: if_splits option.splits list.splits Option.bind_splits)

lemma Get_queued: "RingBuffer_Get q = Some (p, q') \<Longrightarrow> set (ch q) = insert p (set (ch q'))"
  by (auto simp: RingBuffer_Get_def chan_recv_def split: list.splits)

lemma puts_typed:
  assumes "typed node" and "sized p"
  shows "put_helloSendQ node p = Some n1 \<Longrightarrow> typed n1" "put_lowerSendQ node p = Some n2 \<Longrightarrow> typed n2"
    "put_upperRecvQ node p = Some n3 \<Longrightarrow> typed n3" "put_lowerMuxQ node p = Some n4 \<Longrightarrow> typed n4"
    "put_upperMuxQ node p = Some n5 \<Longrightarrow> typed n5" "put_helloRecvQ node p = Some n6 \<Longrightarrow> typed n6"
    "sendTransport node p = Some n7 \<Longrightarrow> typed n7"
proof -
  have sub: "typed n" if "queued n \<subseteq> insert p (queued node)" for n :: "'a Node" using that assms by (auto simp: typed_def)
  show "put_helloSendQ node p = Some n1 \<Longrightarrow> typed n1" "put_lowerSendQ node p = Some n2 \<Longrightarrow> typed n2"
    "put_upperRecvQ node p = Some n3 \<Longrightarrow> typed n3" "put_lowerMuxQ node p = Some n4 \<Longrightarrow> typed n4"
    "put_upperMuxQ node p = Some n5 \<Longrightarrow> typed n5" "put_helloRecvQ node p = Some n6 \<Longrightarrow> typed n6"
    by (rule sub; fastforce simp: queued_def put_helloSendQ_def put_lowerSendQ_def put_upperRecvQ_def put_lowerMuxQ_def put_upperMuxQ_def
        put_helloRecvQ_def split: Option.bind_splits dest: Put_queued)+
  show "sendTransport node p = Some n7 \<Longrightarrow> typed n7"
    by (rule sub) (fastforce simp: queued_def sendTransport_def Transport_Send_def split: list.splits Option.bind_splits dest: Put_queued)
qed


lemma typed_frame [simp]:
  "typed (node\<lparr>sessions := sm\<rparr>) = typed node" "typed (node\<lparr>routing := r\<rparr>) = typed node" "typed (node\<lparr>upper_calls := uc\<rparr>) = typed node"
  "typed (node\<lparr>lower_calls := lc\<rparr>) = typed node" "typed (connectedCallback C node pid lower) = typed node" "typed (WaitFor node pid w) = typed node"
  "typed (Handle node codec cb) = typed node" "typed (HandleLower node codec cb) = typed node"
  by (simp_all add: typed_def queued_def connectedCallback_def WaitFor_def Handle_def HandleLower_def Let_def split: option.splits prod.splits sum.splits)

lemma sized_fields [simp]:
  "sized (p\<lparr>LowerDst := x\<rparr>) = sized p" "sized (p\<lparr>UpperDst := x\<rparr>) = sized p" "sized (p\<lparr>LowerSrc := x\<rparr>) = sized p" "sized (p\<lparr>UpperSrc := x\<rparr>) = sized p"
  "sized (p\<lparr>TptDst := y\<rparr>) = sized p" "sized (p\<lparr>Buf := b\<rparr>) \<longleftrightarrow> length b = TptMTU" "sized (NewPacket (replicate TptMTU 0))" "sized (received dgram src)"
  by (simp_all add: sized_def NewPacket_def received_def)

lemma forwarded_typed:
  assumes "typed node" and "\<And>s l. r = Inr (s, l) \<Longrightarrow> sized (lbase l)"
  shows "yields (forwarded node r) (typed \<circ> fst)" "yields (sent node r) (typed \<circ> fst)"
proof -
  have "call_port node s l = Some n \<Longrightarrow> r = Inr (s, l) \<Longrightarrow> typed n" for s l n
    using puts_typed [OF assms(1) assms(2)] by (cases s) auto
  then show "yields (forwarded node r) (typed \<circ> fst)" "yields (sent node r) (typed \<circ> fst)"
    using assms(1) by (auto simp: yields_def forwarded_def sent_def split: sum.splits Option.bind_splits)
qed

lemma send_handlers_typed:
  assumes "typed node" and "sized p"
  shows "yields (doLowerHelloSend E node p) (typed \<circ> fst)" "yields (doUpperHelloSend E node p) (typed \<circ> fst)"
    "yields (doLowerSend E node p) (typed \<circ> fst)" "yields (doUpperSend E node p) (typed \<circ> fst)"
  unfolding doLowerHelloSend_def doUpperHelloSend_def doLowerSend_def doUpperSend_def Let_def
  using assms
  by ((intro yields_rules forwarded_typed; simp);
      auto simp: sized_def NewUpperPacket_def NewLowerPacket_def dest!: keeps_size elim: puts_typed [rotated 2])+


lemma recv_handlers_typed:
  assumes "typed node" and "sized p"
  shows "yields (doLowerHelloRecv E node p) (typed \<circ> fst)" "yields (doUpperHelloRecv E node p) (typed \<circ> fst)"
    "yields (doLowerRecv E node p) (typed \<circ> fst)" "yields (doUpperRecv E node p) (typed \<circ> fst)"
  unfolding doLowerHelloRecv_def doUpperHelloRecv_def doLowerRecv_def doUpperRecv_def Let_def
  using assms
  by ((intro yields_rules forwarded_typed; simp);
      auto simp: sized_def NewUpperPacket_def dest!: keeps_size elim: puts_typed [rotated 2] split: if_splits)+

lemma mux_handlers_typed:
  assumes "typed node" and "sized p"
  shows "yields (doLowerMux E node p) (typed \<circ> fst)" "yields (doUpperMux E node p) (typed \<circ> fst)"
  unfolding doLowerMux_def doUpperMux_def Let_def
  using assms
  by ((intro yields_rules forwarded_typed; simp);
      auto simp: sized_def NewUpperPacket_def NewLowerPacket_def dest!: keeps_size elim: puts_typed [rotated 2])+

text \<open>Taking a packet from a queue.\<close>

lemma get_typed:
  assumes "typed node"
  shows "RingBuffer_Get (helloSendQ node) = Some (p, q) \<Longrightarrow> typed (node\<lparr>helloSendQ := q\<rparr>) \<and> sized p"
    "RingBuffer_Get (lowerSendQ node) = Some (p, q) \<Longrightarrow> typed (node\<lparr>lowerSendQ := q\<rparr>) \<and> sized p"
    "RingBuffer_Get (upperSendQ node) = Some (p, q) \<Longrightarrow> typed (node\<lparr>upperSendQ := q\<rparr>) \<and> sized p"
    "RingBuffer_Get (helloRecvQ node) = Some (p, q) \<Longrightarrow> typed (node\<lparr>helloRecvQ := q\<rparr>) \<and> sized p"
    "RingBuffer_Get (lowerRecvQ node) = Some (p, q) \<Longrightarrow> typed (node\<lparr>lowerRecvQ := q\<rparr>) \<and> sized p"
    "RingBuffer_Get (lowerMuxQ node) = Some (p, q) \<Longrightarrow> typed (node\<lparr>lowerMuxQ := q\<rparr>) \<and> sized p"
    "RingBuffer_Get (upperRecvQ node) = Some (p, q) \<Longrightarrow> typed (node\<lparr>upperRecvQ := q\<rparr>) \<and> sized p"
    "RingBuffer_Get (upperMuxQ node) = Some (p, q) \<Longrightarrow> typed (node\<lparr>upperMuxQ := q\<rparr>) \<and> sized p"
  using assms by (auto simp: typed_def queued_def dest!: Get_queued)

lemma routines_typed:
  assumes "typed node"
  shows "yields (helloSendRoutine E node) typed" "yields (lowerSendRoutine E node) typed"
    "yields (upperSendRoutine E node) typed" "yields (helloRecvRoutine E node) typed"
    "yields (lowerRecvRoutine E node) typed" "yields (lowerMuxRoutine E node) typed"
    "yields (upperRecvRoutine E node) typed" "yields (upperMuxRoutine E node) typed"
proof -
  have put: "yields (put_helloRecvQ n p) typed" if "typed n" "sized p" for n :: "'a Node" and p
    using puts_typed(6) [OF that] by (auto simp: yields_def)
  note h = logged_post send_handlers_typed recv_handlers_typed mux_handlers_typed put and g = get_typed [OF assms]
  show "yields (helloSendRoutine E node) typed" "yields (lowerSendRoutine E node) typed"
    "yields (upperSendRoutine E node) typed" "yields (helloRecvRoutine E node) typed"
    "yields (lowerRecvRoutine E node) typed" "yields (lowerMuxRoutine E node) typed"
    "yields (upperRecvRoutine E node) typed" "yields (upperMuxRoutine E node) typed"
    unfolding helloSendRoutine_def lowerSendRoutine_def upperSendRoutine_def helloRecvRoutine_def lowerRecvRoutine_def lowerMuxRoutine_def
      upperRecvRoutine_def upperMuxRoutine_def Let_def
    by (intro yields_rules h; auto dest: g)+
qed


section \<open>Preservation\<close>

lemma api_typed:
  assumes "typed node"
  shows "Connect node pid raddr w = Some n1 \<Longrightarrow> typed n1" "Node_Send V node pid codec pl = Some (n2, e) \<Longrightarrow> typed n2"
proof -
  have "typed n" if "put_helloSendQ node p = Some n" "sized p" for p n
    using puts_typed(1) [OF assms that(2,1)] .
  then show "Connect node pid raddr w = Some n1 \<Longrightarrow> typed n1"
    by (fastforce simp: Connect_def Let_def split: if_splits Option.bind_splits)
  have "typed (node\<lparr>upperSendQ := q\<rparr>)" if "PutWithBackpressure (upperSendQ node) p = Some q" "sized p" for p q
    using assms Put_queued(2) [OF that(1)] that(2) by (fastforce simp: typed_def queued_def)
  then show "Node_Send V node pid codec pl = Some (n2, e) \<Longrightarrow> typed n2"
    using assms by (fastforce simp: Node_Send_def SendUpper_def Let_def sized_def NewUpperPacket_def NewPacket_def
        split: sum.splits Option.bind_splits dest!: keeps_size)
qed

lemma transport_typed:
  assumes "typed node"
  shows "Transport_RecvStep read (lowerRecvQ node) = Some q \<Longrightarrow> typed (node\<lparr>lowerRecvQ := q\<rparr>)"
    "transports node = ts @ tpt # ts' \<Longrightarrow> Transport_SendStep tpt = Some (tpt', out) \<Longrightarrow> typed (node\<lparr>transports := ts @ tpt' # ts'\<rparr>)"
proof -
  have "typed (node\<lparr>lowerRecvQ := q\<rparr>)" if "Put (lowerRecvQ node) p = Some q" "sized p" for p
    using assms Put_queued(1) [OF that(1)] that(2) by (fastforce simp: typed_def queued_def)
  then show "Transport_RecvStep read (lowerRecvQ node) = Some q \<Longrightarrow> typed (node\<lparr>lowerRecvQ := q\<rparr>)"
    using assms by (auto simp: Transport_RecvStep_def split: sum.splits)
  assume "transports node = ts @ tpt # ts'" and "Transport_SendStep tpt = Some (tpt', out)"
  then show "typed (node\<lparr>transports := ts @ tpt' # ts'\<rparr>)"
    using assms by (fastforce simp: typed_def queued_def Transport_SendStep_def Let_def split: Option.bind_splits if_splits dest: Get_queued)
qed

lemma life_typed:
  assumes "typed node"
  shows "typed (fst (Node_Start node))" "typed (fst (Node_Stop node))" "typed (fst (Listen mp lis node ma))"
proof -
  have q [simp]: "sendQ (fst (Transport_Start t)) = sendQ t" "sendQ (fst (Transport_Stop t)) = sendQ t" for t
    by (simp_all add: Transport_Start_def Transport_Stop_def)
  have new: "ch (sendQ t) = []" if "NewTransport mp lis ma = Inr t" for t
    using that by (auto simp: NewTransport_def Let_def NewRingBuffer_def split: op_splits)
  show "typed (fst (Node_Start node))" "typed (fst (Node_Stop node))" "typed (fst (Listen mp lis node ma))"
    using assms new by (auto simp: Node_Start_def Node_Stop_def Listen_def typed_def queued_def split: sum.splits)
qed

lemma node_step_typed:
  assumes "node_step E node node'" and "typed node"
  shows "typed node'"
  using assms
proof cases
  case (datagram read q)
  with transport_typed(1) [OF assms(2)] show ?thesis by simp
next
  case (transmit ts tpt ts' tpt' out)
  with transport_typed(2) [OF assms(2)] show ?thesis by simp
qed (auto intro: yieldsD [OF routines_typed(1)] yieldsD [OF routines_typed(2)] yieldsD [OF routines_typed(3)] yieldsD [OF routines_typed(4)]
    yieldsD [OF routines_typed(5)] yieldsD [OF routines_typed(6)] yieldsD [OF routines_typed(7)] yieldsD [OF routines_typed(8)]
    api_typed life_typed)

lemma NewNode_typed: "typed (NewNode C k)"
  by (simp add: typed_def queued_def NewNode_def NewRingBuffer_def Let_def split: prod.splits)

lemma node_reachable_typed: "node_reachable C k node \<Longrightarrow> typed node"
  by (induction rule: node_reachable.induct) (blast intro: NewNode_typed node_step_typed)+

section \<open>Progress\<close>

lemma upperMux_progress:
  assumes "typed node" and "ch (upperMuxQ node) = p # ps"
  shows "\<exists>n. upperMuxRoutine E node = Some n \<and>
    (upper_calls n = upper_calls node \<or> (\<exists>cb. upper_calls n = upper_calls node @ [(cb, NewUpperPacket p)]))"
proof -
  obtain q where g: "RingBuffer_Get (upperMuxQ node) = Some (p, q)"
    using assms(2) by (simp add: RingBuffer_Get_def chan_recv_def)
  then have "sized p" using get_typed(8) [OF assms(1)] by blast
  then obtain s where "slice_of (Buf p) 52 56 = Some s"
    using slice_total [of 52 56 "Buf p"] by (auto simp: sized_def TptMTU_def)
  then obtain r where "UpperPacket_Codec (env_V E) (NewUpperPacket p) = Some r"
    by (simp add: UpperPacket_Codec_def NewUpperPacket_def UpperOffset_def)
  with g show ?thesis
    by (auto simp: upperMuxRoutine_def doUpperMux_def logged_def Let_def split: sum.splits option.splits)
qed

lemma lowerRecv_progress:
  assumes "typed node" and "rb_inv (helloRecvQ node)" and "ch (lowerRecvQ node) = p # ps" and "Packet_MsgType p \<noteq> Some DataMsgType"
  shows "\<exists>n. lowerRecvRoutine E node = Some n"
proof -
  have "sized p" using assms(1,3) by (simp add: typed_def queued_def)
  then obtain s where s: "slice_of (Buf p) 0 4 = Some s" using slice_total [of 0 4 "Buf p"] by (auto simp: sized_def TptMTU_def)
  then have "length s = 4" using slice_length [OF s] by simp
  then obtain mt where "Packet_MsgType p = Some mt"
    using s by (auto simp: Packet_MsgType_def length_Suc_conv numeral_eq_Suc)
  moreover obtain q where "Put (helloRecvQ node) p = Some q" using ring.put_ok [OF assms(2)] by blast
  ultimately show ?thesis
    using assms(3,4) by (auto simp: lowerRecvRoutine_def RingBuffer_Get_def chan_recv_def put_helloRecvQ_def Let_def)
qed

text \<open>
  C24. Packets are typed. In every reachable node, whatever datagrams arrived, every packet in one of its queues or waiting at a transport has a
  buffer of exactly the transport's size. Hence the code of the routines that looks at a fixed position only does not panic: for the first packet of
  its queue the upper mux routine either drops it or comes to the call of one registered handler with it, and the lower receive routine makes a
  step for every packet that is not a data packet. The handler then runs in the mux routine; it belongs to the program that
  registered it, the model records the call, and nothing is said here about what it does with a packet whose length is too small for it.
\<close>

theorem packets_typed:
  assumes "crypto_ok C" and "wf_priv k" and "node_reachable C k node"
  shows "(\<forall>p\<in>queued node. length (Buf p) = TptMTU) \<and>
    (\<forall>p ps. ch (upperMuxQ node) = p # ps \<longrightarrow> (\<exists>n. upperMuxRoutine E node = Some n \<and>
       (upper_calls n = upper_calls node \<or> (\<exists>cb. upper_calls n = upper_calls node @ [(cb, NewUpperPacket p)])))) \<and>
    (\<forall>p ps. ch (lowerRecvQ node) = p # ps \<longrightarrow> Packet_MsgType p \<noteq> Some DataMsgType \<longrightarrow> (\<exists>n. lowerRecvRoutine E node = Some n))"
proof -
  have t: "typed node" by (rule node_reachable_typed [OF assms(3)])
  have "rb_inv (helloRecvQ node)" using node_reachable_inv [OF assms] by (simp add: node_inv_def queues_ok_def)
  with t upperMux_progress lowerRecv_progress show ?thesis by (auto simp: typed_def sized_def)
qed

text \<open>A node that has just received an empty datagram.\<close>

theorem packets_typed_witness:
  "\<exists>node :: nat Node. node_reachable ref_crypto (ex_key 1) node \<and> queued node \<noteq> {} \<and> (\<forall>p\<in>queued node. length (Buf p) = TptMTU) \<and>
     (\<exists>n. lowerRecvRoutine ex_env node = Some n)"
proof -
  let ?n0 = "NewNode ref_crypto (ex_key 1) :: nat Node"
  let ?p = "received [] (Addr4 [127, 0, 0, 1], 1312)"
  have E: "env_C ex_env = ref_crypto" by (simp add: ex_env_def)
  have q: "Transport_RecvStep (Inr ([], (Addr4 [127, 0, 0, 1], 1312))) (lowerRecvQ ?n0) = Some ((lowerRecvQ ?n0)\<lparr>ch := [?p]\<rparr>)"
    by (simp add: Transport_RecvStep_def Put_def chan_send_def NewNode_simps NewRingBuffer_def DefaultQueueSize_def)
  let ?n = "?n0\<lparr>lowerRecvQ := (lowerRecvQ ?n0)\<lparr>ch := [?p]\<rparr>\<rparr>"
  have r: "node_reachable ref_crypto (ex_key 1) ?n"
    by (rule node_reachable.step [OF node_reachable.new node_step.datagram [OF q] E])
  have mt: "Packet_MsgType ?p \<noteq> Some DataMsgType"
  proof -
    have "slice_of (Buf ?p) 0 4 = Some (replicate 4 0)"
      by (simp add: received_def NewPacket_def to_array_def slice_of_def TptMTU_def)
    moreover have "le_uint32 (replicate 4 0) = Some 0" by (simp add: numeral_eq_Suc)
    ultimately show ?thesis by (simp add: Packet_MsgType_def DataMsgType_def)
  qed
  have "ch (lowerRecvQ ?n) = [?p]" "queued ?n \<noteq> {}" by (simp_all add: queued_def)
  with packets_typed [OF ref_crypto_ok wf_ex_key r, of ex_env] r mt show ?thesis by blast
qed

end
