(* ===== verification/Connecting.thy ===== *)
theory Connecting
  imports Delivery
begin

text \<open>
  How two nodes connect: \<^verbatim>\<open>Node.Connect\<close> on one of them, the hello through its queue and its transport, the
  hello through the queues of the other one and its response, and the response through the queues
  of the first. Each lemma runs the steps of one node.
\<close>

section \<open>A datagram between two nodes\<close>

text \<open>
  The first transport of \<open>a\<close> sends its oldest packet, and the datagram arrives at \<open>b\<close>, where its source is seen as
  \<open>src\<close>. The address it was sent to is returned.
\<close>

definition carry :: "'h Node \<Rightarrow> Addr \<times> u16 \<Rightarrow> 'h Node \<Rightarrow> ('h Node \<times> 'h Node \<times> Addr \<times> u16) option" where
  "carry a src b =
     (case transports a of
        [] \<Rightarrow> None
      | tpt # tpts \<Rightarrow> do {
          (tpt, out) \<leftarrow> Transport_SendStep tpt;
          (dgram, dst) \<leftarrow> out;
          q \<leftarrow> Transport_RecvStep (Inr (dgram, src)) (lowerRecvQ b);
          Some (a\<lparr>transports := tpt # tpts\<rparr>, b\<lparr>lowerRecvQ := q\<rparr>, dst) })"

lemma carry_run:
  assumes "Transport_SendStep tpt' = Some (tpt, Some (dgram, dst))" and "empty_queue (lowerRecvQ b)"
  obtains rq where "RingBuffer_Get rq = Some (received dgram src, lowerRecvQ b)"
    "carry (a\<lparr>transports := tpt' # tpts\<rparr>) src b = Some (a\<lparr>transports := tpt # tpts\<rparr>, b\<lparr>lowerRecvQ := rq\<rparr>, dst)"
proof -
  obtain rq where "Put (lowerRecvQ b) (received dgram src) = Some rq"
    "RingBuffer_Get rq = Some (received dgram src, lowerRecvQ b)"
    by (rule empty_queue_ops [OF assms(2)]) (rule that)
  with assms(1) that show thesis by (simp add: carry_def Transport_RecvStep_def)
qed

text \<open>A hello or a response goes on to the queue of hellos.\<close>

lemma lowerRecv_hello:
  assumes "Packet_MsgType P = Some mt" and "mt = HelloMsgType \<or> mt = ResponseMsgType"
    and "RingBuffer_Get rq = Some (P, lowerRecvQ node)" and "empty_queue (helloRecvQ node)"
  obtains hq where "lowerRecvRoutine E (node\<lparr>lowerRecvQ := rq\<rparr>) = Some (node\<lparr>helloRecvQ := hq\<rparr>)"
    "RingBuffer_Get hq = Some (P, helloRecvQ node)"
proof -
  obtain hq where "Put (helloRecvQ node) P = Some hq" "RingBuffer_Get hq = Some (P, helloRecvQ node)"
    by (rule empty_queue_ops [OF assms(4)]) (rule that)
  moreover have "node\<lparr>lowerRecvQ := lowerRecvQ node\<rparr> = node" by simp
  moreover have "mt \<noteq> DataMsgType" using assms(2) by (auto simp: HelloMsgType_def ResponseMsgType_def DataMsgType_def)
  ultimately show thesis
    using assms(1-3) that by (auto simp: lowerRecvRoutine_def put_helloRecvQ_def)
qed

text \<open>A frame without offset and padding whose packet fills its buffer, and the datagram it makes.\<close>

definition whole_frame :: "Framed \<Rightarrow> bytes \<Rightarrow> bool" where
  "whole_frame q dgram \<longleftrightarrow>
     Offset q = 0 \<and> Padding q = 0 \<and> length (fbuf q) = TptMTU \<and> Length (base q) = int TptMTU \<and>
     Packet_Bytes (base q) = Some dgram"

lemma whole_frameI:
  assumes "Offset q = 0" "Padding q = 0" "length (fbuf q) = TptMTU" "Length (base q) = int TptMTU"
  obtains dgram where "whole_frame q dgram"
  using assms slice_total [of 0 "int TptMTU" "fbuf q"] that by (auto simp: whole_frame_def Packet_Bytes_def)

text \<open>The packet that arrives, once the receiver has put its own header in front.\<close>

lemma whole_frame_received:
  assumes "whole_frame q dgram" and "wrote 0 4 \<lparr>Offset = LowerOffset, Padding = LowerPadding, base = received dgram src\<rparr> h"
  shows "Offset h = 0" "Padding h = 0" "base h = (received dgram src)\<lparr>Buf := fbuf h\<rparr>" "length (fbuf h) = TptMTU"
    "Length (base h) = int TptMTU"
    "4 \<le> i \<Longrightarrow> j \<le> int TptMTU \<Longrightarrow> slice_of (fbuf h) i j = slice_of (fbuf q) i j"
proof -
  have q: "length (fbuf q) = TptMTU" "Length (base q) = int TptMTU" "Packet_Bytes (base q) = Some dgram"
    using assms(1) by (simp_all add: whole_frame_def)
  note r = received_bytes [OF q(3,1), where raddr = src] and w = header_written [OF assms(2)]
  show "Offset h = 0" "Padding h = 0" "base h = (received dgram src)\<lparr>Buf := fbuf h\<rparr>" "length (fbuf h) = TptMTU"
    using w(1-4) r(2) by simp_all
  show "Length (base h) = int TptMTU" by (subst w(3)) (simp add: r q)
  show "4 \<le> i \<Longrightarrow> j \<le> int TptMTU \<Longrightarrow> slice_of (fbuf h) i j = slice_of (fbuf q) i j"
    using w(5) r(3) q(2) by simp
qed

lemma whole_frame_type:
  assumes "whole_frame q dgram"
  shows "Packet_MsgType (received dgram src) = Option.bind (slice_of (fbuf q) 0 4) le_uint32"
proof -
  have q: "length (fbuf q) = TptMTU" "Length (base q) = int TptMTU" "Packet_Bytes (base q) = Some dgram"
    using assms by (simp_all add: whole_frame_def)
  show ?thesis using received_bytes(3) [OF q(3,1), of 4 src 0] q(2) by (simp add: Packet_MsgType_def TptMTU_def)
qed


section \<open>The hello\<close>

text \<open>
  The datagram \<open>dgram\<close> is the hello of a node with key \<open>k\<close> to the holder of \<open>pub\<close>, sent with index \<open>ix\<close>, after which
  its handshake is \<open>i'\<close>.
\<close>

definition hello_datagram :: "crypto \<Rightarrow> PrivateKey \<Rightarrow> PublicKey \<Rightarrow> u32 \<Rightarrow> Handshake \<Rightarrow> bytes \<Rightarrow> bool" where
  "hello_datagram C k pub ix i' dgram \<longleftrightarrow>
     (\<exists>ts i pl hdr ct q. length ts = 12 \<and> fresh_initiator C pub i \<and> localStatic i = k \<and>
        MakeHello C ts i pl = (i', Inr (hdr, ct)) \<and> hello_carries q ix hdr ct \<and>
        Hello_MsgType q = Some HelloMsgType \<and> whole_frame q dgram)"

lemma wrote_dst: "wrote i j p q \<Longrightarrow> TptDst (base q) = TptDst (base p)"
  by (drule wrote_base) auto

lemma Session_CreateHello_dst:
  assumes "Session_CreateHello C ts s p = Some (s', Inr q)"
  shows "TptDst (base q) = TptDst (base p)"
proof -
  from assms obtain eph st tm ct p1 p2 p3 where "Hello_SetEphemeralKey p eph = Some p1" "Hello_SetStaticKey p1 st = Some p2"
    "Hello_SetTimestamp p2 tm = Some p3" and q: "Hello_SetCiphertext p3 ct = Some q"
    unfolding Session_CreateHello_def
    by (auto split: if_splits Option.bind_splits prod.splits sum.splits)
  then show ?thesis
    using wrote_dst [OF hello_eph.put_wrote] wrote_dst [OF hello_static.put_wrote] wrote_dst [OF hello_ts.put_wrote]
      arg_cong [OF conjunct2 [OF hello_ct.put_length [OF q TrueI]], of TptDst] by simp
qed

lemma CreateHello_dst:
  assumes "CreateHello C ts kd ids sm p pid ra = Some (sm', Inr q)"
  shows "TptDst (base q) = TptDst (base p)"
proof -
  from assms obtain ix p1 s s' where "Hello_SetSenderIndex p ix = Some p1" "Session_CreateHello C ts s p1 = Some (s', Inr q)"
    by (auto simp: CreateHello_def Let_def split: Option.bind_splits prod.splits sum.splits)
  then show ?thesis using wrote_dst [OF hello_sidx.put_wrote] Session_CreateHello_dst by metis
qed

lemma helloSend_run:
  assumes C: "crypto_ok (env_C E)" and inv: "node_inv (env_C E) k node" and ts: "length (env_ts E) = 12"
    and e: "GeneratePrivateKey (env_C E) (env_kd E) = Some (Inr e)"
    and ix: "fresh_index (store (sessions node)) (env_ids E) = Some ix"
    and ss: "\<not> isZero (SharedSecret (env_C E) k (PeerID_PublicKey pid))" "\<not> isZero (SharedSecret (env_C E) e (PeerID_PublicKey pid))"
    and dst: "\<not> PeerID_Empty pid" "\<not> Multiaddr_Empty raddr"
    and q: "RingBuffer_Get hq = Some ((NewPacket (replicate TptMTU 0))\<lparr>LowerDst := pid, TptDst := raddr\<rparr>, helloSendQ node)"
    and tpt: "transports node = tpt # tpts" "empty_queue (sendQ tpt)"
  obtains i' tpt' dgram where
    "helloSendRoutine E (node\<lparr>helloSendQ := hq\<rparr>) =
       Some (node\<lparr>sessions := set_session (sessions node) ix (with_addr raddr (newSession pid i')), transports := tpt' # tpts\<rparr>)"
    "Transport_SendStep tpt' = Some (tpt, Some (dgram, Multiaddr_AddrPort raddr))"
    "hello_datagram (env_C E) k (PeerID_PublicKey pid) ix i' dgram"
proof -
  let ?P = "(NewPacket (replicate TptMTU 0))\<lparr>LowerDst := pid, TptDst := raddr\<rparr>"
  let ?F = "\<lparr>Offset = LowerOffset, Padding = LowerPadding, base = ?P\<rparr>"
  have wf: "wf_priv (sm_privkey (sessions node))" and k: "sm_privkey (sessions node) = k"
    using node_invD(1,2) [OF inv] by (auto simp: sm_inv_def)
  have room: "132 \<le> int TptMTU" by (simp add: TptMTU_def)
  obtain p where p: "Hello_SetMsgType ?F HelloMsgType = Some p"
    using hello_mt.put_total [of ?F HelloMsgType] room by (auto simp: layout_defs NewPacket_def)
  note w = header_written [OF hello_mt.put_wrote [OF p]]
  have lp: "Length (base p) = int TptMTU" "TptDst (base p) = raddr" "length (fbuf p) = TptMTU"
    using arg_cong [OF w(3), of Length] arg_cong [OF w(3), of TptDst] w(4) by (simp_all add: NewPacket_def)
  obtain pl where "Hello_Plaintext p = Some pl"
    using slice_total [of 116 "int TptMTU - 16" "fbuf p"] w(1,2) lp room by (auto simp: Hello_Plaintext_def)
  then have ready: "hello_ready p pl" using w(1,2) lp by (simp add: hello_ready_def)
  note ss' = ss [folded k]
  obtain i i' hdr ct f where i: "fresh_initiator (env_C E) (PeerID_PublicKey pid) i" "localStatic i = sm_privkey (sessions node)"
    and mk: "MakeHello (env_C E) (env_ts E) i pl = (i', Inr (hdr, ct))"
    and run: "CreateHello (env_C E) (env_ts E) (env_kd E) (env_ids E) (sessions node) p pid raddr =
      Some (set_session (sessions node) ix (with_addr raddr (newSession pid i')), Inr f)"
    and f: "hello_carries f ix hdr ct" "Offset f = Offset p" "Padding f = Padding p" "length (fbuf f) = length (fbuf p)"
      "Length (base f) = Length (base p)" "Hello_MsgType f = Hello_MsgType p"
    by (rule CreateHello_run [OF C wf ts e ix ss'(1,2) ready, where ra = raddr]) (rule that)
  obtain dgram where dg: "whole_frame f dgram"
    by (rule whole_frameI [of f]) (use f w(1,2) lp in simp_all)
  obtain sq where sq: "PutWithBackpressure (sendQ tpt) (base f) = Some sq" "RingBuffer_Get sq = Some (base f, sendQ tpt)"
    by (rule empty_queue_ops [OF tpt(2)]) (rule that)
  have td: "TptDst (base f) = raddr" using CreateHello_dst [OF run] lp(2) by simp
  have same_node: "node\<lparr>helloSendQ := helloSendQ node\<rparr> = node" by simp
  have "doLowerHelloSend E node ?P = Some (node\<lparr>sessions := set_session (sessions node) ix (with_addr raddr (newSession pid i')),
      transports := tpt\<lparr>sendQ := sq\<rparr> # tpts\<rparr>, None)"
    using p run tpt(1) sq(1) by (simp add: doLowerHelloSend_def NewHelloPacket_def sendTransport_def Transport_Send_def)
  then have step: "helloSendRoutine E (node\<lparr>helloSendQ := hq\<rparr>) =
      Some (node\<lparr>sessions := set_session (sessions node) ix (with_addr raddr (newSession pid i')),
      transports := tpt\<lparr>sendQ := sq\<rparr> # tpts\<rparr>)"
    using q dst by (simp add: helloSendRoutine_def logged_def same_node)
  have out: "Transport_SendStep (tpt\<lparr>sendQ := sq\<rparr>) = Some (tpt, Some (dgram, Multiaddr_AddrPort raddr))"
    using sq(2) dst(2) td dg by (simp add: Transport_SendStep_def whole_frame_def)
  have "Hello_MsgType f = Some HelloMsgType" using f(6) hello_mt.get_put [OF p TrueI] by simp
  then have "hello_datagram (env_C E) k (PeerID_PublicKey pid) ix i' dgram"
    unfolding hello_datagram_def k [symmetric]
    by (intro exI conjI) (rule ts i mk f(1) dg | assumption)+
  then show thesis by (rule that [OF step out])
qed


section \<open>The response\<close>

text \<open>
  The datagram \<open>dgram\<close> answers the hello after which the initiator has the handshake \<open>i'\<close>; it names the index \<open>sidx\<close> of the
  hello and the index \<open>ix\<close> that the responder chose, whose handshake is \<open>r2\<close> then.
\<close>

definition response_datagram :: "crypto \<Rightarrow> Handshake \<Rightarrow> u32 \<Rightarrow> u32 \<Rightarrow> Handshake \<Rightarrow> bytes \<Rightarrow> bool" where
  "response_datagram C i' sidx ix r2 dgram \<longleftrightarrow>
     (\<exists>r1 pl hdr ct q. after_hello C i' r1 \<and> MakeResponse C r1 pl = (r2, Inr (hdr, ct)) \<and>
        response_carries q sidx ix hdr ct \<and> whole_frame q dgram)"

lemma hello_carries_received:
  assumes "hello_carries q ix hdr ct" and "whole_frame q dgram"
    and "NewHelloPacket (received dgram src) LowerOffset LowerPadding = Some h"
  shows "hello_carries h ix hdr ct"
proof -
  note r = whole_frame_received [OF assms(2) hello_mt.put_wrote [OF assms(3) [unfolded NewHelloPacket_def]]]
  have q: "Offset q = 0" "Padding q = 0" "Length (base q) = int TptMTU" using assms(2) by (simp_all add: whole_frame_def)
  have "116 \<le> int TptMTU" by (simp add: TptMTU_def)
  then show ?thesis
    using assms(1) q r(1,2,5) r(6)
    by (simp add: hello_carries_def Hello_SenderIndex_def Hello_EphemeralKey_def Hello_StaticKey_def Hello_Timestamp_def
        Hello_Ciphertext_def)
qed

lemma helloRecv_run:
  assumes C: "crypto_ok (env_C E)" and inv: "node_inv (env_C E) k node"
    and e: "GeneratePrivateKey (env_C E) (env_kd E) = Some (Inr e)"
    and ix: "fresh_index (store (sessions node)) (env_ids E) = Some ix"
    and d: "hello_datagram (env_C E) ka (PrivateKey_PublicKey (env_C E) k) sidx i' dgram"
    and src: "\<not> Multiaddr_Empty (FromAddrPort src)"
    and q: "RingBuffer_Get rq = Some (received dgram src, lowerRecvQ node)" "empty_queue (helloRecvQ node)"
    and tpt: "transports node = tpt # tpts" "empty_queue (sendQ tpt)"
  obtains node1 s tpt' dgram2 where
    "lowerRecvRoutine E (node\<lparr>lowerRecvQ := rq\<rparr>) = Some node1"
    "helloRecvRoutine E node1 = Some (node\<lparr>sessions := set_session (sessions node) ix s, transports := tpt' # tpts\<rparr>)"
    "Transport_SendStep tpt' = Some (tpt, Some (dgram2, src))"
    "response_datagram (env_C E) i' sidx ix (handshake s) dgram2"
    "remotePeerID s = NewPeerID (PrivateKey_PublicKey (env_C E) ka)" "remoteAddr s = FromAddrPort src" "stage s = 2"
proof -
  from d obtain ts i pl hdr ct f where ts: "length ts = 12" and i: "fresh_initiator (env_C E) (PrivateKey_PublicKey (env_C E) k) i"
      "localStatic i = ka" and mk: "MakeHello (env_C E) ts i pl = (i', Inr (hdr, ct))" and f: "hello_carries f sidx hdr ct"
      "Hello_MsgType f = Some HelloMsgType" "whole_frame f dgram"
    unfolding hello_datagram_def by blast
  let ?R = "received dgram src"
  have wf: "wf_priv (sm_privkey (sessions node))" and k: "sm_privkey (sessions node) = k"
    using node_invD(1,2) [OF inv] by (auto simp: sm_inv_def)
  have mt: "Packet_MsgType ?R = Some HelloMsgType"
    using whole_frame_type [OF f(3)] f(2,3) by (simp add: Hello_MsgType_def whole_frame_def)
  obtain hq where low: "lowerRecvRoutine E (node\<lparr>lowerRecvQ := rq\<rparr>) = Some (node\<lparr>helloRecvQ := hq\<rparr>)"
    and hq: "RingBuffer_Get hq = Some (?R, helloRecvQ node)"
    by (rule lowerRecv_hello [OF mt disjI1 q, where E = E]) (rule refl, rule that)
  have lb: "length (Buf ?R) = TptMTU" and room: "76 \<le> int TptMTU" by (simp_all add: received_def NewPacket_def TptMTU_def)
  obtain h where h: "NewHelloPacket ?R LowerOffset LowerPadding = Some h"
    using hello_mt.put_total [of "\<lparr>Offset = LowerOffset, Padding = LowerPadding, base = ?R\<rparr>" HelloMsgType] lb room
    by (auto simp: NewHelloPacket_def layout_defs)
  note r = whole_frame_received [OF f(3) hello_mt.put_wrote [OF h [unfolded NewHelloPacket_def]]]
  have fits: "frame_fits h" "Length (base h) - Padding h \<le> int (length (fbuf h))"
    using r(1,2,4,5) room by (simp_all add: frame_fits_def)
  have "TptSrc (base h) = FromAddrPort src" using arg_cong [OF r(3), of TptSrc] by (simp add: received_def NewPacket_def)
  note carries = hello_carries_received [OF f(1,3) h] and i' = i(1) [folded k]
  obtain r1 r2 pl2 hdr2 ct2 p s where run: "HandleHello (env_C E) (env_kd E) (env_ids E) (sessions node) h (FromAddrPort src) =
      Some (set_session (sessions node) ix s, Inr p)"
    and ah: "after_hello (env_C E) i' r1" and mr: "MakeResponse (env_C E) r1 pl2 = (r2, Inr (hdr2, ct2))"
    and p: "response_carries p sidx ix hdr2 ct2"
    and s: "handshake s = r2" "remotePeerID s = NewPeerID (PrivateKey_PublicKey (env_C E) (localStatic i))" "stage s = 2"
    and pf: "Offset p = Offset h" "Padding p = Padding h" "length (fbuf p) = TptMTU" "Length (base p) = int TptMTU"
    and ra: "remoteAddr s = (if Multiaddr_Empty (FromAddrPort src) then emptyMultiaddr else FromAddrPort src)"
    by (rule HandleHello_run [OF C wf ts i' mk e ix carries fits, where ra = "FromAddrPort src"]) (rule that)
  obtain dgram2 where dg: "whole_frame p dgram2"
    by (rule whole_frameI [of p]) (use pf r(1,2) in simp_all)
  let ?P = "(base p)\<lparr>TptDst := FromAddrPort src\<rparr>"
  obtain sq where sq: "PutWithBackpressure (sendQ tpt) ?P = Some sq" "RingBuffer_Get sq = Some (?P, sendQ tpt)"
    by (rule empty_queue_ops [OF tpt(2)]) (rule that)
  have rsrc: "TptSrc ?R = FromAddrPort src" "PeerID_Empty (LowerSrc ?R)"
    by (simp_all add: received_def NewPacket_def PeerID_Empty_def)
  have same_node: "node\<lparr>helloRecvQ := helloRecvQ node\<rparr> = node" by simp
  have "doLowerHelloRecv E node ?R = Some (node\<lparr>sessions := set_session (sessions node) ix s, transports := tpt\<lparr>sendQ := sq\<rparr> # tpts\<rparr>, None)"
    using mt h run \<open>TptSrc (base h) = FromAddrPort src\<close> rsrc(1) tpt(1) sq(1)
    by (simp add: doLowerHelloRecv_def sendTransport_def Transport_Send_def)
  then have step: "helloRecvRoutine E (node\<lparr>helloRecvQ := hq\<rparr>) =
      Some (node\<lparr>sessions := set_session (sessions node) ix s, transports := tpt\<lparr>sendQ := sq\<rparr> # tpts\<rparr>)"
    using hq src rsrc by (simp add: helloRecvRoutine_def logged_def same_node)
  have out: "Transport_SendStep (tpt\<lparr>sendQ := sq\<rparr>) = Some (tpt, Some (dgram2, src))"
    using sq(2) src dg by (auto simp: Transport_SendStep_def whole_frame_def Packet_Bytes_def Multiaddr_AddrPort_def FromAddrPort_def)
  have "response_datagram (env_C E) i' sidx ix (handshake s) dgram2"
    unfolding response_datagram_def s(1) by (intro exI conjI) (rule ah mr p dg)+
  then show thesis by (rule that [OF low step out]) (use s(2,3) i(2) ra src in simp_all)
qed


lemma response_carries_received:
  assumes "response_carries q sidx ix hdr ct" and "whole_frame q dgram"
    and "NewResponsePacket (received dgram src) LowerOffset LowerPadding = Some h"
  shows "response_carries h sidx ix hdr ct"
proof -
  note p = assms(3) [unfolded NewResponsePacket_def]
  note r = whole_frame_received [OF assms(2) resp_mt.put_wrote [OF p]]
  have q: "Offset q = 0" "Padding q = 0" "Length (base q) = int TptMTU" using assms(2) by (simp_all add: whole_frame_def)
  have "60 \<le> int TptMTU" by (simp add: TptMTU_def)
  then show ?thesis
    using assms(1) q r(1,2,5) r(6) resp_mt.get_put [OF p TrueI]
    by (simp add: response_carries_def Response_SenderIndex_def Response_SessionIndex_def Response_EphemeralKey_def
        Response_Empty_def Response_Ciphertext_def)
qed

lemma responseRecv_run:
  assumes C: "crypto_ok (env_C E)" and d: "response_datagram (env_C E) i' sidx ix r2 dgram"
    and s: "store (sessions node) sidx = Some (Some s)" "handshake s = i'" "initiator s" "stage s = 1"
      "remotePeerID s = NewPeerID (remoteStatic i')" "waiters s = []"
    and src: "\<not> Multiaddr_Empty (FromAddrPort src)"
    and q: "RingBuffer_Get rq = Some (received dgram src, lowerRecvQ node)" "empty_queue (helloRecvQ node)"
  obtains node1 i2 where
    "lowerRecvRoutine E (node\<lparr>lowerRecvQ := rq\<rparr>) = Some node1"
    "helloRecvRoutine E node1 = Some (connectedCallback (env_C E)
       (node\<lparr>sessions := set_session (Remove (sessions node) sidx) ix
          (s\<lparr>handshake := i2, stage := 3, remoteAddr := FromAddrPort src\<rparr>)\<rparr>) (remotePeerID s) True)"
    "matched i2 r2"
proof -
  from d obtain r1 pl hdr ct f where ah: "after_hello (env_C E) i' r1" and mk: "MakeResponse (env_C E) r1 pl = (r2, Inr (hdr, ct))"
    and f: "response_carries f sidx ix hdr ct" "whole_frame f dgram"
    unfolding response_datagram_def by blast
  let ?R = "received dgram src"
  have mt: "Packet_MsgType ?R = Some ResponseMsgType"
    using whole_frame_type [OF f(2)] f by (simp add: response_carries_def Response_MsgType_def whole_frame_def)
  obtain hq where low: "lowerRecvRoutine E (node\<lparr>lowerRecvQ := rq\<rparr>) = Some (node\<lparr>helloRecvQ := hq\<rparr>)"
    and hq: "RingBuffer_Get hq = Some (?R, helloRecvQ node)"
    by (rule lowerRecv_hello [OF mt disjI2 q, where E = E]) (rule refl, rule that)
  have lb: "length (Buf ?R) = TptMTU" and room: "4 \<le> int TptMTU" by (simp_all add: received_def NewPacket_def TptMTU_def)
  obtain h where h: "NewResponsePacket ?R LowerOffset LowerPadding = Some h"
    using resp_mt.put_total [of "\<lparr>Offset = LowerOffset, Padding = LowerPadding, base = ?R\<rparr>" ResponseMsgType] lb room
    by (auto simp: NewResponsePacket_def layout_defs)
  note r = whole_frame_received [OF f(2) resp_mt.put_wrote [OF h [unfolded NewResponsePacket_def]]]
  have fits: "0 \<le> Offset h" "Length (base h) - Padding h \<le> int (length (fbuf h))" using r(1,2,4,5) by simp_all
  obtain i2 p' where run: "HandleResponse (env_C E) (sessions node) h (FromAddrPort src) =
      Some (set_session (Remove (sessions node) sidx) ix (with_addr (FromAddrPort src) (s\<lparr>handshake := i2, stage := 3\<rparr>)),
            Inr (p', remotePeerID s))" and m: "matched i2 r2"
    by (rule HandleResponse_run [OF C ah mk response_carries_received [OF f h] s fits, where ra = "FromAddrPort src"]) (rule that)
  let ?node = "node\<lparr>sessions := set_session (Remove (sessions node) sidx) ix
      (s\<lparr>handshake := i2, stage := 3, remoteAddr := FromAddrPort src\<rparr>)\<rparr>"
  have wa: "with_addr (FromAddrPort src) (s\<lparr>handshake := i2, stage := 3\<rparr>) = s\<lparr>handshake := i2, stage := 3, remoteAddr := FromAddrPort src\<rparr>"
    using src by (simp add: with_addr_def SetRemoteAddr_def)
  have rsrc: "TptSrc ?R = FromAddrPort src" "PeerID_Empty (LowerSrc ?R)"
    by (simp_all add: received_def NewPacket_def PeerID_Empty_def)
  have ne: "ResponseMsgType \<noteq> HelloMsgType" by (simp add: ResponseMsgType_def HelloMsgType_def)
  have same_node: "node\<lparr>helloRecvQ := helloRecvQ node\<rparr> = node" by simp
  have "doLowerHelloRecv E node ?R = Some (connectedCallback (env_C E) ?node (remotePeerID s) True, None)"
    using mt h run rsrc(1) ne by (simp add: doLowerHelloRecv_def wa)
  then have "helloRecvRoutine E (node\<lparr>helloRecvQ := hq\<rparr>) = Some (connectedCallback (env_C E) ?node (remotePeerID s) True)"
    using hq src rsrc by (simp add: helloRecvRoutine_def logged_def same_node)
  from that [OF low this m] show thesis .
qed


section \<open>The whole exchange\<close>

text \<open>
  \<open>a\<close> connects to \<open>b\<close> at the address \<open>raddr\<close>, and the caller waits on channel \<open>w\<close>. The datagrams of \<open>a\<close> arrive from \<open>srca\<close>, those of
  \<open>b\<close> from \<open>srcb\<close>. The result is the two nodes and the addresses the two datagrams were sent to.
\<close>

definition connect_run ::
  "env \<Rightarrow> env \<Rightarrow> 'h Node \<Rightarrow> 'h Node \<Rightarrow> Multiaddr \<Rightarrow> nat \<Rightarrow> Addr \<times> u16 \<Rightarrow> Addr \<times> u16 \<Rightarrow>
   ('h Node \<times> 'h Node \<times> (Addr \<times> u16) \<times> (Addr \<times> u16)) option" where
  "connect_run Ea Eb a b raddr w srca srcb = do {
     a \<leftarrow> Connect a (nd_peerid b) raddr w;
     a \<leftarrow> helloSendRoutine Ea a;
     (a, b, dst) \<leftarrow> carry a srca b;
     b \<leftarrow> lowerRecvRoutine Eb b;
     b \<leftarrow> helloRecvRoutine Eb b;
     (b, a, dst') \<leftarrow> carry b srcb a;
     a \<leftarrow> lowerRecvRoutine Ea a;
     a \<leftarrow> helloRecvRoutine Ea a;
     Some (a, b, dst, dst') }"

lemma carry_inv:
  assumes "node_inv C ka a" and "node_inv C kb b" and "carry a src b = Some (a', b', dst)"
  shows "node_inv C ka a' \<and> node_inv C kb b'"
proof -
  from assms(3) obtain tpt tpts tpt' out q dgram where "transports a = [] @ tpt # tpts" "Transport_SendStep tpt = Some (tpt', out)"
    "Transport_RecvStep (Inr (dgram, src)) (lowerRecvQ b) = Some q"
    "a' = a\<lparr>transports := [] @ tpt' # tpts\<rparr>" "b' = b\<lparr>lowerRecvQ := q\<rparr>"
    by (auto simp: carry_def split: list.splits Option.bind_splits)
  then show ?thesis using transport_inv(2) [OF assms(1)] transport_inv(1) [OF assms(2)] by blast
qed

lemma connect_run_inv:
  assumes C: "crypto_ok C" "env_C Ea = C" "env_C Eb = C" and "node_inv C ka a" "node_inv C kb b"
    and "connect_run Ea Eb a b raddr w srca srcb = Some (a', b', dsts)"
  shows "node_inv C ka a' \<and> node_inv C kb b'"
proof -
  from assms(6) obtain a1 a2 a3 b1 b2 b3 b4 a4 a5 d d' where
    s: "Connect a (nd_peerid b) raddr w = Some a1" "helloSendRoutine Ea a1 = Some a2" "carry a2 srca b = Some (a3, b1, d)"
      "lowerRecvRoutine Eb b1 = Some b2" "helloRecvRoutine Eb b2 = Some b3" "carry b3 srcb a3 = Some (b4, a4, d')"
      "lowerRecvRoutine Ea a4 = Some a5" "helloRecvRoutine Ea a5 = Some a'" "b' = b4"
    by (auto simp: connect_run_def split: Option.bind_splits)
  note p = routines_post [of Ea, unfolded C(2), OF C(1)] and r = routines_post [of Eb, unfolded C(3), OF C(1)]
  have 1: "node_inv C ka a2" by (rule yieldsD [OF p(1) s(2)]) (rule api_inv(1) [OF assms(4) s(1)])
  note 2 = carry_inv [OF this assms(5) s(3)]
  have 3: "node_inv C kb b2" by (rule yieldsD [OF r(5) s(4)]) (use 2 in blast)
  have 4: "node_inv C kb b3" by (rule yieldsD [OF r(4) s(5)]) (rule 3)
  note 5 = carry_inv [OF 4 conjunct1 [OF 2] s(6)]
  have 6: "node_inv C ka a5" by (rule yieldsD [OF p(5) s(7)]) (use 5 in blast)
  have "node_inv C ka a'" by (rule yieldsD [OF p(4) s(8)]) (rule 6)
  with 5 s(9) show ?thesis by simp
qed

lemma forget_session: "store sm i = None \<Longrightarrow> set_session (Remove (set_session sm i s) i) j t = set_session sm j t"
  by (cases sm) (simp add: set_session_def Remove_def fun_upd_idem)

lemma same_transports: "transports node = ts \<Longrightarrow> node\<lparr>sessions := sm, transports := ts\<rparr> = node\<lparr>sessions := sm\<rparr>"
  by (cases node) simp


lemma connect_run_ok:
  assumes C: "crypto_ok (env_C Ea)" "env_C Eb = env_C Ea" and a: "node_inv (env_C Ea) ka a" and b: "node_inv (env_C Ea) kb b"
    and ts: "length (env_ts Ea) = 12"
    and draws: "GeneratePrivateKey (env_C Ea) (env_kd Ea) = Some (Inr ea)" "GeneratePrivateKey (env_C Ea) (env_kd Eb) = Some (Inr eb)"
      "fresh_index (store (sessions a)) (env_ids Ea) = Some ixa" "fresh_index (store (sessions b)) (env_ids Eb) = Some ixb"
    and ss: "\<not> isZero (SharedSecret (env_C Ea) ka (PrivateKey_PublicKey (env_C Ea) kb))"
      "\<not> isZero (SharedSecret (env_C Ea) ea (PrivateKey_PublicKey (env_C Ea) kb))"
    and ne: "\<not> PeerID_Empty (nd_peerid b)" "\<not> Multiaddr_Empty raddr" "\<not> Multiaddr_Empty (FromAddrPort srca)"
      "\<not> Multiaddr_Empty (FromAddrPort srcb)"
    and qa: "empty_queue (helloSendQ a)" "empty_queue (lowerRecvQ a)" "empty_queue (helloRecvQ a)" "transports a = ta # tsa" "empty_queue (sendQ ta)"
    and qb: "empty_queue (lowerRecvQ b)" "empty_queue (helloRecvQ b)" "transports b = tb # tsb" "empty_queue (sendQ tb)"
  obtains s t where
    "connect_run Ea Eb a b raddr w srca srcb =
       Some (connectedCallback (env_C Ea) ((WaitFor a (nd_peerid b) w)\<lparr>sessions := set_session (sessions a) ixb s\<rparr>) (nd_peerid b) True,
             b\<lparr>sessions := set_session (sessions b) ixb t\<rparr>, Multiaddr_AddrPort raddr, srca)"
    "matched (handshake s) (handshake t)" "remotePeerID s = nd_peerid b" "remoteAddr s = FromAddrPort srcb"
    "remotePeerID t = nd_peerid a" "remoteAddr t = FromAddrPort srca" "stage t = 2"
proof -
  let ?C = "env_C Ea" and ?a = "WaitFor a (nd_peerid b) w"
  have ids: "nd_peerid a = NewPeerID (PrivateKey_PublicKey ?C ka)" "nd_peerid b = NewPeerID (PrivateKey_PublicKey ?C kb)"
    using a b by (auto simp: node_inv_def tables_ok_def)
  then have pk: "PeerID_PublicKey (nd_peerid b) = PrivateKey_PublicKey ?C kb" using wf_PublicKey [OF C(1)] by simp
  have wait [simp]: "sessions ?a = sessions a" "transports ?a = transports a" "helloSendQ ?a = helloSendQ a" "lowerRecvQ ?a = lowerRecvQ a"
    "helloRecvQ ?a = helloRecvQ a" "nd_peerid ?a = nd_peerid a" "WaitFor (a\<lparr>helloSendQ := q\<rparr>) (nd_peerid b) w = ?a\<lparr>helloSendQ := q\<rparr>" for q
    by (simp_all add: WaitFor_def)
  have ia: "node_inv ?C ka ?a" using a by (simp add: WaitFor_def Let_def node_inv_def tables_ok_def queues_ok_def)
  let ?P = "(NewPacket (replicate TptMTU 0))\<lparr>LowerDst := nd_peerid b, TptDst := raddr\<rparr>"
  obtain hq where hq: "Put (helloSendQ a) ?P = Some hq" "RingBuffer_Get hq = Some (?P, helloSendQ a)"
    by (rule empty_queue_ops [OF qa(1)]) (rule that)
  have s1: "Connect a (nd_peerid b) raddr w = Some (?a\<lparr>helloSendQ := hq\<rparr>)"
    using ne(2) hq(1) by (simp add: Connect_def put_helloSendQ_def)
  obtain i' ta' dgram where s2: "helloSendRoutine Ea (?a\<lparr>helloSendQ := hq\<rparr>) = Some (?a\<lparr>sessions :=
      set_session (sessions a) ixa (with_addr raddr (newSession (nd_peerid b) i')), transports := ta' # tsa\<rparr>)"
    and o1: "Transport_SendStep ta' = Some (ta, Some (dgram, Multiaddr_AddrPort raddr))"
    and d1: "hello_datagram ?C ka (PrivateKey_PublicKey ?C kb) ixa i' dgram"
    by (rule helloSend_run [OF C(1) ia ts draws(1) _ _ _ ne(1,2), where hq = hq and tpt = ta and tpts = tsa and ix = ixa])
      (use draws(3) ss hq(2) qa(4,5) pk in simp_all)
  let ?s = "with_addr raddr (newSession (nd_peerid b) i')"
  let ?a1 = "?a\<lparr>sessions := set_session (sessions a) ixa ?s\<rparr>"
  obtain rq where rq: "RingBuffer_Get rq = Some (received dgram srca, lowerRecvQ b)"
    and s3: "carry (?a1\<lparr>transports := ta' # tsa\<rparr>) srca b = Some (?a1\<lparr>transports := ta # tsa\<rparr>, b\<lparr>lowerRecvQ := rq\<rparr>, Multiaddr_AddrPort raddr)"
    by (rule carry_run [OF o1 qb(1)]) (rule that)
  note s3 = s3 [unfolded same_transports [of ?a, unfolded wait, OF qa(4)]]
  note e = draws(2) [folded C(2)] and B = b [folded C(2)] and D = d1 [folded C(2)]
  obtain b1 t tb' dgram2 where s4: "lowerRecvRoutine Eb (b\<lparr>lowerRecvQ := rq\<rparr>) = Some b1"
    and s5: "helloRecvRoutine Eb b1 = Some (b\<lparr>sessions := set_session (sessions b) ixb t, transports := tb' # tsb\<rparr>)"
    and o2: "Transport_SendStep tb' = Some (tb, Some (dgram2, srca))"
    and d2: "response_datagram (env_C Eb) i' ixa ixb (handshake t) dgram2"
    and t: "remotePeerID t = NewPeerID (PrivateKey_PublicKey (env_C Eb) ka)" "remoteAddr t = FromAddrPort srca" "stage t = 2"
    by (rule helloRecv_run [OF C(1) [folded C(2)] B e draws(4) D ne(3) rq qb(2,3,4)]) (rule that)
  let ?b1 = "b\<lparr>sessions := set_session (sessions b) ixb t\<rparr>"
  have q1: "empty_queue (lowerRecvQ ?a1)" "empty_queue (helloRecvQ ?a1)" using qa by simp_all
  obtain rq2 where rq2: "RingBuffer_Get rq2 = Some (received dgram2 srcb, lowerRecvQ ?a1)"
    and s6: "carry (?b1\<lparr>transports := tb' # tsb\<rparr>) srcb ?a1 = Some (?b1\<lparr>transports := tb # tsb\<rparr>, ?a1\<lparr>lowerRecvQ := rq2\<rparr>, srca)"
    by (rule carry_run [OF o2 q1(1)]) (rule that)
  note s6 = s6 [unfolded same_transports [OF qb(3)]]
  have h: "store (sessions ?a1) ixa = Some (Some ?s)" "handshake ?s = i'" "initiator ?s" "stage ?s = 1"
    "remotePeerID ?s = NewPeerID (remoteStatic i')" "waiters ?s = []" "remotePeerID ?s = nd_peerid b"
    using d1 ids(2) by (auto simp: newSession_def hello_datagram_def fresh_initiator_def dest!: MakeHello_frame)
  obtain a2 i2 where s7: "lowerRecvRoutine Ea (?a1\<lparr>lowerRecvQ := rq2\<rparr>) = Some a2"
    and s8: "helloRecvRoutine Ea a2 = Some (connectedCallback ?C (?a1\<lparr>sessions := set_session (Remove (sessions ?a1) ixa) ixb
        (?s\<lparr>handshake := i2, stage := 3, remoteAddr := FromAddrPort srcb\<rparr>)\<rparr>) (remotePeerID ?s) True)"
    and m: "matched i2 (handshake t)"
    by (rule responseRecv_run [OF C(1) d2 [unfolded C(2)] h(1-6) ne(4) rq2 q1(2)]) (rule that)
  have "store (sessions a) ixa = None" using draws(3) fresh_index_fresh by blast
  then have fg: "?a1\<lparr>sessions := set_session (Remove (sessions ?a1) ixa) ixb r\<rparr> = ?a\<lparr>sessions := set_session (sessions a) ixb r\<rparr>" for r
    using forget_session by simp
  have "connect_run Ea Eb a b raddr w srca srcb =
      Some (connectedCallback ?C (?a\<lparr>sessions := set_session (sessions a) ixb (?s\<lparr>handshake := i2, stage := 3, remoteAddr := FromAddrPort srcb\<rparr>)\<rparr>)
        (nd_peerid b) True, ?b1, Multiaddr_AddrPort raddr, srca)"
    unfolding connect_run_def s1 using s2 s3 s4 s5 s6 s7 s8 [unfolded fg h(7)] by simp
  then show thesis by (rule that) (use m h(7) t ids(1) C(2) in simp_all)
qed


section \<open>Sending\<close>

text \<open>\<open>a\<close> sends a payload to \<open>b\<close>, through the queues of both; the error of the call and the address of the datagram are returned.\<close>

definition send_run ::
  "env \<Rightarrow> 'h Node \<Rightarrow> 'h Node \<Rightarrow> u64 \<Rightarrow> bytes \<Rightarrow> Addr \<times> u16 \<Rightarrow> ('h Node \<times> 'h Node \<times> err option \<times> Addr \<times> u16) option" where
  "send_run E a b codec pl src = do {
     (a, e) \<leftarrow> Node_Send (env_V E) a (nd_peerid b) codec pl;
     a \<leftarrow> upperSendRoutine E a;
     a \<leftarrow> lowerSendRoutine E a;
     (a, b, dst) \<leftarrow> carry a src b;
     b \<leftarrow> lowerRecvRoutine E b;
     b \<leftarrow> lowerMuxRoutine E b;
     b \<leftarrow> upperMuxRoutine E b;
     Some (a, b, e, dst) }"

lemma send_run_inv:
  assumes C: "crypto_ok C" "env_C E = C" and inv: "node_inv C ka a" "node_inv C kb b"
    and "send_run E a b codec pl src = Some (a', b', r)"
  shows "node_inv C ka a' \<and> node_inv C kb b'"
proof -
  from assms(5) obtain a1 e a2 a3 b1 d b2 b3 where
    s: "Node_Send (env_V E) a (nd_peerid b) codec pl = Some (a1, e)" "upperSendRoutine E a1 = Some a2" "lowerSendRoutine E a2 = Some a3"
      "carry a3 src b = Some (a', b1, d)" "lowerRecvRoutine E b1 = Some b2" "lowerMuxRoutine E b2 = Some b3" "upperMuxRoutine E b3 = Some b'"
    by (auto simp: send_run_def split: Option.bind_splits)
  note p = routines_post [of E, unfolded C(2), OF C(1)]
  have "node_inv C ka a3"
    by (rule yieldsD [OF p(2) s(3)]) (rule yieldsD [OF p(3) s(2)], rule api_inv(2) [OF inv(1) s(1)])
  note 1 = carry_inv [OF this inv(2) s(4)]
  have "node_inv C kb b'"
    by (rule yieldsD [OF p(8) s(7)]) (rule yieldsD [OF p(6) s(6)], rule yieldsD [OF p(5) s(5)], rule conjunct2 [OF 1])
  with 1 show ?thesis by simp
qed

text \<open>No packet is waiting in any queue that the two runs use, and there is a transport.\<close>

definition idle :: "'h Node \<Rightarrow> bool" where
  "idle node \<longleftrightarrow>
     empty_queue (helloSendQ node) \<and> empty_queue (lowerSendQ node) \<and> empty_queue (upperSendQ node) \<and>
     empty_queue (helloRecvQ node) \<and> empty_queue (lowerRecvQ node) \<and> empty_queue (lowerMuxQ node) \<and> empty_queue (upperMuxQ node) \<and>
     (\<exists>tpt tpts. transports node = tpt # tpts \<and> empty_queue (sendQ tpt))"

lemma connectedCallback_queues [simp]:
  "helloSendQ (connectedCallback C node pid lower) = helloSendQ node" "lowerSendQ (connectedCallback C node pid lower) = lowerSendQ node"
  "upperSendQ (connectedCallback C node pid lower) = upperSendQ node" "helloRecvQ (connectedCallback C node pid lower) = helloRecvQ node"
  "transports (connectedCallback C node pid lower) = transports node" "nd_peerid (connectedCallback C node pid lower) = nd_peerid node"
  by (simp_all add: connectedCallback_def Let_def split: option.splits prod.splits sum.splits)

lemma idle_frame [simp]:
  "idle (connectedCallback C node pid lower) = idle node" "idle (node\<lparr>sessions := sm\<rparr>) = idle node"
  "idle (WaitFor node pid w) = idle node" "idle (node\<lparr>upper_calls := u\<rparr>) = idle node" "idle (greeted C node s sm) = idle node"
  by (simp_all add: idle_def WaitFor_def greeted_def)

lemma send_run_ok:
  assumes C: "crypto_ok (env_C E)" and V: "varint_ok (env_V E)"
    and a: "node_inv (env_C E) ka a" and b: "node_inv (env_C E) kb b"
    and pair: "paired (sessions a) (sessions b) ix" and order: "set (env_order E) = dom (store (sessions a))"
    and unique: "\<forall>i s. store (sessions a) i = Some (Some s) \<longrightarrow> remotePeerID s = nd_peerid b \<longrightarrow>
      i = ix \<and> \<not> Multiaddr_Empty (remoteAddr s)"
    and route: "GetRoute (routing a) (nd_peerid b) = Inr (NewRoute [slot])"
    and ids: "\<not> PeerID_Empty (nd_peerid a)" "\<not> PeerID_Empty (nd_peerid b)" and q: "idle a" "idle b"
    and handler: "upperHandlers b codec = Some cb" and small: "codec < 2 ^ 28" and fits: "int (length pl) \<le> UpperMTU"
  obtains s hs t upkt where
    "send_run E a b codec pl src = Some (a\<lparr>sessions := set_session (sessions a) ix (s\<lparr>handshake := hs\<rparr>)\<rparr>,
       (greeted (env_C E) b t (set_session (sessions b) ix (t\<lparr>stage := 3\<rparr>)))\<lparr>upper_calls := upper_calls b @ [(cb, upkt)]\<rparr>,
       None, Multiaddr_AddrPort (remoteAddr s))"
    "store (sessions a) ix = Some (Some s)" "store (sessions b) ix = Some (Some t)"
    "UpperPacket_Payload upkt = Some pl" "UpperPacket_Codec (env_V E) upkt = Some (Inr codec)" "UpperSrc (base upkt) = nd_peerid a"
    "paired (set_session (sessions a) ix (s\<lparr>handshake := hs\<rparr>)) (set_session (sessions b) ix (t\<lparr>stage := 3\<rparr>)) ix"
proof -
  from q obtain tpt tpts where qa: "empty_queue (upperSendQ a)" "empty_queue (lowerSendQ a)" "transports a = tpt # tpts" "empty_queue (sendQ tpt)"
    and qb: "empty_queue (lowerRecvQ b)" "empty_queue (lowerMuxQ b)" "empty_queue (upperMuxQ b)"
    by (auto simp: idle_def)
  obtain P uq where send: "Node_Send (env_V E) a (nd_peerid b) codec pl = Some (a\<lparr>upperSendQ := uq\<rparr>, None)"
    and P: "RingBuffer_Get uq = Some (P, upperSendQ a)" "UpperDst P = nd_peerid b" "labelled (Buf P) 0 [slot]"
      "Length P = 88 + int (length pl)" "length (Buf P) = TptMTU" "slice_of (Buf P) 56 (56 + int (length pl)) = Some pl"
      "slice_of (Buf P) 52 56 = Some (ToUvarint (env_V E) codec @ replicate (4 - length (ToUvarint (env_V E) codec)) 0)"
    by (rule Send_run [OF V small fits route _ qa(1)]) (simp, rule that)
  from direct_run [OF C V a b pair order unique ids qa qb handler small fits P, where src = src]
  obtain a2 a3 tpt1 tpt2 dgram dst rq b1 b2 b3 upkt s hs t where
    r: "upperSendRoutine E (a\<lparr>upperSendQ := uq\<rparr>) = Some a2" "lowerSendRoutine E a2 = Some a3" "transports a3 = tpt1 # tpts"
      "Transport_SendStep tpt1 = Some (tpt2, Some (dgram, dst))" "Transport_RecvStep (Inr (dgram, src)) (lowerRecvQ b) = Some rq"
      "lowerRecvRoutine E (b\<lparr>lowerRecvQ := rq\<rparr>) = Some b1" "lowerMuxRoutine E b1 = Some b2" "upperMuxRoutine E b2 = Some b3"
    and u: "UpperPacket_Payload upkt = Some pl" "UpperPacket_Codec (env_V E) upkt = Some (Inr codec)" "UpperSrc (base upkt) = nd_peerid a"
    and pr: "paired (sessions a3) (sessions b3) ix"
    and s: "store (sessions a) ix = Some (Some s)" "dst = Multiaddr_AddrPort (remoteAddr s)"
      "a3\<lparr>transports := tpt2 # tpts\<rparr> = a\<lparr>sessions := set_session (sessions a) ix (s\<lparr>handshake := hs\<rparr>)\<rparr>"
    and t: "store (sessions b) ix = Some (Some t)"
      "b3 = (greeted (env_C E) b t (set_session (sessions b) ix (t\<lparr>stage := 3\<rparr>)))\<lparr>upper_calls := upper_calls b @ [(cb, upkt)]\<rparr>"
    by (elim exE conjE)
  have sa: "sessions a3 = set_session (sessions a) ix (s\<lparr>handshake := hs\<rparr>)"
    using arg_cong [OF s(3), of sessions] by simp
  have sb: "sessions b3 = set_session (sessions b) ix (t\<lparr>stage := 3\<rparr>)" unfolding t(2) by (simp add: greeted_def)
  have "carry a3 src b = Some (a3\<lparr>transports := tpt2 # tpts\<rparr>, b\<lparr>lowerRecvQ := rq\<rparr>, dst)"
    using r(3-5) by (simp add: carry_def)
  then have "send_run E a b codec pl src = Some (a3\<lparr>transports := tpt2 # tpts\<rparr>, b3, None, dst)"
    using send r by (simp add: send_run_def)
  then show thesis unfolding s(2,3) t(2) by (rule that [OF _ s(1) t(1) u]) (use pr sa sb in simp)
qed

end
