(* ===== verification/Relaying.thy ===== *)
theory Relaying
  imports Connecting
begin

text \<open>
  Packets with a route on their way through a chain of connected nodes. Each node seals the packet for the next one with the lower
  session they share and sends it in a datagram; the next one opens it and asks its forwarder. Every step is a step of the
  node model: queues, sessions, transports and forwarders of all nodes take part.
\<close>

section \<open>A packet with a route\<close>

text \<open>
  \<open>P\<close> carries \<open>body\<close> behind the lower codec of the forwarder and a label with the given position and route; the
  last 16 bytes are room for the tag of the lower session.
\<close>

definition in_transit :: "varint \<Rightarrow> nat \<Rightarrow> bytes \<Rightarrow> bytes \<Rightarrow> Packet \<Rightarrow> bool" where
  "in_transit V pos route body P \<longleftrightarrow>
     length (Buf P) = TptMTU \<and> 52 \<le> Length P \<and> Length P \<le> int TptMTU \<and> labelled (Buf P) pos route \<and>
     (\<exists>c. slice_of (Buf P) 16 20 = Some c \<and>
        FromUvarint V c = Inr (DataMulticodec, int (length (ToUvarint V DataMulticodec)))) \<and>
     slice_of (Buf P) 36 (Length P - 16) = Some body"

lemma in_transitD:
  assumes "in_transit V pos route body P"
  shows "length (Buf P) = TptMTU" "52 \<le> Length P" "Length P \<le> int TptMTU" "labelled (Buf P) pos route"
    "slice_of (Buf P) 36 (Length P - 16) = Some body" "Length P = 52 + int (length body)"
proof -
  show *: "length (Buf P) = TptMTU" "52 \<le> Length P" "Length P \<le> int TptMTU" "labelled (Buf P) pos route"
    "slice_of (Buf P) 36 (Length P - 16) = Some body"
    using assms unfolding in_transit_def by blast+
  show "Length P = 52 + int (length body)" using *(2) slice_length [OF *(5)] by linarith
qed

lemma labelled_slice:
  assumes "36 \<le> length b"
  shows "labelled b pos route \<longleftrightarrow> length route \<le> 14 \<and> slice_of b 20 36 = Some (label pos route)"
proof
  assume "labelled b pos route"
  then obtain pre post where "b = pre @ label pos route @ post" "length pre = 20" "length route \<le> 14"
    by (auto simp: labelled_def)
  then show "length route \<le> 14 \<and> slice_of b 20 36 = Some (label pos route)"
    using label_slice [of b pre "label pos route" post] by (simp add: length_label FwdOffset_def)
next
  assume r: "length route \<le> 14 \<and> slice_of b 20 36 = Some (label pos route)"
  then have "b = take 20 b @ label pos route @ drop 36 b"
    using append_take_drop_id [of 20 b] append_take_drop_id [of 16 "drop 20 b"] by (auto simp: slice_Some_iff)
  moreover have "length (take 20 b) = 20" using assms by simp
  ultimately show "labelled b pos route" using r unfolding labelled_def by blast
qed

text \<open>Sealing and opening keep everything from byte 16 to 16 bytes before the end.\<close>

lemma in_transit_inner:
  assumes P: "in_transit V pos route body P" and xs: "slice_of (Buf P) 16 (Length P - 16) = Some xs"
    and M: "slice_of (Buf M) 16 (Length M - 16) = Some xs" "Length M = Length P" "length (Buf M) = TptMTU"
  shows "in_transit V pos route body M"
proof -
  note p = in_transitD [OF P]
  have same: "slice_of (Buf M) i j = slice_of (Buf P) i j" if "16 \<le> i" "i \<le> j" "j \<le> Length P - 16" for i j
    by (rule slice_inner [OF M(1) [unfolded M(2)] xs that])
  have big: "36 \<le> length (Buf P)" "36 \<le> length (Buf M)" using p(1) M(3) by (simp_all add: TptMTU_def)
  have "labelled (Buf M) pos route" using p(2,4) same [of 20 36] by (simp add: labelled_slice big)
  with P M(2,3) p(2) same [of 16 20] same [of 36 "Length P - 16"] show ?thesis by (simp add: in_transit_def)
qed

lemma in_transit_label:
  assumes P: "in_transit V pos route body P" and b: "Buf P = pre @ label pos route @ post" "length pre = 20"
    and r: "length route' = length route"
  shows "in_transit V pos' route' body (P\<lparr>Buf := pre @ label pos' route' @ post\<rparr>)"
proof -
  let ?b = "pre @ label pos' route' @ post"
  have l: "length route \<le> 14" using in_transitD(4) [OF P] by (auto simp: labelled_def)
  then have lab: "length (label pos route) = 16" "length (label pos' route') = 16" using r by (simp_all add: length_label)
  have len: "length ?b = length (Buf P)" using b lab by simp
  have same: "slice_of ?b i j = slice_of (Buf P) i j" if "36 \<le> i \<or> j \<le> 20" for i j
    using that b lab by (intro slice_cong) (auto simp: nth_append)
  show ?thesis
    unfolding in_transit_def using P len same [of 16 20] same [of 36] b(2) l r
    by (auto simp: in_transit_def intro: labelledI)
qed

section \<open>The forwarder of a node\<close>

lemma transit_codec: "in_transit V pos route body P \<Longrightarrow> LowerPacket_Codec V (NewLowerPacket P) = Some (Inr DataMulticodec)"
  by (auto simp: in_transit_def LowerPacket_Codec_def NewLowerPacket_def)

lemma lowerMux_pass:
  assumes M: "in_transit (env_V E) pos route body M" and more: "Suc pos < length route"
    and prev: "bypeer (forwarder node) (LowerSrc M) = Some (unat inn)"
    and nxt: "slots (forwarder node) (unat (route ! Suc pos)) = Some (Slot p Remote)" and src: "\<not> PeerID_Empty (LowerSrc M)"
    and q: "RingBuffer_Get mq = Some (M, lowerMuxQ node)" "empty_queue (lowerSendQ node)"
  obtains Q lq where "lowerMuxRoutine E (node\<lparr>lowerMuxQ := mq\<rparr>) = Some (node\<lparr>lowerSendQ := lq\<rparr>)"
    "RingBuffer_Get lq = Some (Q, lowerSendQ node)" "LowerDst Q = p"
    "in_transit (env_V E) (Suc pos) (route[pos := inn]) body Q"
proof -
  from in_transitD(4) [OF M] obtain pre post where b: "Buf M = pre @ label pos route @ post" "length pre = 20" "length route \<le> 14"
    by (auto simp: labelled_def)
  let ?Q = "M\<lparr>Buf := pre @ label (Suc pos) (route[pos := inn]) @ post, LowerDst := p\<rparr>"
  have fwd: "Forwarder_HandlePacket (forwarder node) (NewLowerPacket M) = Some (Inr (Remote, (NewLowerPacket M)\<lparr>lbase := ?Q\<rparr>))"
    using HandlePacket_pass [of "NewLowerPacket M" pre pos route post "forwarder node" "unat inn" p Remote] b more prev nxt
    by (simp add: NewLowerPacket_def)
  obtain lq where lq: "PutWithBackpressure (lowerSendQ node) ?Q = Some lq" "RingBuffer_Get lq = Some (?Q, lowerSendQ node)"
    by (rule empty_queue_ops [OF q(2)]) (rule that)
  have same_node: "node\<lparr>lowerMuxQ := lowerMuxQ node\<rparr> = node" by simp
  have "lowerMuxRoutine E (node\<lparr>lowerMuxQ := mq\<rparr>) = Some (node\<lparr>lowerSendQ := lq\<rparr>)"
    using q(1) src transit_codec [OF M] fwd lq(1)
    by (simp add: lowerMuxRoutine_def doLowerMux_def logged_def forwarded_def put_lowerSendQ_def same_node)
  moreover have "in_transit (env_V E) (Suc pos) (route[pos := inn]) body ?Q"
    using in_transit_label [OF M b(1,2), of "route[pos := inn]" "Suc pos"] by (simp add: in_transit_def)
  ultimately show thesis using that lq(2) by simp
qed

lemma lowerMux_last:
  assumes M: "in_transit (env_V E) pos route body M" and last: "Suc pos = length route" "length route \<le> 13"
    and prev: "bypeer (forwarder node) (LowerSrc M) = Some (unat inn)"
    and self: "slots (forwarder node) 0 = Some (Slot p Local)" and src: "\<not> PeerID_Empty (LowerSrc M)"
    and q: "RingBuffer_Get mq = Some (M, lowerMuxQ node)" "empty_queue (upperRecvQ node)"
  obtains P uq where "lowerMuxRoutine E (node\<lparr>lowerMuxQ := mq\<rparr>) = Some (node\<lparr>upperRecvQ := uq\<rparr>)"
    "RingBuffer_Get uq = Some (P, upperRecvQ node)" "LowerSrc P = LowerSrc M"
    "in_transit (env_V E) pos (route[pos := inn]) body P"
proof -
  from in_transitD(4) [OF M] obtain pre post where b: "Buf M = pre @ label pos route @ post" "length pre = 20"
    by (auto simp: labelled_def)
  let ?P = "M\<lparr>Buf := pre @ label pos (route[pos := inn]) @ post\<rparr>"
  have fwd: "Forwarder_HandlePacket (forwarder node) (NewLowerPacket M) = Some (Inr (Local, (NewLowerPacket M)\<lparr>lbase := ?P\<rparr>))"
    using HandlePacket_last [of "NewLowerPacket M" pre pos route post "forwarder node" "unat inn" p Local] b last prev self
    by (simp add: NewLowerPacket_def)
  obtain uq where uq: "Put (upperRecvQ node) ?P = Some uq" "RingBuffer_Get uq = Some (?P, upperRecvQ node)"
    by (rule empty_queue_ops [OF q(2)]) (rule that)
  have same_node: "node\<lparr>lowerMuxQ := lowerMuxQ node\<rparr> = node" by simp
  have "lowerMuxRoutine E (node\<lparr>lowerMuxQ := mq\<rparr>) = Some (node\<lparr>upperRecvQ := uq\<rparr>)"
    using q(1) src transit_codec [OF M] fwd uq(1)
    by (simp add: lowerMuxRoutine_def doLowerMux_def logged_def forwarded_def put_upperRecvQ_def same_node)
  moreover have "in_transit (env_V E) pos (route[pos := inn]) body ?P"
    using in_transit_label [OF M b, of "route[pos := inn]" pos] by simp
  ultimately show thesis using that uq(2) by simp
qed


section \<open>Connected neighbours\<close>

text \<open>
  \<open>addr\<close> gives the transport address of every node. A node \<open>a\<close> knows its neighbour \<open>b\<close>: under slot \<open>out\<close> of its forwarder, and by one
  finished session with the index \<open>ix\<close>, which holds the address of \<open>b\<close>.
\<close>

definition knows :: "(PeerID \<Rightarrow> Addr \<times> u16) \<Rightarrow> 'h Node \<Rightarrow> 'h Node \<Rightarrow> byte \<Rightarrow> u32 \<Rightarrow> bool" where
  "knows addr a b out ix \<longleftrightarrow>
     slots (forwarder a) (unat out) = Some (Slot (nd_peerid b) Remote) \<and> bypeer (forwarder a) (nd_peerid b) = Some (unat out) \<and>
     (\<exists>s. store (sessions a) ix = Some (Some s) \<and> stage s = 3 \<and> remotePeerID s = nd_peerid b \<and>
        remoteAddr s = FromAddrPort (addr (nd_peerid b))) \<and>
     (\<forall>i s. store (sessions a) i = Some (Some s) \<longrightarrow> remotePeerID s = nd_peerid b \<longrightarrow> i = ix)"

lemma knowsD:
  assumes "knows addr a b out ix" and "store (sessions a) ix = Some (Some s)"
  shows "remotePeerID s = nd_peerid b" "remoteAddr s = FromAddrPort (addr (nd_peerid b))" "stage s = 3"
  using assms unfolding knows_def by (metis option.inject)+

text \<open>Two neighbours that hold the two ends of one session.\<close>

definition tied :: "(PeerID \<Rightarrow> Addr \<times> u16) \<Rightarrow> 'h Node \<Rightarrow> 'h Node \<Rightarrow> byte \<Rightarrow> byte \<Rightarrow> bool" where
  "tied addr a b out inn \<longleftrightarrow>
     (\<exists>ix s t. knows addr a b out ix \<and> knows addr b a inn ix \<and> store (sessions a) ix = Some (Some s) \<and>
        store (sessions b) ix = Some (Some t) \<and> matched (handshake s) (handshake t))"

lemma tied_sym: "tied addr a b out inn \<longleftrightarrow> tied addr b a inn out"
  unfolding tied_def using matched_sym by blast

text \<open>A node at rest, with an identity and an address.\<close>

definition at_rest :: "crypto \<Rightarrow> (PeerID \<Rightarrow> Addr \<times> u16) \<Rightarrow> 'h Node \<Rightarrow> bool" where
  "at_rest C addr node \<longleftrightarrow>
     (\<exists>k. node_inv C k node) \<and> idle node \<and> empty_queue (upperRecvQ node) \<and> \<not> PeerID_Empty (nd_peerid node) \<and>
     \<not> Multiaddr_Empty (FromAddrPort (addr (nd_peerid node))) \<and> finite (dom (store (sessions node)))"

text \<open>A chain of neighbours, with a hop for each link.\<close>

fun chain :: "(PeerID \<Rightarrow> Addr \<times> u16) \<Rightarrow> hop list \<Rightarrow> 'h Node list \<Rightarrow> bool" where
  "chain addr [] ns = (length ns = 1)"
| "chain addr ((out, p, inn) # hs) (a # b # ns) = (p = nd_peerid b \<and> tied addr a b out inn \<and> chain addr hs (b # ns))"
| "chain addr (h # hs) ns = False"

lemma chain_length: "chain addr hs ns \<Longrightarrow> length ns = Suc (length hs)"
  by (induction addr hs ns rule: chain.induct) auto

lemma chain_snoc:
  "chain addr hs ns \<Longrightarrow> tied addr (last ns) c out inn \<Longrightarrow> chain addr (hs @ [(out, nd_peerid c, inn)]) (ns @ [c])"
  by (induction addr hs ns rule: chain.induct) (auto simp: length_Suc_conv)

lemma chain_end: "chain addr hs ns \<Longrightarrow> path_end (nd_peerid (hd ns)) hs = nd_peerid (last ns)"
  by (induction addr hs ns rule: chain.induct) (auto simp: length_Suc_conv)

lemma chain_rev: "chain addr hs ns \<Longrightarrow> chain addr (way_back (nd_peerid (hd ns)) hs) (rev ns)"
proof (induction addr hs ns rule: chain.induct)
  case (2 addr out p inn hs a b ns)
  then have "chain addr (way_back (nd_peerid b) hs) (rev (b # ns))" "tied addr (last (rev (b # ns))) a inn out"
    by (auto simp: tied_sym)
  from chain_snoc [OF this] 2 show ?case by simp
qed (auto simp: length_Suc_conv)

lemma back_inns: "inns (way_back a hs) = rev (outs hs)"
  by (induction a hs rule: way_back.induct) (auto simp: outs_def inns_def)

section \<open>Sending changes only nonces\<close>

definition tick :: "Session \<Rightarrow> Session \<Rightarrow> bool" where
  "tick s t \<longleftrightarrow> (\<exists>n. t = s\<lparr>handshake := (handshake s)\<lparr>sendNonce := n\<rparr>\<rparr>)"

definition ticked :: "'h Node \<Rightarrow> 'h Node \<Rightarrow> bool" where
  "ticked a a' \<longleftrightarrow>
     (\<exists>st. a' = a\<lparr>sessions := (sessions a)\<lparr>store := st\<rparr>\<rparr> \<and>
        (\<forall>i. rel_option (rel_option tick) (store (sessions a) i) (st i)))"

lemma tickD:
  assumes "tick s t"
  shows "remotePeerID t = remotePeerID s" "remoteAddr t = remoteAddr s" "stage t = stage s"
    "matched (handshake t) h \<longleftrightarrow> matched (handshake s) h" "matched h (handshake t) \<longleftrightarrow> matched h (handshake s)"
    "session_ok k t \<longleftrightarrow> session_ok k s"
proof -
  obtain n where t: "t = s\<lparr>handshake := (handshake s)\<lparr>sendNonce := n\<rparr>\<rparr>" using assms unfolding tick_def by blast
  show "remotePeerID t = remotePeerID s" "remoteAddr t = remoteAddr s" "stage t = stage s"
    "matched (handshake t) h \<longleftrightarrow> matched (handshake s) h" "matched h (handshake t) \<longleftrightarrow> matched h (handshake s)"
    "session_ok k t \<longleftrightarrow> session_ok k s" unfolding t matched_def session_ok_def by simp_all
qed

lemma tick_refl: "tick s s"
proof -
  have "s = s\<lparr>handshake := (handshake s)\<lparr>sendNonce := sendNonce (handshake s)\<rparr>\<rparr>" by simp
  then show ?thesis unfolding tick_def by blast
qed

lemma ticked_refl: "ticked a a"
proof -
  have "a = a\<lparr>sessions := (sessions a)\<lparr>store := store (sessions a)\<rparr>\<rparr>" by simp
  moreover have "\<forall>i. rel_option (rel_option tick) (store (sessions a) i) (store (sessions a) i)"
    by (auto intro!: option.rel_refl tick_refl)
  ultimately show ?thesis unfolding ticked_def by blast
qed

lemma tick_trans: "tick s t \<Longrightarrow> tick t u \<Longrightarrow> tick s u"
  by (auto simp: tick_def)

lemma ticked_trans: assumes "ticked a b" "ticked b c" shows "ticked a c"
proof -
  from assms obtain st st' where "b = a\<lparr>sessions := (sessions a)\<lparr>store := st\<rparr>\<rparr>" "c = a\<lparr>sessions := (sessions a)\<lparr>store := st'\<rparr>\<rparr>"
    and r: "\<And>i. rel_option (rel_option tick) (store (sessions a) i) (st i)" "\<And>i. rel_option (rel_option tick) (st i) (st' i)"
    by (auto simp: ticked_def)
  moreover have "rel_option (rel_option tick) (store (sessions a) i) (st' i)" for i
    using r(1) [of i] r(2) [of i]
    by (auto simp: option_rel_Some1 option_rel_Some2 rel_option_iff split: option.splits intro: tick_trans)
  ultimately show ?thesis by (auto simp: ticked_def)
qed

lemma rel_option_None: "rel_option R x y \<Longrightarrow> x = None \<longleftrightarrow> y = None"
  by (cases x; cases y) auto

lemma ticked_frame:
  assumes "ticked a a'"
  shows "nd_peerid a' = nd_peerid a" "forwarder a' = forwarder a" "routing a' = routing a"
    "idle a' = idle a" "upperRecvQ a' = upperRecvQ a" "upperHandlers a' = upperHandlers a" "upper_calls a' = upper_calls a"
    "woken a' = woken a" "nd_waiters a' = nd_waiters a" "dom (store (sessions a')) = dom (store (sessions a))"
proof -
  from assms obtain st where a': "a' = a\<lparr>sessions := (sessions a)\<lparr>store := st\<rparr>\<rparr>"
    and r: "\<forall>i. rel_option (rel_option tick) (store (sessions a) i) (st i)" by (auto simp: ticked_def)
  show "nd_peerid a' = nd_peerid a" "forwarder a' = forwarder a" "routing a' = routing a"
    "idle a' = idle a" "upperRecvQ a' = upperRecvQ a" "upperHandlers a' = upperHandlers a" "upper_calls a' = upper_calls a"
    "woken a' = woken a" "nd_waiters a' = nd_waiters a" by (simp_all add: a')
  show "dom (store (sessions a')) = dom (store (sessions a))"
    using rel_option_None [OF r [rule_format]] by (auto simp: a' dom_def)
qed

lemma ticked_store:
  assumes "ticked a a'"
  shows "store (sessions a) i = Some (Some s) \<Longrightarrow> \<exists>t. store (sessions a') i = Some (Some t) \<and> tick s t"
    "store (sessions a') i = Some (Some t) \<Longrightarrow> \<exists>s. store (sessions a) i = Some (Some s) \<and> tick s t"
  using assms by (auto simp: ticked_def option_rel_Some1 option_rel_Some2 dest!: spec [of _ i])

lemma ticked_inv:
  assumes t: "ticked a a'" and inv: "node_inv C k a"
  shows "node_inv C k a'"
proof -
  from t obtain st where a': "a' = a\<lparr>sessions := (sessions a)\<lparr>store := st\<rparr>\<rparr>"
    and r: "\<forall>i. rel_option (rel_option tick) (store (sessions a) i) (st i)" by (auto simp: ticked_def)
  have sm: "sm_inv C (sessions a)" "sm_privkey (sessions a) = k" using inv by (auto simp: node_inv_def tables_ok_def)
  have "\<exists>s. p = Some s \<and> session_ok k s" if "st i = Some p" for i p
  proof -
    from r that obtain p0 where p0: "store (sessions a) i = Some p0" "rel_option tick p0 p"
      by (metis option_rel_Some2)
    with sm obtain s0 where "p0 = Some s0" "session_ok k s0" by (auto simp: sm_inv_def)
    with p0(2) show ?thesis using tickD(6) by (auto simp: option_rel_Some1)
  qed
  with sm have "sm_inv C ((sessions a)\<lparr>store := st\<rparr>)" by (auto simp: sm_inv_def)
  with inv show ?thesis by (simp add: a' node_inv_def tables_ok_def queues_ok_def)
qed

lemma ticked_rest: "ticked a a' \<Longrightarrow> at_rest C addr a \<Longrightarrow> at_rest C addr a'"
  using ticked_inv [of a a'] ticked_frame [of a a'] by (auto simp: at_rest_def)

lemma ticked_knows:
  assumes "ticked a a'" "ticked b b'" "knows addr a b out ix"
  shows "knows addr a' b' out ix"
proof -
  from assms(3) obtain s where "store (sessions a) ix = Some (Some s)" "stage s = 3" "remotePeerID s = nd_peerid b"
    "remoteAddr s = FromAddrPort (addr (nd_peerid b))" by (auto simp: knows_def)
  moreover then obtain t where "store (sessions a') ix = Some (Some t)" "tick s t"
    using ticked_store(1) [OF assms(1)] by blast
  ultimately have "\<exists>t. store (sessions a') ix = Some (Some t) \<and> stage t = 3 \<and> remotePeerID t = nd_peerid b' \<and>
      remoteAddr t = FromAddrPort (addr (nd_peerid b'))"
    using tickD(1-3) [of s t] ticked_frame(1) [OF assms(2)] by simp
  moreover have "i = ix" if r: "store (sessions a') i = Some (Some r)" "remotePeerID r = nd_peerid b'" for i r
  proof -
    obtain s where "store (sessions a) i = Some (Some s)" "tick s r" using ticked_store(2) [OF assms(1) r(1)] by blast
    with r(2) assms(3) tickD(1) [of s r] ticked_frame(1) [OF assms(2)] show ?thesis unfolding knows_def by metis
  qed
  ultimately show ?thesis
    using assms(3) ticked_frame(2) [OF assms(1)] ticked_frame(1) [OF assms(2)] unfolding knows_def by simp
qed

lemma ticked_tied:
  assumes "ticked a a'" "ticked b b'" "tied addr a b out inn"
  shows "tied addr a' b' out inn"
proof -
  from assms(3) obtain ix s t where k: "knows addr a b out ix" "knows addr b a inn ix"
    and s: "store (sessions a) ix = Some (Some s)" "store (sessions b) ix = Some (Some t)" "matched (handshake s) (handshake t)"
    by (auto simp: tied_def)
  from ticked_store(1) [OF assms(1) s(1)] ticked_store(1) [OF assms(2) s(2)] obtain s' t' where
    st: "store (sessions a') ix = Some (Some s')" "store (sessions b') ix = Some (Some t')" "tick s s'" "tick t t'" by blast
  have "matched (handshake s') (handshake t')" using s(3) tickD(4) [OF st(3)] tickD(5) [OF st(4)] by simp
  with st ticked_knows [OF assms(1,2) k(1)] ticked_knows [OF assms(2,1) k(2)] show ?thesis
    unfolding tied_def by blast
qed

lemma ticked_chain: "chain addr hs ns \<Longrightarrow> list_all2 ticked ns ns' \<Longrightarrow> chain addr hs ns'"
proof (induction addr hs ns arbitrary: ns' rule: chain.induct)
  case (2 addr out p inn hs a b ns)
  from "2.prems"(2) obtain a' b' ms where ns': "ns' = a' # b' # ms" "ticked a a'" "ticked b b'" "list_all2 ticked (b # ns) (b' # ms)"
    by (auto simp: list_all2_Cons1)
  then show ?case using 2 ticked_tied ticked_frame(1) by fastforce
qed (auto simp: list_all2_lengthD)


section \<open>One hop\<close>

text \<open>
  \<open>a\<close> sends the oldest packet of its queue to \<open>b\<close>, if the datagram goes to the address of \<open>b\<close>, and \<open>b\<close> receives it and asks its forwarder.
  The sessions of a node are listed in the order \<open>ord\<close>.
\<close>

definition hop_run ::
  "env \<Rightarrow> (SessionManager \<Rightarrow> u32 list) \<Rightarrow> (PeerID \<Rightarrow> Addr \<times> u16) \<Rightarrow> 'h Node \<Rightarrow> 'h Node \<Rightarrow> ('h Node \<times> 'h Node) option" where
  "hop_run E ord addr a b = do {
     a \<leftarrow> lowerSendRoutine (E\<lparr>env_order := ord (sessions a)\<rparr>) a;
     (a, b, dst) \<leftarrow> carry a (addr (nd_peerid a)) b;
     if dst \<noteq> addr (nd_peerid b) then None
     else do {
       b \<leftarrow> lowerRecvRoutine E b;
       b \<leftarrow> lowerMuxRoutine E b;
       Some (a, b) } }"

text \<open>Packets move along a list of nodes.\<close>

fun relay ::
  "env \<Rightarrow> (SessionManager \<Rightarrow> u32 list) \<Rightarrow> (PeerID \<Rightarrow> Addr \<times> u16) \<Rightarrow> 'h Node list \<Rightarrow> 'h Node list option" where
  "relay E ord addr (a # b # ns) = do {
     (a, b) \<leftarrow> hop_run E ord addr a b;
     ns \<leftarrow> relay E ord addr (b # ns);
     Some (a # ns) }"
| "relay E ord addr ns = Some ns"

definition lists_sessions :: "(SessionManager \<Rightarrow> u32 list) \<Rightarrow> bool" where
  "lists_sessions ord \<longleftrightarrow> (\<forall>sm. finite (dom (store sm)) \<longrightarrow> set (ord sm) = dom (store sm))"

lemma ticked_send:
  assumes "store (sessions a) ix = Some (Some s)" and "tick s t"
  shows "ticked a (a\<lparr>sessions := set_session (sessions a) ix t\<rparr>)"
proof -
  have "rel_option (rel_option tick) (store (sessions a) i) (((store (sessions a))(ix \<mapsto> Some t)) i)" for i
    using assms by (auto intro!: option.rel_refl tick_refl)
  then show ?thesis unfolding ticked_def set_session_def by auto
qed

lemma MakeMessage_tick: "MakeMessage C (handshake s) xs = (hs, Inr r) \<Longrightarrow> tick s (s\<lparr>handshake := hs\<rparr>)"
  by (auto simp: MakeMessage_def tick_def Let_def split: option.splits)

text \<open>The packet reaches the mux queue of the neighbour, and the sender has counted up a nonce.\<close>

lemma hop_to_mux:
  assumes C: "crypto_ok (env_C E)" and ord: "lists_sessions ord" and tie: "tied addr a b out inn"
    and rest: "at_rest (env_C E) addr a" "at_rest (env_C E) addr b"
    and Q: "in_transit V pos route body Q" "LowerDst Q = nd_peerid b" "RingBuffer_Get lq = Some (Q, lowerSendQ a)"
  obtains a1 a' b1 mq M where
    "lowerSendRoutine (E\<lparr>env_order := ord (sessions a)\<rparr>) (a\<lparr>lowerSendQ := lq\<rparr>) = Some a1"
    "carry a1 (addr (nd_peerid a)) b = Some (a', b1, addr (nd_peerid b))" "nd_peerid a1 = nd_peerid a" "nd_peerid b1 = nd_peerid b"
    "lowerRecvRoutine E b1 = Some (b\<lparr>lowerMuxQ := mq\<rparr>)" "ticked a a'"
    "RingBuffer_Get mq = Some (M, lowerMuxQ b)" "LowerSrc M = nd_peerid a" "in_transit V pos route body M"
proof -
  from tie obtain ix s t where k: "knows addr a b out ix" "knows addr b a inn ix"
    and s: "store (sessions a) ix = Some (Some s)" and t: "store (sessions b) ix = Some (Some t)" and m: "matched (handshake s) (handshake t)"
    by (auto simp: tied_def)
  have s': "remotePeerID s = nd_peerid b" "remoteAddr s = FromAddrPort (addr (nd_peerid b))" and t': "remotePeerID t = nd_peerid a" "stage t = 3"
    using knowsD [OF k(1) s] knowsD [OF k(2) t] by simp_all
  obtain ka where inv: "node_inv (env_C E) ka a" using rest(1) by (auto simp: at_rest_def)
  have fin: "finite (dom (store (sessions a)))" and ids: "\<not> PeerID_Empty (nd_peerid b)" "\<not> Multiaddr_Empty (remoteAddr s)"
    using rest s'(2) by (simp_all add: at_rest_def)
  from rest obtain tpt tpts where qa: "transports a = tpt # tpts" "empty_queue (sendQ tpt)"
    and qb: "empty_queue (lowerRecvQ b)" "empty_queue (lowerMuxQ b)"
    unfolding at_rest_def idle_def by blast
  let ?E = "E\<lparr>env_order := ord (sessions a)\<rparr>"
  have found: "Find (env_order ?E) (sessions a) (LowerDst Q) = Some (Some (s, ix))"
  proof (rule Find_unique [OF _ _ s])
    show "set (env_order ?E) = dom (store (sessions a))" using ord fin by (simp add: lists_sessions_def)
    show "store (sessions a) i \<noteq> Some None" for i by (rule sm_inv_no_nil [OF node_invD(1) [OF inv]])
    show "remotePeerID s = LowerDst Q" using s'(1) Q(2) by simp
    show "i = ix" if "store (sessions a) i = Some (Some r)" "remotePeerID r = LowerDst Q" for i r
      using k(1) that Q(2) unfolding knows_def by metis
  qed
  have ne: "\<not> PeerID_Empty (LowerDst Q)" and C': "crypto_ok (env_C ?E)" using ids(1) Q(2) C by simp_all
  note q = in_transitD [OF Q(1)]
  have l32: "32 \<le> Length Q" using q(2) by simp
  obtain hs hdr ct D tpt' dgram xs where low: "lowerSendRoutine ?E (a\<lparr>lowerSendQ := lq\<rparr>) =
       Some (a\<lparr>sessions := set_session (sessions a) ix (s\<lparr>handshake := hs\<rparr>), transports := tpt' # tpts\<rparr>)"
    and wire: "Transport_SendStep tpt' = Some (tpt, Some (dgram, Multiaddr_AddrPort (remoteAddr s)))"
    and mk: "MakeMessage (env_C ?E) (handshake s) xs = (hs, Inr (hdr, ct))"
    and xs: "slice_of (Buf Q) 16 (Length Q - 16) = Some xs"
    and D: "data_carries D ix hdr ct" "Offset D = 0" "Padding D = 0" "length (fbuf D) = TptMTU"
      "Length (base D) = Length Q" "Packet_Bytes (base D) = Some dgram"
    by (rule lowerSend_run [OF C' q(1) l32 q(3) ne found m ids(2) Q(3) qa]) (rule that)
  note mk = mk [simplified]
  note rt = message_roundtrip [OF C m mk]
  let ?a = "a\<lparr>sessions := set_session (sessions a) ix (s\<lparr>handshake := hs\<rparr>)\<rparr>"
  have dst: "Multiaddr_AddrPort (remoteAddr s) = addr (nd_peerid b)" using s'(2) by (simp add: Multiaddr_AddrPort_def FromAddrPort_def)
  obtain rq where rq: "RingBuffer_Get rq = Some (received dgram (addr (nd_peerid a)), lowerRecvQ b)"
    and car: "carry (?a\<lparr>transports := tpt' # tpts\<rparr>) (addr (nd_peerid a)) b =
      Some (?a\<lparr>transports := tpt # tpts\<rparr>, b\<lparr>lowerRecvQ := rq\<rparr>, Multiaddr_AddrPort (remoteAddr s))"
    by (rule carry_run [OF wire qb(1)]) (rule that)
  note car = car [unfolded same_transports [OF qa(1)] dst]
  obtain b' M mq where recv: "lowerRecvRoutine E (b\<lparr>lowerRecvQ := rq\<rparr>) = Some (b'\<lparr>lowerMuxQ := mq\<rparr>)"
    and M: "RingBuffer_Get mq = Some (M, lowerMuxQ b)" "LowerSrc M = remotePeerID t"
      "Length M = Length (base D)" "length (Buf M) = TptMTU" "slice_of (Buf M) 16 (Length M - 16) = Some xs"
    and b': "b' = greeted (env_C E) b t (set_session (sessions b) ix (t\<lparr>stage := 3\<rparr>))"
    by (rule lowerRecv_run [OF C D(1-4,6) t rt(1,3) rq qb(2)]) (rule that)
  have "t\<lparr>stage := 3\<rparr> = t" using t'(2) by (cases t) simp
  then have "set_session (sessions b) ix (t\<lparr>stage := 3\<rparr>) = sessions b" using t by (simp add: set_session_def fun_upd_idem)
  then have "b' = b" using t'(2) unfolding b' greeted_def by simp
  note recv = recv [unfolded this]
  have "in_transit V pos route body M" using in_transit_inner [OF Q(1) xs M(5)] M(3,4) D(5) by simp
  then show thesis
    by (intro that [OF low car _ _ recv ticked_send [OF s MakeMessage_tick [OF mk]] M(1)]) (use M(2) t'(1) in simp_all)
qed


section \<open>The whole chain\<close>

lemma knows_slots:
  "knows addr a b out ix \<Longrightarrow> slots (forwarder a) (unat out) = Some (Slot (nd_peerid b) Remote) \<and> bypeer (forwarder a) (nd_peerid b) = Some (unat out)"
  by (simp add: knows_def)

lemma tied_slots:
  assumes "tied addr a b out inn"
  shows "slots (forwarder a) (unat out) = Some (Slot (nd_peerid b) Remote)" "bypeer (forwarder b) (nd_peerid a) = Some (unat inn)"
  using assms knows_slots unfolding tied_def by blast+

text \<open>A node in the middle passes the packet on; the last one puts it into its own queue.\<close>

lemma hop_pass:
  assumes C: "crypto_ok (env_C E)" and ord: "lists_sessions ord" and tie: "tied addr a b out inn" "tied addr b c out' inn'"
    and rest: "at_rest (env_C E) addr a" "at_rest (env_C E) addr b"
    and Q: "in_transit (env_V E) (length ins) (ins @ out # out' # rt) body Q" "LowerDst Q = nd_peerid b" "RingBuffer_Get lq = Some (Q, lowerSendQ a)"
  obtains a' Q' lq' where "hop_run E ord addr (a\<lparr>lowerSendQ := lq\<rparr>) b = Some (a', b\<lparr>lowerSendQ := lq'\<rparr>)" "ticked a a'"
    "RingBuffer_Get lq' = Some (Q', lowerSendQ b)" "LowerDst Q' = nd_peerid c"
    "in_transit (env_V E) (length (ins @ [inn])) ((ins @ [inn]) @ out' # rt) body Q'"
proof -
  obtain a1 a' b1 mq M where run: "lowerSendRoutine (E\<lparr>env_order := ord (sessions a)\<rparr>) (a\<lparr>lowerSendQ := lq\<rparr>) = Some a1"
    "carry a1 (addr (nd_peerid a)) b = Some (a', b1, addr (nd_peerid b))" "nd_peerid a1 = nd_peerid a" "nd_peerid b1 = nd_peerid b"
    "lowerRecvRoutine E b1 = Some (b\<lparr>lowerMuxQ := mq\<rparr>)" and tick: "ticked a a'"
    and M: "RingBuffer_Get mq = Some (M, lowerMuxQ b)" "LowerSrc M = nd_peerid a" "in_transit (env_V E) (length ins) (ins @ out # out' # rt) body M"
    by (rule hop_to_mux [OF C ord tie(1) rest Q]) (rule that)
  have sb: "empty_queue (lowerSendQ b)" and src: "\<not> PeerID_Empty (LowerSrc M)"
    using rest M(2) by (simp_all add: at_rest_def idle_def)
  have slots: "bypeer (forwarder b) (LowerSrc M) = Some (unat inn)"
    "slots (forwarder b) (unat ((ins @ out # out' # rt) ! Suc (length ins))) = Some (Slot (nd_peerid c) Remote)"
    using tied_slots(2) [OF tie(1)] tied_slots(1) [OF tie(2)] M(2) by (simp_all add: nth_append)
  have pos: "Suc (length ins) < length (ins @ out # out' # rt)" by simp
  obtain Q' lq' where mux: "lowerMuxRoutine E (b\<lparr>lowerMuxQ := mq\<rparr>) = Some (b\<lparr>lowerSendQ := lq'\<rparr>)"
    and Q': "RingBuffer_Get lq' = Some (Q', lowerSendQ b)" "LowerDst Q' = nd_peerid c"
      "in_transit (env_V E) (Suc (length ins)) ((ins @ out # out' # rt)[length ins := inn]) body Q'"
    by (rule lowerMux_pass [OF M(3) pos slots src M(1) sb]) (rule that)
  have "hop_run E ord addr (a\<lparr>lowerSendQ := lq\<rparr>) b = Some (a', b\<lparr>lowerSendQ := lq'\<rparr>)"
    using run mux by (simp add: hop_run_def)
  then show thesis by (rule that [OF _ tick Q'(1,2)]) (use Q'(3) in simp)
qed

lemma hop_last:
  assumes C: "crypto_ok (env_C E)" and ord: "lists_sessions ord" and tie: "tied addr a b out inn"
    and rest: "at_rest (env_C E) addr a" "at_rest (env_C E) addr b" and len: "length ins < 13"
    and Q: "in_transit (env_V E) (length ins) (ins @ [out]) body Q" "LowerDst Q = nd_peerid b" "RingBuffer_Get lq = Some (Q, lowerSendQ a)"
  obtains a' P uq where "hop_run E ord addr (a\<lparr>lowerSendQ := lq\<rparr>) b = Some (a', b\<lparr>upperRecvQ := uq\<rparr>)" "ticked a a'"
    "RingBuffer_Get uq = Some (P, upperRecvQ b)" "\<not> PeerID_Empty (LowerSrc P)"
    "in_transit (env_V E) (length ins) (ins @ [inn]) body P"
proof -
  obtain a1 a' b1 mq M where run: "lowerSendRoutine (E\<lparr>env_order := ord (sessions a)\<rparr>) (a\<lparr>lowerSendQ := lq\<rparr>) = Some a1"
    "carry a1 (addr (nd_peerid a)) b = Some (a', b1, addr (nd_peerid b))" "nd_peerid a1 = nd_peerid a" "nd_peerid b1 = nd_peerid b"
    "lowerRecvRoutine E b1 = Some (b\<lparr>lowerMuxQ := mq\<rparr>)" and tick: "ticked a a'"
    and M: "RingBuffer_Get mq = Some (M, lowerMuxQ b)" "LowerSrc M = nd_peerid a" "in_transit (env_V E) (length ins) (ins @ [out]) body M"
    by (rule hop_to_mux [OF C ord tie rest Q]) (rule that)
  obtain kb where "node_inv (env_C E) kb b" using rest(2) unfolding at_rest_def by blast
  then have self: "slots (forwarder b) 0 = Some (Slot (nd_peerid b) Local)" by (simp add: node_inv_def tables_ok_def)
  have ub: "empty_queue (upperRecvQ b)" and src: "\<not> PeerID_Empty (LowerSrc M)" using rest M(2) by (simp_all add: at_rest_def)
  have prev: "bypeer (forwarder b) (LowerSrc M) = Some (unat inn)" using tied_slots(2) [OF tie] M(2) by simp
  have pos: "Suc (length ins) = length (ins @ [out])" "length (ins @ [out]) \<le> 13" using len by simp_all
  obtain P uq where mux: "lowerMuxRoutine E (b\<lparr>lowerMuxQ := mq\<rparr>) = Some (b\<lparr>upperRecvQ := uq\<rparr>)"
    and P: "RingBuffer_Get uq = Some (P, upperRecvQ b)" "LowerSrc P = LowerSrc M"
      "in_transit (env_V E) (length ins) ((ins @ [out])[length ins := inn]) body P"
    by (rule lowerMux_last [OF M(3) pos prev self src M(1) ub]) (rule that)
  have "hop_run E ord addr (a\<lparr>lowerSendQ := lq\<rparr>) b = Some (a', b\<lparr>upperRecvQ := uq\<rparr>)"
    using run mux by (simp add: hop_run_def)
  then show thesis by (rule that [OF _ tick P(1)]) (use P(2,3) src in simp_all)
qed

text \<open>
  A packet at the start of a chain of at most 13 hops arrives in the queue of the last node; on the way only nonces are
  counted up, and the label lists where the packet came from.
\<close>

lemma relay_run:
  assumes "crypto_ok (env_C E)" and "lists_sessions ord" and "chain addr ((out, p, inn) # hs) (a # b # ns)"
    and "list_all (at_rest (env_C E) addr) (a # b # ns)"
    and "in_transit (env_V E) (length ins) (ins @ out # outs hs) body Q" "LowerDst Q = nd_peerid b" "RingBuffer_Get lq = Some (Q, lowerSendQ a)"
    and "length ins + Suc (length hs) \<le> 13"
  shows "\<exists>ms uq P. relay E ord addr (a\<lparr>lowerSendQ := lq\<rparr> # b # ns) = Some (ms @ [(last (b # ns))\<lparr>upperRecvQ := uq\<rparr>]) \<and>
    list_all2 ticked (a # b # ns) (ms @ [last (b # ns)]) \<and> RingBuffer_Get uq = Some (P, upperRecvQ (last (b # ns))) \<and>
    \<not> PeerID_Empty (LowerSrc P) \<and> in_transit (env_V E) (length ins + length hs) (ins @ inn # inns hs) body P"
  using assms(3-8)
proof (induction hs arbitrary: a b ns out p inn ins Q lq)
  case Nil
  from Nil.prems(1) have ns: "ns = []" and tie: "tied addr a b out inn" by simp_all
  have rest: "at_rest (env_C E) addr a" "at_rest (env_C E) addr b" using Nil.prems(2) by simp_all
  have len: "length ins < 13" and Q: "in_transit (env_V E) (length ins) (ins @ [out]) body Q" using Nil.prems(3,6) by simp_all
  obtain a' P uq where run: "hop_run E ord addr (a\<lparr>lowerSendQ := lq\<rparr>) b = Some (a', b\<lparr>upperRecvQ := uq\<rparr>)" and tick: "ticked a a'"
    and P: "RingBuffer_Get uq = Some (P, upperRecvQ b)" "\<not> PeerID_Empty (LowerSrc P)" "in_transit (env_V E) (length ins) (ins @ [inn]) body P"
    by (rule hop_last [OF assms(1,2) tie rest len Q Nil.prems(4,5)]) (rule that)
  have "relay E ord addr (a\<lparr>lowerSendQ := lq\<rparr> # b # ns) = Some ([a'] @ [b\<lparr>upperRecvQ := uq\<rparr>])" using run by (simp add: ns)
  moreover have "list_all2 ticked (a # b # ns) ([a'] @ [b])" using tick ticked_refl by (simp add: ns)
  ultimately show ?case using P ns by (intro exI [of _ "[a']"] exI [of _ uq] exI [of _ P]) simp
next
  case (Cons h hs)
  obtain out' p' inn' where h: "h = (out', p', inn')" by (cases h)
  from Cons.prems(1) obtain c ms where ns: "ns = c # ms" and tie: "tied addr a b out inn" "tied addr b c out' inn'"
    and ch: "chain addr ((out', p', inn') # hs) (b # c # ms)"
    unfolding h by (cases ns) simp_all
  have rest: "at_rest (env_C E) addr a" "at_rest (env_C E) addr b" and rests: "list_all (at_rest (env_C E) addr) (b # c # ms)"
    using Cons.prems(2) ns by simp_all
  have Q: "in_transit (env_V E) (length ins) (ins @ out # out' # outs hs) body Q" using Cons.prems(3) by (simp add: h)
  obtain a' Q' lq' where hop: "hop_run E ord addr (a\<lparr>lowerSendQ := lq\<rparr>) b = Some (a', b\<lparr>lowerSendQ := lq'\<rparr>)" "ticked a a'"
    and Q': "RingBuffer_Get lq' = Some (Q', lowerSendQ b)" "LowerDst Q' = nd_peerid c"
      "in_transit (env_V E) (length (ins @ [inn])) ((ins @ [inn]) @ out' # outs hs) body Q'"
    by (rule hop_pass [OF assms(1,2) tie rest Q Cons.prems(4,5)]) (rule that)
  have len: "length (ins @ [inn]) + Suc (length hs) \<le> 13" using Cons.prems(6) by simp
  from Cons.IH [OF ch rests Q'(3,2,1) len] obtain ms' uq P where
    r: "relay E ord addr (b\<lparr>lowerSendQ := lq'\<rparr> # c # ms) = Some (ms' @ [(last (c # ms))\<lparr>upperRecvQ := uq\<rparr>])"
    "list_all2 ticked (b # c # ms) (ms' @ [last (c # ms)])" "RingBuffer_Get uq = Some (P, upperRecvQ (last (c # ms)))"
    "\<not> PeerID_Empty (LowerSrc P)" "in_transit (env_V E) (length (ins @ [inn]) + length hs) ((ins @ [inn]) @ inn' # inns hs) body P"
    by blast
  have "relay E ord addr (a\<lparr>lowerSendQ := lq\<rparr> # b # ns) = Some ((a' # ms') @ [(last (b # ns))\<lparr>upperRecvQ := uq\<rparr>])"
    unfolding ns relay.simps(1) [of E ord addr _ b] hop(1) using r(1) by (simp del: relay.simps)
  moreover have "list_all2 ticked (a # b # ns) ((a' # ms') @ [last (b # ns)])" using r(2) hop(2) by (simp add: ns)
  ultimately show ?case
    using r(3-5) by (intro exI [of _ "a' # ms'"] exI [of _ uq] exI [of _ P]) (simp add: ns h)
qed

end
