(* ===== verification/RoutedSessions.thy ===== *)
theory RoutedSessions
  imports Relaying
begin

text \<open>
  Sessions between the two ends of a route: the upper hello, its response and the data packets, each inside a packet that travels along
  a chain of nodes. Each lemma runs the steps of one end, from the queue where its packet waits to the queue for the first hop.
\<close>

section \<open>Frames inside a routed packet\<close>

text \<open>A session packet at the place of the upper layer; \<open>body\<close> is all that a route carries of it.\<close>

definition upper_frame :: "Framed \<Rightarrow> bytes \<Rightarrow> bool" where
  "upper_frame q body \<longleftrightarrow>
     Offset q = 36 \<and> Padding q = 16 \<and> length (fbuf q) = TptMTU \<and> 52 \<le> Length (base q) \<and> Length (base q) \<le> int TptMTU \<and>
     slice_of (fbuf q) 36 (Length (base q) - 16) = Some body"

lemma upper_frameI:
  assumes "Offset q = 36" "Padding q = 16" "length (fbuf q) = TptMTU" "52 \<le> Length (base q)" "Length (base q) \<le> int TptMTU"
  obtains body where "upper_frame q body"
  using assms slice_total [of 36 "Length (base q) - 16" "fbuf q"] that by (auto simp: upper_frame_def)

lemma upper_frameD:
  assumes "upper_frame q body"
  shows "Offset q = 36" "Padding q = 16" "length (fbuf q) = TptMTU" "52 \<le> Length (base q)" "Length (base q) \<le> int TptMTU"
    "slice_of (fbuf q) 36 (Length (base q) - 16) = Some body" "Length (base q) = 52 + int (length body)"
proof -
  show *: "Offset q = 36" "Padding q = 16" "length (fbuf q) = TptMTU" "52 \<le> Length (base q)" "Length (base q) \<le> int TptMTU"
    "slice_of (fbuf q) 36 (Length (base q) - 16) = Some body"
    using assms unfolding upper_frame_def by blast+
  show "Length (base q) = 52 + int (length body)" using *(4) slice_length [OF *(6)] by linarith
qed

text \<open>A header written at the place of the upper layer.\<close>

lemma upper_header:
  assumes "wrote 0 4 \<lparr>Offset = UpperOffset, Padding = UpperPadding, base = P\<rparr> D"
  shows "Offset D = 36" "Padding D = 16" "base D = P\<lparr>Buf := fbuf D\<rparr>" "length (fbuf D) = length (Buf P)"
    "40 \<le> i \<or> j \<le> 36 \<Longrightarrow> slice_of (fbuf D) i j = slice_of (Buf P) i j"
proof -
  from assms obtain xs c where c: "copy_at (Buf P) 36 40 xs = Some c"
    and D: "D = with_buf \<lparr>Offset = UpperOffset, Padding = UpperPadding, base = P\<rparr> c"
    by (auto simp: wrote_def UpperOffset_def)
  show "Offset D = 36" "Padding D = 16" "base D = P\<lparr>Buf := fbuf D\<rparr>" "length (fbuf D) = length (Buf P)"
    using copy_at_length [OF c] by (simp_all add: D UpperOffset_def UpperPadding_def)
  assume "40 \<le> i \<or> j \<le> 36"
  with slice_copy_other [OF c] D show "slice_of (fbuf D) i j = slice_of (Buf P) i j" by auto
qed

text \<open>The packet that arrives, once the receiver has put its own header in front.\<close>

lemma upper_received:
  assumes q: "upper_frame q body" and P: "in_transit V pos route body P"
    and w: "wrote 0 4 \<lparr>Offset = UpperOffset, Padding = UpperPadding, base = P\<rparr> h"
  shows "Offset h = 36" "Padding h = 16" "length (fbuf h) = TptMTU" "Length (base h) = Length (base q)" "labelled (fbuf h) pos route"
    "40 \<le> i \<Longrightarrow> i \<le> j \<Longrightarrow> j \<le> Length (base q) - 16 \<Longrightarrow> slice_of (fbuf h) i j = slice_of (fbuf q) i j"
proof -
  note f = upper_frameD [OF q] and p = in_transitD [OF P] and h = upper_header [OF w]
  have l: "Length P = Length (base q)" using f(7) p(6) by simp
  show "Offset h = 36" "Padding h = 16" "length (fbuf h) = TptMTU" using h(1,2,4) p(1) by simp_all
  show "Length (base h) = Length (base q)" using arg_cong [OF h(3), of Length] l by simp
  have big: "36 \<le> length (Buf P)" "36 \<le> length (fbuf h)" using p(1) h(4) by (simp_all add: TptMTU_def)
  show "labelled (fbuf h) pos route"
    using p(4) h(5) [of 20 36] unfolding labelled_slice [OF big(1)] labelled_slice [OF big(2)] by simp
  assume ij: "40 \<le> i" "i \<le> j" "j \<le> Length (base q) - 16"
  have "slice_of (Buf P) i j = slice_of (fbuf q) i j"
    by (rule slice_inner [OF p(5) [unfolded l] f(6)]) (use ij in simp_all)
  then show "slice_of (fbuf h) i j = slice_of (fbuf q) i j" using h(5) ij(1) by simp
qed

text \<open>Its type is in the first byte.\<close>

lemma first_byte:
  "take_bit 8 (ucast (x :: byte) OR push_bit 8 (ucast (y :: byte)) OR push_bit 16 (ucast (z :: byte)) OR push_bit 24 (ucast (w :: byte)) :: u32) = ucast x"
  by (rule bit_word_eqI) (auto simp: bit_simps bit_byte_beyond)

lemma le_first:
  assumes "le_uint32 xs = Some v" and "v < 256"
  obtains x rest where "xs = x # rest" "ucast x = v"
proof -
  from assms(1) obtain x y z w rest where xs: "xs = x # y # z # w # rest"
    and v: "v = ucast x OR push_bit 8 (ucast y) OR push_bit 16 (ucast z) OR push_bit 24 (ucast w)"
    by (cases xs rule: le_uint32.cases) auto
  have "unat v < 256" using assms(2) by (simp add: word_less_nat_alt)
  then have "take_bit 8 v = v" by (simp add: word_unat_eq_iff unsigned_take_bit_eq take_bit_nat_eq_self)
  with first_byte [of x y z w] v have "ucast x = v" by simp
  with xs that show thesis by blast
qed

lemma idx_slice: "slice_of b i j = Some (x # rest) \<Longrightarrow> idx b i = Some x"
  by (cases "drop (nat i) b"; cases "nat (j - i)")
    (auto simp: slice_Some_iff idx_def dest: nth_via_drop)

text \<open>A received packet of a given type.\<close>

lemma upper_type:
  assumes q: "upper_frame q body" "slice_of (fbuf q) 36 40 = Some xs" "le_uint32 xs = Some v" "v < 256" "56 \<le> Length (base q)"
    and P: "in_transit V pos route body P"
  obtains x where "idx (Buf P) UpperOffset = Some x" "ucast x = v"
proof -
  note f = upper_frameD [OF q(1)] and p = in_transitD [OF P]
  have l: "Length P = Length (base q)" using f(7) p(6) by simp
  obtain x rest where x: "xs = x # rest" "ucast x = v" using le_first [OF q(3,4)] .
  have "slice_of (Buf P) 36 40 = Some xs"
    using slice_inner [OF p(5) [unfolded l] f(6), of 36 40] q(2,5) by simp
  then have "idx (Buf P) UpperOffset = Some x" using idx_slice x(1) by (simp add: UpperOffset_def)
  with x(2) that show thesis by blast
qed


section \<open>Setting off\<close>

text \<open>A packet with its label in place leaves through the slot of the first hop.\<close>

lemma SendPacket_transit:
  assumes V: "varint_ok V" and lab: "labelled (fbuf upkt) 0 (r # route)" and q: "length (fbuf upkt) = TptMTU"
      "52 \<le> Length (base upkt)" "Length (base upkt) \<le> int TptMTU" "slice_of (fbuf upkt) 36 (Length (base upkt) - 16) = Some body"
    and slot: "slots fwd (unat r) = Some (Slot p Remote)"
  obtains lp where "SendPacket V fwd upkt = Some (Inr (Remote, lp))" "in_transit V 0 (r # route) body (lbase lp)" "LowerDst (lbase lp) = p"
proof -
  from lab obtain pre post where b: "fbuf upkt = pre @ label 0 (r # route) @ post" "length pre = 20" and l: "length route \<le> 13"
    by (auto simp: labelled_def)
  have room: "39 \<le> Length (base upkt)" "Length (base upkt) - 16 \<le> int (length (fbuf upkt))" using q by simp_all
  let ?c = "ToUvarint V DataMulticodec"
  obtain pre' where pre': "length pre' = 20" "take (length ?c) (drop 16 pre') = ?c"
    and send: "SendPacket V fwd upkt = Some (Inr (Remote, \<lparr>LOffset = 16,
      lbase = (base upkt)\<lparr>Buf := pre' @ label 0 (r # route) @ post, LowerDst := p\<rparr>\<rparr>))"
    by (rule SendPacket_labelled [OF V b l room slot]) (rule that)
  let ?b = "pre' @ label 0 (r # route) @ post"
  have len: "length ?b = TptMTU" using b q(1) pre'(1) by simp
  have "slice_of ?b 16 20 = Some (drop 16 pre')" using pre'(1) by (simp add: slice_of_def)
  moreover have "drop 16 pre' = ?c @ drop (length ?c) (drop 16 pre')"
    using append_take_drop_id [of "length ?c" "drop 16 pre'"] pre'(2) by simp
  moreover have "DataMulticodec < 2 ^ 63" by (simp add: DataMulticodec_def)
  ultimately have codec: "\<exists>c. slice_of ?b 16 20 = Some c \<and> FromUvarint V c = Inr (DataMulticodec, int (length ?c))"
    using V unfolding varint_ok_def by metis
  have "slice_of ?b 36 (Length (base upkt) - 16) = slice_of (fbuf upkt) 36 (Length (base upkt) - 16)"
    using b pre'(1) len q(1) by (intro slice_cong) (auto simp: nth_append)
  then have "in_transit V 0 (r # route) body ((base upkt)\<lparr>Buf := ?b, LowerDst := p\<rparr>)"
    using len q codec pre'(1) l by (auto simp: in_transit_def intro: labelledI)
  with send that show thesis by simp
qed

lemma SetRoute_frame:
  assumes "length (Buf P) = TptMTU" and "length hs \<le> 14"
  obtains upkt where "UpperPacket_SetRoute (NewUpperPacket P) (NewRoute hs) = Some upkt" "labelled (fbuf upkt) 0 hs"
    "base upkt = P\<lparr>Buf := fbuf upkt\<rparr>" "length (fbuf upkt) = TptMTU" "slice_of (fbuf upkt) 36 j = slice_of (Buf P) 36 j"
proof -
  have f: "fbuf (NewUpperPacket P) = Buf P" "base (NewUpperPacket P) = P" by (simp_all add: NewUpperPacket_def)
  obtain upkt where u: "UpperPacket_SetRoute (NewUpperPacket P) (NewRoute hs) = Some upkt" "labelled (fbuf upkt) 0 (hops (NewRoute hs))"
    "length (fbuf upkt) = length (fbuf (NewUpperPacket P))" "upkt = with_buf (NewUpperPacket P) (fbuf upkt)"
    "drop 36 (fbuf upkt) = drop 36 (fbuf (NewUpperPacket P))"
    by (rule SetRoute_labelled [of "NewUpperPacket P" "NewRoute hs"]) (use assms f in \<open>auto simp: TptMTU_def\<close>)
  have "base upkt = P\<lparr>Buf := fbuf upkt\<rparr>" using arg_cong [OF u(4), of base] f(2) by simp
  moreover have "slice_of (fbuf upkt) 36 j = slice_of (Buf P) 36 j" using u(3,5) f(1) by (simp add: slice_of_def)
  ultimately show thesis using that u(1-3) f(1) assms(1) by simp
qed

section \<open>The hello\<close>

text \<open>
  \<open>body\<close> is the upper hello of a node with key \<open>k\<close> to the holder of \<open>pub\<close>, sent with index \<open>ix\<close>, after which its handshake is \<open>i'\<close>.
\<close>

definition hello_body :: "crypto \<Rightarrow> PrivateKey \<Rightarrow> PublicKey \<Rightarrow> u32 \<Rightarrow> Handshake \<Rightarrow> bytes \<Rightarrow> bool" where
  "hello_body C k pub ix i' body \<longleftrightarrow>
     (\<exists>ts i pl hdr ct q. length ts = 12 \<and> fresh_initiator C pub i \<and> localStatic i = k \<and>
        MakeHello C ts i pl = (i', Inr (hdr, ct)) \<and> hello_carries q ix hdr ct \<and>
        Hello_MsgType q = Some HelloMsgType \<and> upper_frame q body)"

lemma upperHelloSend_run:
  assumes C: "crypto_ok (env_C E)" and V: "varint_ok (env_V E)" and inv: "node_inv (env_C E) k node" and ts: "length (env_ts E) = 12"
    and e: "GeneratePrivateKey (env_C E) (env_kd E) = Some (Inr e)"
    and ix: "fresh_index (store (sessions node)) (env_ids E) = Some ix"
    and ss: "\<not> isZero (SharedSecret (env_C E) k (PeerID_PublicKey pid))" "\<not> isZero (SharedSecret (env_C E) e (PeerID_PublicKey pid))"
    and dst: "\<not> PeerID_Empty pid"
    and q: "RingBuffer_Get hq = Some ((NewPacket (replicate TptMTU 0))\<lparr>UpperDst := pid\<rparr>, helloSendQ node)" "empty_queue (lowerSendQ node)"
    and route: "GetRoute (routing node) pid = Inr (NewRoute (r # route))" "length route \<le> 13"
    and slot: "slots (forwarder node) (unat r) = Some (Slot p Remote)"
  obtains i' Q lq body where
    "helloSendRoutine E (node\<lparr>helloSendQ := hq\<rparr>) =
       Some (node\<lparr>sessions := set_session (sessions node) ix (newSession pid i'), lowerSendQ := lq\<rparr>)"
    "RingBuffer_Get lq = Some (Q, lowerSendQ node)" "LowerDst Q = p" "in_transit (env_V E) 0 (r # route) body Q"
    "hello_body (env_C E) k (PeerID_PublicKey pid) ix i' body"
proof -
  let ?P = "(NewPacket (replicate TptMTU 0))\<lparr>UpperDst := pid\<rparr>"
  let ?F = "\<lparr>Offset = UpperOffset, Padding = UpperPadding, base = ?P\<rparr>"
  have wf: "wf_priv (sm_privkey (sessions node))" and k: "sm_privkey (sessions node) = k"
    using node_invD(1,2) [OF inv] by (auto simp: sm_inv_def)
  have room: "184 \<le> int TptMTU" by (simp add: TptMTU_def)
  obtain f0 where f0: "Hello_SetMsgType ?F HelloMsgType = Some f0"
    using hello_mt.put_total [of ?F HelloMsgType] room by (auto simp: UpperOffset_def NewPacket_def)
  note w = upper_header [OF hello_mt.put_wrote [OF f0]]
  have lp: "Length (base f0) = int TptMTU" "length (fbuf f0) = TptMTU"
    using arg_cong [OF w(3), of Length] w(4) by (simp_all add: NewPacket_def)
  obtain pl where "Hello_Plaintext f0 = Some pl"
    using slice_total [of 152 "int TptMTU - 32" "fbuf f0"] w(1,2) lp room by (auto simp: Hello_Plaintext_def)
  then have ready: "hello_ready f0 pl" using w(1,2) lp by (simp add: hello_ready_def)
  note ss' = ss [folded k]
  obtain i i' hdr ct f where i: "fresh_initiator (env_C E) (PeerID_PublicKey pid) i" "localStatic i = sm_privkey (sessions node)"
    and mk: "MakeHello (env_C E) (env_ts E) i pl = (i', Inr (hdr, ct))"
    and run: "CreateHello (env_C E) (env_ts E) (env_kd E) (env_ids E) (sessions node) f0 pid emptyMultiaddr =
      Some (set_session (sessions node) ix (with_addr emptyMultiaddr (newSession pid i')), Inr f)"
    and f: "hello_carries f ix hdr ct" "Offset f = Offset f0" "Padding f = Padding f0" "length (fbuf f) = length (fbuf f0)"
      "Length (base f) = Length (base f0)" "Hello_MsgType f = Hello_MsgType f0"
    by (rule CreateHello_run [OF C wf ts e ix ss'(1,2) ready, where ra = emptyMultiaddr]) (rule that)
  have wa: "with_addr emptyMultiaddr (newSession pid i') = newSession pid i'" by (simp add: with_addr_def Multiaddr_Empty_def)
  obtain body where body: "upper_frame f body"
    by (rule upper_frameI [of f]) (use f w(1,2) lp room in simp_all)
  note fb = upper_frameD [OF body]
  have l14: "length (r # route) \<le> 14" using route(2) by simp
  obtain upkt where u: "UpperPacket_SetRoute (NewUpperPacket (base f)) (NewRoute (r # route)) = Some upkt" "labelled (fbuf upkt) 0 (r # route)"
    "base upkt = (base f)\<lparr>Buf := fbuf upkt\<rparr>" "length (fbuf upkt) = TptMTU"
    "slice_of (fbuf upkt) 36 (Length (base f) - 16) = slice_of (fbuf f) 36 (Length (base f) - 16)"
    by (rule SetRoute_frame [OF fb(3) l14]) (rule that)
  have ul: "Length (base upkt) = Length (base f)" using arg_cong [OF u(3), of Length] by simp
  obtain lp where send: "SendPacket (env_V E) (forwarder node) upkt = Some (Inr (Remote, lp))"
    and t: "in_transit (env_V E) 0 (r # route) body (lbase lp)" "LowerDst (lbase lp) = p"
    by (rule SendPacket_transit [OF V u(2,4) _ _ _ slot]) (use ul u(5) fb that in simp_all)
  obtain lq where lq: "PutWithBackpressure (lowerSendQ node) (lbase lp) = Some lq" "RingBuffer_Get lq = Some (lbase lp, lowerSendQ node)"
    by (rule empty_queue_ops [OF q(2)]) (rule that)
  have same_node: "node\<lparr>helloSendQ := helloSendQ node\<rparr> = node" by simp
  have pd: "PeerID_Empty (LowerDst ?P)" "UpperDst ?P = pid" by (simp_all add: NewPacket_def PeerID_Empty_def)
  have "doUpperHelloSend E node ?P = Some (node\<lparr>sessions := set_session (sessions node) ix (newSession pid i'), lowerSendQ := lq\<rparr>, None)"
    using f0 run u(1) send lq(1) route(1) by (simp add: doUpperHelloSend_def NewHelloPacket_def sent_def put_lowerSendQ_def wa)
  then have step: "helloSendRoutine E (node\<lparr>helloSendQ := hq\<rparr>) =
      Some (node\<lparr>sessions := set_session (sessions node) ix (newSession pid i'), lowerSendQ := lq\<rparr>)"
    using q(1) dst pd by (simp add: helloSendRoutine_def logged_def same_node)
  have "Hello_MsgType f = Some HelloMsgType" using f(6) hello_mt.get_put [OF f0 TrueI] by simp
  then have "hello_body (env_C E) k (PeerID_PublicKey pid) ix i' body"
    unfolding hello_body_def k [symmetric]
    by (intro exI conjI) (rule ts i mk f(1) body | assumption)+
  then show thesis by (rule that [OF step lq(2) t(2,1)])
qed


section \<open>The response\<close>

text \<open>
  \<open>body\<close> answers the hello after which the initiator has the handshake \<open>i'\<close>; it names the index \<open>sidx\<close> of the hello and the index
  \<open>ix\<close> that the responder chose, whose handshake is \<open>r2\<close> then.
\<close>

definition response_body :: "crypto \<Rightarrow> Handshake \<Rightarrow> u32 \<Rightarrow> u32 \<Rightarrow> Handshake \<Rightarrow> bytes \<Rightarrow> bool" where
  "response_body C i' sidx ix r2 body \<longleftrightarrow>
     (\<exists>r1 pl hdr ct q. after_hello C i' r1 \<and> MakeResponse C r1 pl = (r2, Inr (hdr, ct)) \<and>
        response_carries q sidx ix hdr ct \<and> upper_frame q body)"

text \<open>A hello or a response goes on to the queue of hellos.\<close>

lemma upperRecv_hello:
  assumes "idx (Buf P) UpperOffset = Some x" and "ucast x = HelloMsgType \<or> ucast x = ResponseMsgType"
    and "RingBuffer_Get uq = Some (P, upperRecvQ node)" and "empty_queue (helloRecvQ node)"
  obtains hq where "upperRecvRoutine E (node\<lparr>upperRecvQ := uq\<rparr>) = Some (node\<lparr>helloRecvQ := hq\<rparr>)"
    "RingBuffer_Get hq = Some (P, helloRecvQ node)"
proof -
  obtain hq where "Put (helloRecvQ node) P = Some hq" "RingBuffer_Get hq = Some (P, helloRecvQ node)"
    by (rule empty_queue_ops [OF assms(4)]) (rule that)
  moreover have "node\<lparr>upperRecvQ := upperRecvQ node\<rparr> = node" by simp
  moreover have "ucast x \<noteq> DataMsgType" using assms(2) by (elim disjE) (simp_all add: HelloMsgType_def ResponseMsgType_def DataMsgType_def)
  ultimately show thesis
    using assms(1-3) by (intro that [of hq]) (simp_all add: upperRecvRoutine_def put_helloRecvQ_def)
qed

lemma hello_carries_upper:
  assumes q: "hello_carries q ix hdr ct" "upper_frame q body" and P: "in_transit V pos route body P"
    and h: "NewHelloPacket P UpperOffset UpperPadding = Some h"
  shows "hello_carries h ix hdr ct" "152 \<le> Length (base q) - 16"
proof -
  note r = upper_received [OF q(2) P hello_mt.put_wrote [OF h [unfolded NewHelloPacket_def]]] and f = upper_frameD [OF q(2)]
  have "Hello_Ciphertext q = Some ct" using q(1) unfolding hello_carries_def by blast
  then show l: "152 \<le> Length (base q) - 16" using f(1,2) by (simp add: Hello_Ciphertext_def slice_Some_iff)
  note same = r(6) [OF _ _ order_trans [OF _ l]]
  show "hello_carries h ix hdr ct"
    using q(1) f(1,2) r(1,2,4) same r(6) [OF _ l order_refl]
    by (simp add: hello_carries_def Hello_SenderIndex_def Hello_EphemeralKey_def Hello_StaticKey_def Hello_Timestamp_def
        Hello_Ciphertext_def)
qed

lemma response_carries_upper:
  assumes q: "response_carries q sidx ix hdr ct" "upper_frame q body" and P: "in_transit V pos route body P"
    and h: "NewResponsePacket P UpperOffset UpperPadding = Some h"
  shows "response_carries h sidx ix hdr ct" "96 \<le> Length (base q) - 16"
proof -
  note p = h [unfolded NewResponsePacket_def]
  note r = upper_received [OF q(2) P resp_mt.put_wrote [OF p]] and f = upper_frameD [OF q(2)]
  have "Response_Ciphertext q = Some ct" using q(1) unfolding response_carries_def by blast
  then show l: "96 \<le> Length (base q) - 16" using f(1,2) by (simp add: Response_Ciphertext_def slice_Some_iff)
  show "response_carries h sidx ix hdr ct"
    using q(1) f(1,2) r(1,2,4) r(6) l resp_mt.get_put [OF p TrueI]
    by (simp add: response_carries_def Response_SenderIndex_def Response_SessionIndex_def Response_EphemeralKey_def
        Response_Empty_def Response_Ciphertext_def)
qed

lemma upperHelloRecv_run:
  assumes C: "crypto_ok (env_C E)" and V: "varint_ok (env_V E)" and inv: "node_inv (env_C E) k node"
    and e: "GeneratePrivateKey (env_C E) (env_kd E) = Some (Inr e)"
    and ix: "fresh_index (store (sessions node)) (env_ids E) = Some ix"
    and d: "hello_body (env_C E) ka (PrivateKey_PublicKey (env_C E) k) sidx i' body"
    and P: "in_transit (env_V E) pos route body P" "\<not> PeerID_Empty (LowerSrc P)"
    and q: "RingBuffer_Get uq = Some (P, upperRecvQ node)" "empty_queue (helloRecvQ node)" "empty_queue (lowerSendQ node)"
    and home: "rev route = r # rt" and slot: "slots (forwarder node) (unat r) = Some (Slot p Remote)"
  obtains node1 s Q lq body2 where
    "upperRecvRoutine E (node\<lparr>upperRecvQ := uq\<rparr>) = Some node1"
    "helloRecvRoutine E node1 = Some (node\<lparr>sessions := set_session (sessions node) ix s, lowerSendQ := lq\<rparr>)"
    "RingBuffer_Get lq = Some (Q, lowerSendQ node)" "LowerDst Q = p" "in_transit (env_V E) 0 (r # rt) body2 Q"
    "response_body (env_C E) i' sidx ix (handshake s) body2"
    "remotePeerID s = NewPeerID (PrivateKey_PublicKey (env_C E) ka)" "stage s = 2"
proof -
  from d obtain ts i pl hdr ct f where ts: "length ts = 12" and i: "fresh_initiator (env_C E) (PrivateKey_PublicKey (env_C E) k) i"
      "localStatic i = ka" and mk: "MakeHello (env_C E) ts i pl = (i', Inr (hdr, ct))" and f: "hello_carries f sidx hdr ct"
      "Hello_MsgType f = Some HelloMsgType" "upper_frame f body"
    unfolding hello_body_def by blast
  note fb = upper_frameD [OF f(3)] and pt = in_transitD [OF P(1)]
  have wf: "wf_priv (sm_privkey (sessions node))" and k: "sm_privkey (sessions node) = k"
    using node_invD(1,2) [OF inv] by (auto simp: sm_inv_def)
  obtain h where h: "NewHelloPacket P UpperOffset UpperPadding = Some h"
    using hello_mt.put_total [of "\<lparr>Offset = UpperOffset, Padding = UpperPadding, base = P\<rparr>" HelloMsgType] pt(1)
    by (auto simp: NewHelloPacket_def UpperOffset_def TptMTU_def)
  note carries = hello_carries_upper [OF f(1,3) P(1) h]
  note r = upper_received [OF f(3) P(1) hello_mt.put_wrote [OF h [unfolded NewHelloPacket_def]]]
  obtain mtb where mtb: "slice_of (fbuf f) 36 40 = Some mtb" "le_uint32 mtb = Some HelloMsgType"
    using f(2) fb(1) by (auto simp: Hello_MsgType_def split: Option.bind_splits)
  obtain x where x: "idx (Buf P) UpperOffset = Some x" "ucast x = HelloMsgType"
    by (rule upper_type [OF f(3) mtb _ _ P(1)]) (use carries(2) that in \<open>simp_all add: HelloMsgType_def\<close>)
  obtain hq where up: "upperRecvRoutine E (node\<lparr>upperRecvQ := uq\<rparr>) = Some (node\<lparr>helloRecvQ := hq\<rparr>)"
    and hq: "RingBuffer_Get hq = Some (P, helloRecvQ node)"
    by (rule upperRecv_hello [OF x(1) disjI1 [OF x(2)] q(1,2), where E = E]) (rule that)
  have fits: "frame_fits h" "Length (base h) - Padding h \<le> int (length (fbuf h))"
    using r(1-4) fb(5) by (simp_all add: frame_fits_def TptMTU_def)
  note i' = i(1) [folded k]
  obtain r1 r2 pl2 hdr2 ct2 f2 s where run: "HandleHello (env_C E) (env_kd E) (env_ids E) (sessions node) h emptyMultiaddr =
      Some (set_session (sessions node) ix s, Inr f2)"
    and ah: "after_hello (env_C E) i' r1" and mr: "MakeResponse (env_C E) r1 pl2 = (r2, Inr (hdr2, ct2))"
    and f2: "response_carries f2 sidx ix hdr2 ct2"
    and s: "handshake s = r2" "remotePeerID s = NewPeerID (PrivateKey_PublicKey (env_C E) (localStatic i))" "stage s = 2"
    and pf: "Offset f2 = Offset h" "Padding f2 = Padding h" "length (fbuf f2) = TptMTU" "Length (base f2) = int TptMTU"
    by (rule HandleHello_run [OF C wf ts i' mk e ix carries(1) fits, where ra = emptyMultiaddr]) (rule that)
  obtain body2 where body2: "upper_frame f2 body2"
    by (rule upper_frameI [of f2]) (use pf r(1,2) in \<open>simp_all add: TptMTU_def\<close>)
  note gb = upper_frameD [OF body2]
  have l14: "length (r # rt) \<le> 14" using pt(4) arg_cong [OF home, of length] by (simp add: labelled_def)
  obtain upkt where u: "UpperPacket_SetRoute (NewUpperPacket (base f2)) (NewRoute (r # rt)) = Some upkt" "labelled (fbuf upkt) 0 (r # rt)"
    "base upkt = (base f2)\<lparr>Buf := fbuf upkt\<rparr>" "length (fbuf upkt) = TptMTU"
    "slice_of (fbuf upkt) 36 (Length (base f2) - 16) = slice_of (fbuf f2) 36 (Length (base f2) - 16)"
    by (rule SetRoute_frame [OF gb(3) l14]) (rule that)
  let ?u = "upkt\<lparr>base := (base upkt)\<lparr>LowerSrc := nd_peerid node\<rparr>\<rparr>"
  have ul: "Length (base ?u) = Length (base f2)" using arg_cong [OF u(3), of Length] by simp
  have lab: "labelled (fbuf ?u) 0 (r # rt)" using u(2) by simp
  obtain lp where send: "SendPacket (env_V E) (forwarder node) ?u = Some (Inr (Remote, lp))"
    and t: "in_transit (env_V E) 0 (r # rt) body2 (lbase lp)" "LowerDst (lbase lp) = p"
    by (rule SendPacket_transit [OF V lab _ _ _ _ slot]) (use ul u(4,5) gb that in simp_all)
  obtain lq where lq: "PutWithBackpressure (lowerSendQ node) (lbase lp) = Some lq" "RingBuffer_Get lq = Some (lbase lp, lowerSendQ node)"
    by (rule empty_queue_ops [OF q(3)]) (rule that)
  have rd: "UpperPacket_Route (with_buf (NewUpperPacket P) (fbuf h)) = Some (NewRoute route)"
    by (rule Route_labelled(1)) (use r(5) in \<open>simp add: with_buf_def\<close>)
  have rv: "Route_Reverse (NewRoute route) = NewRoute (r # rt)" using home by (simp add: Route_eq_iff)
  have nb: "fbuf (NewUpperPacket P) = Buf P" "base (NewUpperPacket P) = P" by (simp_all add: NewUpperPacket_def)
  have same_node: "node\<lparr>helloRecvQ := helloRecvQ node\<rparr> = node" by simp
  have "doUpperHelloRecv E node P = Some (node\<lparr>sessions := set_session (sessions node) ix s, lowerSendQ := lq\<rparr>, None)"
    unfolding doUpperHelloRecv_def Let_def nb
    using x h run rd rv u(1) send lq(1) by (simp add: sent_def put_lowerSendQ_def)
  then have step: "helloRecvRoutine E (node\<lparr>helloRecvQ := hq\<rparr>) =
      Some (node\<lparr>sessions := set_session (sessions node) ix s, lowerSendQ := lq\<rparr>)"
    using hq P(2) by (simp add: helloRecvRoutine_def logged_def same_node)
  have "response_body (env_C E) i' sidx ix (handshake s) body2"
    unfolding response_body_def s(1) by (intro exI conjI) (rule ah mr f2 body2)+
  then show thesis by (rule that [OF up step lq(2) t(2,1)]) (use s(2,3) i(2) in simp_all)
qed

lemma upperResponseRecv_run:
  assumes C: "crypto_ok (env_C E)" and d: "response_body (env_C E) i' sidx ix r2 body"
    and s: "store (sessions node) sidx = Some (Some s)" "handshake s = i'" "initiator s" "stage s = 1"
      "remotePeerID s = NewPeerID (remoteStatic i')" "waiters s = []"
    and P: "in_transit V pos route body P" "\<not> PeerID_Empty (LowerSrc P)"
    and q: "RingBuffer_Get uq = Some (P, upperRecvQ node)" "empty_queue (helloRecvQ node)"
  obtains node1 i2 where
    "upperRecvRoutine E (node\<lparr>upperRecvQ := uq\<rparr>) = Some node1"
    "helloRecvRoutine E node1 = Some (connectedCallback (env_C E)
       (node\<lparr>sessions := set_session (Remove (sessions node) sidx) ix (s\<lparr>handshake := i2, stage := 3\<rparr>)\<rparr>) (remotePeerID s) False)"
    "matched i2 r2"
proof -
  from d obtain r1 pl hdr ct f where ah: "after_hello (env_C E) i' r1" and mk: "MakeResponse (env_C E) r1 pl = (r2, Inr (hdr, ct))"
    and f: "response_carries f sidx ix hdr ct" "upper_frame f body"
    unfolding response_body_def by blast
  note fb = upper_frameD [OF f(2)] and pt = in_transitD [OF P(1)]
  obtain h where h: "NewResponsePacket P UpperOffset UpperPadding = Some h"
    using resp_mt.put_total [of "\<lparr>Offset = UpperOffset, Padding = UpperPadding, base = P\<rparr>" ResponseMsgType] pt(1)
    by (auto simp: NewResponsePacket_def UpperOffset_def TptMTU_def)
  note carries = response_carries_upper [OF f P(1) h]
  note r = upper_received [OF f(2) P(1) resp_mt.put_wrote [OF h [unfolded NewResponsePacket_def]]]
  obtain mtb where mtb: "slice_of (fbuf f) 36 40 = Some mtb" "le_uint32 mtb = Some ResponseMsgType"
    using f(1) fb(1) by (auto simp: response_carries_def Response_MsgType_def split: Option.bind_splits)
  obtain x where x: "idx (Buf P) UpperOffset = Some x" "ucast x = ResponseMsgType"
    by (rule upper_type [OF f(2) mtb _ _ P(1)]) (use carries(2) that in \<open>simp_all add: ResponseMsgType_def\<close>)
  obtain hq where up: "upperRecvRoutine E (node\<lparr>upperRecvQ := uq\<rparr>) = Some (node\<lparr>helloRecvQ := hq\<rparr>)"
    and hq: "RingBuffer_Get hq = Some (P, helloRecvQ node)"
    by (rule upperRecv_hello [OF x(1) disjI2 [OF x(2)] q, where E = E]) (rule that)
  have fits: "0 \<le> Offset h" "Length (base h) - Padding h \<le> int (length (fbuf h))" using r(1-4) fb(5) by simp_all
  obtain i2 p' where run: "HandleResponse (env_C E) (sessions node) h emptyMultiaddr =
      Some (set_session (Remove (sessions node) sidx) ix (with_addr emptyMultiaddr (s\<lparr>handshake := i2, stage := 3\<rparr>)),
            Inr (p', remotePeerID s))" and m: "matched i2 r2"
    by (rule HandleResponse_run [OF C ah mk carries(1) s fits, where ra = emptyMultiaddr]) (rule that)
  let ?node = "node\<lparr>sessions := set_session (Remove (sessions node) sidx) ix (s\<lparr>handshake := i2, stage := 3\<rparr>)\<rparr>"
  have wa: "with_addr emptyMultiaddr t = t" for t by (simp add: with_addr_def Multiaddr_Empty_def)
  have ne: "ResponseMsgType \<noteq> HelloMsgType" by (simp add: ResponseMsgType_def HelloMsgType_def)
  have nb: "fbuf (NewUpperPacket P) = Buf P" "base (NewUpperPacket P) = P" by (simp_all add: NewUpperPacket_def)
  have same_node: "node\<lparr>helloRecvQ := helloRecvQ node\<rparr> = node" by simp
  have "doUpperHelloRecv E node P = Some (connectedCallback (env_C E) ?node (remotePeerID s) False, None)"
    unfolding doUpperHelloRecv_def Let_def nb using x h run ne by (simp add: wa)
  then have "helloRecvRoutine E (node\<lparr>helloRecvQ := hq\<rparr>) = Some (connectedCallback (env_C E) ?node (remotePeerID s) False)"
    using hq P(2) by (simp add: helloRecvRoutine_def logged_def same_node)
  from that [OF up this m] show thesis .
qed


section \<open>Data\<close>

text \<open>What \<^verbatim>\<open>Node.Send\<close> puts behind the upper header, in a buffer \<open>b\<close> of length \<open>n\<close>: a codec and a payload.\<close>

definition letter :: "varint \<Rightarrow> u64 \<Rightarrow> bytes \<Rightarrow> bytes \<Rightarrow> int \<Rightarrow> bool" where
  "letter V codec pl b n \<longleftrightarrow>
     n = 88 + int (length pl) \<and> length b = TptMTU \<and> n \<le> int TptMTU \<and>
     (\<exists>c. slice_of b 52 56 = Some c \<and> FromUvarint V c = Inr (codec, int (length (ToUvarint V codec)))) \<and>
     slice_of b 56 (56 + int (length pl)) = Some pl"

lemma letter_inner:
  assumes b: "letter V codec pl b n" and xs: "slice_of b 52 (n - 32) = Some xs" "slice_of c 52 (n - 32) = Some xs" and c: "length c = TptMTU"
  shows "letter V codec pl c n"
proof -
  have n: "n = 88 + int (length pl)" using b by (simp add: letter_def)
  have "slice_of c i j = slice_of b i j" if "52 \<le> i" "i \<le> j" "j \<le> n - 32" for i j
    by (rule slice_inner [OF xs(2,1) that])
  with b c n show ?thesis by (simp add: letter_def)
qed

lemma letter_read:
  assumes "letter V codec pl (Buf U) (Length U)"
  shows "UpperPacket_Codec V (NewUpperPacket U) = Some (Inr codec)" "UpperPacket_Payload (NewUpperPacket U) = Some pl"
  using assms by (auto simp: letter_def UpperPacket_Codec_def UpperPacket_Payload_def NewUpperPacket_def UpperOffset_def)

lemma upperMux_run:
  assumes u: "letter (env_V E) codec pl (Buf U) (Length U)" and h: "upperHandlers node codec = Some cb"
    and q: "RingBuffer_Get mq = Some (U, upperMuxQ node)"
  shows "upperMuxRoutine E (node\<lparr>upperMuxQ := mq\<rparr>) = Some (node\<lparr>upper_calls := upper_calls node @ [(cb, NewUpperPacket U)]\<rparr>)"
proof -
  have "node\<lparr>upperMuxQ := upperMuxQ node\<rparr> = node" by simp
  with q h letter_read(1) [OF u] show ?thesis by (simp add: upperMuxRoutine_def doUpperMux_def logged_def)
qed

text \<open>Over more than one hop the payload is sealed for the other end, and set off along its route.\<close>

lemma upperSend_routed:
  assumes C: "crypto_ok (env_C E)" and V: "varint_ok (env_V E)" and dst: "\<not> PeerID_Empty (UpperDst P)"
    and P: "length (Buf P) = TptMTU" "88 \<le> Length P" "Length P \<le> int TptMTU" "labelled (Buf P) 0 (r # rt)" "rt \<noteq> []"
    and found: "Find (env_order E) (sessions node) (UpperDst P) = Some (Some (s, ix))" and m: "matched (handshake s) h"
    and slot: "slots (forwarder node) (unat r) = Some (Slot p Remote)"
    and q: "RingBuffer_Get uq = Some (P, upperSendQ node)" "empty_queue (lowerSendQ node)"
  obtains hs hdr ct f Q lq body xs where
    "upperSendRoutine E (node\<lparr>upperSendQ := uq\<rparr>) =
       Some (node\<lparr>sessions := set_session (sessions node) ix (s\<lparr>handshake := hs\<rparr>), lowerSendQ := lq\<rparr>)"
    "RingBuffer_Get lq = Some (Q, lowerSendQ node)" "LowerDst Q = p" "in_transit (env_V E) 0 (r # rt) body Q"
    "upper_frame f body" "Length (base f) = Length P" "data_carries f ix hdr ct"
    "MakeMessage (env_C E) (handshake s) xs = (hs, Inr (hdr, ct))" "slice_of (Buf P) 52 (Length P - 32) = Some xs"
proof -
  obtain D where D: "NewDataPacket P UpperOffset UpperPadding = Some D"
    using data_mt.put_total [of "\<lparr>Offset = UpperOffset, Padding = UpperPadding, base = P\<rparr>"] P(1)
    by (auto simp: NewDataPacket_def UpperOffset_def TptMTU_def)
  note w = upper_header [OF data_mt.put_wrote [OF D [unfolded NewDataPacket_def]]]
  have lD: "Length (base D) = Length P" "UpperDst (base D) = UpperDst P"
    using arg_cong [OF w(3), of Length] arg_cong [OF w(3), of UpperDst] by simp_all
  obtain xs where xs: "slice_of (Buf P) 52 (Length P - 32) = Some xs"
    using slice_total [of 52 "Length P - 32" "Buf P"] P(1-3) by auto
  have ready: "data_ready D xs" using w(1,2,4) w(5) [of 52] lD xs P(1,3) by (simp add: data_ready_def Data_Plaintext_def)
  obtain hs hdr ct f where mk: "MakeMessage (env_C E) (handshake s) xs = (hs, Inr (hdr, ct))"
    and run: "CreateData (env_C E) (env_order E) (sessions node) D (UpperDst P) =
      Some (set_session (sessions node) ix (s\<lparr>handshake := hs\<rparr>), Inr (f, remoteAddr s))"
    and f: "data_carries f ix hdr ct" "Offset f = Offset D" "Padding f = Padding D"
      "length (fbuf f) = length (fbuf D)" "Length (base f) = Length (base D)" "keeps_upto 0 D f"
    by (rule CreateData_run [OF C found m ready]) (rule that)
  obtain body where body: "upper_frame f body"
    by (rule upper_frameI [of f]) (use f w(1,2,4) lD P(1-3) in simp_all)
  note fb = upper_frameD [OF body]
  let ?u = "with_buf (NewUpperPacket P) (fbuf f)"
  have "slice_of (fbuf f) 20 36 = slice_of (Buf P) 20 36" using f(6) w(1) w(5) [of 20 36] by (simp add: keeps_upto_def)
  then have lab: "labelled (fbuf ?u) 0 (r # rt)"
    using P(1,4) fb(3) labelled_slice [of "Buf P"] labelled_slice [of "fbuf f"] by (simp add: TptMTU_def)
  have ub: "fbuf ?u = fbuf f" "Length (base ?u) = Length (base f)" using f(5) lD by (simp_all add: NewUpperPacket_def)
  obtain lp where send: "SendPacket (env_V E) (forwarder node) ?u = Some (Inr (Remote, lp))"
    and t: "in_transit (env_V E) 0 (r # rt) body (lbase lp)" "LowerDst (lbase lp) = p"
    by (rule SendPacket_transit [OF V lab _ _ _ _ slot]) (use ub fb that in simp_all)
  obtain lq where lq: "PutWithBackpressure (lowerSendQ node) (lbase lp) = Some lq" "RingBuffer_Get lq = Some (lbase lp, lowerSendQ node)"
    by (rule empty_queue_ops [OF q(2)]) (rule that)
  have nb: "fbuf (NewUpperPacket P) = Buf P" "base (NewUpperPacket P) = P" by (simp_all add: NewUpperPacket_def)
  have "UpperPacket_RouteLen (NewUpperPacket P) = Some (int (length (r # rt)))"
    by (rule Route_labelled(2)) (use P(4) nb in simp)
  moreover have "int (length (r # rt)) \<noteq> HopLength" using P(5) by (simp add: HopLength_def)
  ultimately have "doUpperSend E node P = Some (node\<lparr>sessions := set_session (sessions node) ix (s\<lparr>handshake := hs\<rparr>), lowerSendQ := lq\<rparr>, None)"
    unfolding doUpperSend_def Let_def nb using D lD(2) run send lq(1) by (simp add: sent_def put_lowerSendQ_def)
  moreover have "node\<lparr>upperSendQ := upperSendQ node\<rparr> = node" by simp
  ultimately have step: "upperSendRoutine E (node\<lparr>upperSendQ := uq\<rparr>) =
      Some (node\<lparr>sessions := set_session (sessions node) ix (s\<lparr>handshake := hs\<rparr>), lowerSendQ := lq\<rparr>)"
    using q(1) dst by (simp add: upperSendRoutine_def logged_def)
  show thesis by (rule that [OF step lq(2) t(2,1) body _ f(1) mk xs]) (use f(5) lD in simp)
qed

text \<open>
  What the arrival of data over the session \<open>s\<close> and the route \<open>rt\<close> does to a node, besides its queues: the first packet of a session wakes
  whoever waits for the peer, and the way back is remembered.
\<close>

definition visited :: "crypto \<Rightarrow> 'h Node \<Rightarrow> Session \<Rightarrow> u32 \<Rightarrow> Route \<Rightarrow> 'h Node" where
  "visited C node s ix rt =
     (let sm = (if stage s = 3 then sessions node else set_session (sessions node) ix (s\<lparr>stage := 3\<rparr>));
          node = node\<lparr>sessions := sm\<rparr>;
          node = (if stage s \<noteq> 3 then connectedCallback C node (remotePeerID s) False else node)
      in node\<lparr>routing := AddRoute C (routing node) (remotePeerID s) rt\<rparr>)"

lemma upperRecv_data:
  assumes C: "crypto_ok (env_C E)" and f: "upper_frame f body" "data_carries f ix hdr ct" and P: "in_transit V pos route body P"
    and s: "store (sessions node) ix = Some (Some s)" and con: "ConsumeMessage (env_C E) (handshake s) hdr ct = Inr xs"
    and len: "length ct = length xs + 16"
    and q: "RingBuffer_Get uq = Some (P, upperRecvQ node)" "empty_queue (upperMuxQ node)"
  obtains U mq where
    "upperRecvRoutine E (node\<lparr>upperRecvQ := uq\<rparr>) =
       Some ((visited (env_C E) node s ix (Route_Reverse (NewRoute route)))\<lparr>upperMuxQ := mq\<rparr>)"
    "RingBuffer_Get mq = Some (U, upperMuxQ node)" "UpperSrc U = remotePeerID s" "Length U = Length (base f)"
    "length (Buf U) = TptMTU" "slice_of (Buf U) 52 (Length U - 32) = Some xs"
proof -
  note fb = upper_frameD [OF f(1)] and pt = in_transitD [OF P]
  obtain D where D: "NewDataPacket P UpperOffset UpperPadding = Some D"
    using data_mt.put_total [of "\<lparr>Offset = UpperOffset, Padding = UpperPadding, base = P\<rparr>"] pt(1)
    by (auto simp: NewDataPacket_def UpperOffset_def TptMTU_def)
  note w = upper_header [OF data_mt.put_wrote [OF D [unfolded NewDataPacket_def]]]
  note r = upper_received [OF f(1) P data_mt.put_wrote [OF D [unfolded NewDataPacket_def]]]
  have l: "52 \<le> Length (base f) - 16" and ctl: "52 + int (length ct) = Length (base f) - 16"
    using f(2) fb(1,2) by (auto simp: data_carries_def Data_Ciphertext_def slice_of_def split: if_splits)
  have carries: "data_carries D ix hdr ct"
    using f(2) fb(1,2) r(1,2,4) r(6) l data_mt.get_put [OF D [unfolded NewDataPacket_def] TrueI]
    by (simp add: data_carries_def Data_SessionIndex_def Data_Nonce_def Data_Ciphertext_def)
  obtain mtb where mtb: "slice_of (fbuf f) 36 40 = Some mtb" "le_uint32 mtb = Some DataMsgType"
    using f(2) fb(1) by (auto simp: data_carries_def Data_MsgType_def split: Option.bind_splits)
  obtain x where x: "idx (Buf P) UpperOffset = Some x" "ucast x = DataMsgType"
    by (rule upper_type [OF f(1) mtb _ _ P]) (use l that in \<open>simp_all add: DataMsgType_def\<close>)
  have room: "0 \<le> Offset D" "Length (base D) - Padding D \<le> int (length (fbuf D))" using r(1-4) fb(5) by simp_all
  obtain g where run: "HandleData (env_C E) (sessions node) D =
      Some (if stage s = 3 then sessions node else set_session (sessions node) ix (s\<lparr>stage := 3\<rparr>),
            Inr (g, remotePeerID s, stage s \<noteq> 3))"
    and g: "Data_Plaintext g = Some xs" "Offset g = Offset D" "Padding g = Padding D" "Length (base g) = Length (base D)" "keeps_upto 16 D g"
    by (rule HandleData_run [OF C s con carries len room]) (rule that)
  let ?U = "(base D)\<lparr>Buf := fbuf g, UpperSrc := remotePeerID s\<rparr>"
  let ?n = "visited (env_C E) node s ix (Route_Reverse (NewRoute route))"
  have lg: "length (fbuf g) = TptMTU" using keeps_uptoD [OF g(5)] r(3) by simp
  obtain mq where mq: "Put (upperMuxQ node) ?U = Some mq" "RingBuffer_Get mq = Some (?U, upperMuxQ node)"
    by (rule empty_queue_ops [OF q(2)]) (rule that)
  have "slice_of (fbuf g) 20 36 = slice_of (fbuf D) 20 36" using g(5) r(1) by (simp add: keeps_upto_def)
  then have "labelled (fbuf g) pos route"
    using r(3,5) lg labelled_slice [of "fbuf D"] labelled_slice [of "fbuf g"] by (simp add: TptMTU_def)
  then have rd: "UpperPacket_Route (with_buf (NewUpperPacket P) (fbuf g)) = Some (NewRoute route)"
    by (intro Route_labelled(1)) (simp add: with_buf_def)
  have nb: "base (NewUpperPacket P) = P" by (simp add: NewUpperPacket_def)
  have mx: "upperMuxQ ?n = upperMuxQ node" by (simp add: visited_def Let_def)
  have "doUpperRecv E node P = Some (?n\<lparr>upperMuxQ := mq\<rparr>, None)"
    unfolding doUpperRecv_def Let_def nb using D run rd mq(1) mx
    by (simp add: put_upperMuxQ_def) (simp add: visited_def Let_def)
  moreover have "node\<lparr>upperRecvQ := upperRecvQ node\<rparr> = node" by simp
  ultimately have step: "upperRecvRoutine E (node\<lparr>upperRecvQ := uq\<rparr>) = Some (?n\<lparr>upperMuxQ := mq\<rparr>)"
    using q(1) x by (simp add: upperRecvRoutine_def logged_def)
  have "slice_of (Buf ?U) 52 (Length ?U - 32) = Some xs" using g(1-4) r(1,2) by (simp add: Data_Plaintext_def)
  then show thesis by (intro that [OF step mq(2)]) (use lg r(4) in simp_all)
qed

end
