(* ===== verification/ConnectProperties.thy ===== *)
theory ConnectProperties
  imports Connecting NodeProperties
begin

text \<open>
  Two nodes that do not know each other connect and talk: the exchange of the hello and the response through the
  queues and transports of both, and the messages that follow it in both directions.
\<close>

section \<open>Nodes that have not met\<close>

text \<open>A node has no session with a peer, no route to it, and a slot left for it.\<close>

definition stranger :: "'h Node \<Rightarrow> PeerID \<Rightarrow> bool" where
  "stranger node pid \<longleftrightarrow>
     (\<forall>i s. store (sessions node) i = Some (Some s) \<longrightarrow> remotePeerID s \<noteq> pid) \<and>
     table (routing node) pid = None \<and> (\<exists>i<NumSlots. slots (forwarder node) i = Some NullSlot)"

text \<open>A free slot becomes the one-hop route to the peer, and whoever waits for it is woken.\<close>

lemma connected_route:
  assumes "table (routing node) pid = None" and "\<exists>i<NumSlots. slots (forwarder node) i = Some NullSlot"
  obtains slot where "GetRoute (routing (connectedCallback C node pid True)) pid = Inr (NewRoute [of_nat slot])"
    "slots (forwarder (connectedCallback C node pid True)) slot = Some (Slot pid Remote)"
proof -
  obtain fwd r where at: "Attach (forwarder node) pid Remote = (fwd, r)" by fastforce
  then show thesis
  proof (cases rule: Attach_cases)
    case (free i)
    show thesis
      by (rule that [of i])
        (use assms(1) at free in \<open>simp_all add: connectedCallback_def AddRoute_def GetRoute_def Let_def split: option.splits\<close>)
  qed (use assms(2) in blast)
qed

lemma connected_woken:
  "nd_waiters node pid = Some ws \<Longrightarrow> woken (connectedCallback C node pid lower) = woken node @ map (\<lambda>w. (w, None)) ws"
  by (simp add: connectedCallback_def Let_def split: prod.splits sum.splits)

text \<open>
  What \<open>a\<close> needs to send to \<open>b\<close>: the two ends of a session, the only one that \<open>a\<close> has with \<open>b\<close> (\<open>sm\<close> is the table without it), with
  the address \<open>dst\<close>, a one-hop route, and empty queues.
\<close>

definition linked ::
  "crypto \<Rightarrow> PrivateKey \<Rightarrow> PrivateKey \<Rightarrow> 'h Node \<Rightarrow> 'h Node \<Rightarrow> SessionManager \<Rightarrow> u32 \<Rightarrow> Session \<Rightarrow> Addr \<times> u16 \<Rightarrow> bool" where
  "linked C ka kb a b sm ix s dst \<longleftrightarrow>
     node_inv C ka a \<and> node_inv C kb b \<and> idle a \<and> idle b \<and> paired (sessions a) (sessions b) ix \<and>
     sessions a = set_session sm ix s \<and> (\<forall>i r. store sm i = Some (Some r) \<longrightarrow> remotePeerID r \<noteq> nd_peerid b) \<and>
     remoteAddr s = FromAddrPort dst \<and> \<not> Multiaddr_Empty (FromAddrPort dst) \<and>
     (\<exists>slot. GetRoute (routing a) (nd_peerid b) = Inr (NewRoute [slot]))"

text \<open>One message over the link.\<close>

lemma talk:
  assumes C: "crypto_ok (env_C E)" and V: "varint_ok (env_V E)" and link: "linked (env_C E) ka kb a b sm ix s dst"
    and order: "set (env_order E) = insert ix (dom (store sm))" and ids: "\<not> PeerID_Empty (nd_peerid a)" "\<not> PeerID_Empty (nd_peerid b)"
    and handler: "upperHandlers b codec = Some cb" "codec < 2 ^ 28" "int (length pl) \<le> UpperMTU"
  obtains hs t u where
    "send_run E a b codec pl src = Some (a\<lparr>sessions := set_session sm ix (s\<lparr>handshake := hs\<rparr>)\<rparr>,
       (greeted (env_C E) b t (set_session (sessions b) ix (t\<lparr>stage := 3\<rparr>)))\<lparr>upper_calls := upper_calls b @ [(cb, u)]\<rparr>, None, dst)"
    "store (sessions b) ix = Some (Some t)"
    "UpperPacket_Payload u = Some pl" "UpperPacket_Codec (env_V E) u = Some (Inr codec)" "UpperSrc (base u) = nd_peerid a"
    "paired (set_session sm ix (s\<lparr>handshake := hs\<rparr>)) (set_session (sessions b) ix (t\<lparr>stage := 3\<rparr>)) ix"
proof -
  from link obtain slot where inv: "node_inv (env_C E) ka a" "node_inv (env_C E) kb b" and idle: "idle a" "idle b"
    and pair: "paired (sessions a) (sessions b) ix"
    and sm: "sessions a = set_session sm ix s" "\<forall>i r. store sm i = Some (Some r) \<longrightarrow> remotePeerID r \<noteq> nd_peerid b"
      "remoteAddr s = FromAddrPort dst" "\<not> Multiaddr_Empty (FromAddrPort dst)"
    and route: "GetRoute (routing a) (nd_peerid b) = Inr (NewRoute [slot])"
    unfolding linked_def by blast
  have st: "store (sessions a) = (store sm)(ix \<mapsto> Some s)" by (simp add: sm(1) set_session_def)
  have dom: "set (env_order E) = dom (store (sessions a))" using order st by simp
  have un: "\<forall>i r. store (sessions a) i = Some (Some r) \<longrightarrow> remotePeerID r = nd_peerid b \<longrightarrow> i = ix \<and> \<not> Multiaddr_Empty (remoteAddr r)"
    using sm by (auto simp: st split: if_splits)
  have fg: "set_session (sessions a) ix r = set_session sm ix r" for r by (simp add: sm(1) set_session_def)
  have ap: "Multiaddr_AddrPort (remoteAddr s) = dst" using sm(3) by (simp add: Multiaddr_AddrPort_def FromAddrPort_def)
  obtain s' hs t u where send: "send_run E a b codec pl src = Some (a\<lparr>sessions := set_session (sessions a) ix (s'\<lparr>handshake := hs\<rparr>)\<rparr>,
       (greeted (env_C E) b t (set_session (sessions b) ix (t\<lparr>stage := 3\<rparr>)))\<lparr>upper_calls := upper_calls b @ [(cb, u)]\<rparr>,
       None, Multiaddr_AddrPort (remoteAddr s'))"
    and s': "store (sessions a) ix = Some (Some s')" and t: "store (sessions b) ix = Some (Some t)"
    and u: "UpperPacket_Payload u = Some pl" "UpperPacket_Codec (env_V E) u = Some (Inr codec)" "UpperSrc (base u) = nd_peerid a"
    and pr: "paired (set_session (sessions a) ix (s'\<lparr>handshake := hs\<rparr>)) (set_session (sessions b) ix (t\<lparr>stage := 3\<rparr>)) ix"
    by (rule send_run_ok [OF C V inv pair dom un route ids idle handler, where src = src]) (rule that)
  have "s' = s" using s' st by simp
  show thesis by (rule that [OF send [unfolded fg \<open>s' = s\<close> ap] t u pr [unfolded fg \<open>s' = s\<close>]])
qed

text \<open>A node that waited for a peer on channel \<open>w\<close>, once the peer is connected.\<close>

abbreviation met :: "crypto \<Rightarrow> 'h Node \<Rightarrow> PeerID \<Rightarrow> nat \<Rightarrow> SessionManager \<Rightarrow> 'h Node" where
  "met C node pid w sm \<equiv> connectedCallback C ((WaitFor node pid w)\<lparr>sessions := sm\<rparr>) pid True"

text \<open>After the exchange the first node is ready to send.\<close>

lemma meet:
  assumes C: "crypto_ok C" "env_C Ea = C" "env_C Eb = C"
    and inv: "node_inv C ka a" "node_inv C kb b" and idle: "idle a" "idle b" and new: "stranger a (nd_peerid b)" and ts: "length (env_ts Ea) = 12"
    and draws: "GeneratePrivateKey C (env_kd Ea) = Some (Inr ea)" "GeneratePrivateKey C (env_kd Eb) = Some (Inr eb)"
      "fresh_index (store (sessions a)) (env_ids Ea) = Some ixa" "fresh_index (store (sessions b)) (env_ids Eb) = Some ixb"
    and secrets: "\<not> isZero (SharedSecret C ka (PrivateKey_PublicKey C kb))" "\<not> isZero (SharedSecret C ea (PrivateKey_PublicKey C kb))"
    and id: "\<not> PeerID_Empty (nd_peerid b)" and raddr: "\<not> Multiaddr_Empty raddr"
    and src: "\<not> Multiaddr_Empty (FromAddrPort srca)" "\<not> Multiaddr_Empty (FromAddrPort srcb)"
  obtains s t where
    "connect_run Ea Eb a b raddr w srca srcb =
       Some (met C a (nd_peerid b) w (set_session (sessions a) ixb s),
             b\<lparr>sessions := set_session (sessions b) ixb t\<rparr>, Multiaddr_AddrPort raddr, srca)"
    "linked C ka kb (met C a (nd_peerid b) w (set_session (sessions a) ixb s))
       (b\<lparr>sessions := set_session (sessions b) ixb t\<rparr>) (sessions a) ixb s srcb"
    "remotePeerID t = nd_peerid a" "remoteAddr t = FromAddrPort srca" "stage t = 2"
proof -
  from idle obtain ta tsa tb tsb where qa: "empty_queue (helloSendQ a)" "empty_queue (lowerRecvQ a)" "empty_queue (helloRecvQ a)"
      "transports a = ta # tsa" "empty_queue (sendQ ta)"
    and qb: "empty_queue (lowerRecvQ b)" "empty_queue (helloRecvQ b)" "transports b = tb # tsb" "empty_queue (sendQ tb)"
    unfolding idle_def by blast
  let ?w = "WaitFor a (nd_peerid b) w"
  obtain s t where run: "connect_run Ea Eb a b raddr w srca srcb =
       Some (connectedCallback C (?w\<lparr>sessions := set_session (sessions a) ixb s\<rparr>) (nd_peerid b) True,
             b\<lparr>sessions := set_session (sessions b) ixb t\<rparr>, Multiaddr_AddrPort raddr, srca)"
    and m: "matched (handshake s) (handshake t)" and s: "remotePeerID s = nd_peerid b" "remoteAddr s = FromAddrPort srcb"
    and t: "remotePeerID t = nd_peerid a" "remoteAddr t = FromAddrPort srca" "stage t = 2"
    by (rule connect_run_ok [of Ea Eb ka a kb b ea eb ixa ixb raddr srca srcb ta tsa tb tsb w thesis, unfolded C(2,3), OF C(1) refl inv ts draws secrets
          id raddr src qa qb]) (rule that)
  let ?a = "?w\<lparr>sessions := set_session (sessions a) ixb s\<rparr>"
  let ?a1 = "connectedCallback C ?a (nd_peerid b) True" and ?b1 = "b\<lparr>sessions := set_session (sessions b) ixb t\<rparr>"
  note inv1 = connect_run_inv [OF C inv run]
  have pid: "sm_peerid (sessions a) = nd_peerid a" "sm_peerid (sessions b) = nd_peerid b"
    using inv by (auto simp: node_inv_def tables_ok_def sm_inv_def)
  have fa: "table (routing ?a) (nd_peerid b) = None" "\<exists>i<NumSlots. slots (forwarder ?a) i = Some NullSlot"
    using new by (auto simp: stranger_def WaitFor_def)
  have A: "sessions ?a1 = set_session (sessions a) ixb s" by simp
  have ia: "idle ?a1" and ib: "idle ?b1" using idle by simp_all
  obtain slot where ra: "GetRoute (routing ?a1) (nd_peerid b) = Inr (NewRoute [of_nat slot])"
    by (rule connected_route [OF fa, where C = C]) (rule that)
  have pair: "paired (sessions ?a1) (sessions ?b1) ixb"
    using m s t pid by (auto simp: A paired_def set_session_def)
  have "linked C ka kb ?a1 ?b1 (sessions a) ixb s srcb"
    unfolding linked_def using inv1 ia ib pair A new s(2) src(2) ra by (auto simp: stranger_def)
  with run show thesis by (rule that) (rule t)+
qed

section \<open>Connecting\<close>

text \<open>
  C5. Connecting and talking. Two nodes have never met: no session, no route, a free slot each, and empty queues. One of them connects to the
  other at an address. Then the hello, the response and their handling run through the queues of both nodes without an error; the hello goes to that
  address and the response back to where the hello came from; the caller is woken with success. A message from the first node then reaches the handler
  of the second with its payload, codec and sender, and this message makes the second node know the first one, so that its answer reaches the handler
  there in the same way. Each side uses the address from which it last heard the other in the handshake.
\<close>

theorem connect_then_talk:
  assumes C: "crypto_ok C" and V: "varint_ok V" and E: "env_C Ea = C" "env_C Eb = C" "env_C Es = C" "env_C Er = C" "env_V Es = V" "env_V Er = V"
    and inv: "node_inv C ka a" "node_inv C kb b" and idle: "idle a" "idle b"
    and new: "stranger a (nd_peerid b)" "stranger b (nd_peerid a)"
    and ts: "length (env_ts Ea) = 12"
    and draws: "GeneratePrivateKey C (env_kd Ea) = Some (Inr ea)" "GeneratePrivateKey C (env_kd Eb) = Some (Inr eb)"
      "fresh_index (store (sessions a)) (env_ids Ea) = Some ixa" "fresh_index (store (sessions b)) (env_ids Eb) = Some ixb"
    and secrets: "\<not> isZero (SharedSecret C ka (PrivateKey_PublicKey C kb))" "\<not> isZero (SharedSecret C ea (PrivateKey_PublicKey C kb))"
    and ids: "\<not> PeerID_Empty (nd_peerid a)" "\<not> PeerID_Empty (nd_peerid b)" and raddr: "\<not> Multiaddr_Empty raddr"
    and src: "\<not> Multiaddr_Empty (FromAddrPort srca)" "\<not> Multiaddr_Empty (FromAddrPort srcb)"
    and orders: "set (env_order Es) = insert ixb (dom (store (sessions a)))" "set (env_order Er) = insert ixb (dom (store (sessions b)))"
    and handlers: "upperHandlers b codec = Some hb" "upperHandlers a codec' = Some ha" and small: "codec < 2 ^ 28" "codec' < 2 ^ 28"
    and fits: "int (length pl) \<le> UpperMTU" "int (length pl') \<le> UpperMTU"
  shows "\<exists>a1 b1 a2 b2 a3 b3 u u'.
    connect_run Ea Eb a b raddr w srca srcb = Some (a1, b1, Multiaddr_AddrPort raddr, srca) \<and> (w, None) \<in> set (woken a1) \<and>
    send_run Es a1 b1 codec pl srca = Some (a2, b2, None, srcb) \<and> upper_calls b2 = upper_calls b @ [(hb, u)] \<and>
    UpperPacket_Payload u = Some pl \<and> UpperPacket_Codec V u = Some (Inr codec) \<and> UpperSrc (base u) = nd_peerid a \<and>
    send_run Er b2 a2 codec' pl' srcb = Some (b3, a3, None, srca) \<and> upper_calls a3 = upper_calls a @ [(ha, u')] \<and>
    UpperPacket_Payload u' = Some pl' \<and> UpperPacket_Codec V u' = Some (Inr codec') \<and> UpperSrc (base u') = nd_peerid b"
proof -
  obtain s t where run: "connect_run Ea Eb a b raddr w srca srcb =
       Some (met C a (nd_peerid b) w (set_session (sessions a) ixb s),
             b\<lparr>sessions := set_session (sessions b) ixb t\<rparr>, Multiaddr_AddrPort raddr, srca)"
    and link: "linked C ka kb (met C a (nd_peerid b) w (set_session (sessions a) ixb s))
      (b\<lparr>sessions := set_session (sessions b) ixb t\<rparr>) (sessions a) ixb s srcb"
    and t: "remotePeerID t = nd_peerid a" "remoteAddr t = FromAddrPort srca" "stage t = 2"
    by (rule meet [OF C E(1,2) inv idle new(1) ts draws secrets ids(2) raddr src, where w = w]) (rule that)
  let ?a1 = "met C a (nd_peerid b) w (set_session (sessions a) ixb s)" and ?b1 = "b\<lparr>sessions := set_session (sessions b) ixb t\<rparr>"
  have wk: "(w, None) \<in> set (woken ?a1)"
    by (subst connected_woken) (auto simp: WaitFor_def)
  have fb: "table (routing (b\<lparr>sessions := sm\<rparr>)) (nd_peerid a) = None" "\<exists>i<NumSlots. slots (forwarder (b\<lparr>sessions := sm\<rparr>)) i = Some NullSlot" for sm
    using new by (auto simp: stranger_def)
  have A: "nd_peerid ?a1 = nd_peerid a" "upper_calls ?a1 = upper_calls a" "upperHandlers ?a1 = upperHandlers a" by (simp_all add: WaitFor_def)
  have inv1: "node_inv C ka ?a1" "node_inv C kb ?b1" using link by (simp_all add: linked_def)
  obtain hs t' u where send: "send_run Es ?a1 ?b1 codec pl srca = Some (?a1\<lparr>sessions := set_session (sessions a) ixb (s\<lparr>handshake := hs\<rparr>)\<rparr>,
       (greeted C ?b1 t' (set_session (sessions ?b1) ixb (t'\<lparr>stage := 3\<rparr>)))\<lparr>upper_calls := upper_calls ?b1 @ [(hb, u)]\<rparr>, None, srcb)"
    and t': "store (sessions ?b1) ixb = Some (Some t')"
    and u: "UpperPacket_Payload u = Some pl" "UpperPacket_Codec V u = Some (Inr codec)" "UpperSrc (base u) = nd_peerid ?a1"
    and pair': "paired (set_session (sessions a) ixb (s\<lparr>handshake := hs\<rparr>)) (set_session (sessions ?b1) ixb (t'\<lparr>stage := 3\<rparr>)) ixb"
    by (rule talk [of Es ka kb ?a1 ?b1 "sessions a" ixb s srcb codec hb pl srca thesis, unfolded E, OF C V link orders(1)])
      (use ids A(1) handlers(1) small(1) fits(1) that in simp_all)
  let ?S = "set_session (sessions b) ixb (t\<lparr>stage := 3\<rparr>)"
  let ?a2 = "?a1\<lparr>sessions := set_session (sessions a) ixb (s\<lparr>handshake := hs\<rparr>)\<rparr>"
  let ?b2 = "(connectedCallback C (b\<lparr>sessions := ?S\<rparr>) (nd_peerid a) True)\<lparr>upper_calls := upper_calls b @ [(hb, u)]\<rparr>"
  have tt: "t' = t" and S: "set_session (sessions ?b1) ixb (t'\<lparr>stage := 3\<rparr>) = ?S" using t' by (simp_all add: set_session_def)
  then have gr: "(greeted C ?b1 t' (set_session (sessions ?b1) ixb (t'\<lparr>stage := 3\<rparr>)))\<lparr>upper_calls := upper_calls ?b1 @ [(hb, u)]\<rparr> = ?b2"
    using t by (simp add: greeted_def)
  note send = send [unfolded gr]
  note inv2 = send_run_inv [OF C E(3) inv1 send]
  have B: "sessions ?b2 = ?S" "nd_peerid ?b2 = nd_peerid b" and A2: "nd_peerid ?a2 = nd_peerid a" "upperHandlers ?a2 codec' = Some ha"
    "sessions ?a2 = set_session (sessions a) ixb (s\<lparr>handshake := hs\<rparr>)" using A(1,3) handlers(2) by simp_all
  have idle2: "idle ?a2" "idle ?b2" using link by (simp_all add: linked_def)
  obtain slot' where "GetRoute (routing (connectedCallback C (b\<lparr>sessions := ?S\<rparr>) (nd_peerid a) True)) (nd_peerid a) = Inr (NewRoute [of_nat slot'])"
    by (rule connected_route [OF fb, where C = C]) (rule that)
  then have rb: "GetRoute (routing ?b2) (nd_peerid ?a2) = Inr (NewRoute [of_nat slot'])" using A(1) by simp
  have pair2: "paired (sessions ?b2) (sessions ?a2) ixb"
    using pair' tt by (subst paired_sym) simp
  have link2: "linked C kb ka ?b2 ?a2 (sessions b) ixb (t\<lparr>stage := 3\<rparr>) srca"
    unfolding linked_def using inv2 idle2 pair2 B(1) new(2) A2(1) t(2) src(1) rb by (auto simp: stranger_def)
  obtain hs' s'' u' where reply: "send_run Er ?b2 ?a2 codec' pl' srcb = Some (?b2\<lparr>sessions := set_session (sessions b) ixb (t\<lparr>stage := 3, handshake := hs'\<rparr>)\<rparr>,
       (greeted C ?a2 s'' (set_session (sessions ?a2) ixb (s''\<lparr>stage := 3\<rparr>)))\<lparr>upper_calls := upper_calls ?a2 @ [(ha, u')]\<rparr>, None, srca)"
    and u': "UpperPacket_Payload u' = Some pl'" "UpperPacket_Codec V u' = Some (Inr codec')" "UpperSrc (base u') = nd_peerid ?b2"
    by (rule talk [of Er kb ka ?b2 ?a2 "sessions b" ixb "t\<lparr>stage := 3\<rparr>" srca codec' ha pl' srcb thesis, unfolded E, OF C V link2 orders(2)])
      (use ids A2(1,2) B(2) small(2) fits(2) that in simp_all)
  have ub: "upper_calls ?b2 = upper_calls b @ [(hb, u)]"
    and ua: "upper_calls ((greeted C ?a2 s'' (set_session (sessions ?a2) ixb (s''\<lparr>stage := 3\<rparr>)))\<lparr>upper_calls := upper_calls ?a2 @ [(ha, u')]\<rparr>) =
      upper_calls a @ [(ha, u')]" using A(2) by simp_all
  show ?thesis
    by (intro exI conjI) (rule run wk send ub u(1,2) u(3) [unfolded A(1)] reply ua u'(1,2) u'(3) [unfolded B(2)])+
qed


text \<open>Two new nodes with a handler and a transport each, and the values that their steps draw.\<close>

definition ex_fresh :: "byte \<Rightarrow> nat Node" where
  "ex_fresh n = Handle ((NewNode ref_crypto (ex_key n))\<lparr>transports := [ex_tpt]\<rparr>) 0x42000 (unat n)"

definition ex_draws :: "byte \<Rightarrow> env" where
  "ex_draws n = ex_env\<lparr>env_kd := [Inr (replicate 32 n)]\<rparr>"

lemma ex_fresh_inv: "node_inv ref_crypto (ex_key n) (ex_fresh n)"
proof -
  have "rb_inv (sendQ ex_tpt)" by (simp add: ex_tpt_def rb_inv_def NewRingBuffer_def TransportBufferSize_def)
  then show ?thesis
    unfolding ex_fresh_def by (intro api_inv(3) node_inv_transports NewNode_inv ref_crypto_ok wf_ex_key) simp
qed

lemma ex_fresh_simps:
  "nd_peerid (ex_fresh n) = NewPeerID \<lparr>pub_bytes = replicate 32 n\<rparr>" "store (sessions (ex_fresh n)) = Map.empty"
  "upperHandlers (ex_fresh n) 0x42000 = Some (unat n)" "upper_calls (ex_fresh n) = []" "routing (ex_fresh n) = NewRouting"
  by (simp_all add: ex_fresh_def Handle_def NewNode_simps ex_key_def ref_PublicKey)
    (simp add: NewNode_def NewSessionManager_def Let_def split: prod.splits)

lemma ex_fresh_idle: "idle (ex_fresh n)"
  by (simp add: idle_def ex_fresh_def Handle_def NewNode_simps)
    (simp add: NewNode_def Let_def empty_queue_def NewRingBuffer_def DefaultQueueSize_def ex_tpt_def TransportBufferSize_def split: prod.splits)

lemma ex_fresh_stranger: "stranger (ex_fresh n) pid"
proof -
  obtain fwd r where at: "Attach (NewForwarder :: port Forwarder) (NewPeerID (PrivateKey_PublicKey ref_crypto (ex_key n))) Local = (fwd, r)" by fastforce
  then have "slots fwd 1 = Some NullSlot"
    by (cases rule: Attach_cases) (use NewForwarder_slot [of 0] NewForwarder_slot [of 1] in \<open>auto simp: NumSlots_def dest: spec [of _ 0]\<close>)
  moreover have "forwarder (ex_fresh n) = fwd" using at by (simp add: ex_fresh_def Handle_def NewNode_def Let_def)
  ultimately show ?thesis by (auto simp: stranger_def ex_fresh_simps NewRouting_def NumSlots_def intro: exI [of _ 1])
qed

theorem connect_then_talk_witness:
  "\<exists>a1 b1 a2 b2 a3 b3 u u'.
    connect_run (ex_draws 3) (ex_draws 4) (ex_fresh 1) (ex_fresh 2) ex_addr 5 (Addr4 [127, 0, 0, 1], 1312) (Addr4 [127, 0, 0, 2], 1312) =
      Some (a1, b1, Multiaddr_AddrPort ex_addr, (Addr4 [127, 0, 0, 1], 1312)) \<and> (5, None) \<in> set (woken a1) \<and>
    send_run ex_env a1 b1 0x42000 [1, 2, 3] (Addr4 [127, 0, 0, 1], 1312) = Some (a2, b2, None, (Addr4 [127, 0, 0, 2], 1312)) \<and>
    upper_calls b2 = upper_calls (ex_fresh 2) @ [(2, u)] \<and>
    UpperPacket_Payload u = Some [1, 2, 3] \<and> UpperPacket_Codec ref_varint u = Some (Inr 0x42000) \<and> UpperSrc (base u) = nd_peerid (ex_fresh 1) \<and>
    send_run ex_env b2 a2 0x42000 [] (Addr4 [127, 0, 0, 2], 1312) = Some (b3, a3, None, (Addr4 [127, 0, 0, 1], 1312)) \<and>
    upper_calls a3 = upper_calls (ex_fresh 1) @ [(1, u')] \<and>
    UpperPacket_Payload u' = Some [] \<and> UpperPacket_Codec ref_varint u' = Some (Inr 0x42000) \<and> UpperSrc (base u') = nd_peerid (ex_fresh 2)"
proof (rule connect_then_talk [OF ref_crypto_ok ref_varint_ok _ _ _ _ _ _ ex_fresh_inv ex_fresh_inv ex_fresh_idle ex_fresh_idle
      ex_fresh_stranger ex_fresh_stranger])
  show "GeneratePrivateKey ref_crypto (env_kd (ex_draws 3)) = Some (Inr (ex_key 3))" "GeneratePrivateKey ref_crypto (env_kd (ex_draws 4)) = Some (Inr (ex_key 4))"
    by (simp_all add: ex_draws_def ex_key_draw)
  show "fresh_index (store (sessions (ex_fresh 1))) (env_ids (ex_draws 3)) = Some 7" "fresh_index (store (sessions (ex_fresh 2))) (env_ids (ex_draws 4)) = Some 7"
    by (simp_all add: ex_draws_def ex_env_def ex_fresh_simps ex_fresh_index)
  show "\<not> isZero (SharedSecret ref_crypto (ex_key 1) (PrivateKey_PublicKey ref_crypto (ex_key 2)))"
    "\<not> isZero (SharedSecret ref_crypto (ex_key 3) (PrivateKey_PublicKey ref_crypto (ex_key 2)))"
    using ex_secret by (simp_all add: ex_key_def ref_PublicKey)
qed (use ex_peerids in \<open>simp_all add: ex_draws_def ex_env_def ex_fresh_simps ex_addr_def FromAddrPort_def Multiaddr_Empty_def
    emptyMultiaddr_def UpperMTU_def\<close>)

end
