(* ===== verification/RoutedRuns.thy ===== *)
theory RoutedRuns
  imports RoutedSessions ConnectProperties
begin

text \<open>
  Two nodes at the two ends of a chain of connected nodes: the runs in which they open a session over a route and send a message over it,
  through the queues, sessions, transports and forwarders of all nodes of the chain.
\<close>

section \<open>Networks\<close>

text \<open>A chain of 2 to 13 hops between different nodes, all of them at rest.\<close>

definition line :: "crypto \<Rightarrow> (PeerID \<Rightarrow> Addr \<times> u16) \<Rightarrow> hop list \<Rightarrow> 'h Node list \<Rightarrow> bool" where
  "line C addr hs ns \<longleftrightarrow>
     chain addr hs ns \<and> list_all (at_rest C addr) ns \<and> distinct (map nd_peerid ns) \<and> 2 \<le> length hs \<and> length hs \<le> 13"

lemma ticked_peerids: "list_all2 ticked ns ns' \<Longrightarrow> map nd_peerid ns' = map nd_peerid ns"
  by (induction rule: list_all2_induct) (auto simp: ticked_frame(1))

lemma ticked_all_trans: "list_all2 ticked xs ys \<Longrightarrow> list_all2 ticked ys zs \<Longrightarrow> list_all2 ticked xs zs"
  by (rule list_all2_trans) (rule ticked_trans)

lemma ticked_rests: "list_all2 ticked ns ns' \<Longrightarrow> list_all (at_rest C addr) ns \<Longrightarrow> list_all (at_rest C addr) ns'"
  by (induction rule: list_all2_induct) (auto intro: ticked_rest)

lemma ticked_line: "line C addr hs ns \<Longrightarrow> list_all2 ticked ns ns' \<Longrightarrow> line C addr hs ns'"
  unfolding line_def using ticked_chain ticked_rests ticked_peerids by metis

lemma line_rev: "line C addr hs ns \<Longrightarrow> line C addr (way_back (nd_peerid (hd ns)) hs) (rev ns)"
  unfolding line_def using chain_rev by (auto simp: rev_map [symmetric] list_all_iff)

text \<open>The first node may change as long as its sessions with its neighbour stay.\<close>

lemma knows_other:
  assumes "knows addr a b out ix" and "nd_peerid a2 = nd_peerid a" "forwarder a2 = forwarder a"
    and "\<forall>i s. remotePeerID s = nd_peerid b \<longrightarrow> store (sessions a2) i = Some (Some s) \<longleftrightarrow> store (sessions a) i = Some (Some s)"
  shows "knows addr a2 b out ix"
  using assms unfolding knows_def by metis

lemma tied_other:
  assumes tie: "tied addr a b out inn" and same: "nd_peerid a2 = nd_peerid a" "forwarder a2 = forwarder a"
    and st: "\<forall>i s. remotePeerID s = nd_peerid b \<longrightarrow> store (sessions a2) i = Some (Some s) \<longleftrightarrow> store (sessions a) i = Some (Some s)"
  shows "tied addr a2 b out inn"
proof -
  from tie obtain ix s t where k: "knows addr a b out ix" "knows addr b a inn ix"
    and s: "store (sessions a) ix = Some (Some s)" "store (sessions b) ix = Some (Some t)" "matched (handshake s) (handshake t)"
    unfolding tied_def by blast
  have "store (sessions a2) ix = Some (Some s)" using knowsD(1) [OF k(1) s(1)] s(1) st by blast
  moreover have "knows addr b a2 inn ix" using k(2) same(1) by (simp add: knows_def)
  ultimately show ?thesis using knows_other [OF k(1) same st] s(2,3) unfolding tied_def by blast
qed

lemma line_head:
  assumes l: "line C addr hs (a # b # ns)" and same: "nd_peerid a2 = nd_peerid a" "forwarder a2 = forwarder a" and rest: "at_rest C addr a2"
    and st: "\<forall>i s. remotePeerID s = nd_peerid b \<longrightarrow> store (sessions a2) i = Some (Some s) \<longleftrightarrow> store (sessions a) i = Some (Some s)"
  shows "line C addr hs (a2 # b # ns)"
proof -
  from l obtain out p inn hs' where hs: "hs = (out, p, inn) # hs'" by (cases hs) (auto simp: line_def)
  then have "tied addr a b out inn" using l by (simp add: line_def)
  from tied_other [OF this same st] l rest same(1) show ?thesis by (simp add: line_def hs)
qed

text \<open>Every change of a session with another peer is of this kind.\<close>

lemma other_session:
  assumes "remotePeerID s \<noteq> pid" and "\<forall>t. store sm ix = Some (Some t) \<longrightarrow> remotePeerID t \<noteq> pid"
  shows "\<forall>i r. remotePeerID r = pid \<longrightarrow> store (set_session sm ix s) i = Some (Some r) \<longleftrightarrow> store sm i = Some (Some r)"
  using assms by auto

section \<open>One leg\<close>

lemma leg_run:
  assumes C: "crypto_ok (env_C E)" and ord: "lists_sessions ord" and l: "line (env_C E) addr hs (a # ms @ [d])"
    and Q: "in_transit (env_V E) 0 (outs hs) body Q" "LowerDst Q = nd_peerid (hd (ms @ [d]))" "RingBuffer_Get lq = Some (Q, lowerSendQ a)"
  obtains a' ms' uq P where "relay E ord addr (a\<lparr>lowerSendQ := lq\<rparr> # ms @ [d]) = Some (a' # ms' @ [d\<lparr>upperRecvQ := uq\<rparr>])"
    "ticked a a'" "list_all2 ticked ms ms'" "RingBuffer_Get uq = Some (P, upperRecvQ d)" "\<not> PeerID_Empty (LowerSrc P)"
    "in_transit (env_V E) (length hs - 1) (inns hs) body P"
proof -
  from l obtain out p inn hs' where hs: "hs = (out, p, inn) # hs'" by (cases hs) (auto simp: line_def)
  obtain b ns where ns: "ms @ [d] = b # ns" by (cases "ms @ [d]") auto
  have "last (b # ns) = d" unfolding ns [symmetric] by simp
  moreover have "\<exists>ms uq P. relay E ord addr (a\<lparr>lowerSendQ := lq\<rparr> # b # ns) = Some (ms @ [(last (b # ns))\<lparr>upperRecvQ := uq\<rparr>]) \<and>
    list_all2 ticked (a # b # ns) (ms @ [last (b # ns)]) \<and> RingBuffer_Get uq = Some (P, upperRecvQ (last (b # ns))) \<and>
    \<not> PeerID_Empty (LowerSrc P) \<and> in_transit (env_V E) (length ([] :: bytes) + length hs') ([] @ inn # inns hs') body P"
    by (rule relay_run [OF C ord, of addr out p inn hs' a b ns]) (use l Q hs ns in \<open>simp_all add: line_def\<close>)
  ultimately obtain ks uq P where r: "relay E ord addr (a\<lparr>lowerSendQ := lq\<rparr> # ms @ [d]) = Some (ks @ [d\<lparr>upperRecvQ := uq\<rparr>])"
    "list_all2 ticked (a # ms @ [d]) (ks @ [d])" "RingBuffer_Get uq = Some (P, upperRecvQ d)" "\<not> PeerID_Empty (LowerSrc P)"
    "in_transit (env_V E) (length hs') (inn # inns hs') body P"
    unfolding ns by auto
  from r(2) obtain a' ms' where ks: "ks = a' # ms'" "ticked a a'" "list_all2 ticked ms ms'"
    by (cases ks) (auto simp: list_all2_append2 list_all2_Cons1 list_all2_Cons2 append_eq_append_conv2 Cons_eq_append_conv)
  show thesis by (rule that [OF r(1) [unfolded ks, simplified] ks(2,3) r(3,4)]) (use r(5) hs in simp)
qed


section \<open>A message over a session\<close>

fun at_head :: "('n \<Rightarrow> 'n option) \<Rightarrow> 'n list \<Rightarrow> 'n list option" where
  "at_head f [] = None"
| "at_head f (n # ns) = do { n \<leftarrow> f n; Some (n # ns) }"

text \<open>
  The first node of a list sends a payload to the last one, the nodes between pass it on, and the last one hands it to a handler. The result starts
  with the receiver.
\<close>

definition routed_send_run ::
  "env \<Rightarrow> (SessionManager \<Rightarrow> u32 list) \<Rightarrow> (PeerID \<Rightarrow> Addr \<times> u16) \<Rightarrow> 'h Node list \<Rightarrow> u64 \<Rightarrow> bytes \<Rightarrow> ('h Node list \<times> err option) option" where
  "routed_send_run E ord addr ns codec pl =
     (case ns of
        [] \<Rightarrow> None
      | a # rest \<Rightarrow> do {
          (a, e) \<leftarrow> Node_Send (env_V E) a (nd_peerid (last ns)) codec pl;
          a \<leftarrow> upperSendRoutine (E\<lparr>env_order := ord (sessions a)\<rparr>) a;
          ns \<leftarrow> relay E ord addr (a # rest);
          ns \<leftarrow> at_head (\<lambda>d. do { d \<leftarrow> upperRecvRoutine E d; upperMuxRoutine E d }) (rev ns);
          Some (ns, e) })"

text \<open>The two ends of the only session between two nodes.\<close>

definition joined :: "'h Node \<Rightarrow> 'h Node \<Rightarrow> u32 \<Rightarrow> bool" where
  "joined a d ix \<longleftrightarrow>
     (\<exists>s t. store (sessions a) ix = Some (Some s) \<and> store (sessions d) ix = Some (Some t) \<and> matched (handshake s) (handshake t) \<and>
        remotePeerID s = nd_peerid d \<and> remotePeerID t = nd_peerid a) \<and>
     (\<forall>i s. store (sessions a) i = Some (Some s) \<longrightarrow> remotePeerID s = nd_peerid d \<longrightarrow> i = ix) \<and>
     (\<forall>i t. store (sessions d) i = Some (Some t) \<longrightarrow> remotePeerID t = nd_peerid a \<longrightarrow> i = ix)"

lemma joined_sym: "joined a d ix \<Longrightarrow> joined d a ix"
  unfolding joined_def using matched_sym by blast

lemma ticked_joined:
  assumes "ticked a a'" and "joined a d ix"
  shows "joined a' d ix"
proof -
  from assms(2) obtain s t where s: "store (sessions a) ix = Some (Some s)" "store (sessions d) ix = Some (Some t)"
    "matched (handshake s) (handshake t)" "remotePeerID s = nd_peerid d" "remotePeerID t = nd_peerid a" unfolding joined_def by blast
  from ticked_store(1) [OF assms(1) s(1)] obtain s' where s': "store (sessions a') ix = Some (Some s')" "tick s s'" by blast
  have "i = ix" if r: "store (sessions a') i = Some (Some r)" "remotePeerID r = nd_peerid d" for i r
  proof -
    obtain s where "store (sessions a) i = Some (Some s)" "tick s r" using ticked_store(2) [OF assms(1) r(1)] by blast
    with r(2) assms(2) tickD(1) [of s r] show ?thesis unfolding joined_def by metis
  qed
  moreover have "matched (handshake s') (handshake t)" "remotePeerID s' = nd_peerid d" using s(3,4) tickD(1,4) [OF s'(2)] by simp_all
  moreover have "\<forall>i t. store (sessions d) i = Some (Some t) \<longrightarrow> remotePeerID t = nd_peerid a \<longrightarrow> i = ix"
    using assms(2) unfolding joined_def by blast
  ultimately show ?thesis using s(2,5) s'(1) unfolding joined_def ticked_frame(1) [OF assms(1)] by blast
qed

lemma find_session:
  assumes "lists_sessions ord" and "at_rest C addr a" and "store (sessions a) ix = Some (Some s)" "remotePeerID s = pid"
    and "\<forall>i r. store (sessions a) i = Some (Some r) \<longrightarrow> remotePeerID r = pid \<longrightarrow> i = ix"
  shows "Find (ord (sessions a)) (sessions a) pid = Some (Some (s, ix))"
proof (rule Find_unique [OF _ _ assms(3,4)])
  obtain k where inv: "node_inv C k a" and fin: "finite (dom (store (sessions a)))" using assms(2) unfolding at_rest_def by blast
  show "set (ord (sessions a)) = dom (store (sessions a))" using assms(1) fin by (simp add: lists_sessions_def)
  show "store (sessions a) i \<noteq> Some None" for i by (rule sm_inv_no_nil [OF node_invD(1) [OF inv]])
  show "i = ix" if "store (sessions a) i = Some (Some r)" "remotePeerID r = pid" for i r using assms(5) that by blast
qed

lemma queued_inv: "RingBuffer_Get q' = Some (p, q) \<Longrightarrow> empty_queue q \<Longrightarrow> rb_inv q'"
  by (cases "ch q'") (auto simp: RingBuffer_Get_def chan_recv_def empty_queue_def rb_inv_def)

lemma connected_upper [simp]:
  "forwarder (connectedCallback C node pid False) = forwarder node" "routing (connectedCallback C node pid False) = routing node"
  "upperRecvQ (connectedCallback C node pid lower) = upperRecvQ node"
  by (simp_all add: connectedCallback_def Let_def split: option.splits prod.splits sum.splits)

lemma idle_routing [simp]: "idle (node\<lparr>routing := r\<rparr>) = idle node"
  by (simp add: idle_def)

lemma visited_frame [simp]:
  "nd_peerid (visited C node s ix rt) = nd_peerid node" "forwarder (visited C node s ix rt) = forwarder node"
  "upperHandlers (visited C node s ix rt) = upperHandlers node" "upper_calls (visited C node s ix rt) = upper_calls node"
  "upperRecvQ (visited C node s ix rt) = upperRecvQ node" "upperMuxQ (visited C node s ix rt) = upperMuxQ node"
  "idle (visited C node s ix rt) = idle node"
  "routing (visited C node s ix rt) = AddRoute C (routing node) (remotePeerID s) rt"
  "sessions (visited C node s ix rt) = (if stage s = 3 then sessions node else set_session (sessions node) ix (s\<lparr>stage := 3\<rparr>))"
  by (simp_all add: visited_def Let_def)

text \<open>The receiver at the end of the line.\<close>

lemma receive_ok:
  assumes C: "crypto_ok (env_C E)" and l: "line (env_C E) addr hs (d # b # ns)" and far: "remotePeerID t \<noteq> nd_peerid b"
    and f: "upper_frame f body" "data_carries f ix hdr ct" "letter (env_V E) codec pl B (Length (base f))" "slice_of B 52 (Length (base f) - 32) = Some xs"
    and P: "in_transit V pos route body P" "RingBuffer_Get uq = Some (P, upperRecvQ d)"
    and t: "store (sessions d) ix = Some (Some t)" and con: "ConsumeMessage (env_C E) (handshake t) hdr ct = Inr xs" "length ct = length xs + 16"
    and h: "upperHandlers d codec = Some cb"
  obtains d1 d' u where "upperRecvRoutine E (d\<lparr>upperRecvQ := uq\<rparr>) = Some d1" "upperMuxRoutine E d1 = Some d'"
    "d' = (visited (env_C E) d t ix (Route_Reverse (NewRoute route)))\<lparr>upper_calls := upper_calls d @ [(cb, u)]\<rparr>"
    "UpperPacket_Payload u = Some pl" "UpperPacket_Codec (env_V E) u = Some (Inr codec)" "UpperSrc (base u) = remotePeerID t"
    "line (env_C E) addr hs (d' # b # ns)"
proof -
  have rest: "at_rest (env_C E) addr d" using l by (simp add: line_def)
  then obtain k where inv: "node_inv (env_C E) k d" and q: "empty_queue (upperRecvQ d)" "empty_queue (upperMuxQ d)"
    unfolding at_rest_def idle_def by blast
  let ?v = "visited (env_C E) d t ix (Route_Reverse (NewRoute route))"
  obtain U mq where recv: "upperRecvRoutine E (d\<lparr>upperRecvQ := uq\<rparr>) = Some (?v\<lparr>upperMuxQ := mq\<rparr>)"
    and U: "RingBuffer_Get mq = Some (U, upperMuxQ d)" "UpperSrc U = remotePeerID t" "Length U = Length (base f)"
      "length (Buf U) = TptMTU" "slice_of (Buf U) 52 (Length U - 32) = Some xs"
    by (rule upperRecv_data [OF C f(1,2) P(1) t con P(2) q(2)]) (rule that)
  have let': "letter (env_V E) codec pl (Buf U) (Length U)"
    using letter_inner [OF f(3,4) _ U(4)] U(3,5) by simp
  let ?d = "?v\<lparr>upper_calls := upper_calls d @ [(cb, NewUpperPacket U)]\<rparr>"
  have mux: "upperMuxRoutine E (?v\<lparr>upperMuxQ := mq\<rparr>) = Some ?d"
    using upperMux_run [OF let', of ?v cb mq] h U(1) by simp
  have "node_inv (env_C E) k (d\<lparr>upperRecvQ := uq\<rparr>)" using node_inv_queues(7) [OF inv queued_inv [OF P(2) q(1)]] .
  from yieldsD [OF routines_post(7) [OF C this] recv] have "node_inv (env_C E) k ?d"
    by (rule yieldsD [OF routines_post(8) [OF C] mux])
  moreover have "idle ?d \<longleftrightarrow> idle d" "empty_queue (upperRecvQ ?d) \<longleftrightarrow> empty_queue (upperRecvQ d)" "nd_peerid ?d = nd_peerid d"
    "dom (store (sessions ?d)) = dom (store (sessions d))" using t by auto
  ultimately have "at_rest (env_C E) addr ?d" using rest unfolding at_rest_def by auto
  then have "line (env_C E) addr hs (?d # b # ns)"
    by (intro line_head [OF l]) (use far t in auto)
  then show thesis
    by (intro that [OF recv mux refl]) (use letter_read [OF let'] U(2) in \<open>simp_all add: NewUpperPacket_def\<close>)
qed


text \<open>A line has a node between its ends, and none of its nodes is the other end.\<close>

lemma line_middle:
  assumes "line C addr hs (a # ms @ [d])"
  obtains b ns out inn hs' where "ms = b # ns" "hs = (out, nd_peerid b, inn) # hs'" "hs' \<noteq> []" "tied addr a b out inn"
    "nd_peerid b \<noteq> nd_peerid d" "nd_peerid a \<noteq> nd_peerid d" "nd_peerid a \<noteq> nd_peerid b"
proof -
  have "length ms = length hs - 1" "2 \<le> length hs" using assms chain_length [of addr hs "a # ms @ [d]"] by (auto simp: line_def)
  then obtain b ns h hs' where ms: "ms = b # ns" "hs = h # hs'" "hs' \<noteq> []"
    by (cases ms; cases hs; cases "tl hs") auto
  obtain out p inn where h: "h = (out, p, inn)" by (cases h)
  have "p = nd_peerid b" "tied addr a b out inn" "nd_peerid b \<noteq> nd_peerid d" "nd_peerid a \<noteq> nd_peerid d" "nd_peerid a \<noteq> nd_peerid b"
    using assms by (auto simp: line_def ms h)
  with ms h that show thesis by blast
qed

text \<open>The line as its other end sees it.\<close>

lemma line_turn:
  assumes "line C addr hs (a # ms @ [d])" "ticked a a'" "list_all2 ticked ms ms'"
  shows "line C addr (way_back (nd_peerid a) hs) (d # rev ms' @ [a'])"
proof -
  have "list_all2 ticked (a # ms @ [d]) (a' # ms' @ [d])" using assms(2,3) ticked_refl by (auto intro: list_all2_appendI)
  from line_rev [OF ticked_line [OF assms(1) this]] show ?thesis using ticked_frame(1) [OF assms(2)] by simp
qed

lemma way_back_append: "way_back a (xs @ ys) = way_back (path_end a xs) ys @ way_back a xs"
  by (induction a xs rule: way_back.induct) auto

lemma way_back_twice: "way_back (path_end a hs) (way_back a hs) = hs"
  by (induction a hs rule: way_back.induct) (auto simp: way_back_append back_end)

lemma line_twice:
  assumes "line C addr hs (a # ms @ [d])"
  shows "way_back (nd_peerid d) (way_back (nd_peerid a) hs) = hs"
proof -
  have "path_end (nd_peerid a) hs = nd_peerid d" using chain_end [of addr hs "a # ms @ [d]"] assms by (simp add: line_def)
  then show ?thesis using way_back_twice by metis
qed

lemma route_back: "Route_Reverse (NewRoute (inns hs)) = NewRoute (outs (way_back a hs))"
  by (simp add: Route_eq_iff back_outs)

lemma routed_send_ok:
  assumes C: "crypto_ok (env_C E)" and V: "varint_ok (env_V E)" and ord: "lists_sessions ord"
    and l: "line (env_C E) addr hs (a # ms @ [d])" and j: "joined a d ix"
    and route: "GetRoute (routing a) (nd_peerid d) = Inr (NewRoute (outs hs))"
    and handler: "upperHandlers d codec = Some cb" and small: "codec < 2 ^ 28" and fits: "int (length pl) \<le> UpperMTU"
  obtains a' ms' d' u where "routed_send_run E ord addr (a # ms @ [d]) codec pl = Some (d' # rev ms' @ [a'], None)"
    "ticked a a'" "list_all2 ticked ms ms'" "line (env_C E) addr (way_back (nd_peerid a) hs) (d' # rev ms' @ [a'])" "joined d' a' ix"
    "upper_calls d' = upper_calls d @ [(cb, u)]" "nd_peerid d' = nd_peerid d" "upperHandlers d' = upperHandlers d"
    "routing d' = AddRoute (env_C E) (routing d) (nd_peerid a) (NewRoute (outs (way_back (nd_peerid a) hs)))"
    "UpperPacket_Payload u = Some pl" "UpperPacket_Codec (env_V E) u = Some (Inr codec)" "UpperSrc (base u) = nd_peerid a"
proof -
  obtain b ns out inn hs' where mid: "ms = b # ns" "hs = (out, nd_peerid b, inn) # hs'" "hs' \<noteq> []" "tied addr a b out inn"
    by (rule line_middle [OF l]) (rule that)
  have rest: "at_rest (env_C E) addr a" "at_rest (env_C E) addr d" and len: "length hs \<le> 13" using l by (simp_all add: line_def)
  have qa: "empty_queue (upperSendQ a)" "empty_queue (lowerSendQ a)" and ne: "\<not> PeerID_Empty (nd_peerid d)"
    using rest by (simp_all add: at_rest_def idle_def)
  from j obtain s t where s: "store (sessions a) ix = Some (Some s)" "remotePeerID s = nd_peerid d"
    and t: "store (sessions d) ix = Some (Some t)" "remotePeerID t = nd_peerid a" and m: "matched (handshake s) (handshake t)"
    and uniq: "\<forall>i r. store (sessions a) i = Some (Some r) \<longrightarrow> remotePeerID r = nd_peerid d \<longrightarrow> i = ix"
    unfolding joined_def by blast
  have l14: "length (outs hs) \<le> 14" using len by simp
  obtain P uq where send: "Node_Send (env_V E) a (nd_peerid d) codec pl = Some (a\<lparr>upperSendQ := uq\<rparr>, None)"
    and P: "RingBuffer_Get uq = Some (P, upperSendQ a)" "UpperDst P = nd_peerid d" "labelled (Buf P) 0 (outs hs)"
      "Length P = 88 + int (length pl)" "length (Buf P) = TptMTU" "slice_of (Buf P) 56 (56 + int (length pl)) = Some pl"
      "slice_of (Buf P) 52 56 = Some (ToUvarint (env_V E) codec @ replicate (4 - length (ToUvarint (env_V E) codec)) 0)"
    by (rule Send_run [OF V small fits route l14 qa(1)]) (rule that)
  have c63: "codec < 2 ^ 63" using small by (rule less_trans) simp
  have let': "letter (env_V E) codec pl (Buf P) (Length P)"
    using P(4-7) V c63 fits by (simp add: letter_def varint_ok_def UpperMTU_def TptMTU_def)
  let ?E = "E\<lparr>env_order := ord (sessions a)\<rparr>"
  have E': "crypto_ok (env_C ?E)" "varint_ok (env_V ?E)" "\<not> PeerID_Empty (UpperDst P)" using C V ne P(2) by simp_all
  have lP: "88 \<le> Length P" "Length P \<le> int TptMTU" using let' by (simp_all add: letter_def)
  have lab: "labelled (Buf P) 0 (out # outs hs')" "outs hs' \<noteq> []" using P(3) mid(2,3) by (auto simp: outs_def)
  have found: "Find (env_order ?E) (sessions a) (UpperDst P) = Some (Some (s, ix))"
    using find_session [OF ord rest(1) s uniq] P(2) by simp
  obtain hs1 hdr ct f Q lq body xs where up: "upperSendRoutine ?E (a\<lparr>upperSendQ := uq\<rparr>) =
       Some (a\<lparr>sessions := set_session (sessions a) ix (s\<lparr>handshake := hs1\<rparr>), lowerSendQ := lq\<rparr>)"
    and Q: "RingBuffer_Get lq = Some (Q, lowerSendQ a)" "LowerDst Q = nd_peerid b" "in_transit (env_V ?E) 0 (out # outs hs') body Q"
    and f: "upper_frame f body" "Length (base f) = Length P" "data_carries f ix hdr ct"
    and mk: "MakeMessage (env_C ?E) (handshake s) xs = (hs1, Inr (hdr, ct))" and xs: "slice_of (Buf P) 52 (Length P - 32) = Some xs"
    by (rule upperSend_routed [OF E' P(5) lP lab found m tied_slots(1) [OF mid(4)] P(1) qa(2)]) (rule that)
  note mk = mk [simplified]
  let ?a = "a\<lparr>sessions := set_session (sessions a) ix (s\<lparr>handshake := hs1\<rparr>)\<rparr>"
  have tick: "ticked a ?a" by (rule ticked_send [OF s(1) MakeMessage_tick [OF mk]])
  have "list_all2 ticked (a # ms @ [d]) (?a # ms @ [d])" using tick list_all2_refl [of ticked "ms @ [d]"] ticked_refl by auto
  note l1 = ticked_line [OF l this]
  have Q': "in_transit (env_V E) 0 (outs hs) body Q" "LowerDst Q = nd_peerid (hd (ms @ [d]))" "RingBuffer_Get lq = Some (Q, lowerSendQ ?a)"
    using Q by (simp_all add: mid(1,2))
  obtain a' ms' uq2 P2 where run: "relay E ord addr (?a\<lparr>lowerSendQ := lq\<rparr> # ms @ [d]) = Some (a' # ms' @ [d\<lparr>upperRecvQ := uq2\<rparr>])"
    and tk: "ticked ?a a'" "list_all2 ticked ms ms'" and P2: "RingBuffer_Get uq2 = Some (P2, upperRecvQ d)"
      "in_transit (env_V E) (length hs - 1) (inns hs) body P2"
    by (rule leg_run [OF C ord l1 Q']) (rule that)
  note tick' = ticked_trans [OF tick tk(1)]
  note turn = line_turn [OF l tick' tk(2)]
  obtain b' ns' where "rev ms' = b' # ns'" "nd_peerid b' \<noteq> nd_peerid a'" by (rule line_middle [OF turn]) (rule that)
  then have bk: "rev ms' @ [a'] = b' # ns' @ [a']" "line (env_C E) addr (way_back (nd_peerid a) hs) (d # b' # ns' @ [a'])" "nd_peerid b' \<noteq> nd_peerid a"
    using turn ticked_frame(1) [OF tick'] by simp_all
  note rt = message_roundtrip [OF C m mk]
  have far: "remotePeerID t \<noteq> nd_peerid b'" using bk(3) t(2) by simp
  obtain d1 d' u where recv: "upperRecvRoutine E (d\<lparr>upperRecvQ := uq2\<rparr>) = Some d1" "upperMuxRoutine E d1 = Some d'"
    and d': "d' = (visited (env_C E) d t ix (Route_Reverse (NewRoute (inns hs))))\<lparr>upper_calls := upper_calls d @ [(cb, u)]\<rparr>"
    and u: "UpperPacket_Payload u = Some pl" "UpperPacket_Codec (env_V E) u = Some (Inr codec)" "UpperSrc (base u) = remotePeerID t"
    and l2: "line (env_C E) addr (way_back (nd_peerid a) hs) (d' # b' # ns' @ [a'])"
    by (rule receive_ok [OF C bk(2) far f(1,3) let' [folded f(2)] xs [folded f(2)] P2(2,1) t(1) rt(1,3) handler]) (rule that)
  have "relay E ord addr (a\<lparr>sessions := set_session (sessions a) ix (s\<lparr>handshake := hs1\<rparr>), lowerSendQ := lq\<rparr> # ms @ [d]) =
      Some (a' # ms' @ [d\<lparr>upperRecvQ := uq2\<rparr>])" using run by simp
  then have "routed_send_run E ord addr (a # ms @ [d]) codec pl = Some (d' # rev ms' @ [a'], None)"
    using send up recv by (simp add: routed_send_run_def del: relay.simps)
  moreover have "joined d' a' ix"
  proof (rule joined_sym)
    have "joined a d' ix" using j t(1) unfolding joined_def d' by auto
    then show "joined a' d' ix" by (rule ticked_joined [OF tick'])
  qed
  ultimately show thesis
    using that [OF _ tick' tk(2), of d' u] l2 u t(2) unfolding bk(1) d' route_back [of hs "nd_peerid a"] by simp
qed


section \<open>Opening a session\<close>

text \<open>
  The first node connects to the last one without an address, and the caller waits on channel \<open>w\<close>: the hello travels along the line, the
  response comes back, and the first node handles it.
\<close>

definition routed_connect_run ::
  "env \<Rightarrow> env \<Rightarrow> env \<Rightarrow> (SessionManager \<Rightarrow> u32 list) \<Rightarrow> (PeerID \<Rightarrow> Addr \<times> u16) \<Rightarrow> 'h Node list \<Rightarrow> nat \<Rightarrow> 'h Node list option" where
  "routed_connect_run E Ea Ed ord addr ns w = do {
     ns \<leftarrow> at_head (\<lambda>a. do { a \<leftarrow> Connect a (nd_peerid (last ns)) emptyMultiaddr w; helloSendRoutine Ea a }) ns;
     ns \<leftarrow> relay E ord addr ns;
     ns \<leftarrow> at_head (\<lambda>d. do { d \<leftarrow> upperRecvRoutine Ed d; helloRecvRoutine Ed d }) (rev ns);
     ns \<leftarrow> relay E ord addr ns;
     at_head (\<lambda>a. do { a \<leftarrow> upperRecvRoutine Ea a; helloRecvRoutine Ea a }) (rev ns) }"

text \<open>A node has no session with a peer.\<close>

definition no_session :: "'h Node \<Rightarrow> PeerID \<Rightarrow> bool" where
  "no_session node pid \<longleftrightarrow> (\<forall>i s. store (sessions node) i = Some (Some s) \<longrightarrow> remotePeerID s \<noteq> pid)"

lemma rest_session:
  assumes rest: "at_rest C addr a" and inv: "node_inv C k (a2\<lparr>lowerSendQ := lq\<rparr>)"
    and a2: "idle a2 = idle a" "upperRecvQ a2 = upperRecvQ a" "nd_peerid a2 = nd_peerid a" "lowerSendQ a2 = lowerSendQ a"
      "dom (store (sessions a2)) \<subseteq> insert ix (dom (store (sessions a)))"
  shows "at_rest C addr a2"
proof -
  obtain k' where "node_inv C k' a" using rest unfolding at_rest_def by blast
  from node_inv_queues(2) [OF inv node_inv_rb(2) [OF this]] have "node_inv C k a2" using a2(4) by (cases a2) simp
  moreover have "finite (dom (store (sessions a2)))" using rest a2(5) finite_subset by (fastforce simp: at_rest_def)
  ultimately show ?thesis using rest a2 by (auto simp: at_rest_def)
qed

lemma routed_hello:
  assumes C: "crypto_ok (env_C E)" and V: "varint_ok (env_V E)" and ts: "length (env_ts E) = 12"
    and l: "line (env_C E) addr hs (a # ms @ [d])" and inv: "node_inv (env_C E) ka a"
    and draws: "GeneratePrivateKey (env_C E) (env_kd E) = Some (Inr ea)" "fresh_index (store (sessions a)) (env_ids E) = Some ix"
    and ss: "\<not> isZero (SharedSecret (env_C E) ka (PeerID_PublicKey (nd_peerid d)))" "\<not> isZero (SharedSecret (env_C E) ea (PeerID_PublicKey (nd_peerid d)))"
    and route: "GetRoute (routing a) (nd_peerid d) = Inr (NewRoute (outs hs))"
  obtains i' a0 a1 Q lq body where "Connect a (nd_peerid d) emptyMultiaddr w = Some a0" "helloSendRoutine E a0 = Some (a1\<lparr>lowerSendQ := lq\<rparr>)"
    "a1 = (WaitFor a (nd_peerid d) w)\<lparr>sessions := set_session (sessions a) ix (newSession (nd_peerid d) i')\<rparr>"
    "RingBuffer_Get lq = Some (Q, lowerSendQ a1)" "LowerDst Q = nd_peerid (hd (ms @ [d]))" "in_transit (env_V E) 0 (outs hs) body Q"
    "hello_body (env_C E) ka (PeerID_PublicKey (nd_peerid d)) ix i' body" "line (env_C E) addr hs (a1 # ms @ [d])"
proof -
  obtain b ns out inn hs' where mid: "ms = b # ns" "hs = (out, nd_peerid b, inn) # hs'" "tied addr a b out inn" "nd_peerid b \<noteq> nd_peerid d"
    by (rule line_middle [OF l]) (rule that)
  have rest: "at_rest (env_C E) addr a" "at_rest (env_C E) addr d" and len: "length (outs hs') \<le> 13" using l mid(2) by (simp_all add: line_def)
  have q: "empty_queue (helloSendQ a)" "empty_queue (lowerSendQ a)" and ne: "\<not> PeerID_Empty (nd_peerid d)"
    using rest by (simp_all add: at_rest_def idle_def)
  let ?P = "(NewPacket (replicate TptMTU 0))\<lparr>UpperDst := nd_peerid d\<rparr>" and ?w = "WaitFor a (nd_peerid d) w"
  have wait: "sessions ?w = sessions a" "helloSendQ ?w = helloSendQ a" "lowerSendQ ?w = lowerSendQ a" "routing ?w = routing a" "forwarder ?w = forwarder a"
    "nd_peerid ?w = nd_peerid a" "upperRecvQ ?w = upperRecvQ a" "idle ?w = idle a" "WaitFor (a\<lparr>helloSendQ := q\<rparr>) (nd_peerid d) w = ?w\<lparr>helloSendQ := q\<rparr>" for q
    by (simp_all add: WaitFor_def idle_def)
  have iw: "node_inv (env_C E) ka ?w" using inv by (simp add: WaitFor_def Let_def node_inv_def tables_ok_def queues_ok_def)
  obtain hq where hq: "Put (helloSendQ a) ?P = Some hq" "RingBuffer_Get hq = Some (?P, helloSendQ a)"
    by (rule empty_queue_ops [OF q(1)]) (rule that)
  have con: "Connect a (nd_peerid d) emptyMultiaddr w = Some (?w\<lparr>helloSendQ := hq\<rparr>)"
    using hq(1) by (simp add: Connect_def put_helloSendQ_def Multiaddr_Empty_def wait)
  have slot: "slots (forwarder ?w) (unat out) = Some (Slot (nd_peerid b) Remote)" using tied_slots(1) [OF mid(3)] wait by simp
  have r: "GetRoute (routing ?w) (nd_peerid d) = Inr (NewRoute (out # outs hs'))" using route mid(2) wait by simp
  obtain i' Q lq body where run: "helloSendRoutine E (?w\<lparr>helloSendQ := hq\<rparr>) =
       Some (?w\<lparr>sessions := set_session (sessions ?w) ix (newSession (nd_peerid d) i'), lowerSendQ := lq\<rparr>)"
    and Q: "RingBuffer_Get lq = Some (Q, lowerSendQ ?w)" "LowerDst Q = nd_peerid b" "in_transit (env_V E) 0 (out # outs hs') body Q"
      "hello_body (env_C E) ka (PeerID_PublicKey (nd_peerid d)) ix i' body"
    by (rule upperHelloSend_run [OF C V iw ts draws(1) draws(2) [folded wait(1)] ss ne hq(2) [folded wait(2)] q(2) [folded wait(3)] r len slot]) (rule that)
  let ?a1 = "?w\<lparr>sessions := set_session (sessions a) ix (newSession (nd_peerid d) i')\<rparr>"
  note run = run [unfolded wait(1)]
  have "node_inv (env_C E) ka (?a1\<lparr>lowerSendQ := lq\<rparr>)"
    using yieldsD [OF routines_post(1) [OF C api_inv(1) [OF inv con]] run] by simp
  then have "at_rest (env_C E) addr ?a1" by (rule rest_session [OF rest(1), where ix = ix]) (simp_all add: wait)
  moreover have "\<forall>i r. remotePeerID r = nd_peerid b \<longrightarrow> store (sessions ?a1) i = Some (Some r) \<longleftrightarrow> store (sessions a) i = Some (Some r)"
    using other_session [of "newSession (nd_peerid d) i'" "nd_peerid b" "sessions a" ix] mid(4) fresh_index_fresh [OF draws(2)]
    by (simp add: newSession_def)
  ultimately have "line (env_C E) addr hs (?a1 # b # ns @ [d])"
    by (intro line_head [OF l [unfolded mid(1), simplified]]) (simp_all add: wait)
  then show thesis
    by (intro that [OF con _ refl _ _ _ Q(4), of lq Q]) (use run Q mid(1,2) wait in simp_all)
qed


lemma routed_response:
  assumes C: "crypto_ok (env_C E)" and V: "varint_ok (env_V E)" and l: "line (env_C E) addr hs (d # ms @ [a])" and inv: "node_inv (env_C E) kd d"
    and draws: "GeneratePrivateKey (env_C E) (env_kd E) = Some (Inr ed)" "fresh_index (store (sessions d)) (env_ids E) = Some ix"
    and b: "hello_body (env_C E) ka (PrivateKey_PublicKey (env_C E) kd) sidx i' body" and ka: "nd_peerid a = NewPeerID (PrivateKey_PublicKey (env_C E) ka)"
    and P: "in_transit (env_V E) pos route body P" "\<not> PeerID_Empty (LowerSrc P)" "RingBuffer_Get uq = Some (P, upperRecvQ d)" "rev route = outs hs"
  obtains t d0 d1 Q lq body2 where "upperRecvRoutine E (d\<lparr>upperRecvQ := uq\<rparr>) = Some d0" "helloRecvRoutine E d0 = Some (d1\<lparr>lowerSendQ := lq\<rparr>)"
    "d1 = d\<lparr>sessions := set_session (sessions d) ix t\<rparr>" "remotePeerID t = nd_peerid a" "stage t = 2"
    "RingBuffer_Get lq = Some (Q, lowerSendQ d1)" "LowerDst Q = nd_peerid (hd (ms @ [a]))" "in_transit (env_V E) 0 (outs hs) body2 Q"
    "response_body (env_C E) i' sidx ix (handshake t) body2" "line (env_C E) addr hs (d1 # ms @ [a])"
proof -
  obtain c ns out inn hs' where mid: "ms = c # ns" "hs = (out, nd_peerid c, inn) # hs'" "tied addr d c out inn" "nd_peerid c \<noteq> nd_peerid a"
    by (rule line_middle [OF l]) (rule that)
  have rest: "at_rest (env_C E) addr d" using l by (simp add: line_def)
  then have q: "empty_queue (helloRecvQ d)" "empty_queue (lowerSendQ d)" "empty_queue (upperRecvQ d)" by (simp_all add: at_rest_def idle_def)
  have home: "rev route = out # outs hs'" using P(4) mid(2) by simp
  obtain d0 t Q lq body2 where run: "upperRecvRoutine E (d\<lparr>upperRecvQ := uq\<rparr>) = Some d0"
    "helloRecvRoutine E d0 = Some (d\<lparr>sessions := set_session (sessions d) ix t, lowerSendQ := lq\<rparr>)"
    and Q: "RingBuffer_Get lq = Some (Q, lowerSendQ d)" "LowerDst Q = nd_peerid c" "in_transit (env_V E) 0 (out # outs hs') body2 Q"
      "response_body (env_C E) i' sidx ix (handshake t) body2"
    and t: "remotePeerID t = NewPeerID (PrivateKey_PublicKey (env_C E) ka)" "stage t = 2"
    by (rule upperHelloRecv_run [OF C V inv draws b P(1-3) q(1,2) home tied_slots(1) [OF mid(3)]]) (rule that)
  let ?d1 = "d\<lparr>sessions := set_session (sessions d) ix t\<rparr>"
  have "node_inv (env_C E) kd (d\<lparr>upperRecvQ := uq\<rparr>)" using node_inv_queues(7) [OF inv queued_inv [OF P(3) q(3)]] .
  from yieldsD [OF routines_post(7) [OF C this] run(1)] have "node_inv (env_C E) kd (?d1\<lparr>lowerSendQ := lq\<rparr>)"
    using yieldsD [OF routines_post(4) [OF C] run(2)] by simp
  then have "at_rest (env_C E) addr ?d1" by (rule rest_session [OF rest, where ix = ix]) simp_all
  moreover have "\<forall>i r. remotePeerID r = nd_peerid c \<longrightarrow> store (sessions ?d1) i = Some (Some r) \<longleftrightarrow> store (sessions d) i = Some (Some r)"
    using other_session [of t "nd_peerid c" "sessions d" ix] mid(4) fresh_index_fresh [OF draws(2)] t(1) ka by simp
  ultimately have "line (env_C E) addr hs (?d1 # c # ns @ [a])"
    by (intro line_head [OF l [unfolded mid(1), simplified]]) simp_all
  then show thesis
    by (intro that [OF run(1) _ refl _ t(2) _ _ _ Q(4), of lq Q]) (use run(2) Q t(1) ka mid(1,2) in simp_all)
qed


lemma response_nonce: "response_body C i' sidx ix r2 body \<Longrightarrow> response_body C (i'\<lparr>sendNonce := n\<rparr>) sidx ix r2 body"
  unfolding response_body_def after_hello_def by simp

lemma routed_finish:
  assumes C: "crypto_ok (env_C E)" and l: "line (env_C E) addr hs (a # ms @ [d])" and inv: "node_inv (env_C E) k a"
    and b: "response_body (env_C E) i' sidx ix r2 body" and i': "nd_peerid d = NewPeerID (remoteStatic i')"
    and s: "store (sessions a) sidx = Some (Some s)" "tick (newSession (nd_peerid d) i') s" "store (sessions a) ix = None \<or> ix = sidx"
    and P: "in_transit V pos route body P" "\<not> PeerID_Empty (LowerSrc P)" "RingBuffer_Get uq = Some (P, upperRecvQ a)"
  obtains a0 a2 s2 where "upperRecvRoutine E (a\<lparr>upperRecvQ := uq\<rparr>) = Some a0" "helloRecvRoutine E a0 = Some a2"
    "a2 = connectedCallback (env_C E) (a\<lparr>sessions := set_session (Remove (sessions a) sidx) ix s2\<rparr>) (nd_peerid d) False"
    "matched (handshake s2) r2" "remotePeerID s2 = nd_peerid d" "line (env_C E) addr hs (a2 # ms @ [d])"
proof -
  obtain c ns out inn hs' where mid: "ms = c # ns" "nd_peerid c \<noteq> nd_peerid d" by (rule line_middle [OF l]) (rule that)
  have rest: "at_rest (env_C E) addr a" using l by (simp add: line_def)
  then have q: "empty_queue (helloRecvQ a)" "empty_queue (upperRecvQ a)" by (simp_all add: at_rest_def idle_def)
  obtain n where n: "s = (newSession (nd_peerid d) i')\<lparr>handshake := i'\<lparr>sendNonce := n\<rparr>\<rparr>" using s(2) by (auto simp: tick_def newSession_def)
  let ?i = "i'\<lparr>sendNonce := n\<rparr>"
  have h: "handshake s = ?i" "initiator s" "stage s = 1" "remotePeerID s = NewPeerID (remoteStatic ?i)" "waiters s = []" "remotePeerID s = nd_peerid d"
    using i' by (simp_all add: n newSession_def)
  obtain a0 i2 where run: "upperRecvRoutine E (a\<lparr>upperRecvQ := uq\<rparr>) = Some a0"
    "helloRecvRoutine E a0 = Some (connectedCallback (env_C E)
       (a\<lparr>sessions := set_session (Remove (sessions a) sidx) ix (s\<lparr>handshake := i2, stage := 3\<rparr>)\<rparr>) (remotePeerID s) False)"
    and m: "matched i2 r2"
    by (rule upperResponseRecv_run [OF C response_nonce [OF b, of n] s(1) h(1-5) P q(1)]) (rule that)
  let ?s = "s\<lparr>handshake := i2, stage := 3\<rparr>"
  let ?a = "a\<lparr>sessions := set_session (Remove (sessions a) sidx) ix ?s\<rparr>"
  let ?a2 = "connectedCallback (env_C E) ?a (nd_peerid d) False"
  note run = run [unfolded h(6)]
  have "node_inv (env_C E) k (a\<lparr>upperRecvQ := uq\<rparr>)" using node_inv_queues(7) [OF inv queued_inv [OF P(3) q(2)]] .
  from yieldsD [OF routines_post(7) [OF C this] run(1)] have "node_inv (env_C E) k ?a2"
    by (rule yieldsD [OF routines_post(4) [OF C] run(2)])
  moreover have st: "store (sessions ?a2) = (store (sessions a))(sidx := None, ix \<mapsto> Some ?s)" using s(1) by (simp add: Remove_def)
  moreover have "finite (dom (store (sessions ?a2)))" unfolding st using rest by (simp add: at_rest_def)
  ultimately have "at_rest (env_C E) addr ?a2" using rest by (auto simp: at_rest_def)
  moreover have "\<forall>i r. remotePeerID r = nd_peerid c \<longrightarrow> store (sessions ?a2) i = Some (Some r) \<longleftrightarrow> store (sessions a) i = Some (Some r)"
    unfolding st using s(1,3) mid(2) h(6) by auto
  ultimately have "line (env_C E) addr hs (?a2 # c # ns @ [d])"
    by (intro line_head [OF l [unfolded mid(1), simplified]]) simp_all
  then show thesis
    by (intro that [OF run refl]) (use m h(6) mid(1) in simp_all)
qed


lemma new_joined:
  assumes "store (sessions a) = st(i := None, ix \<mapsto> Some s)" and "remotePeerID s = nd_peerid d"
    and "\<forall>k r. st k = Some (Some r) \<longrightarrow> remotePeerID r = nd_peerid d \<longrightarrow> k = i"
    and "store (sessions d) = st'(ix \<mapsto> Some t)" and "remotePeerID t = nd_peerid a"
    and "\<forall>k r. st' k = Some (Some r) \<longrightarrow> remotePeerID r \<noteq> nd_peerid a" and "matched (handshake s) (handshake t)"
  shows "joined a d ix"
  using assms unfolding joined_def by (auto split: if_splits)

lemma only_session:
  assumes "no_session a pid" and "store (sessions a1) = (store (sessions a))(i \<mapsto> Some s)" and "ticked a1 a'"
    and "store (sessions a') k = Some (Some r)" "remotePeerID r = pid"
  shows "k = i"
proof (rule ccontr)
  assume "k \<noteq> i"
  obtain r0 where r0: "store (sessions a1) k = Some (Some r0)" "tick r0 r" using ticked_store(2) [OF assms(3,4)] by blast
  with \<open>k \<noteq> i\<close> have "store (sessions a) k = Some (Some r0)" using assms(2) by simp
  with assms(1,5) tickD(1) [OF r0(2)] show False unfolding no_session_def by simp
qed

text \<open>The hello travels to the other end, which answers it.\<close>

lemma routed_there:
  assumes C: "crypto_ok (env_C E)" and V: "varint_ok (env_V E)" and ord: "lists_sessions ord"
    and Es: "env_C Ea = env_C E" "env_V Ea = env_V E" "env_C Ed = env_C E" "env_V Ed = env_V E" and ts: "length (env_ts Ea) = 12"
    and l: "line (env_C E) addr hs (a # ms @ [d])" and inv: "node_inv (env_C E) ka a" "node_inv (env_C E) kd d"
    and draws: "GeneratePrivateKey (env_C E) (env_kd Ea) = Some (Inr ea)" "GeneratePrivateKey (env_C E) (env_kd Ed) = Some (Inr ed)"
      "fresh_index (store (sessions a)) (env_ids Ea) = Some ixa" "fresh_index (store (sessions d)) (env_ids Ed) = Some ixd"
    and ss: "\<not> isZero (SharedSecret (env_C E) ka (PrivateKey_PublicKey (env_C E) kd))"
      "\<not> isZero (SharedSecret (env_C E) ea (PrivateKey_PublicKey (env_C E) kd))"
    and route: "GetRoute (routing a) (nd_peerid d) = Inr (NewRoute (outs hs))"
  obtains a0 a1 lq a' ms1 uq d0 d1 lq2 t i' Q2 body2 where
    "Connect a (nd_peerid d) emptyMultiaddr w = Some a0" "helloSendRoutine Ea a0 = Some (a1\<lparr>lowerSendQ := lq\<rparr>)"
    "a1 = (WaitFor a (nd_peerid d) w)\<lparr>sessions := set_session (sessions a) ixa (newSession (nd_peerid d) i')\<rparr>"
    "nd_peerid d = NewPeerID (remoteStatic i')"
    "relay E ord addr (a1\<lparr>lowerSendQ := lq\<rparr> # ms @ [d]) = Some (a' # ms1 @ [d\<lparr>upperRecvQ := uq\<rparr>])" "ticked a1 a'" "list_all2 ticked ms ms1"
    "upperRecvRoutine Ed (d\<lparr>upperRecvQ := uq\<rparr>) = Some d0" "helloRecvRoutine Ed d0 = Some (d1\<lparr>lowerSendQ := lq2\<rparr>)"
    "d1 = d\<lparr>sessions := set_session (sessions d) ixd t\<rparr>" "remotePeerID t = nd_peerid a'"
    "RingBuffer_Get lq2 = Some (Q2, lowerSendQ d1)" "LowerDst Q2 = nd_peerid (hd (rev ms1 @ [a']))"
    "in_transit (env_V E) 0 (outs (way_back (nd_peerid a) hs)) body2 Q2" "response_body (env_C E) i' ixa ixd (handshake t) body2"
    "line (env_C E) addr (way_back (nd_peerid a) hs) (d1 # rev ms1 @ [a'])"
proof -
  have ids: "nd_peerid a = NewPeerID (PrivateKey_PublicKey (env_C E) ka)" "nd_peerid d = NewPeerID (PrivateKey_PublicKey (env_C E) kd)"
    using inv by (auto simp: node_inv_def tables_ok_def)
  then have pk: "PeerID_PublicKey (nd_peerid d) = PrivateKey_PublicKey (env_C E) kd" using wf_PublicKey [OF C] by simp
  obtain i' a0 a1 Q lq body where s1: "Connect a (nd_peerid d) emptyMultiaddr w = Some a0" "helloSendRoutine Ea a0 = Some (a1\<lparr>lowerSendQ := lq\<rparr>)"
    and a1: "a1 = (WaitFor a (nd_peerid d) w)\<lparr>sessions := set_session (sessions a) ixa (newSession (nd_peerid d) i')\<rparr>"
    and Q: "RingBuffer_Get lq = Some (Q, lowerSendQ a1)" "LowerDst Q = nd_peerid (hd (ms @ [d]))" "in_transit (env_V E) 0 (outs hs) body Q"
    and hb: "hello_body (env_C E) ka (PrivateKey_PublicKey (env_C E) kd) ixa i' body" and l1: "line (env_C E) addr hs (a1 # ms @ [d])"
    by (rule routed_hello [of Ea addr hs a ms d ka ea ixa w thesis, unfolded Es pk, OF C V ts l inv(1) draws(1,3) ss route]) (rule that)
  have f1: "nd_peerid a1 = nd_peerid a" by (simp add: a1 WaitFor_def)
  obtain a' ms1 uq P where r1: "relay E ord addr (a1\<lparr>lowerSendQ := lq\<rparr> # ms @ [d]) = Some (a' # ms1 @ [d\<lparr>upperRecvQ := uq\<rparr>])"
    and tk1: "ticked a1 a'" "list_all2 ticked ms ms1"
    and P: "RingBuffer_Get uq = Some (P, upperRecvQ d)" "\<not> PeerID_Empty (LowerSrc P)" "in_transit (env_V E) (length hs - 1) (inns hs) body P"
    by (rule leg_run [OF C ord l1 Q(3,2,1)]) (rule that)
  let ?hs = "way_back (nd_peerid a) hs"
  have l2: "line (env_C E) addr ?hs (d # rev ms1 @ [a'])" using line_turn [OF l1 tk1] f1 by simp
  have ka: "nd_peerid a' = NewPeerID (PrivateKey_PublicKey (env_C E) ka)" using ids(1) f1 ticked_frame(1) [OF tk1(1)] by simp
  have rv: "rev (inns hs) = outs ?hs" by (simp add: back_outs)
  obtain t d0 d1 Q2 lq2 body2 where s2: "upperRecvRoutine Ed (d\<lparr>upperRecvQ := uq\<rparr>) = Some d0" "helloRecvRoutine Ed d0 = Some (d1\<lparr>lowerSendQ := lq2\<rparr>)"
    and d1: "d1 = d\<lparr>sessions := set_session (sessions d) ixd t\<rparr>" "remotePeerID t = nd_peerid a'" "stage t = 2"
    and Q2: "RingBuffer_Get lq2 = Some (Q2, lowerSendQ d1)" "LowerDst Q2 = nd_peerid (hd (rev ms1 @ [a']))" "in_transit (env_V E) 0 (outs ?hs) body2 Q2"
    and rb: "response_body (env_C E) i' ixa ixd (handshake t) body2" and l3: "line (env_C E) addr ?hs (d1 # rev ms1 @ [a'])"
    by (rule routed_response [of Ed addr ?hs d "rev ms1" a' kd ed ixd ka ixa i' body "length hs - 1" "inns hs" P uq thesis, unfolded Es,
          OF C V l2 inv(2) draws(2,4) hb ka P(3,2,1) rv]) (rule that)
  have i': "nd_peerid d = NewPeerID (remoteStatic i')"
    using hb ids(2) by (auto simp: hello_body_def fresh_initiator_def dest!: MakeHello_frame)
  show thesis by (rule that [OF s1 a1 i' r1 tk1 s2 d1(1,2) Q2 rb l3])
qed

lemma routed_connect_ok:
  assumes C: "crypto_ok (env_C E)" and V: "varint_ok (env_V E)" and ord: "lists_sessions ord"
    and Es: "env_C Ea = env_C E" "env_V Ea = env_V E" "env_C Ed = env_C E" "env_V Ed = env_V E" and ts: "length (env_ts Ea) = 12"
    and l: "line (env_C E) addr hs (a # ms @ [d])" and inv: "node_inv (env_C E) ka a" "node_inv (env_C E) kd d"
    and new: "no_session a (nd_peerid d)" "no_session d (nd_peerid a)"
    and draws: "GeneratePrivateKey (env_C E) (env_kd Ea) = Some (Inr ea)" "GeneratePrivateKey (env_C E) (env_kd Ed) = Some (Inr ed)"
      "fresh_index (store (sessions a)) (env_ids Ea) = Some ixa" "fresh_index (store (sessions d)) (env_ids Ed) = Some ixd"
    and free: "store (sessions a) ixd = None"
    and ss: "\<not> isZero (SharedSecret (env_C E) ka (PrivateKey_PublicKey (env_C E) kd))"
      "\<not> isZero (SharedSecret (env_C E) ea (PrivateKey_PublicKey (env_C E) kd))"
    and route: "GetRoute (routing a) (nd_peerid d) = Inr (NewRoute (outs hs))"
  obtains a2 ms2 d2 where "routed_connect_run E Ea Ed ord addr (a # ms @ [d]) w = Some (a2 # ms2 @ [d2])"
    "line (env_C E) addr hs (a2 # ms2 @ [d2])" "joined a2 d2 ixd" "list_all2 ticked ms ms2" "(w, None) \<in> set (woken a2)"
    "routing a2 = routing a" "upperHandlers a2 = upperHandlers a" "upper_calls a2 = upper_calls a" "nd_peerid a2 = nd_peerid a"
    "routing d2 = routing d" "upperHandlers d2 = upperHandlers d" "upper_calls d2 = upper_calls d" "nd_peerid d2 = nd_peerid d"
proof -
  let ?hs = "way_back (nd_peerid a) hs"
  obtain a0 a1 lq a' ms1 uq d0 d1 lq2 t i' Q2 body2 where
    s1: "Connect a (nd_peerid d) emptyMultiaddr w = Some a0" "helloSendRoutine Ea a0 = Some (a1\<lparr>lowerSendQ := lq\<rparr>)"
    and a1: "a1 = (WaitFor a (nd_peerid d) w)\<lparr>sessions := set_session (sessions a) ixa (newSession (nd_peerid d) i')\<rparr>"
    and i0: "nd_peerid d = NewPeerID (remoteStatic i')"
    and r1: "relay E ord addr (a1\<lparr>lowerSendQ := lq\<rparr> # ms @ [d]) = Some (a' # ms1 @ [d\<lparr>upperRecvQ := uq\<rparr>])" and tk1: "ticked a1 a'" "list_all2 ticked ms ms1"
    and s2: "upperRecvRoutine Ed (d\<lparr>upperRecvQ := uq\<rparr>) = Some d0" "helloRecvRoutine Ed d0 = Some (d1\<lparr>lowerSendQ := lq2\<rparr>)"
    and d1: "d1 = d\<lparr>sessions := set_session (sessions d) ixd t\<rparr>" "remotePeerID t = nd_peerid a'"
    and Q2: "RingBuffer_Get lq2 = Some (Q2, lowerSendQ d1)" "LowerDst Q2 = nd_peerid (hd (rev ms1 @ [a']))" "in_transit (env_V E) 0 (outs ?hs) body2 Q2"
    and rb: "response_body (env_C E) i' ixa ixd (handshake t) body2" and l3: "line (env_C E) addr ?hs (d1 # rev ms1 @ [a'])"
    by (rule routed_there [OF C V ord Es ts l inv draws ss route]) (rule that)
  have f1: "nd_peerid a1 = nd_peerid a" "routing a1 = routing a" "upperHandlers a1 = upperHandlers a" "upper_calls a1 = upper_calls a"
    "nd_waiters a1 (nd_peerid d) \<noteq> None" "\<forall>ws. nd_waiters a1 (nd_peerid d) = Some ws \<longrightarrow> w \<in> set ws"
    "store (sessions a1) = (store (sessions a))(ixa \<mapsto> Some (newSession (nd_peerid d) i'))"
    by (simp_all add: a1 WaitFor_def)
  obtain d2 ms2 uq2 P2 where r2: "relay E ord addr (d1\<lparr>lowerSendQ := lq2\<rparr> # rev ms1 @ [a']) = Some (d2 # ms2 @ [a'\<lparr>upperRecvQ := uq2\<rparr>])"
    and tk2: "ticked d1 d2" "list_all2 ticked (rev ms1) ms2"
    and P2: "RingBuffer_Get uq2 = Some (P2, upperRecvQ a')" "\<not> PeerID_Empty (LowerSrc P2)" "in_transit (env_V E) (length ?hs - 1) (inns ?hs) body2 P2"
    by (rule leg_run [OF C ord l3 Q2(3,2,1)]) (rule that)
  have pd: "nd_peerid d2 = nd_peerid d" using d1(1) ticked_frame(1) [OF tk2(1)] by simp
  have l4: "line (env_C E) addr hs (a' # rev ms2 @ [d2])"
    using line_turn [OF l3 tk2] line_twice [OF l] d1(1) by simp
  obtain s where s: "store (sessions a') ixa = Some (Some s)" "tick (newSession (nd_peerid d2) i') s"
    using ticked_store(1) [OF tk1(1), of ixa] f1(7) pd by auto
  have dom: "dom (store (sessions a')) = insert ixa (dom (store (sessions a)))" using ticked_frame(10) [OF tk1(1)] f1(7) by auto
  have fr: "store (sessions a') ixd = None \<or> ixd = ixa" using dom free by auto
  have i': "nd_peerid d2 = NewPeerID (remoteStatic i')" using i0 pd by simp
  have inv': "node_inv (env_C E) ka a'"
  proof -
    obtain k where k: "node_inv (env_C E) k a'" using l4 by (auto simp: line_def at_rest_def)
    moreover have "sm_privkey (sessions a') = ka" using tk1(1) inv(1) by (auto simp: ticked_def a1 node_inv_def tables_ok_def)
    ultimately show ?thesis by (auto simp: node_inv_def tables_ok_def)
  qed
  obtain a3 a2 s2' where s3: "upperRecvRoutine Ea (a'\<lparr>upperRecvQ := uq2\<rparr>) = Some a3" "helloRecvRoutine Ea a3 = Some a2"
    and a2: "a2 = connectedCallback (env_C E) (a'\<lparr>sessions := set_session (Remove (sessions a') ixa) ixd s2'\<rparr>) (nd_peerid d2) False"
    and m: "matched (handshake s2') (handshake t)" and rs: "remotePeerID s2' = nd_peerid d2" and l5: "line (env_C E) addr hs (a2 # rev ms2 @ [d2])"
    by (rule routed_finish [of Ea addr hs a' "rev ms2" d2 ka i' ixa ixd "handshake t" body2 s "env_V E" "length ?hs - 1" "inns ?hs" P2 uq2 thesis, unfolded Es,
          OF C l4 inv' rb i' s fr P2(3,2,1)]) (rule that)
  have n2: "nd_peerid a2 = nd_peerid a" "nd_peerid a' = nd_peerid a" using a2 f1(1) ticked_frame(1) [OF tk1(1)] by simp_all
  have st2: "store (sessions a2) = (store (sessions a'))(ixa := None, ixd \<mapsto> Some s2')" using a2 s(1) by (simp add: Remove_def)
  have "joined a2 d1 ixd"
    by (rule new_joined [OF st2, of _ "store (sessions d)"])
      (use rs pd d1 n2 m new(2) only_session [OF new(1) f1(7) tk1(1)] in \<open>auto simp: no_session_def\<close>)
  then have j: "joined a2 d2 ixd" using ticked_joined [OF tk2(1)] joined_sym by blast
  have "routed_connect_run E Ea Ed ord addr (a # ms @ [d]) w = Some (a2 # rev ms2 @ [d2])"
    using s1 r1 s2 r2 s3 by (simp add: routed_connect_run_def del: relay.simps)
  moreover have "list_all2 ticked ms (rev ms2)"
  proof -
    have "list_all2 ticked ms1 (rev ms2)" using tk2(2) list_all2_rev [of ticked "rev ms1" ms2] by simp
    with tk1(2) show ?thesis by (rule ticked_all_trans)
  qed
  moreover have "(w, None) \<in> set (woken a2)"
  proof -
    obtain ws where "nd_waiters a' (nd_peerid d) = Some ws" "w \<in> set ws" using f1(5,6) ticked_frame(9) [OF tk1(1)] by auto
    then show ?thesis using pd by (simp add: a2 connected_woken)
  qed
  moreover have "routing a2 = routing a" "upperHandlers a2 = upperHandlers a" "upper_calls a2 = upper_calls a"
    using a2 f1(2-4) ticked_frame(3,6,7) [OF tk1(1)] by simp_all
  moreover have "routing d2 = routing d" "upperHandlers d2 = upperHandlers d" "upper_calls d2 = upper_calls d"
    using d1(1) ticked_frame(3,6,7) [OF tk2(1)] by simp_all
  ultimately show thesis using that l5 j n2(1) pd by blast
qed

end
