(* ===== verification/RoutedProperties.thy ===== *)
theory RoutedProperties
  imports RoutedRuns
begin

text \<open>
  Nodes that are no neighbours: a session over a route, and messages over it in both directions.
\<close>

section \<open>Talking over a route\<close>

text \<open>
  C6. Talking over a route. A line of 2 to 13 hops leads from A to D: each node has a finished session with the next one, and the slots of
  both know it. A and D have no session, but A has the route. When A connects to D, the hello and the response travel along the line, through
  the queues, sessions, transports and forwarders of all nodes, each datagram to the address of the next node, and the caller is woken with
  success. A message from A then reaches the handler of D, with its payload, its codec and A as its source; from it D learns the reversed route, and
  its answer reaches the handler of A in the same way. All that the nodes between have changed are the nonces of their sessions.
\<close>

theorem talk_over_route:
  assumes C: "crypto_ok C" and V: "varint_ok V" and ord: "lists_sessions ord"
    and E: "env_C E = C" "env_V E = V" "env_C Ea = C" "env_V Ea = V" "env_C Ed = C" "env_V Ed = V" "length (env_ts Ea) = 12"
    and l: "line C addr hs (a # ms @ [d])" and inv: "node_inv C ka a" "node_inv C kd d"
    and new: "no_session a (nd_peerid d)" "no_session d (nd_peerid a)" "table (routing d) (nd_peerid a) = None"
    and route: "GetRoute (routing a) (nd_peerid d) = Inr (NewRoute (outs hs))"
    and draws: "GeneratePrivateKey C (env_kd Ea) = Some (Inr ea)" "GeneratePrivateKey C (env_kd Ed) = Some (Inr ed)"
      "fresh_index (store (sessions a)) (env_ids Ea) = Some ixa" "fresh_index (store (sessions d)) (env_ids Ed) = Some ixd"
      "store (sessions a) ixd = None"
    and secrets: "\<not> isZero (SharedSecret C ka (PrivateKey_PublicKey C kd))" "\<not> isZero (SharedSecret C ea (PrivateKey_PublicKey C kd))"
    and handlers: "upperHandlers d codec = Some cd" "upperHandlers a codec' = Some ca" and small: "codec < 2 ^ 28" "codec' < 2 ^ 28"
    and fits: "int (length pl) \<le> UpperMTU" "int (length pl') \<le> UpperMTU"
  shows "\<exists>ns1 ns2 ns3 u u'.
    routed_connect_run E Ea Ed ord addr (a # ms @ [d]) w = Some ns1 \<and> (w, None) \<in> set (woken (hd ns1)) \<and>
    routed_send_run E ord addr ns1 codec pl = Some (ns2, None) \<and> upper_calls (hd ns2) = upper_calls d @ [(cd, u)] \<and>
    UpperPacket_Payload u = Some pl \<and> UpperPacket_Codec V u = Some (Inr codec) \<and> UpperSrc (base u) = nd_peerid a \<and>
    GetRoute (routing (hd ns2)) (nd_peerid a) = Inr (NewRoute (rev (inns hs))) \<and>
    routed_send_run E ord addr ns2 codec' pl' = Some (ns3, None) \<and> upper_calls (hd ns3) = upper_calls a @ [(ca, u')] \<and>
    UpperPacket_Payload u' = Some pl' \<and> UpperPacket_Codec V u' = Some (Inr codec') \<and> UpperSrc (base u') = nd_peerid d \<and>
    list_all2 ticked ms (butlast (tl ns3))"
proof -
  obtain a2 ms2 d2 where con: "routed_connect_run E Ea Ed ord addr (a # ms @ [d]) w = Some (a2 # ms2 @ [d2])"
    and l2: "line C addr hs (a2 # ms2 @ [d2])" and j2: "joined a2 d2 ixd" and tk2: "list_all2 ticked ms ms2" and wk: "(w, None) \<in> set (woken a2)"
    and a2: "routing a2 = routing a" "upperHandlers a2 = upperHandlers a" "upper_calls a2 = upper_calls a" "nd_peerid a2 = nd_peerid a"
    and d2: "routing d2 = routing d" "upperHandlers d2 = upperHandlers d" "upper_calls d2 = upper_calls d" "nd_peerid d2 = nd_peerid d"
    by (rule routed_connect_ok [of E ord Ea Ed addr hs a ms d ka kd ea ed ixa ixd w thesis, unfolded E(1-6), OF C V ord refl refl refl refl E(7) l inv
          new(1,2) draws secrets route]) (rule that)
  have r2: "GetRoute (routing a2) (nd_peerid d2) = Inr (NewRoute (outs hs))" "upperHandlers d2 codec = Some cd"
    using route handlers(1) a2(1) d2 by simp_all
  let ?hs = "way_back (nd_peerid a) hs"
  obtain a3 ms3 d3 u where send: "routed_send_run E ord addr (a2 # ms2 @ [d2]) codec pl = Some (d3 # rev ms3 @ [a3], None)"
    and tk3: "ticked a2 a3" "list_all2 ticked ms2 ms3" and l3: "line C addr ?hs (d3 # rev ms3 @ [a3])" and j3: "joined d3 a3 ixd"
    and d3: "upper_calls d3 = upper_calls d2 @ [(cd, u)]" "nd_peerid d3 = nd_peerid d2"
      "routing d3 = AddRoute C (routing d2) (nd_peerid a2) (NewRoute (outs ?hs))"
    and u: "UpperPacket_Payload u = Some pl" "UpperPacket_Codec V u = Some (Inr codec)" "UpperSrc (base u) = nd_peerid a2"
    by (rule routed_send_ok [of E ord addr hs a2 ms2 d2 ixd codec cd pl thesis, unfolded E(1,2) a2(4), OF C V ord l2 j2 r2 small(1) fits(1)])
      (use a2(4) that in simp)
  have pa: "nd_peerid a3 = nd_peerid a" "upperHandlers a3 codec' = Some ca" "upper_calls a3 = upper_calls a"
    using ticked_frame(1,6,7) [OF tk3(1)] a2 handlers(2) by simp_all
  have gr: "GetRoute (routing d3) (nd_peerid a) = Inr (NewRoute (outs ?hs))"
    using d3(3) d2(1) a2(4) new(3) by (simp add: GetRoute_def AddRoute_def)
  obtain d4 ms4 a4 u' where reply: "routed_send_run E ord addr (d3 # rev ms3 @ [a3]) codec' pl' = Some (a4 # rev ms4 @ [d4], None)"
    and tk4: "list_all2 ticked (rev ms3) ms4" and a4: "upper_calls a4 = upper_calls a3 @ [(ca, u')]"
    and u': "UpperPacket_Payload u' = Some pl'" "UpperPacket_Codec V u' = Some (Inr codec')" "UpperSrc (base u') = nd_peerid d3"
    by (rule routed_send_ok [of E ord addr ?hs d3 "rev ms3" a3 ixd codec' ca pl' thesis, unfolded E(1,2) pa(1), OF C V ord l3 j3 gr pa(2) small(2) fits(2)])
      (rule that)
  have "list_all2 ticked ms3 (rev ms4)" using tk4 list_all2_rev [of ticked "rev ms3" ms4] by simp
  then have "list_all2 ticked ms (rev ms4)"
    using ticked_all_trans tk2 tk3(2) by blast
  then show ?thesis
    by (intro exI [of _ "a2 # ms2 @ [d2]"] exI [of _ "d3 # rev ms3 @ [a3]"] exI [of _ "a4 # rev ms4 @ [d4]"] exI [of _ u] exI [of _ u'])
      (use con wk send d3 d2 u a2(4) gr back_outs [of "nd_peerid a" hs] reply a4 pa(3) u' in simp)
qed


text \<open>Three nodes in a line, with finished sessions between neighbours; the first one has a route to the last one.\<close>

definition ex_peer :: "byte \<Rightarrow> PeerID" where "ex_peer n = NewPeerID \<lparr>pub_bytes = replicate 32 n\<rparr>"

definition ex_at :: "PeerID \<Rightarrow> Addr \<times> u16" where "ex_at pid = (Addr4 [127, 0, 0, ucast (b1 pid)], 1312)"

definition ex_order :: "SessionManager \<Rightarrow> u32 list" where "ex_order sm = sorted_list_of_set (dom (store sm))"

definition ex_meet :: "byte \<Rightarrow> byte \<Rightarrow> bool \<Rightarrow> nat \<Rightarrow> u32 \<Rightarrow> nat Node \<Rightarrow> nat Node" where
  "ex_meet me peer init slot ix node = node
     \<lparr>forwarder := (forwarder node)\<lparr>slots := (slots (forwarder node))(slot \<mapsto> Slot (ex_peer peer) Remote),
        bypeer := (bypeer (forwarder node))(ex_peer peer \<mapsto> slot)\<rparr>,
      sessions := set_session (sessions node) ix
        ((if init then ex_end True me peer 5 6 else ex_end False me peer 6 5)\<lparr>stage := 3, remoteAddr := FromAddrPort (ex_at (ex_peer peer))\<rparr>)\<rparr>"

definition ex_first :: "nat Node" where
  "ex_first = (ex_meet 1 2 True 1 7 (ex_fresh 1))\<lparr>routing := AddRoute ref_crypto NewRouting (ex_peer 3) (NewRoute [1, 2])\<rparr>"

definition ex_second :: "nat Node" where "ex_second = ex_meet 2 3 True 2 9 (ex_meet 2 1 False 1 7 (ex_fresh 2))"

definition ex_third :: "nat Node" where "ex_third = ex_meet 3 2 False 1 9 (ex_fresh 3)"

definition ex_line :: "hop list" where "ex_line = [(1, ex_peer 2, 1), (2, ex_peer 3, 1)]"

definition ex_later :: "byte \<Rightarrow> env" where "ex_later n = (ex_draws n)\<lparr>env_ids := [Inr [5, 0, 0, 0]]\<rparr>"

lemma ex_peer_eq [simp]: "ex_peer m = ex_peer n \<longleftrightarrow> m = n"
  unfolding ex_peer_def by (subst NewPeerID_inject) (auto simp: wf_pub_def)

lemma ex_order_ok: "lists_sessions ex_order"
  by (simp add: lists_sessions_def ex_order_def)

lemma ex_fresh_slots: "1 \<le> i \<Longrightarrow> i < 256 \<Longrightarrow> slots (forwarder (ex_fresh n)) i = Some NullSlot"
proof -
  assume i: "1 \<le> i" "i < 256"
  obtain fwd r where at: "Attach (NewForwarder :: port Forwarder) (NewPeerID (PrivateKey_PublicKey ref_crypto (ex_key n))) Local = (fwd, r)" by fastforce
  then have "slots fwd i = Some NullSlot"
    by (cases rule: Attach_cases) (use i NewForwarder_slot [of 0] NewForwarder_slot [of i] in \<open>auto simp: NumSlots_def dest: spec [of _ 0]\<close>)
  moreover have "forwarder (ex_fresh n) = fwd" using at by (simp add: ex_fresh_def Handle_def NewNode_def Let_def)
  ultimately show ?thesis by simp
qed

lemma ex_meet_simps [simp]:
  "nd_peerid (ex_meet me p init s ix node) = nd_peerid node" "routing (ex_meet me p init s ix node) = routing node"
  "upperHandlers (ex_meet me p init s ix node) = upperHandlers node" "upper_calls (ex_meet me p init s ix node) = upper_calls node"
  "slots (forwarder (ex_meet me p init s ix node)) = (slots (forwarder node))(s \<mapsto> Slot (ex_peer p) Remote)"
  "bypeer (forwarder (ex_meet me p init s ix node)) = (bypeer (forwarder node))(ex_peer p \<mapsto> s)"
  "idle (ex_meet me p init s ix node) = idle node" "upperRecvQ (ex_meet me p init s ix node) = upperRecvQ node"
  "store (sessions (ex_meet me p init s ix node)) = (store (sessions node))(ix \<mapsto>
     Some ((if init then ex_end True me p 5 6 else ex_end False me p 6 5)\<lparr>stage := 3, remoteAddr := FromAddrPort (ex_at (ex_peer p))\<rparr>))"
  by (simp_all add: ex_meet_def idle_def)

lemma ex_meet_inv:
  assumes inv: "node_inv ref_crypto (ex_key me) node" and slot: "slots (forwarder node) s = Some NullSlot" "0 < s"
  shows "node_inv ref_crypto (ex_key me) (ex_meet me p init s ix node)"
proof -
  let ?s = "(if init then ex_end True me p 5 6 else ex_end False me p 6 5)\<lparr>stage := 3, remoteAddr := FromAddrPort (ex_at (ex_peer p))\<rparr>"
  have sm: "sm_inv ref_crypto (sessions node)" "sm_privkey (sessions node) = ex_key me" using inv by (auto simp: node_inv_def tables_ok_def)
  have "session_ok (ex_key me) ?s"
    using ex_end_ok [of me True p 5 6] ex_end_ok [of me False p 6 5] by (simp add: session_ok_def ex_end_def newSession_def newHandshake_def)
  then have "sm_inv ref_crypto (set_session (sessions node) ix ?s)" using sm_inv_set [OF sm(1)] sm(2) by simp
  moreover have "fwd_inv (forwarder (ex_meet me p init s ix node))"
    using node_invD(3) [OF inv] slot by (auto simp: fwd_inv_def) (metis option.inject slotentry.distinct(1))
  ultimately show ?thesis using inv sm(2) slot by (simp add: ex_meet_def node_inv_def tables_ok_def queues_ok_def)
qed

text \<open>The three nodes are at rest and keep the invariant.\<close>

definition ex_ready :: "byte \<Rightarrow> nat Node \<Rightarrow> bool" where
  "ex_ready me node \<longleftrightarrow> node_inv ref_crypto (ex_key me) node \<and> at_rest ref_crypto ex_at node"

lemma ex_ready_meet:
  assumes "ex_ready me node" and "slots (forwarder node) s = Some NullSlot" "0 < s"
  shows "ex_ready me (ex_meet me p init s ix node)"
  using assms ex_meet_inv [of me node s p init ix] by (auto simp: ex_ready_def at_rest_def)

lemma ex_ready_fresh:
  assumes "n \<noteq> 0"
  shows "ex_ready n (ex_fresh n)"
proof -
  have "empty_queue (upperRecvQ (ex_fresh n))"
    by (simp add: ex_fresh_def Handle_def NewNode_def Let_def empty_queue_def NewRingBuffer_def DefaultQueueSize_def split: prod.splits)
  then show ?thesis
    using ex_fresh_inv [of n] ex_fresh_idle [of n] ex_peer_id [OF assms]
    by (auto simp: ex_ready_def at_rest_def ex_fresh_simps ex_at_def FromAddrPort_def Multiaddr_Empty_def emptyMultiaddr_def)
qed

lemma ex_nodes_ready: "ex_ready 1 ex_first" "ex_ready 2 ex_second" "ex_ready 3 ex_third"
proof -
  have "ex_ready 1 (ex_meet 1 2 True 1 7 (ex_fresh 1))"
    by (intro ex_ready_meet ex_ready_fresh) (simp_all add: ex_fresh_slots)
  then show "ex_ready 1 ex_first"
    using node_inv_tables(2) [of ref_crypto "ex_key 1" "ex_meet 1 2 True 1 7 (ex_fresh 1)" "ex_peer 3" "NewRoute [1, 2]"]
    by (auto simp: ex_ready_def at_rest_def ex_first_def ex_fresh_simps)
  show "ex_ready 2 ex_second" "ex_ready 3 ex_third"
    unfolding ex_second_def ex_third_def by (intro ex_ready_meet ex_ready_fresh; simp add: ex_fresh_slots)+
qed

lemma ex_nodes_ids: "nd_peerid ex_first = ex_peer 1" "nd_peerid ex_second = ex_peer 2" "nd_peerid ex_third = ex_peer 3"
  by (simp_all add: ex_first_def ex_second_def ex_third_def ex_fresh_simps ex_peer_def)

lemma ex_nodes_stores:
  "store (sessions ex_first) = [7 \<mapsto> Some ((ex_end True 1 2 5 6)\<lparr>stage := 3, remoteAddr := FromAddrPort (ex_at (ex_peer 2))\<rparr>)]"
  "store (sessions ex_second) = [7 \<mapsto> Some ((ex_end False 2 1 6 5)\<lparr>stage := 3, remoteAddr := FromAddrPort (ex_at (ex_peer 1))\<rparr>),
     9 \<mapsto> Some ((ex_end True 2 3 5 6)\<lparr>stage := 3, remoteAddr := FromAddrPort (ex_at (ex_peer 3))\<rparr>)]"
  "store (sessions ex_third) = [9 \<mapsto> Some ((ex_end False 3 2 6 5)\<lparr>stage := 3, remoteAddr := FromAddrPort (ex_at (ex_peer 2))\<rparr>)]"
  by (simp_all add: ex_first_def ex_second_def ex_third_def ex_fresh_simps)

lemma ex_end_simps [simp]:
  "remotePeerID (ex_end init me p k k') = ex_peer p" "send (handshake (ex_end init me p k k')) = Some (replicate 32 k)"
  "receive (handshake (ex_end init me p k k')) = Some (replicate 32 k')"
  by (simp_all add: ex_end_def newSession_def ex_peer_def)

lemma ex_ties: "tied ex_at ex_first ex_second 1 1" "tied ex_at ex_second ex_third 2 1"
proof -
  have "knows ex_at ex_first ex_second 1 7" "knows ex_at ex_second ex_first 1 7" "knows ex_at ex_second ex_third 2 9" "knows ex_at ex_third ex_second 1 9"
    unfolding knows_def ex_nodes_ids ex_nodes_stores by (auto simp: ex_first_def ex_second_def ex_third_def split: if_splits)
  moreover have "matched (handshake (ex_end True m n 5 6)) (handshake (ex_end False n m 6 5))" for m n by (simp add: matched_def)
  ultimately show "tied ex_at ex_first ex_second 1 1" "tied ex_at ex_second ex_third 2 1"
    unfolding tied_def ex_nodes_stores by fastforce+
qed

lemma ex_line_ok: "line ref_crypto ex_at ex_line (ex_first # [ex_second] @ [ex_third])"
  using ex_ties ex_nodes_ready ex_nodes_ids by (simp add: line_def ex_line_def ex_ready_def)


theorem talk_over_route_witness:
  "\<exists>ns1 ns2 ns3 u u'.
    routed_connect_run ex_env (ex_later 5) (ex_later 4) ex_order ex_at [ex_first, ex_second, ex_third] 6 = Some ns1 \<and> (6, None) \<in> set (woken (hd ns1)) \<and>
    routed_send_run ex_env ex_order ex_at ns1 0x42000 [1, 2, 3] = Some (ns2, None) \<and> upper_calls (hd ns2) = upper_calls ex_third @ [(3, u)] \<and>
    UpperPacket_Payload u = Some [1, 2, 3] \<and> UpperPacket_Codec ref_varint u = Some (Inr 0x42000) \<and> UpperSrc (base u) = nd_peerid ex_first \<and>
    GetRoute (routing (hd ns2)) (nd_peerid ex_first) = Inr (NewRoute (rev (inns ex_line))) \<and>
    routed_send_run ex_env ex_order ex_at ns2 0x42000 [] = Some (ns3, None) \<and> upper_calls (hd ns3) = upper_calls ex_first @ [(1, u')] \<and>
    UpperPacket_Payload u' = Some [] \<and> UpperPacket_Codec ref_varint u' = Some (Inr 0x42000) \<and> UpperSrc (base u') = nd_peerid ex_third \<and>
    list_all2 ticked [ex_second] (butlast (tl ns3))"
proof (rule talk_over_route [OF ref_crypto_ok ref_varint_ok ex_order_ok _ _ _ _ _ _ _ ex_line_ok, simplified append_Cons append_Nil])
  show "node_inv ref_crypto (ex_key 1) ex_first" "node_inv ref_crypto (ex_key 3) ex_third" using ex_nodes_ready by (simp_all add: ex_ready_def)
  show "GetRoute (routing ex_first) (nd_peerid ex_third) = Inr (NewRoute (outs ex_line))"
    unfolding ex_nodes_ids by (simp add: ex_first_def ex_line_def GetRoute_def AddRoute_def NewRouting_def)
  show "fresh_index (store (sessions ex_first)) (env_ids (ex_later 5)) = Some 5" "fresh_index (store (sessions ex_third)) (env_ids (ex_later 4)) = Some 5"
    by (simp_all add: ex_later_def ex_nodes_stores fresh_index.simps)
  show "GeneratePrivateKey ref_crypto (env_kd (ex_later 5)) = Some (Inr (ex_key 5))" "GeneratePrivateKey ref_crypto (env_kd (ex_later 4)) = Some (Inr (ex_key 4))"
    by (simp_all add: ex_later_def ex_draws_def ex_key_draw)
  show "no_session ex_first (nd_peerid ex_third)" "no_session ex_third (nd_peerid ex_first)"
    by (simp_all add: no_session_def ex_nodes_ids ex_nodes_stores)
  show "upperHandlers ex_third 0x42000 = Some 3" "upperHandlers ex_first 0x42000 = Some 1" "table (routing ex_third) (nd_peerid ex_first) = None"
    by (simp_all add: ex_first_def ex_third_def ex_fresh_simps NewRouting_def)
  show "\<not> isZero (SharedSecret ref_crypto (ex_key 1) (PrivateKey_PublicKey ref_crypto (ex_key 3)))"
    "\<not> isZero (SharedSecret ref_crypto (ex_key 5) (PrivateKey_PublicKey ref_crypto (ex_key 3)))"
    by (simp_all add: ex_key_def ref_PublicKey ref_SharedSecret isZero_iff zip_replicate map_replicate)
qed (simp_all add: ex_later_def ex_draws_def ex_env_def ex_nodes_stores UpperMTU_def)

end
