(* ===== verification/FcnetRuns.thy ===== *)
theory FcnetRuns
  imports Fcnet Delivery
begin

text \<open>
  What the handlers of \<^verbatim>\<open>Fcnet\<close> do on each kind of packet: the checks on a packet from the network,
  and the packet built for one from the tunnel.
\<close>

section \<open>The checks on a packet from the network\<close>

definition ip_length :: "bytes \<Rightarrow> nat" where
  "ip_length pl = 256 * unat (pl ! 4) + unat (pl ! 5)"

text \<open>A complete IPv6 packet from the address \<open>s\<close> to the address \<open>d\<close>.\<close>

definition ipv6_packet :: "Addr \<Rightarrow> Addr \<Rightarrow> bytes \<Rightarrow> bool" where
  "ipv6_packet s d pl \<longleftrightarrow>
     40 \<le> length pl \<and> length pl = ip_length pl + 40 \<and> drop_bit 4 (pl ! 0) = 6 \<and>
     take 16 (drop 8 pl) = AsSlice s \<and> take 16 (drop 24 pl) = AsSlice d"

lemma unat_be16: "unat (ucast b OR push_bit 8 (ucast a) :: u16) = 256 * unat (a :: byte) + unat (b :: byte)"
proof -
  have w: "unat (ucast x :: u16) = unat x" for x :: byte
    using unat_byte_less [of x] by (simp add: unsigned_ucast_eq take_bit_nat_eq_self)
  have "ucast b AND (push_bit 8 (ucast a) :: u16) = 0"
    by (rule bit_word_eqI) (auto simp: bit_simps dest: bit_imp_le_length)
  then have "ucast b OR push_bit 8 (ucast a) = (ucast b + push_bit 8 (ucast a) :: u16)"
    by (simp add: disjunctive_add_eq_or)
  moreover have "unat (push_bit 8 (ucast a) :: u16) = 256 * unat a"
    using unat_byte_less [of a] by (simp add: push_bit_eq_mult unat_word_ariths w)
  ultimately show ?thesis
    using unat_byte_less [of a] unat_byte_less [of b] by (simp add: unat_word_ariths w)
qed

lemma read_length:
  assumes "6 \<le> length pl"
  obtains lb gl where "slice_of pl 4 6 = Some lb" "be_uint16 lb = Some gl" "unat gl = ip_length pl"
proof -
  have "take 2 (drop 4 pl) = [pl ! 4, pl ! 5]"
    using assms by (simp add: take_Suc_conv_app_nth numeral_2_eq_2)
  then have "slice_of pl 4 6 = Some [pl ! 4, pl ! 5]" using assms by (simp add: slice_of_def)
  with that show thesis by (simp add: unat_be16 ip_length_def)
qed

text \<open>The handler is total: it writes the packet if it is one for us from its sender, and fails otherwise.\<close>

lemma handleFcnet_accept:
  assumes "ipv6_packet (pid_addr C src) (fc_ip fc) pl"
  shows "handleFcnetPacket C F fc src pl = Some (device_Write F fc pl)"
proof -
  have len: "40 \<le> length pl" using assms by (simp add: ipv6_packet_def)
  obtain lb gl where l: "slice_of pl 4 6 = Some lb" "be_uint16 lb = Some gl" "unat gl = ip_length pl"
    by (rule read_length [of pl]) (use len in auto)
  have s: "slice_of pl 8 24 = Some (take 16 (drop 8 pl))" "slice_of pl 24 40 = Some (take 16 (drop 24 pl))"
    "idx pl 0 = Some (pl ! 0)"
    using len by (auto simp: slice_of_def idx_def)
  have u: "uint gl = int (ip_length pl)" using l(3) by (metis uint_nat)
  show ?thesis
    using assms l(1,2) u s by (simp add: handleFcnetPacket_def ipv6_HeaderLen_def ipv6_packet_def Let_def)
qed

lemma handleFcnet_refuse:
  assumes "\<not> ipv6_packet (pid_addr C src) (fc_ip fc) pl"
  shows "\<exists>e. handleFcnetPacket C F fc src pl = Some (fc, Some e)"
proof (cases "length pl < 40")
  case True
  then show ?thesis by (simp add: handleFcnetPacket_def ipv6_HeaderLen_def)
next
  case False
  obtain lb gl where l: "slice_of pl 4 6 = Some lb" "be_uint16 lb = Some gl" "unat gl = ip_length pl"
    by (rule read_length [of pl]) (use False in auto)
  have s: "slice_of pl 8 24 = Some (take 16 (drop 8 pl))" "slice_of pl 24 40 = Some (take 16 (drop 24 pl))"
    "idx pl 0 = Some (pl ! 0)"
    using False by (auto simp: slice_of_def idx_def)
  have u: "uint gl = int (ip_length pl)" using l(3) by (metis uint_nat)
  let ?n = "int (length pl) = int (ip_length pl) + 40" and ?v = "drop_bit 4 (pl ! 0) = 6"
    and ?s = "take 16 (drop 8 pl) = AsSlice (pid_addr C src)" and ?d = "take 16 (drop 24 pl) = AsSlice (fc_ip fc)"
  have "\<not> (?n \<and> ?v \<and> ?s \<and> ?d)"
    using assms False by (simp add: ipv6_packet_def)
  moreover have "handleFcnetPacket C F fc src pl =
    (if \<not> ?n then Some (fc, Some (Errorf ''fcnet: recv: length mismatch''))
     else if \<not> ?v then Some (fc, Some (Errorf ''fcnet: recv: not an ipv6 packet''))
     else if \<not> ?s then Some (fc, Some (Errorf ''fcnet: recv: src address mismatch''))
     else if \<not> ?d then Some (fc, Some (Errorf ''fcnet: recv: dst address mismatch''))
     else Some (device_Write F fc pl))"
    using False l(1,2) s u by (simp add: handleFcnetPacket_def ipv6_HeaderLen_def Let_def)
  ultimately show ?thesis by auto
qed

section \<open>Packets from the tunnel\<close>

text \<open>Route and codec of an upper packet are in different bytes, so the order of setting them is free.\<close>

lemma SetRoute_SetCodec:
  assumes rt: "length (hops rt) \<le> 14" and c: "length (ToUvarint V codec) \<le> 4" and len: "56 \<le> length (fbuf u)"
    and u: "Offset u = 52"
  obtains q p r where "UpperPacket_SetRoute u rt = Some q" "UpperPacket_SetCodec V q codec = Some r"
    "UpperPacket_SetCodec V u codec = Some p" "UpperPacket_SetRoute p rt = Some r"
proof -
  let ?c = "ToUvarint V codec"
  define pre h m post where "pre = take 20 (fbuf u)" "h = take 16 (drop 20 (fbuf u))"
    "m = take 16 (drop 36 (fbuf u))" "post = drop 52 (fbuf u)"
  have "fbuf u = pre @ drop 20 (fbuf u)" by (simp add: pre_h_m_post_def)
  also have "drop 20 (fbuf u) = h @ drop 36 (fbuf u)"
    using append_take_drop_id [of 16 "drop 20 (fbuf u)"] by (simp add: pre_h_m_post_def)
  also have "drop 36 (fbuf u) = m @ post"
    using append_take_drop_id [of 16 "drop 36 (fbuf u)"] by (simp add: pre_h_m_post_def)
  finally have b: "fbuf u = pre @ h @ m @ post" by simp
  have l: "length pre = 20" "length h = 16" "length m = 16" "4 \<le> length post"
    using len by (simp_all add: pre_h_m_post_def)
  let ?post = "splice post 0 ?c"
  have route: "UpperPacket_SetRoute w rt = Some (with_buf w (pre @ label 0 (hops rt) @ rest))"
    if "fbuf w = pre @ h @ rest" for w rest
    using put_route_window [of FwdOffset pre h rt rest] l rt that by (simp add: UpperPacket_SetRoute_def FwdOffset_def)
  have codec: "UpperPacket_SetCodec V w codec = Some (with_buf w (pre @ h' @ m @ ?post))"
    if "fbuf w = pre @ h' @ m @ post" "length h' = 16" "Offset w = 52" for w h'
    using that l c by (simp add: UpperPacket_SetCodec_def copy_at_def splice_def)
  show thesis
  proof (rule that [OF route [OF b] _ codec [OF b l(2) u]])
    show "UpperPacket_SetCodec V (with_buf u (pre @ label 0 (hops rt) @ m @ post)) codec =
        Some (with_buf u (pre @ label 0 (hops rt) @ m @ ?post))"
      using codec [of "with_buf u (pre @ label 0 (hops rt) @ m @ post)" "label 0 (hops rt)"] rt u by (simp add: length_label)
    show "UpperPacket_SetRoute (with_buf u (pre @ h @ m @ ?post)) rt = Some (with_buf u (pre @ label 0 (hops rt) @ m @ ?post))"
      using route [of "with_buf u (pre @ h @ m @ ?post)" "m @ ?post"] by simp
  qed
qed

text \<open>The fields of a packet from the tunnel that the handler looks at.\<close>

definition tun_packet :: "Fcnet \<Rightarrow> Addr \<Rightarrow> byte \<Rightarrow> byte \<Rightarrow> bytes \<Rightarrow> bool" where
  "tun_packet fc dst nexthdr hop_limit buf \<longleftrightarrow>
     ipv6_packet (fc_ip fc) dst buf \<and> buf ! 6 = nexthdr \<and> buf ! 7 = hop_limit \<and>
     (\<exists>s d. fc_ip fc = Addr6 s [] \<and> dst = Addr6 d []) \<and>
     \<not> Contains linklocalPrefix (fc_ip fc) \<and> \<not> Contains multicastPrefix dst \<and> dst \<noteq> fc1Addr"

lemma handleTun_reads:
  assumes "tun_packet fc dst nexthdr hl buf"
  obtains lb gl sb db where "slice_of buf 4 6 = Some lb" "be_uint16 lb = Some gl" "uint gl = int (ip_length buf)"
    "idx buf 6 = Some nexthdr" "idx buf 7 = Some hl" "slice_of buf 8 24 = Some sb" "slice_of buf 24 40 = Some db"
    "fst (AddrFromSlice sb) = fc_ip fc" "fst (AddrFromSlice db) = dst"
    "int (length buf) = int (ip_length buf) + 40"
proof -
  from assms have p: "ipv6_packet (fc_ip fc) dst buf" and len: "40 \<le> length buf"
    by (simp_all add: tun_packet_def ipv6_packet_def)
  obtain lb gl where l: "slice_of buf 4 6 = Some lb" "be_uint16 lb = Some gl" "unat gl = ip_length buf"
    by (rule read_length [of buf]) (use len in auto)
  have u: "uint gl = int (ip_length buf)" using l(3) by (metis uint_nat)
  have s: "slice_of buf 8 24 = Some (take 16 (drop 8 buf))" "slice_of buf 24 40 = Some (take 16 (drop 24 buf))"
    "idx buf 6 = Some nexthdr" "idx buf 7 = Some hl"
    using len assms by (auto simp: slice_of_def idx_def tun_packet_def)
  show thesis
    by (rule that [OF l(1,2) u s(3,4,1,2)])
      (use p len assms in \<open>auto simp: tun_packet_def ipv6_packet_def AddrFromSlice_def\<close>)
qed

lemma NewUpperPacket_base:
  "(NewUpperPacket P)\<lparr>base := Q\<rparr> = NewUpperPacket Q" "base (NewUpperPacket P) = P"
  by (simp_all add: NewUpperPacket_def)

lemma handleTun_send:
  assumes V: "varint_ok (env_V (fc_env F))" and tp: "tun_packet fc dst nexthdr hl buf"
    and look: "LookupIPv6 (routing node) dst = Inr pid" and rt: "GetRoute (routing node) pid = Inr route"
    and hops: "Route_Len route \<le> int (unat hl)" "length (hops route) \<le> 14" and fits: "int (length buf) \<le> UpperMTU"
    and q: "empty_queue (upperSendQ node)"
  obtains P uq where "handleTunPacket F node fc buf = Some (node\<lparr>upperSendQ := uq\<rparr>, fc, None)"
    "RingBuffer_Get uq = Some (P, upperSendQ node)" "UpperDst P = pid" "labelled (Buf P) 0 (hops route)"
    "Length P = 88 + int (length buf)" "length (Buf P) = TptMTU"
    "slice_of (Buf P) 56 (56 + int (length buf)) = Some buf"
    "slice_of (Buf P) 52 56 = Some (ToUvarint (env_V (fc_env F)) FcnetMulticodec @
       replicate (4 - length (ToUvarint (env_V (fc_env F)) FcnetMulticodec)) 0)"
proof -
  let ?V = "env_V (fc_env F)"
  let ?P = "(NewPacket (replicate TptMTU 0))\<lparr>UpperDst := pid\<rparr>"
  have blank: "Buf ?P = replicate TptMTU 0" by (simp add: NewPacket_def)
  have small: "FcnetMulticodec < 2 ^ 28" by (simp add: FcnetMulticodec_def)
  have c4: "length (ToUvarint ?V FcnetMulticodec) \<le> 4" using V small by (simp add: varint_ok_def)
  obtain p u r where set: "UpperPacket_SetCodec ?V (NewUpperPacket ?P) FcnetMulticodec = Some p"
    "UpperPacket_SetRoute p route = Some u" "UpperPacket_SetPayload u buf = Some r"
    and r: "base r = ?P\<lparr>Buf := fbuf r, Length := 88 + int (length buf)\<rparr>" "length (fbuf r) = TptMTU"
      "labelled (fbuf r) 0 (hops route)" "slice_of (fbuf r) 56 (56 + int (length buf)) = Some buf"
      "slice_of (fbuf r) 52 56 = Some (ToUvarint ?V FcnetMulticodec @ replicate (4 - length (ToUvarint ?V FcnetMulticodec)) 0)"
    by (rule upper_packet_made [OF V small hops(2) fits blank]) (rule that)
  obtain w where set': "UpperPacket_SetRoute (NewUpperPacket ?P) route = Some w" "UpperPacket_SetCodec ?V w FcnetMulticodec = Some u"
    by (rule SetRoute_SetCodec [OF hops(2) c4, of "NewUpperPacket ?P"])
      (use set(1,2) in \<open>auto simp: NewUpperPacket_def NewPacket_def TptMTU_def UpperOffset_def\<close>)
  obtain uq where uq: "PutWithBackpressure (upperSendQ node) (base r) = Some uq" "RingBuffer_Get uq = Some (base r, upperSendQ node)"
    by (rule empty_queue_ops [OF q]) (rule that)
  obtain lb gl sb db where rd: "slice_of buf 4 6 = Some lb" "be_uint16 lb = Some gl" "uint gl = int (ip_length buf)"
    "idx buf 6 = Some nexthdr" "idx buf 7 = Some hl" "slice_of buf 8 24 = Some sb" "slice_of buf 24 40 = Some db"
    "fst (AddrFromSlice sb) = fc_ip fc" "fst (AddrFromSlice db) = dst" "int (length buf) = int (ip_length buf) + 40"
    by (rule handleTun_reads [OF tp])
  have "handleTunPacket F node fc buf = Some (node\<lparr>upperSendQ := uq\<rparr>, fc, None)"
    using rd look rt hops(1) set' set(3) uq(1) tp
    by (simp add: handleTunPacket_def SendUpper_def tun_packet_def ipv6_HeaderLen_def NewUpperPacket_base)
  moreover have "UpperDst (base r) = pid" "Length (base r) = 88 + int (length buf)"
    by (subst r(1), simp)+
  ultimately show thesis using that uq(2) r(2-5) by simp
qed

end
