(* ===== verification/PingRuns.thy ===== *)
theory PingRuns
  imports FcnetRuns
begin

text \<open>
  The ping handler on a well-formed packet: passing it on, answering it, and turning an answer into an
  ICMPv6 message for the tunnel.
\<close>

section \<open>Sending\<close>

lemma NewLowerPacket_base [simp]:
  "(NewLowerPacket P)\<lparr>lbase := Q\<rparr> = NewLowerPacket Q" "lbase (NewLowerPacket P) = P"
  by (simp_all add: NewLowerPacket_def)

lemma send_ping_run:
  assumes V: "varint_ok V" and p: "pinged P pre 0 (r # rs) key reply pl tail"
    and slot: "slots (forwarder node) (unat r) = Some (Slot b Remote)" and q: "empty_queue (lowerSendQ node)"
  obtains Q lq pre' where "send_ping V node (ping_frame P) = Some (node\<lparr>lowerSendQ := lq\<rparr>, None)"
    "RingBuffer_Get lq = Some (Q, lowerSendQ node)" "pinged Q pre' 0 (r # rs) key reply pl tail" "LowerDst Q = b"
proof -
  define rest where "rest = label 0 (r # rs) @ ping_post key reply pl tail"
  have b: "Buf P = pre @ rest" "length pre = 20"
    using pinged_buf [OF p] pingedD(1) [OF p] by (simp_all add: rest_def)
  have small: "PingMulticodec < 2 ^ 28" by (simp add: PingMulticodec_def)
  obtain pre' where set: "LowerPacket_SetCodec V (NewLowerPacket P) PingMulticodec =
      Some \<lparr>LOffset = 16, lbase = P\<lparr>Buf := pre' @ rest\<rparr>\<rparr>" and pre': "length pre' = 20"
    by (rule SetCodec_window [OF V small b]) (rule that)
  let ?l = "\<lparr>LOffset = 16, lbase = P\<lparr>Buf := pre' @ rest\<rparr>\<rparr>"
  let ?Q = "P\<lparr>Buf := pre' @ rest, LowerDst := b\<rparr>"
  have Q: "pinged ?Q pre' 0 (r # rs) key reply pl tail"
    by (rule pinged_relabel [OF p pre' pingedD(2) [OF p]]) (simp_all add: rest_def)
  obtain l rest' where rest: "rest = 0 # l # r # rest'" by (simp add: rest_def label_def)
  have len: "Length P = 104 + int (length pl)" "88 + length pl \<le> length (Buf P)"
    using pingedD [OF p] by simp_all
  have n: "68 + length pl = Suc (Suc (Suc (65 + length pl)))" by simp
  have "LowerPacket_Payload ?l = Some (take (68 + length pl) rest)"
    using len b pre' by (simp add: LowerPacket_Payload_def slice_of_def nat_add_distrib)
  then have pay: "LowerPacket_Payload ?l = Some (0 # l # r # take (65 + length pl) rest')"
    unfolding rest n take_Suc_Cons .
  have ix: "idx (0 # l # r # xs) 0 = Some 0" "idx (0 # l # r # xs) 2 = Some r" for xs by (simp_all add: idx_def)
  obtain lq where lq: "PutWithBackpressure (lowerSendQ node) ?Q = Some lq" "RingBuffer_Get lq = Some (?Q, lowerSendQ node)"
    by (rule empty_queue_ops [OF q]) (rule that)
  have "SendRaw (forwarder node) ?l = Some (Inr (Remote, \<lparr>LOffset = 16, lbase = ?Q\<rparr>))"
    using pay ix slot by (simp add: SendRaw_def set_LowerDst_def)
  then have "send_ping V node (ping_frame P) = Some (node\<lparr>lowerSendQ := lq\<rparr>, None)"
    using set lq(1) by (simp add: send_ping_def sign_def forwarded_def put_lowerSendQ_def)
  with that lq(2) Q show thesis by simp
qed

section \<open>On the way\<close>

lemma forwarded_remote:
  assumes "empty_queue (lowerSendQ node)"
  obtains lq where "forwarded node (Inr (Remote, lpkt)) = Some (node\<lparr>lowerSendQ := lq\<rparr>, None)"
    "RingBuffer_Get lq = Some (lbase lpkt, lowerSendQ node)"
proof -
  obtain lq where "PutWithBackpressure (lowerSendQ node) (lbase lpkt) = Some lq"
    "RingBuffer_Get lq = Some (lbase lpkt, lowerSendQ node)"
    by (rule empty_queue_ops [OF assms]) (rule that)
  then show thesis by (intro that) (simp_all add: forwarded_def put_lowerSendQ_def)
qed

lemma handlePing_pass:
  assumes p: "pinged P pre pos route key reply pl tail" and mid: "Suc pos < length route"
    and prev: "bypeer (forwarder node) (LowerSrc P) = Some prev"
    and nxt: "slots (forwarder node) (unat (route ! Suc pos)) = Some (Slot b Remote)" and q: "empty_queue (lowerSendQ node)"
  obtains Q lq where "handlePingPacket F node fc (NewLowerPacket P) = Some (node\<lparr>lowerSendQ := lq\<rparr>, fc, None)"
    "RingBuffer_Get lq = Some (Q, lowerSendQ node)" "LowerDst Q = b"
    "pinged Q pre (Suc pos) (route[pos := of_nat prev]) key reply pl tail"
proof -
  define post where "post = ping_post key reply pl tail"
  have b: "Buf P = pre @ label pos route @ post" "length pre = 20" and len: "length route \<le> 14"
    using pinged_buf [OF p] pingedD [OF p] by (simp_all add: post_def)
  let ?Q = "P\<lparr>Buf := pre @ label (Suc pos) (route[pos := of_nat prev]) @ post, LowerDst := b\<rparr>"
  have fw: "Forwarder_HandlePacket (forwarder node) (NewLowerPacket P) =
      Some (Inr (Remote, (NewLowerPacket P)\<lparr>lbase := (lbase (NewLowerPacket P))\<lparr>Buf := Buf ?Q, LowerDst := b\<rparr>\<rparr>))"
    using HandlePacket_pass [of "NewLowerPacket P" pre pos route post "forwarder node" prev b Remote] b len mid prev nxt
    by simp
  have Q: "pinged ?Q pre (Suc pos) (route[pos := of_nat prev]) key reply pl tail"
    by (rule pinged_relabel [OF p b(2)]) (use len in \<open>simp_all add: post_def\<close>)
  obtain lq where lq: "forwarded node (Inr (Remote, NewLowerPacket ?Q)) = Some (node\<lparr>lowerSendQ := lq\<rparr>, None)"
    "RingBuffer_Get lq = Some (lbase (NewLowerPacket ?Q), lowerSendQ node)"
    by (rule forwarded_remote [OF q])
  have pos: "pos < 256" using mid len by simp
  have "handlePingPacket F node fc (NewLowerPacket P) = Some (node\<lparr>lowerSendQ := lq\<rparr>, fc, None)"
    using NewPingPacket_pinged [OF p] pinged_getters(5) [OF p pos] mid fw lq(1)
    by (simp add: handlePingPacket_def)
  with that lq(2) Q show thesis by simp
qed

section \<open>At the end of a route\<close>

lemma ping_mark_run:
  assumes p: "pinged P pre pos route key reply pl tail" and last: "Suc pos = length route"
  obtains P' where "ping_mark (ping_frame P) slot = Some (ping_frame P', NewRoute (rev (route[pos := slot])))"
    "pinged P' pre (Suc pos) (route[pos := slot]) key reply pl tail" "P' = P\<lparr>Buf := Buf P'\<rparr>"
proof -
  define post where "post = ping_post key reply pl tail"
  have b: "Buf P = pre @ label pos route @ post" "length pre = 20" and len: "length route \<le> 14"
    using pinged_buf [OF p] pingedD [OF p] by (simp_all add: post_def)
  let ?rt = "route[pos := slot]"
  have i: "unat (2 + of_nat n :: byte) = 2 + n" if "n \<le> 14" for n
    using that unat_small [of "2 + n"] by simp
  have u: "upd (label pos route) (int (unat (2 + of_nat pos :: byte))) slot = Some (label pos ?rt)"
  proof -
    have "pos < length route" "pos \<le> 14" using last len by simp_all
    then show ?thesis unfolding i [OF \<open>pos \<le> 14\<close>] using label_upd [OF len, of pos pos slot] by simp
  qed
  have inc: "upd (label pos ?rt) 0 (of_nat pos + 1) = Some (label (Suc pos) ?rt)"
    using label_upd_pos [of pos ?rt "Suc pos"] by (simp add: add.commute)
  have l16: "length (label pos route) = 16" "length (label (Suc pos) ?rt) = 16" using len by (simp_all add: length_label)
  let ?P = "P\<lparr>Buf := pre @ label (Suc pos) ?rt @ post\<rparr>"
  have cp: "copy_at (Buf P) 20 36 (label (Suc pos) ?rt) = Some (Buf ?P)"
    using copy_mid [of "label (Suc pos) ?rt" "label pos route" 20 pre 36 post] b l16 by simp
  have Suc_pos: "Suc pos \<le> 14" using last len by simp
  have sl: "slice_of (Buf ?P) 22 (20 + int (unat (2 + of_nat (Suc pos) :: byte))) = Some ?rt"
    using slice_mid [of 22 "pre @ [of_nat (Suc pos), of_nat (length ?rt)]" "22 + int (length ?rt)" ?rt
        "replicate (14 - length ?rt) 0 @ post"] b(2) last len
    unfolding i [OF Suc_pos] by (simp add: label_def)
  have ix: "idx (label n rt) 0 = Some (of_nat n)" if "length rt \<le> 14" for n rt
    using label_idx(1) [OF that] .
  have "ping_mark (ping_frame P) slot = Some (ping_frame ?P, Route_Reverse (NewRoute ?rt))"
    using pinged_getters(4) [OF p] u inc cp sl ix [of route pos] ix [of ?rt pos] ix [of ?rt "Suc pos"] len
    by (simp add: ping_mark_def with_buf_def del: of_nat_Suc)
  moreover have "Route_Reverse (NewRoute ?rt) = NewRoute (rev ?rt)" by (simp add: Route_eq_iff)
  moreover have "pinged ?P pre (Suc pos) ?rt key reply pl tail"
    by (rule pinged_relabel [OF p b(2)]) (use len in \<open>simp_all add: post_def\<close>)
  ultimately show thesis by (intro that [of ?P]) simp_all
qed

lemma handlePing_answer:
  assumes V: "varint_ok (env_V (fc_env F))" and p: "pinged P pre pos route key False pl tail" and last: "Suc pos = length route"
    and rt: "GetRoute (routing node) (LowerSrc P) = Inr prevrt" "hops prevrt = slot # rest"
    and nxt: "slots (forwarder node) (unat slot) = Some (Slot b Remote)" and q: "empty_queue (lowerSendQ node)"
  obtains Q lq pre' tail' where "handlePingPacket F node fc (NewLowerPacket P) = Some (node\<lparr>lowerSendQ := lq\<rparr>, fc, None)"
    "RingBuffer_Get lq = Some (Q, lowerSendQ node)" "LowerDst Q = b"
    "pinged Q pre' 0 (rev (route[pos := slot])) (PeerID_PublicKey (nd_peerid node)) True pl tail'"
proof -
  let ?rt = "route[pos := slot]" and ?key = "PeerID_PublicKey (nd_peerid node)"
  let ?P0 = "(NewPacket (replicate TptMTU 0))\<lparr>LowerSrc := nd_peerid node\<rparr>"
  have len: "length route \<le> 14" "104 + length pl \<le> TptMTU" using p by (simp_all add: pinged_def)
  have pos: "pos < 256" using last len by simp
  obtain P' where mark: "ping_mark (ping_frame P) slot = Some (ping_frame P', NewRoute (rev ?rt))"
    and p': "pinged P' pre (Suc pos) ?rt key False pl tail"
    by (rule ping_mark_run [OF p last])
  have l14: "length (hops (NewRoute (rev ?rt))) \<le> 14" using len by simp
  have wf: "wf_pub ?key" by (simp add: PeerID_PublicKey_def)
  have blank: "Buf ?P0 = replicate TptMTU 0" by (simp add: NewPacket_def)
  obtain p1 p2 p3 p4 p5 pre0 tail0 where made: "NewPingPacket ?P0 = Some p1" "Ping_SetRoute p1 (NewRoute (rev ?rt)) = Some p2"
    "Ping_SetSender p2 ?key = Some p3" "SetIsReply p3 True = Some p4" "Ping_SetPayload p4 pl = Some p5"
    and p5: "pinged (base p5) pre0 0 (hops (NewRoute (rev ?rt))) ?key True pl tail0" "p5 = ping_frame (base p5)"
    by (rule pinged_built [OF l14 wf len(2) blank, where reply = True]) (rule that)
  obtain p0 where p0: "NewPingPacket (NewPacket (replicate TptMTU 0)) = Some p0"
    by (rule pinged_built [OF l14 wf len(2), of "NewPacket (replicate TptMTU 0)"]) (auto simp: NewPacket_def)
  have p1: "p0\<lparr>base := (base p0)\<lparr>LowerSrc := nd_peerid node\<rparr>\<rparr> = p1"
    using NewPingPacket_LowerSrc [OF p0, of "nd_peerid node"] made(1) by simp
  have ne: "rev ?rt = slot # rev (butlast route)"
    using last by (cases route rule: rev_cases) (auto simp: list_update_append)
  define rs where "rs = rev (butlast route)"
  obtain Q lq pre' where run: "send_ping (env_V (fc_env F)) node (ping_frame (base p5)) = Some (node\<lparr>lowerSendQ := lq\<rparr>, None)"
    and Q: "RingBuffer_Get lq = Some (Q, lowerSendQ node)" "pinged Q pre' 0 (slot # rs) ?key True pl tail0" "LowerDst Q = b"
    by (rule send_ping_run [OF V, of "base p5" pre0 slot rs ?key True pl tail0 node b]) (use p5 ne nxt q in \<open>auto simp: rs_def\<close>)
  have sl: "idx (Route_Bytes prevrt) 0 = Some slot" using rt(2) by (simp add: Route_Bytes_def idx_def)
  have "handlePingPacket F node fc (NewLowerPacket P) = Some (node\<lparr>lowerSendQ := lq\<rparr>, fc, None)"
    using NewPingPacket_pinged [OF p] pinged_getters(5) [OF p pos] last rt(1) sl mark pinged_getters(2,3) [OF p'] p0 p1
      made(2-5) p5(2) run
    by (simp add: handlePingPacket_def)
  with that Q ne show thesis by (simp add: rs_def)
qed

section \<open>The answer at the origin\<close>

text \<open>What the checksum of an ICMPv6 message is taken over: a pseudo header and the message.\<close>

definition pseudo_header :: "bytes \<Rightarrow> bytes \<Rightarrow> bytes \<Rightarrow> bytes" where
  "pseudo_header src dst msg = src @ dst @ be_bytes32 (of_nat (length msg)) @ [0, 0, 0, 58]"

text \<open>A complete ICMPv6 \<^verbatim>\<open>Time Exceeded\<close> packet from one address to another about the packet \<open>buf\<close>.\<close>

definition time_exceeded_packet :: "Addr \<Rightarrow> Addr \<Rightarrow> bytes \<Rightarrow> bytes \<Rightarrow> bool" where
  "time_exceeded_packet s d buf pkt \<longleftrightarrow>
     ipv6_packet s d pkt \<and> pkt ! 6 = 58 \<and>
     (\<exists>c1 c2. drop 40 pkt = [3, 0, c1, c2, 0, 0, 0, 0] @ buf) \<and>
     icmpChecksum (pseudo_header (AsSlice s) (AsSlice d) (drop 40 pkt) @ drop 40 pkt) = 0"

lemma time_exceeded_icmp_run:
  assumes I: "icmp_ok I" and len: "length s = 16" "length d = 16" "length buf \<le> 65000"
  obtains c1 c2 where "time_exceeded_icmp I s d buf = Some (Inr ([3, 0, c1, c2, 0, 0, 0, 0] @ buf))"
    "icmpChecksum (pseudo_header s d ([3, 0, c1, c2, 0, 0, 0, 0] @ buf) @ [3, 0, c1, c2, 0, 0, 0, 0] @ buf) = 0"
proof -
  define chdr where "chdr = s @ d @ replicate 7 0 @ [58 :: byte]"
  define ph where "ph = s @ d @ be_bytes32 (of_nat (8 + length buf)) @ [0, 0, 0, 58]"
  define rest where "rest = replicate 4 (0 :: byte) @ buf"
  let ?c = "icmpChecksum ((ph @ [3, 0]) @ [0, 0] @ rest)"
  have zeros: "replicate 7 (0 :: byte) = replicate 4 0 @ [0, 0, 0]" "replicate 4 (0 :: byte) = [0, 0, 0, 0]"
    by (simp_all add: numeral_eq_Suc)
  have l: "length ph = 40" "length chdr = 40" using len by (simp_all add: ph_def chdr_def)
  have cp: "copy_at (chdr @ [3, 0, 0, 0] @ rest) 32 36 (be_bytes32 (of_nat (8 + length buf))) = Some (ph @ [3, 0, 0, 0] @ rest)"
    using copy_mid [of "be_bytes32 (of_nat (8 + length buf))" "replicate 4 0" 32 "s @ d" 36 "[0, 0, 0, 58, 3, 0, 0, 0] @ rest"] len
    by (simp add: chdr_def ph_def zeros(1))
  have u1: "upd (ph @ 3 # 0 # 0 # 0 # rest) 42 x = Some (ph @ 3 # 0 # x # 0 # rest)"
    and u2: "upd (ph @ 3 # 0 # x # 0 # rest) 43 y = Some (ph @ 3 # 0 # x # y # rest)"
    and i: "idx (ph @ 3 # 0 # 0 # 0 # rest) 42 = Some 0" "idx (ph @ 3 # 0 # x # 0 # rest) 43 = Some 0" for x y
    using l by (simp_all add: upd_def idx_def list_update_append nth_append)
  have hdr: "IPv6PseudoHeader I s d = chdr" and body: "TimeExceeded_Marshal I buf = Inr rest"
    using I len by (simp_all add: icmp_ok_def chdr_def rest_def)
  have n: "length ((chdr @ [3, 0, 0, 0]) @ rest) - length chdr = 8 + length buf" by (simp add: rest_def)
  have "time_exceeded_icmp I s d buf = Some (Inr ([3, 0, ucast ?c, ucast (drop_bit 8 ?c)] @ rest))"
    unfolding time_exceeded_icmp_def Let_def hdr body
    using cp u1 u2 i l n by simp
  moreover have "icmpChecksum ((ph @ [3, 0]) @ [ucast ?c, ucast (drop_bit 8 ?c)] @ rest) = 0"
    by (rule checksum_verifies) (use l len in \<open>simp_all add: rest_def\<close>)
  ultimately show thesis
    by (intro that [of "ucast ?c" "ucast (drop_bit 8 ?c)"])
      (simp_all add: rest_def ph_def pseudo_header_def zeros(2))
qed

lemma length_IPAddr: "crypto_ok C \<Longrightarrow> length (AsSlice (PublicKey_IPAddr C k)) = 16"
  by (simp add: PublicKey_IPAddr_def AddrFromSlice_def Let_def crypto_okD)

lemma time_exceeded_is_packet:
  assumes len: "length (AsSlice s) = 16" "length (AsSlice d) = 16" "length msg \<le> 65000"
    and flow: "flow = take 4 buf" "4 \<le> length buf" "drop_bit 4 (buf ! 0) = 6"
  shows "ipv6_packet s d (time_exceeded flow (AsSlice s) (AsSlice d) msg)"
    "time_exceeded flow (AsSlice s) (AsSlice d) msg ! 6 = 58" "drop 40 (time_exceeded flow (AsSlice s) (AsSlice d) msg) = msg"
proof -
  have f4: "length flow = 4" using flow by simp
  obtain f0 fs where f: "flow = f0 # fs" "length fs = 3" using f4 by (cases flow) auto
  then have v: "drop_bit 4 f0 = 6" using flow by (cases buf) auto
  let ?n = "of_nat (length msg) :: u16" and ?p = "time_exceeded flow (AsSlice s) (AsSlice d) msg"
  have p: "?p = flow @ be_bytes16 ?n @ [58, 64] @ AsSlice s @ AsSlice d @ msg" using len by (simp add: time_exceeded_def)
  have n: "unat ?n = length msg" using len(3) by (simp add: unsigned_of_nat take_bit_nat_eq_self)
  have "unat (ucast (?p ! 5) OR push_bit 8 (ucast (?p ! 4)) :: u16) = ip_length ?p" by (simp only: unat_be16 ip_length_def)
  moreover have "be_uint16 (be_bytes16 ?n) = Some ?n" by simp
  ultimately have il: "ip_length ?p = length msg"
    using f4 n by (simp add: p nth_append be_bytes16_def)
  have "length ?p = length msg + 40" "take 16 (drop 8 ?p) = AsSlice s" "take 16 (drop 24 ?p) = AsSlice d"
    using len f4 by (simp_all add: p)
  moreover have "drop_bit 4 (?p ! 0) = 6" by (subst p) (simp add: f v)
  ultimately show "ipv6_packet s d ?p" unfolding ipv6_packet_def using il by simp
  show "?p ! 6 = 58" "drop 40 ?p = msg" using f4 len by (simp_all add: p nth_append)
qed

lemma handlePing_reply:
  assumes C: "crypto_ok (env_C (fc_env F))" and I: "icmp_ok (fc_icmp F)"
    and p: "pinged P pre pos route key True pl tail" and last: "Suc pos = length route"
    and rt: "GetRoute (routing node) (LowerSrc P) = Inr prevrt" "hops prevrt = slot # rest"
    and pl: "ipv6_packet (fc_ip fc) dst pl" "length (AsSlice (fc_ip fc)) = 16" and dev: "\<And>b. dev_Write F b = None"
  obtains pkt where "handlePingPacket F node fc (NewLowerPacket P) = Some (node, fc\<lparr>dev_out := dev_out fc @ [pkt]\<rparr>, None)"
    "time_exceeded_packet (PublicKey_IPAddr (env_C (fc_env F)) key) (fc_ip fc) pl pkt"
proof -
  let ?C = "env_C (fc_env F)"
  let ?s = "PublicKey_IPAddr ?C key"
  have len: "length route \<le> 14" "104 + length pl \<le> TptMTU" "wf_pub key" using pingedD [OF p] by simp_all
  then have small: "length pl \<le> 64000" by (simp add: TptMTU_def)
  have pos: "pos < 256" using last len by simp
  have sl: "idx (Route_Bytes prevrt) 0 = Some slot" using rt(2) by (simp add: Route_Bytes_def idx_def)
  obtain P' where mark: "ping_mark (ping_frame P) slot = Some (ping_frame P', NewRoute (rev (route[pos := slot])))"
    and p': "pinged P' pre (Suc pos) (route[pos := slot]) key True pl tail"
    by (rule ping_mark_run [OF p last])
  note g = pinged_getters [OF p']
  have b: "Buf P' = (pre @ label (Suc pos) (route[pos := slot]) @ pub_bytes key @ ping_stubSignature @ pongRequestId @ ping_stubRandomizer)
      @ pl @ tail" and l: "length pre = 20"
    using pinged_buf [OF p'] pingedD(1) [OF p'] by (simp_all add: ping_post_def)
  define pre88 where "pre88 = pre @ label (Suc pos) (route[pos := slot]) @ pub_bytes key @ ping_stubSignature @ pongRequestId @ ping_stubRandomizer"
  have l88: "length pre88 = 88" using l len by (simp add: pre88_def length_label wf_pub_def)
  have b': "Buf P' = pre88 @ pl @ tail" using b by (simp add: pre88_def)
  have pl40: "40 \<le> length pl" "drop_bit 4 (pl ! 0) = 6" "take 16 (drop 8 pl) = AsSlice (fc_ip fc)" using pl(1) by (simp_all add: ipv6_packet_def)
  have s1: "slice_of (Buf P') 96 112 = Some (AsSlice (fc_ip fc))" and s2: "slice_of (Buf P') 88 92 = Some (take 4 pl)"
    using pl40 l88 by (simp_all add: b' slice_of_def)
  have ls: "length (AsSlice ?s) = 16" by (rule length_IPAddr [OF C])
  obtain c1 c2 where icmp: "time_exceeded_icmp (fc_icmp F) (AsSlice ?s) (AsSlice (fc_ip fc)) pl = Some (Inr ([3, 0, c1, c2, 0, 0, 0, 0] @ pl))"
    and sum: "icmpChecksum (pseudo_header (AsSlice ?s) (AsSlice (fc_ip fc)) ([3, 0, c1, c2, 0, 0, 0, 0] @ pl) @ [3, 0, c1, c2, 0, 0, 0, 0] @ pl) = 0"
    by (rule time_exceeded_icmp_run [OF I ls pl(2)]) (use small in auto)
  define msg where "msg = [3, 0, c1, c2, 0, 0, 0, 0] @ pl"
  let ?pkt = "time_exceeded (take 4 pl) (AsSlice ?s) (AsSlice (fc_ip fc)) msg"
  have pk: "ipv6_packet ?s (fc_ip fc) ?pkt" "?pkt ! 6 = 58" "drop 40 ?pkt = msg"
    using time_exceeded_is_packet [OF ls pl(2), of msg "take 4 pl" pl] small pl40 by (simp_all add: msg_def)
  have "handleFcnetPacket ?C F fc (NewPeerID key) ?pkt = Some (device_Write F fc ?pkt)"
    by (rule handleFcnet_accept) (use pk(1) len(3) in simp)
  then have "handlePingReply ?C F fc (ping_frame P') = Some (fc\<lparr>dev_out := dev_out fc @ [?pkt]\<rparr>, None)"
    using g(1,3) s1 s2 icmp dev by (simp add: handlePingReply_def verify_def device_Write_def msg_def)
  then have "handlePingPacket F node fc (NewLowerPacket P) = Some (node, fc\<lparr>dev_out := dev_out fc @ [?pkt]\<rparr>, None)"
    using NewPingPacket_pinged [OF p] pinged_getters(5) [OF p pos] last rt(1) sl mark g(2)
    by (simp add: handlePingPacket_def)
  moreover have "time_exceeded_packet ?s (fc_ip fc) pl ?pkt"
    using pk sum by (simp add: time_exceeded_packet_def msg_def)
  ultimately show thesis by (rule that)
qed

end
