(* ===== verification/Traceroute.thy ===== *)
theory Traceroute
  imports PingRuns
begin

text \<open>
  A ping packet in a network of nodes: it is handed from the send queue of one node to the ping
  handler of the next, as the lower sessions do, until the last node of its route answers it and the
  answer has come back.
\<close>

section \<open>The network\<close>

type_synonym 'h fcnetwork = "PeerID \<Rightarrow> ('h Node \<times> Fcnet) option"

text \<open>
  A packet that \<open>src\<close> sent to \<open>here\<close>. The handler runs; a packet it put into the send queue
  goes on to its \<^verbatim>\<open>LowerDst\<close>. The first argument bounds the number of handler calls.
\<close>

fun ping_transit :: "nat \<Rightarrow> fcenv \<Rightarrow> 'h fcnetwork \<Rightarrow> PeerID \<Rightarrow> PeerID \<Rightarrow> Packet \<Rightarrow> 'h fcnetwork option" where
  "ping_transit 0 F net src here pkt = None"
| "ping_transit (Suc n) F net src here pkt = do {
     (node, fc) \<leftarrow> net here;
     (node, fc, _) \<leftarrow> handlePingPacket F node fc (NewLowerPacket (pkt\<lparr>LowerSrc := src\<rparr>));
     (case RingBuffer_Get (lowerSendQ node) of
        None \<Rightarrow> Some (net(here \<mapsto> (node, fc)))
      | Some (p, q) \<Rightarrow>
          ping_transit n F (net(here \<mapsto> (node\<lparr>lowerSendQ := q\<rparr>, fc))) here (LowerDst p) p) }"

text \<open>
  Two connected neighbours, as a completed lower handshake leaves them: each has a slot for the other,
  knows it by that slot, and has the slot as its route.
\<close>

definition has_neighbour :: "'h fcnetwork \<Rightarrow> PeerID \<Rightarrow> byte \<Rightarrow> PeerID \<Rightarrow> bool" where
  "has_neighbour net a out b =
     (case net a of
        None \<Rightarrow> False
      | Some (node, fc) \<Rightarrow>
          slots (forwarder node) (unat out) = Some (Slot b Remote) \<and> bypeer (forwarder node) b = Some (unat out) \<and>
          GetRoute (routing node) b = Inr (NewRoute [out]) \<and> empty_queue (lowerSendQ node))"

fun ping_path :: "'h fcnetwork \<Rightarrow> PeerID \<Rightarrow> hop list \<Rightarrow> bool" where
  "ping_path net a [] = True"
| "ping_path net a ((out, b, inn) # rest) = (has_neighbour net a out b \<and> has_neighbour net b inn a \<and> ping_path net b rest)"

lemma has_neighbourD:
  assumes "has_neighbour net a out b"
  obtains node fc where "net a = Some (node, fc)" "slots (forwarder node) (unat out) = Some (Slot b Remote)"
    "bypeer (forwarder node) b = Some (unat out)" "GetRoute (routing node) b = Inr (NewRoute [out])"
    "empty_queue (lowerSendQ node)"
  using assms by (auto simp: has_neighbour_def split: option.splits)

lemma ping_path_append:
  "ping_path net a (xs @ ys) \<longleftrightarrow> ping_path net a xs \<and> ping_path net (path_end a xs) ys"
  by (induction net a xs rule: ping_path.induct) auto

lemma ping_path_back: "ping_path net a hs \<Longrightarrow> ping_path net (path_end a hs) (way_back a hs)"
  by (induction net a hs rule: ping_path.induct) (auto simp: ping_path_append back_end)

text \<open>A path ends with the hop from the last node but one.\<close>

lemma path_snoc: "path_end a (hs @ [(out, b, inn)]) = b" by simp

lemma pinged_LowerSrc [simp]: "pinged (P\<lparr>LowerSrc := x\<rparr>) = pinged P"
  by (intro ext) (simp add: pinged_def)

section \<open>On the way\<close>

text \<open>One handler call that passes the packet on, and leaves the node as it was.\<close>

lemma ping_step:
  assumes "net b = Some (node, fc)"
    and "handlePingPacket F node fc (NewLowerPacket (P\<lparr>LowerSrc := a\<rparr>)) = Some (node\<lparr>lowerSendQ := lq\<rparr>, fc, None)"
    and "RingBuffer_Get lq = Some (Q, lowerSendQ node)" and "LowerDst Q = c"
  shows "ping_transit (Suc n) F net a b P = ping_transit n F net b c Q"
proof -
  have "net(b \<mapsto> (node, fc)) = net" using assms(1) by (auto intro: ext)
  with assms show ?thesis by simp
qed

declare ping_transit.simps(2) [simp del]

lemma ping_passes:
  assumes "ping_path net a ((out, b, inn) # rest)" and "length ins + Suc (length rest) \<le> 14"
    and "pinged P pre (length ins) (ins @ out # outs rest) key reply pl tail"
  obtains Q where "ping_transit (length rest + n) F net a b P =
      ping_transit n F net (path_end a (butlast ((out, b, inn) # rest))) (path_end b rest) Q"
    "pinged Q pre (length ins + length rest) (ins @ butlast (inn # inns rest) @ [last (out # outs rest)]) key reply pl tail"
  using assms
proof (induction rest arbitrary: a out b inn ins P thesis)
  case Nil
  show ?case by (rule Nil.prems(1) [of P]) (use Nil.prems in auto)
next
  case (Cons hop rest)
  obtain out' c inn' where hop: "hop = (out', c, inn')" by (cases hop)
  let ?route = "ins @ out # out' # outs rest"
  from Cons.prems(2) hop have path: "ping_path net b ((out', c, inn') # rest)"
    and nb: "has_neighbour net b inn a" and nc: "has_neighbour net b out' c" by simp_all
  obtain node fc where node: "net b = Some (node, fc)" "bypeer (forwarder node) a = Some (unat inn)" "empty_queue (lowerSendQ node)"
    using nb by (rule has_neighbourD)
  have slot: "slots (forwarder node) (unat out') = Some (Slot c Remote)"
    using nc node(1) by (auto elim: has_neighbourD)
  have p: "pinged (P\<lparr>LowerSrc := a\<rparr>) pre (length ins) ?route key reply pl tail" using Cons.prems(4) hop by simp
  obtain Q lq where run: "handlePingPacket F node fc (NewLowerPacket (P\<lparr>LowerSrc := a\<rparr>)) = Some (node\<lparr>lowerSendQ := lq\<rparr>, fc, None)"
    "RingBuffer_Get lq = Some (Q, lowerSendQ node)" "LowerDst Q = c"
    and Q: "pinged Q pre (Suc (length ins)) (?route[length ins := of_nat (unat inn)]) key reply pl tail"
    by (rule handlePing_pass [OF p _ _ _ node(3), of "unat inn" c F fc]) (use node slot Cons.prems(3) in \<open>auto simp: nth_append\<close>)
  have step: "ping_transit (length (hop # rest) + n) F net a b P = ping_transit (length rest + n) F net b c Q"
    using ping_step [where P = P and a = a and node = node and lq = lq and net = net and b = b, OF node(1) run, of "length rest + n"] by simp
  have Q': "pinged Q pre (length (ins @ [inn])) ((ins @ [inn]) @ out' # outs rest) key reply pl tail"
    using Q by (simp add: list_update_append)
  have len: "length (ins @ [inn]) + Suc (length rest) \<le> 14" using Cons.prems(3) by simp
  obtain R where R: "ping_transit (length rest + n) F net b c Q =
      ping_transit n F net (path_end b (butlast ((out', c, inn') # rest))) (path_end c rest) R"
    "pinged R pre (length (ins @ [inn]) + length rest) ((ins @ [inn]) @ butlast (inn' # inns rest) @ [last (out' # outs rest)]) key reply pl tail"
    by (rule Cons.IH [OF _ path len Q'])
  show ?case
    by (rule Cons.prems(1) [of R]) (use R hop step in simp_all)
qed

section \<open>There and back\<close>

lemma back_snoc: "way_back a (xs @ [(out, e, inn)]) = (inn, path_end a xs, out) # way_back a xs"
  by (induction a xs rule: way_back.induct) auto

lemma outs_inns_append [simp]: "outs (xs @ ys) = outs xs @ outs ys" "inns (xs @ ys) = inns xs @ inns ys"
  by (simp_all add: outs_def inns_def)

text \<open>The node at the end of the path answers, and the answer is on its way.\<close>

lemma ping_turns:
  assumes V: "varint_ok (env_V (fc_env F))" and path: "ping_path net a (xs @ [(out, e, inn)])"
    and net: "net e = Some (node, fc)" and p: "pinged P pre (length xs) (inns xs @ [out]) key False pl tail"
  obtains Q pre' tail' where "ping_transit (Suc n) F net (path_end a xs) e P = ping_transit n F net e (path_end a xs) Q"
    "pinged Q pre' 0 (rev (inns xs @ [inn])) (PeerID_PublicKey (nd_peerid node)) True pl tail'"
proof -
  let ?s = "path_end a xs"
  have nb: "has_neighbour net e inn ?s" using path by (simp add: ping_path_append)
  have nd: "slots (forwarder node) (unat inn) = Some (Slot ?s Remote)" "GetRoute (routing node) ?s = Inr (NewRoute [inn])"
    "empty_queue (lowerSendQ node)"
    using nb net by (auto elim: has_neighbourD)
  have p': "pinged (P\<lparr>LowerSrc := ?s\<rparr>) pre (length xs) (inns xs @ [out]) key False pl tail" using p by simp
  obtain Q lq pre' tail' where run: "handlePingPacket F node fc (NewLowerPacket (P\<lparr>LowerSrc := ?s\<rparr>)) = Some (node\<lparr>lowerSendQ := lq\<rparr>, fc, None)"
    "RingBuffer_Get lq = Some (Q, lowerSendQ node)" "LowerDst Q = ?s"
    and Q: "pinged Q pre' 0 (rev ((inns xs @ [out])[length xs := inn])) (PeerID_PublicKey (nd_peerid node)) True pl tail'"
    by (rule handlePing_answer [OF V p' _ _ _ nd(1,3), where prevrt = "NewRoute [inn]" and fc = fc]) (use nd(2) in auto)
  have "(inns xs @ [out])[length xs := inn] = inns xs @ [inn]" by (simp add: list_update_append)
  with Q show thesis
    by (intro that [of Q pre' tail'] ping_step [where P = P and a = ?s and node = node and lq = lq and net = net and b = e, OF net run]) simp
qed

lemma ping_round_trip:
  assumes V: "varint_ok (env_V (fc_env F))" and C: "crypto_ok (env_C (fc_env F))" and I: "icmp_ok (fc_icmp F)"
    and path: "ping_path net a ((out, b, inn) # rest)" and len: "Suc (length rest) \<le> 14"
    and p: "pinged P pre 0 (out # outs rest) key False pl tail" and a: "net a = Some (node, fc)"
    and e: "net (path_end b rest) = Some (enode, efc)"
    and pl: "ipv6_packet (fc_ip fc) dst pl" "length (AsSlice (fc_ip fc)) = 16" and dev: "\<And>b. dev_Write F b = None"
  obtains pkt where "ping_transit (2 * Suc (length rest)) F net a b P =
      Some (net(a \<mapsto> (node, fc\<lparr>dev_out := dev_out fc @ [pkt]\<rparr>)))"
    "time_exceeded_packet (pid_addr (env_C (fc_env F)) (nd_peerid enode)) (fc_ip fc) pl pkt"
proof -
  let ?hs = "(out, b, inn) # rest" and ?e = "path_end b rest" and ?n = "length rest"
  obtain xs out' e' inn' where hs: "?hs = xs @ [(out', e', inn')]" by (metis rev_exhaust list.distinct(1) prod_cases3)
  have e': "e' = ?e" using arg_cong [OF hs, of "path_end a"] by simp
  have lx: "length xs = ?n" using arg_cong [OF hs, of length] by simp
  have io: "inn # inns rest = inns xs @ [inn']" "out # outs rest = outs xs @ [out']"
    using arg_cong [OF hs, of inns] arg_cong [OF hs, of outs] by simp_all
  obtain Q where forth: "ping_transit (?n + (Suc (?n + Suc 0))) F net a b P =
      ping_transit (Suc (?n + Suc 0)) F net (path_end a (butlast ?hs)) ?e Q"
    and Q: "pinged Q pre (length ([] :: bytes) + ?n) ([] @ butlast (inn # inns rest) @ [last (out # outs rest)]) key False pl tail"
    by (rule ping_passes [OF path, of "[]" P pre key False pl tail "Suc (?n + Suc 0)" F]) (use p len in simp_all)
  have src: "path_end a (butlast ?hs) = path_end a xs" unfolding hs by simp
  have Q': "pinged Q pre (length xs) (inns xs @ [out']) key False pl tail" using Q unfolding io lx by simp
  have path': "ping_path net a (xs @ [(out', ?e, inn')])" using path unfolding hs e' .
  obtain R pre' tail' where turn: "ping_transit (Suc (?n + Suc 0)) F net (path_end a xs) ?e Q = ping_transit (?n + Suc 0) F net ?e (path_end a xs) R"
    and R: "pinged R pre' 0 (rev (inns xs @ [inn'])) (PeerID_PublicKey (nd_peerid enode)) True pl tail'"
    by (rule ping_turns [OF V path' e Q'])
  have wb: "way_back a ?hs = (inn', path_end a xs, out') # way_back a xs" unfolding hs back_snoc ..
  have ways: "ping_path net ?e ((inn', path_end a xs, out') # way_back a xs)" using ping_path_back [OF path] unfolding wb by simp
  have R0: "pinged R pre' (length ([] :: bytes)) ([] @ inn' # outs (way_back a xs)) (PeerID_PublicKey (nd_peerid enode)) True pl tail'"
    using R by (simp add: back_outs)
  have len0: "length ([] :: bytes) + Suc (length (way_back a xs)) \<le> 14" using len lx by simp
  obtain S where home: "ping_transit (length (way_back a xs) + Suc 0) F net ?e (path_end a xs) R =
      ping_transit (Suc 0) F net (path_end ?e (butlast ((inn', path_end a xs, out') # way_back a xs))) (path_end (path_end a xs) (way_back a xs)) S"
    and S: "pinged S pre' (length ([] :: bytes) + length (way_back a xs)) ([] @ butlast (out' # inns (way_back a xs)) @ [last (inn' # outs (way_back a xs))])
      (PeerID_PublicKey (nd_peerid enode)) True pl tail'"
    by (rule ping_passes [OF ways len0 R0, of "Suc 0" F])
  have last_hop: "path_end ?e (butlast ((inn', path_end a xs, out') # way_back a xs)) = b" "path_end (path_end a xs) (way_back a xs) = a"
    unfolding wb [symmetric] by (simp_all add: back_end)
  have nb: "GetRoute (routing node) b = Inr (NewRoute [out])" "empty_queue (lowerSendQ node)"
    using path a by (auto elim: has_neighbourD)
  have pS: "pinged (S\<lparr>LowerSrc := b\<rparr>) pre' (length xs) (butlast (out' # inns (way_back a xs)) @ [last (inn' # outs (way_back a xs))])
      (PeerID_PublicKey (nd_peerid enode)) True pl tail'" using S by simp
  have lS: "Suc (length xs) = length (butlast (out' # inns (way_back a xs)) @ [last (inn' # outs (way_back a xs))])"
    by (simp del: butlast.simps last.simps)
  obtain pkt where run: "handlePingPacket F node fc (NewLowerPacket (S\<lparr>LowerSrc := b\<rparr>)) = Some (node, fc\<lparr>dev_out := dev_out fc @ [pkt]\<rparr>, None)"
    and pkt: "time_exceeded_packet (pid_addr (env_C (fc_env F)) (nd_peerid enode)) (fc_ip fc) pl pkt"
    by (rule handlePing_reply [OF C I pS lS _ _ pl dev, where prevrt = "NewRoute [out]" and node = node]) (use nb in auto)
  have "ping_transit (Suc 0) F net b a S = Some (net(a \<mapsto> (node, fc\<lparr>dev_out := dev_out fc @ [pkt]\<rparr>)))"
    using a run nb(2) by (simp add: ping_transit.simps(2) RingBuffer_Get_def chan_recv_def empty_queue_def)
  then have "ping_transit (?n + Suc (?n + Suc 0)) F net a b P = Some (net(a \<mapsto> (node, fc\<lparr>dev_out := dev_out fc @ [pkt]\<rparr>)))"
    unfolding forth src turn using home lx last_hop by simp
  moreover have "?n + Suc (?n + Suc 0) = 2 * Suc ?n" by simp
  ultimately show thesis using that pkt by metis
qed

section \<open>The packet that starts it\<close>

lemma handleTun_ping:
  assumes V: "varint_ok (env_V (fc_env F))" and tp: "tun_packet fc dst 58 hl buf"
    and look: "LookupIPv6 (routing node) dst = Inr pid" and rt: "GetRoute (routing node) pid = Inr route"
    and hops: "unat hl < length (hops route)" "take (unat hl) (hops route) = r # rs" "length (r # rs) \<le> 14"
    and slot: "slots (forwarder node) (unat r) = Some (Slot b Remote)"
    and fits: "104 + length buf \<le> TptMTU" and q: "empty_queue (lowerSendQ node)"
  obtains Q lq pre tail where "handleTunPacket F node fc buf = Some (node\<lparr>lowerSendQ := lq\<rparr>, fc, None)"
    "RingBuffer_Get lq = Some (Q, lowerSendQ node)" "LowerDst Q = b"
    "pinged Q pre 0 (r # rs) (PeerID_PublicKey (nd_peerid node)) False buf tail"
proof -
  let ?V = "env_V (fc_env F)" and ?key = "PeerID_PublicKey (nd_peerid node)"
  let ?P0 = "(NewPacket (replicate TptMTU 0))\<lparr>LowerSrc := nd_peerid node\<rparr>"
  have l14: "length (hops (NewRoute (r # rs))) \<le> 14" using hops(3) by simp
  have blank: "Buf ?P0 = replicate TptMTU 0" by (simp add: NewPacket_def)
  obtain p1 p2 p3 p4 p5 pre0 tail where made: "NewPingPacket ?P0 = Some p1" "Ping_SetRoute p1 (NewRoute (r # rs)) = Some p2"
    "Ping_SetSender p2 ?key = Some p3" "SetIsReply p3 False = Some p4" "Ping_SetPayload p4 buf = Some p5"
    and p5: "pinged (base p5) pre0 0 (hops (NewRoute (r # rs))) ?key False buf tail" "p5 = ping_frame (base p5)"
    by (rule pinged_built [OF l14 wf_PeerID_PublicKey fits blank, where reply = False]) (rule that)
  obtain p0 where p0: "NewPingPacket (NewPacket (replicate TptMTU 0)) = Some p0"
    by (rule pinged_built [OF l14 wf_PeerID_PublicKey fits, of "NewPacket (replicate TptMTU 0)"]) (auto simp: NewPacket_def)
  have p1: "p0\<lparr>base := (base p0)\<lparr>LowerSrc := nd_peerid node\<rparr>\<rparr> = p1"
    using NewPingPacket_LowerSrc [OF p0, of "nd_peerid node"] made(1) by simp
  have src: "LowerSrc (base p2) = nd_peerid node"
    using made(2) p1 by (auto simp: Ping_SetRoute_def with_buf_def split: Option.bind_splits)
  obtain Q lq pre where run: "send_ping ?V node (ping_frame (base p5)) = Some (node\<lparr>lowerSendQ := lq\<rparr>, None)"
    and Q: "RingBuffer_Get lq = Some (Q, lowerSendQ node)" "pinged Q pre 0 (r # rs) ?key False buf tail" "LowerDst Q = b"
    by (rule send_ping_run [OF V p5(1) [unfolded hops_NewRoute] slot q])
  have run': "send_ping ?V node p5 = Some (node\<lparr>lowerSendQ := lq\<rparr>, None)" using run by (simp only: p5(2) [symmetric])
  obtain lb gl sb db where rd: "slice_of buf 4 6 = Some lb" "be_uint16 lb = Some gl" "uint gl = int (ip_length buf)"
    "idx buf 6 = Some 58" "idx buf 7 = Some hl" "slice_of buf 8 24 = Some sb" "slice_of buf 24 40 = Some db"
    "fst (AddrFromSlice sb) = fc_ip fc" "fst (AddrFromSlice db) = dst" "int (length buf) = int (ip_length buf) + 40"
    by (rule handleTun_reads [OF tp])
  have few: "uint hl < int (length (hops route))" "nat (uint hl) = unat hl" using hops(1) by (simp_all only: uint_nat of_nat_less_iff nat_int)
  have "handleTunPacket F node fc buf = Some (node\<lparr>lowerSendQ := lq\<rparr>, fc, None)"
    using rd look rt few hops(2) made(2-5) p0 p1 src run' tp
    by (simp add: handleTunPacket_def tun_packet_def ipv6_HeaderLen_def Route_Len_def Route_Bytes_def)
  with that Q show thesis by simp
qed

end
