(* ===== verification/FcnetProperties.thy ===== *)
theory FcnetProperties
  imports Traceroute NodeProperties
begin

text \<open>What the IPv6 network promises: delivery between tunnels, filtering, and the path of a ping.\<close>

section \<open>Delivery\<close>

text \<open>
  C10. Tunnel to tunnel. Node A reads from its tunnel a complete IPv6 packet from its own address to
  the address of its neighbour B, with a hop limit of at least one and no longer than the upper MTU, and the two nodes
  share an established session. Then one step of every routine on the way, the datagram between
  the two, and the handler that Fcnet registered at B write exactly these bytes to the tunnel of B.
\<close>

theorem fcnet_delivery:
  assumes C: "crypto_ok (env_C E)" and V: "varint_ok (env_V E)" and F: "fc_env F = E" "dev_Write F buf = None"
    and a: "node_inv (env_C E) ka a" and b: "node_inv (env_C E) kb b"
    and pair: "paired (sessions a) (sessions b) ix" and order: "set (env_order E) = dom (store (sessions a))"
    and unique: "\<And>i s. store (sessions a) i = Some (Some s) \<Longrightarrow> remotePeerID s = nd_peerid b \<Longrightarrow>
      i = ix \<and> \<not> Multiaddr_Empty (remoteAddr s)"
    and route: "GetRoute (routing a) (nd_peerid b) = Inr (NewRoute [slot])"
      "LookupIPv6 (routing a) (fc_ip fcb) = Inr (nd_peerid b)"
    and ids: "\<not> PeerID_Empty (nd_peerid a)" "\<not> PeerID_Empty (nd_peerid b)"
    and ips: "fc_ip fca = pid_addr (env_C E) (nd_peerid a)" "fc_ip fcb = pid_addr (env_C E) (nd_peerid b)"
    and qa: "empty_queue (upperSendQ a)" "empty_queue (lowerSendQ a)" "transports a = tpt # tpts" "empty_queue (sendQ tpt)"
    and qb: "empty_queue (lowerRecvQ b)" "empty_queue (lowerMuxQ b)" "empty_queue (upperMuxQ b)"
    and handler: "upperHandlers b FcnetMulticodec = Some FcnetHandler"
    and tp: "tun_packet fca (fc_ip fcb) nexthdr hl buf" "hl \<noteq> 0" and fits: "int (length buf) \<le> UpperMTU"
  shows "\<exists>a1 a2 a3 tpt1 tpt2 dgram dst rq b1 b2 b3 upkt.
    handleTunPacket F a fca buf = Some (a1, fca, None) \<and>
    upperSendRoutine E a1 = Some a2 \<and> lowerSendRoutine E a2 = Some a3 \<and> transports a3 = tpt1 # tpts \<and>
    Transport_SendStep tpt1 = Some (tpt2, Some (dgram, dst)) \<and>
    Transport_RecvStep (Inr (dgram, src)) (lowerRecvQ b) = Some rq \<and>
    lowerRecvRoutine E (b\<lparr>lowerRecvQ := rq\<rparr>) = Some b1 \<and> lowerMuxRoutine E b1 = Some b2 \<and>
    upperMuxRoutine E b2 = Some b3 \<and> upper_calls b3 = upper_calls b @ [(FcnetHandler, upkt)] \<and>
    fcnetHandler (env_C E) F fcb upkt = Some (fcb\<lparr>dev_out := dev_out fcb @ [buf]\<rparr>, None)"
proof -
  have "0 < unat hl" using tp(2) by (simp add: unat_gt_0)
  then have hops: "Route_Len (NewRoute [slot]) \<le> int (unat hl)" "length (hops (NewRoute [slot])) \<le> 14"
    by (simp_all add: Route_Len_def del: of_nat_unat)
  obtain P uq where tun: "handleTunPacket F a fca buf = Some (a\<lparr>upperSendQ := uq\<rparr>, fca, None)"
    and P: "RingBuffer_Get uq = Some (P, upperSendQ a)" "UpperDst P = nd_peerid b" "labelled (Buf P) 0 [slot]"
      "Length P = 88 + int (length buf)" "length (Buf P) = TptMTU"
      "slice_of (Buf P) 56 (56 + int (length buf)) = Some buf"
      "slice_of (Buf P) 52 56 = Some (ToUvarint (env_V E) FcnetMulticodec @
         replicate (4 - length (ToUvarint (env_V E) FcnetMulticodec)) 0)"
    by (rule handleTun_send [OF V [folded F(1)] tp(1) route(2,1) hops fits qa(1)]) (simp add: F(1))
  have small: "FcnetMulticodec < 2 ^ 28" by (simp add: FcnetMulticodec_def)
  have un: "\<forall>i s. store (sessions a) i = Some (Some s) \<longrightarrow> remotePeerID s = nd_peerid b \<longrightarrow>
      i = ix \<and> \<not> Multiaddr_Empty (remoteAddr s)" using unique by blast
  note run = direct_run [OF C V a b pair order un ids qa qb handler small fits P, where src = src]
  have pkt: "ipv6_packet (pid_addr (env_C E) (nd_peerid a)) (fc_ip fcb) buf"
    using tp(1) ips(1) by (simp add: tun_packet_def)
  have deliver: "fcnetHandler (env_C E) F fcb upkt = Some (fcb\<lparr>dev_out := dev_out fcb @ [buf]\<rparr>, None)"
    if "UpperPacket_Payload upkt = Some buf" "UpperSrc (base upkt) = nd_peerid a" for upkt
    using that handleFcnet_accept [OF pkt] F(2) by (simp add: fcnetHandler_def device_Write_def)
  from run show ?thesis using tun deliver by blast
qed

text \<open>The two nodes of the concrete runs with the network started on B, and a packet from one to the other.\<close>

definition ref_icmp :: icmplib where
  "ref_icmp = \<lparr>IPv6PseudoHeader = (\<lambda>s d. s @ d @ replicate 7 0 @ [58]), TimeExceeded_Marshal = (\<lambda>b. Inr (replicate 4 0 @ b))\<rparr>"

definition ex_fcenv :: fcenv where
  "ex_fcenv = \<lparr>fc_env = ex_env, fc_icmp = ref_icmp, dev_Write = (\<lambda>_. None), fc1_Write = (\<lambda>_. None)\<rparr>"

definition ex_ip :: "byte \<Rightarrow> Addr" where "ex_ip n = Addr6 (0xfc # replicate 15 n) []"

definition ex_fc :: "byte \<Rightarrow> Fcnet" where
  "ex_fc n = \<lparr>fc_ip = ex_ip n, dev_out = [], fc1_out = [], fc1_tun = False, fc1_dns = False\<rparr>"

definition ex_ipv6 :: "byte \<Rightarrow> byte \<Rightarrow> byte \<Rightarrow> byte \<Rightarrow> bytes" where
  "ex_ipv6 nexthdr hl s d = [0x60, 0, 0, 0, 0, 1, nexthdr, hl] @ AsSlice (ex_ip s) @ AsSlice (ex_ip d) @ [42]"

definition ex_fc_b :: "fc_handler Node" where
  "ex_fc_b = fst (Fcnet_Start None None ((NewNode ref_crypto (ex_key 2))\<lparr>sessions := ex_b\<rparr>) (ex_fc 2))"

lemma ref_icmp_ok: "icmp_ok ref_icmp"
  by (simp add: icmp_ok_def ref_icmp_def)

lemma ex_ip_addr: "pid_addr ref_crypto (NewPeerID \<lparr>pub_bytes = replicate 32 n\<rparr>) = ex_ip n"
  by (simp add: wf_pub_def)
    (simp add: PublicKey_IPAddr_def ref_crypto_def ref_hash_def ex_ip_def AddrFromSlice_def Let_def numeral_eq_Suc)

lemma ex_tun_packet: "tun_packet (ex_fc s) (ex_ip d) nexthdr hl (ex_ipv6 nexthdr hl s d)"
proof -
  have "replicate 15 d \<noteq> replicate 14 0 @ [1]" by (auto simp: numeral_eq_Suc)
  then show ?thesis
    by (simp add: tun_packet_def ipv6_packet_def ex_fc_def ex_ipv6_def ip_length_def ex_ip_def)
      (simp add: linklocalPrefix_def multicastPrefix_def fc1Addr_def same_bits_def)
qed

lemma ex_fc_b_simps:
  "nd_peerid ex_fc_b = NewPeerID \<lparr>pub_bytes = replicate 32 2\<rparr>" "sessions ex_fc_b = ex_b"
  "upperHandlers ex_fc_b FcnetMulticodec = Some FcnetHandler" "lowerRecvQ ex_fc_b = NewRingBuffer DefaultQueueSize"
  "lowerMuxQ ex_fc_b = NewRingBuffer DefaultQueueSize" "upperMuxQ ex_fc_b = NewRingBuffer DefaultQueueSize"
  by (simp_all add: ex_fc_b_def Fcnet_Start_def initFcnet1_def initDns_def Handle_def HandleLower_def NewNode_simps ex_key_def
      ref_PublicKey)

lemma ex_fc_b_inv: "node_inv ref_crypto (ex_key 2) ex_fc_b"
  unfolding ex_fc_b_def Fcnet_Start_def initFcnet1_def initDns_def Let_def
  by (simp, intro api_inv(3,4) node_inv_sessions NewNode_inv ref_crypto_ok wf_ex_key ex_ab_inv(2))
    (simp add: ex_b_def ex_sm_simps ex_key_def)

theorem fcnet_delivery_witness:
  "\<exists>a1 a2 a3 tpt1 tpt2 dgram dst rq b1 b2 b3 upkt.
    handleTunPacket ex_fcenv (ex_node_a :: nat Node) (ex_fc 1) (ex_ipv6 17 64 1 2) = Some (a1, ex_fc 1, None) \<and>
    upperSendRoutine ex_env a1 = Some a2 \<and> lowerSendRoutine ex_env a2 = Some a3 \<and> transports a3 = tpt1 # [] \<and>
    Transport_SendStep tpt1 = Some (tpt2, Some (dgram, dst)) \<and>
    Transport_RecvStep (Inr (dgram, (Addr4 [127, 0, 0, 1], 1312))) (lowerRecvQ ex_fc_b) = Some rq \<and>
    lowerRecvRoutine ex_env (ex_fc_b\<lparr>lowerRecvQ := rq\<rparr>) = Some b1 \<and> lowerMuxRoutine ex_env b1 = Some b2 \<and>
    upperMuxRoutine ex_env b2 = Some b3 \<and> upper_calls b3 = upper_calls ex_fc_b @ [(FcnetHandler, upkt)] \<and>
    fcnetHandler ref_crypto ex_fcenv (ex_fc 2) upkt = Some ((ex_fc 2)\<lparr>dev_out := dev_out (ex_fc 2) @ [ex_ipv6 17 64 1 2]\<rparr>, None)"
proof -
  have E: "env_C ex_env = ref_crypto" "env_V ex_env = ref_varint" "env_order ex_env = [7]" "fc_env ex_fcenv = ex_env"
    by (simp_all add: ex_env_def ex_fcenv_def)
  have q: "empty_queue (NewRingBuffer DefaultQueueSize)" "empty_queue (sendQ ex_tpt)"
    by (simp_all add: empty_queue_def NewRingBuffer_def DefaultQueueSize_def ex_tpt_def TransportBufferSize_def)
  have addr: "\<not> Multiaddr_Empty ex_addr"
    by (simp add: ex_addr_def FromAddrPort_def Multiaddr_Empty_def emptyMultiaddr_def)
  have st: "store (sessions (ex_node_a :: nat Node)) = [7 \<mapsto> Some ((ex_end True 1 2 5 6)\<lparr>remoteAddr := ex_addr\<rparr>)]"
    by (simp add: ex_node_a_def ex_sm_simps)
  have rt: "GetRoute (routing (ex_node_a :: nat Node)) (NewPeerID \<lparr>pub_bytes = replicate 32 2\<rparr>) = Inr (NewRoute [1])"
    "LookupIPv6 (routing (ex_node_a :: nat Node)) (ex_ip 2) = Inr (NewPeerID \<lparr>pub_bytes = replicate 32 2\<rparr>)"
    by (simp_all add: ex_node_a_def GetRoute_def LookupIPv6_def AddRoute_def NewRouting_def ex_ip_addr)
  have pr: "paired (sessions (ex_node_a :: nat Node)) (sessions ex_fc_b) 7"
    using ex_paired by (simp add: paired_def ex_node_a_def ex_fc_b_simps ex_a_def set_session_def)
  have len: "int (length (ex_ipv6 17 64 1 2)) \<le> UpperMTU" by (simp add: ex_ipv6_def ex_ip_def UpperMTU_def)
  have un: "i = 7 \<and> \<not> Multiaddr_Empty (remoteAddr s)"
    if "store (sessions (ex_node_a :: nat Node)) i = Some (Some s)" "remotePeerID s = nd_peerid ex_fc_b" for i s
    using that addr by (auto simp: st split: if_splits)
  have qa: "empty_queue (upperSendQ (ex_node_a :: nat Node))" "empty_queue (lowerSendQ (ex_node_a :: nat Node))"
    "transports (ex_node_a :: nat Node) = ex_tpt # []"
    using q by (simp_all add: ex_node_a_def NewNode_simps)
  have qb: "empty_queue (lowerRecvQ ex_fc_b)" "empty_queue (lowerMuxQ ex_fc_b)" "empty_queue (upperMuxQ ex_fc_b)"
    using q by (simp_all add: ex_fc_b_simps)
  have ip: "fc_ip (ex_fc n) = ex_ip n" for n by (simp add: ex_fc_def)
  show ?thesis
  proof (rule fcnet_delivery [OF _ _ E(4) _ _ _ pr _ un _ _ _ _ _ _ qa q(2) qb ex_fc_b_simps(3) _ _ len, unfolded E(1,2)])
    show "GetRoute (routing (ex_node_a :: nat Node)) (nd_peerid ex_fc_b) = Inr (NewRoute [1])"
      "LookupIPv6 (routing (ex_node_a :: nat Node)) (fc_ip (ex_fc 2)) = Inr (nd_peerid ex_fc_b)"
      using rt by (simp_all add: ip ex_fc_b_simps)
    show "tun_packet (ex_fc 1) (fc_ip (ex_fc 2)) 17 64 (ex_ipv6 17 64 1 2)" unfolding ip by (rule ex_tun_packet)
    show "fc_ip (ex_fc 1) = pid_addr ref_crypto (nd_peerid (ex_node_a :: nat Node))" "fc_ip (ex_fc 2) = pid_addr ref_crypto (nd_peerid ex_fc_b)"
      by (simp_all only: ip ex_nodes_simps ex_fc_b_simps ex_ip_addr)
  qed (use ref_crypto_ok ref_varint_ok ex_node_a_inv ex_fc_b_inv ex_peerids in
      \<open>simp_all add: E st ex_nodes_simps ex_fc_b_simps ex_fcenv_def\<close>)
qed

section \<open>Filtering\<close>

text \<open>
  The handler that \<^verbatim>\<open>Start\<close> registers, called by the mux on a sequence of packets; the identity a packet came with is its
  \<open>UpperSrc\<close>. The payload is sliced before anything is checked.
\<close>

fun receive_all :: "crypto \<Rightarrow> fcenv \<Rightarrow> Fcnet \<Rightarrow> Packet list \<Rightarrow> Fcnet option" where
  "receive_all C F fc [] = Some fc"
| "receive_all C F fc (p # rest) = do {
     (fc, _) \<leftarrow> fcnetHandler C F fc (NewUpperPacket p);
     receive_all C F fc rest }"

definition has_payload :: "Packet \<Rightarrow> bool" where
  "has_payload p \<longleftrightarrow> 88 \<le> Length p \<and> Length p \<le> int (length (Buf p)) + 32"

definition upper_payload :: "Packet \<Rightarrow> bytes" where
  "upper_payload p = take (nat (Length p - 88)) (drop 56 (Buf p))"

lemma UpperPacket_Payload_range:
  "UpperPacket_Payload (NewUpperPacket p) = (if has_payload p then Some (upper_payload p) else None)"
  by (auto simp: UpperPacket_Payload_def NewUpperPacket_def UpperOffset_def slice_of_def has_payload_def upper_payload_def)

text \<open>
  C12. No spoofing by the handler of upper packets. Let any packets be given, in any order, to the handler that the network registers for its codec.
  It panics exactly if one of them has no payload, that is a length below 88 or one beyond its buffer: the
  slice of the payload is out of range. Otherwise it returns on each, and what it writes to the tunnel are, in order, exactly the payloads
  that are complete IPv6 packets from the address of the identity the packet came with to the node's own address (as far as
  the tunnel takes them). This is the path of data packets only: the handler of ping replies writes Time Exceeded packets
  with the address of a key that the reply itself names, and the name service writes its answers.
\<close>

theorem fcnet_no_spoofing:
  "if list_all has_payload pkts
   then \<exists>fc'. receive_all C F fc pkts = Some fc' \<and> fc_ip fc' = fc_ip fc \<and>
     dev_out fc' = dev_out fc @ map upper_payload (filter (\<lambda>p.
       ipv6_packet (pid_addr C (UpperSrc p)) (fc_ip fc) (upper_payload p) \<and> dev_Write F (upper_payload p) = None) pkts)
   else receive_all C F fc pkts = None"
proof (induction pkts arbitrary: fc)
  case (Cons p pkts)
  have h: "fcnetHandler C F fc (NewUpperPacket p) =
      (if has_payload p then handleFcnetPacket C F fc (UpperSrc p) (upper_payload p) else None)"
    by (simp add: fcnetHandler_def UpperPacket_Payload_range) (simp add: NewUpperPacket_def)
  show ?case
  proof (cases "ipv6_packet (pid_addr C (UpperSrc p)) (fc_ip fc) (upper_payload p)")
    case True
    from handleFcnet_accept [OF this] Cons.IH [of fc] Cons.IH [of "fc\<lparr>dev_out := dev_out fc @ [upper_payload p]\<rparr>"] True h
    show ?thesis by (cases "dev_Write F (upper_payload p)") (auto simp: device_Write_def)
  next
    case False
    from handleFcnet_refuse [OF this, of F] Cons.IH [of fc] False h show ?thesis by auto
  qed
qed simp

text \<open>
  C26. What a node sends for its tunnel. A packet read from the tunnel changes the node (that is, puts
  something into one of its queues) only if it is a complete packet from the node's own address to an
  address that is neither multicast nor that of the name service and belongs to a peer with a route.
  Everything else is dropped, reported, or written to the name service, and the node stays as it is.
\<close>

theorem tun_filter:
  assumes "handleTunPacket F node fc buf = Some (node', fc', r)" and "node' \<noteq> node"
  shows "40 \<le> length buf \<and> length buf = ip_length buf + 40 \<and> fc' = fc \<and>
    fst (AddrFromSlice (take 16 (drop 8 buf))) = fc_ip fc \<and>
    (let dst = fst (AddrFromSlice (take 16 (drop 24 buf))) in
       \<not> Contains multicastPrefix dst \<and> dst \<noteq> fc1Addr \<and>
       (\<exists>pid route. LookupIPv6 (routing node) dst = Inr pid \<and> GetRoute (routing node) pid = Inr route))"
proof (cases "length buf < 40")
  case True
  with assms show ?thesis by (simp add: handleTunPacket_def ipv6_HeaderLen_def)
next
  case False
  obtain lb gl where l: "slice_of buf 4 6 = Some lb" "be_uint16 lb = Some gl" "unat gl = ip_length buf"
    by (rule read_length [of buf]) (use False in auto)
  have u: "uint gl = int (ip_length buf)" using l(3) by (metis uint_nat)
  have s: "slice_of buf 8 24 = Some (take 16 (drop 8 buf))" "slice_of buf 24 40 = Some (take 16 (drop 24 buf))"
    "idx buf 6 = Some (buf ! 6)" "idx buf 7 = Some (buf ! 7)"
    using False by (auto simp: slice_of_def idx_def)
  let ?s = "fst (AddrFromSlice (take 16 (drop 8 buf)))" and ?d = "fst (AddrFromSlice (take 16 (drop 24 buf)))"
  have len: "int (length buf) = int (ip_length buf) + 40" and src: "?s = fc_ip fc" and dst: "\<not> Contains multicastPrefix ?d" "?d \<noteq> fc1Addr"
    using assms False l(1,2) u s
    by (auto simp: handleTunPacket_def ipv6_HeaderLen_def Let_def split: if_splits prod.splits)
  then show ?thesis
    using assms False l(1,2) u s
    by (auto simp: handleTunPacket_def ipv6_HeaderLen_def Let_def split: if_splits prod.splits sum.splits Option.bind_splits)
qed

theorem tun_filter_witness:
  "\<exists>node'. handleTunPacket ex_fcenv (ex_node_a :: nat Node) (ex_fc 1) (ex_ipv6 17 64 1 2) = Some (node', ex_fc 1, None) \<and>
     node' \<noteq> ex_node_a \<and> length (ex_ipv6 17 64 1 2) = ip_length (ex_ipv6 17 64 1 2) + 40 \<and>
     fst (AddrFromSlice (take 16 (drop 8 (ex_ipv6 17 64 1 2)))) = fc_ip (ex_fc 1)"
proof -
  let ?a = "ex_node_a :: nat Node" and ?p = "ex_ipv6 17 64 1 2" and ?b = "NewPeerID \<lparr>pub_bytes = replicate 32 2\<rparr>"
  have V: "varint_ok (env_V (fc_env ex_fcenv))" using ref_varint_ok by (simp add: ex_fcenv_def ex_env_def)
  have rt: "GetRoute (routing ?a) ?b = Inr (NewRoute [1])" "LookupIPv6 (routing ?a) (ex_ip 2) = Inr ?b"
    by (simp_all add: ex_node_a_def GetRoute_def LookupIPv6_def AddRoute_def NewRouting_def ex_ip_addr)
  have q: "empty_queue (upperSendQ ?a)"
    by (simp add: ex_node_a_def NewNode_simps empty_queue_def NewRingBuffer_def DefaultQueueSize_def)
  obtain uq P where run: "handleTunPacket ex_fcenv ?a (ex_fc 1) ?p = Some (?a\<lparr>upperSendQ := uq\<rparr>, ex_fc 1, None)"
    and P: "RingBuffer_Get uq = Some (P, upperSendQ ?a)"
    by (rule handleTun_send [OF V ex_tun_packet rt(2,1) _ _ _ q])
      (auto simp: Route_Len_def ex_ipv6_def ex_ip_def UpperMTU_def)
  have "uq \<noteq> upperSendQ ?a" using P q by (auto simp: empty_queue_def RingBuffer_Get_def chan_recv_def)
  then have ne: "?a\<lparr>upperSendQ := uq\<rparr> \<noteq> ?a" by (auto dest: arg_cong [of _ _ upperSendQ])
  show ?thesis using tun_filter [OF run ne] run ne by blast
qed

section \<open>Ping\<close>

text \<open>
  C11. Traceroute. A chain of connected neighbours leads from A to some node within 14 hops, and A reads
  from its tunnel an ICMPv6 packet whose hop limit ends at that node, for a destination whose route goes
  on behind it. Then the packet A sends is passed on by the nodes on the way, answered by the
  node where the hop limit ends, and the answer passed back, with two handler calls for each hop; at the
  end no node but A has changed, and the tunnel of A has got a well-formed ICMPv6 Time Exceeded
  packet from the address of that node, with a valid checksum and the original packet as its body.
\<close>

theorem traceroute:
  assumes V: "varint_ok (env_V (fc_env F))" and C: "crypto_ok (env_C (fc_env F))" and I: "icmp_ok (fc_icmp F)"
    and dev: "\<And>b. dev_Write F b = None"
    and path: "ping_path net a hs" "hs \<noteq> []" "length hs \<le> 14" and a: "net a = Some (node, fc)"
    and e: "net (path_end a hs) = Some (enode, efc)"
    and tp: "tun_packet fc dst 58 hl buf" "unat hl = length hs" "104 + length buf \<le> TptMTU"
    and look: "LookupIPv6 (routing node) dst = Inr pid"
    and rt: "GetRoute (routing node) pid = Inr (NewRoute (outs hs @ more_hops))" "more_hops \<noteq> []"
  shows "\<exists>lq Q pkt. handleTunPacket F node fc buf = Some (node\<lparr>lowerSendQ := lq\<rparr>, fc, None) \<and>
    RingBuffer_Get lq = Some (Q, lowerSendQ node) \<and>
    ping_transit (2 * length hs) F net a (LowerDst Q) Q = Some (net(a \<mapsto> (node, fc\<lparr>dev_out := dev_out fc @ [pkt]\<rparr>))) \<and>
    time_exceeded_packet (pid_addr (env_C (fc_env F)) (nd_peerid enode)) (fc_ip fc) buf pkt"
proof -
  obtain out b inn rest where hs: "hs = (out, b, inn) # rest" using path(2) by (cases hs) auto
  have nb: "slots (forwarder node) (unat out) = Some (Slot b Remote)" "empty_queue (lowerSendQ node)"
    using path(1) a hs by (auto elim: has_neighbourD)
  have hops: "unat hl < length (hops (NewRoute (outs hs @ more_hops)))"
    "take (unat hl) (hops (NewRoute (outs hs @ more_hops))) = out # outs rest" "length (out # outs rest) \<le> 14"
    using tp(2) rt(2) hs path(3) by simp_all
  obtain Q lq pre tail where tun: "handleTunPacket F node fc buf = Some (node\<lparr>lowerSendQ := lq\<rparr>, fc, None)"
    "RingBuffer_Get lq = Some (Q, lowerSendQ node)" "LowerDst Q = b"
    and Q: "pinged Q pre 0 (out # outs rest) (PeerID_PublicKey (nd_peerid node)) False buf tail"
    by (rule handleTun_ping [OF V tp(1) look rt(1) hops nb(1) tp(3) nb(2)])
  have path': "ping_path net a ((out, b, inn) # rest)" and len: "Suc (length rest) \<le> 14"
    and e': "net (path_end b rest) = Some (enode, efc)" using path e hs by simp_all
  have ip: "ipv6_packet (fc_ip fc) dst buf" "length (AsSlice (fc_ip fc)) = 16"
    using tp(1) by (auto simp: tun_packet_def ipv6_packet_def dest: arg_cong [of _ _ length])
  obtain pkt where "ping_transit (2 * Suc (length rest)) F net a b Q = Some (net(a \<mapsto> (node, fc\<lparr>dev_out := dev_out fc @ [pkt]\<rparr>)))"
    "time_exceeded_packet (pid_addr (env_C (fc_env F)) (nd_peerid enode)) (fc_ip fc) buf pkt"
    by (rule ping_round_trip [OF V C I path' len Q a e' ip dev])
  with tun hs show ?thesis by (auto simp del: ping_transit.simps)
qed

text \<open>A chain of three nodes, and a route of three hops at the first.\<close>

definition ex_id :: "byte \<Rightarrow> PeerID" where "ex_id n = NewPeerID \<lparr>pub_bytes = replicate 32 n\<rparr>"

definition ex_ping_node :: "byte \<Rightarrow> (byte \<times> byte) list \<Rightarrow> (byte \<times> bytes) list \<Rightarrow> nat Node" where
  "ex_ping_node n nbs routes = (NewNode ref_crypto (ex_key n))
     \<lparr>forwarder := \<lparr>slots = map_of (map (\<lambda>(s, p). (unat s, Slot (ex_id p) Remote)) nbs),
                    bypeer = map_of (map (\<lambda>(s, p). (ex_id p, unat s)) nbs)\<rparr>,
      routing := fold (\<lambda>(p, hs) r. AddRoute ref_crypto r (ex_id p) (NewRoute hs)) routes NewRouting\<rparr>"

definition ex_ping_net :: "nat fcnetwork" where
  "ex_ping_net = [
     ex_id 1 \<mapsto> (ex_ping_node 1 [(3, 2)] [(2, [3]), (4, [3, 2, 5])], ex_fc 1),
     ex_id 2 \<mapsto> (ex_ping_node 2 [(1, 1), (2, 3)] [(1, [1]), (3, [2])], ex_fc 2),
     ex_id 3 \<mapsto> (ex_ping_node 3 [(4, 2)] [(2, [4])], ex_fc 3)]"

definition ex_ping_hops :: "hop list" where "ex_ping_hops = [(3, ex_id 2, 1), (2, ex_id 3, 4)]"

lemma ex_id_eq [simp]: "ex_id m = ex_id n \<longleftrightarrow> m = n"
  unfolding ex_id_def by (subst NewPeerID_inject) (auto simp: wf_pub_def)

lemma ex_ping_node_simps:
  "lowerSendQ (ex_ping_node n nbs routes) = NewRingBuffer DefaultQueueSize" "nd_peerid (ex_ping_node n nbs routes) = ex_id n"
  by (simp_all add: ex_ping_node_def NewNode_simps ex_id_def ex_key_def ref_PublicKey)

lemma ex_ping_path: "ping_path ex_ping_net (ex_id 1) ex_ping_hops"
  by (simp add: ex_ping_net_def ex_ping_hops_def has_neighbour_def ex_ping_node_simps empty_queue_def NewRingBuffer_def DefaultQueueSize_def)
    (simp add: ex_ping_node_def GetRoute_def AddRoute_def NewRouting_def)

theorem traceroute_witness:
  "\<exists>node lq Q pkt. ex_ping_net (ex_id 1) = Some (node, ex_fc 1) \<and>
    handleTunPacket ex_fcenv node (ex_fc 1) (ex_ipv6 58 2 1 4) = Some (node\<lparr>lowerSendQ := lq\<rparr>, ex_fc 1, None) \<and>
    RingBuffer_Get lq = Some (Q, lowerSendQ node) \<and>
    ping_transit 4 ex_fcenv ex_ping_net (ex_id 1) (LowerDst Q) Q =
      Some (ex_ping_net(ex_id 1 \<mapsto> (node, (ex_fc 1)\<lparr>dev_out := [pkt]\<rparr>))) \<and>
    time_exceeded_packet (ex_ip 3) (ex_ip 1) (ex_ipv6 58 2 1 4) pkt"
proof -
  have E: "env_C (fc_env ex_fcenv) = ref_crypto" "env_V (fc_env ex_fcenv) = ref_varint" "fc_icmp ex_fcenv = ref_icmp"
    "dev_Write ex_fcenv b = None" for b by (simp_all add: ex_env_def ex_fcenv_def)
  let ?n1 = "ex_ping_node 1 [(3, 2)] [(2, [3]), (4, [3, 2, 5])]" and ?n3 = "ex_ping_node 3 [(4, 2)] [(2, [4])]"
  have n: "ex_ping_net (ex_id 1) = Some (?n1, ex_fc 1)" "ex_ping_net (path_end (ex_id 1) ex_ping_hops) = Some (?n3, ex_fc 3)"
    by (simp_all add: ex_ping_net_def ex_ping_hops_def)
  have ips: "pid_addr ref_crypto (ex_id k) = ex_ip k" for k by (simp only: ex_id_def ex_ip_addr)
  have rt: "LookupIPv6 (routing ?n1) (ex_ip 4) = Inr (ex_id 4)" "GetRoute (routing ?n1) (ex_id 4) = Inr (NewRoute (outs ex_ping_hops @ [5]))"
    using ips by (simp_all add: ex_ping_node_def GetRoute_def LookupIPv6_def AddRoute_def NewRouting_def ex_ping_hops_def)
  have sz: "unat (2 :: byte) = length ex_ping_hops" "104 + length (ex_ipv6 58 2 1 4) \<le> TptMTU"
    by (simp_all add: ex_ping_hops_def ex_ipv6_def ex_ip_def TptMTU_def)
  have fc: "fc_ip (ex_fc 1) = ex_ip 1" "dev_out (ex_fc 1) = []" by (simp_all add: ex_fc_def)
  have "\<exists>lq Q pkt. handleTunPacket ex_fcenv ?n1 (ex_fc 1) (ex_ipv6 58 2 1 4) = Some (?n1\<lparr>lowerSendQ := lq\<rparr>, ex_fc 1, None) \<and>
    RingBuffer_Get lq = Some (Q, lowerSendQ ?n1) \<and>
    ping_transit (2 * length ex_ping_hops) ex_fcenv ex_ping_net (ex_id 1) (LowerDst Q) Q =
      Some (ex_ping_net(ex_id 1 \<mapsto> (?n1, (ex_fc 1)\<lparr>dev_out := dev_out (ex_fc 1) @ [pkt]\<rparr>))) \<and>
    time_exceeded_packet (pid_addr (env_C (fc_env ex_fcenv)) (nd_peerid ?n3)) (fc_ip (ex_fc 1)) (ex_ipv6 58 2 1 4) pkt"
    by (rule traceroute [OF _ _ _ E(4) ex_ping_path _ _ n ex_tun_packet sz rt])
      (use ref_crypto_ok ref_varint_ok ref_icmp_ok in \<open>simp_all add: E ex_ping_hops_def\<close>)
  moreover have "2 * length ex_ping_hops = 4" by (simp add: ex_ping_hops_def)
  ultimately show ?thesis using n(1) unfolding E(1) ex_ping_node_simps(2) ips fc by auto
qed

text \<open>
  C29. Ping packets can crash a node. A ping packet that a neighbour made by hand, with a position of 14 to
  253 that is not before the end of its route, makes the handler index its forwarder header out of
  range: the node panics.
\<close>

theorem ping_position_panics:
  assumes buf: "length (Buf P) = TptMTU" "14 \<le> unat (Buf P ! 20)" "unat (Buf P ! 20) \<le> 253"
      "unat (Buf P ! 21) \<le> unat (Buf P ! 20) + 1"
    and rt: "GetRoute (routing node) (LowerSrc P) = Inr prevrt" "hops prevrt \<noteq> []"
  shows "handlePingPacket F node fc (NewLowerPacket P) = None"
proof -
  obtain p where p: "NewPingPacket P = Some p" "Offset p = 16"
    and same: "\<And>i j. j \<le> 68 \<Longrightarrow> slice_of (fbuf p) i j = slice_of (Buf P) i j" "\<And>i. i < 68 \<Longrightarrow> idx (fbuf p) i = idx (Buf P) i"
    by (rule NewPingPacket_received [OF buf(1)]) (rule that)
  have "idx (fbuf p) 20 = Some (Buf P ! 20)" "idx (fbuf p) 21 = Some (Buf P ! 21)"
    using buf(1) same(2) [of 20] same(2) [of 21] by (simp_all add: idx_def TptMTU_def)
  then have here: "IsDestination p = Some True"
    using buf(4) p(2) by (simp add: IsDestination_def del: of_nat_unat)
  obtain slot where slot: "idx (Route_Bytes prevrt) 0 = Some slot" using rt(2) by (simp add: Route_Bytes_def idx_def)
  let ?h = "take 16 (drop 20 (Buf P))" and ?n = "Buf P ! 20"
  have h: "slice_of (fbuf p) 20 36 = Some ?h" using buf(1) same(1) [of 36 20] by (simp add: slice_of_def TptMTU_def)
  have "length ?h = 16" using buf(1) by (simp add: TptMTU_def)
  moreover have "unat (2 + ?n) = 2 + unat ?n" using buf(3) by (simp add: unat_word_ariths)
  ultimately have "upd ?h (int (unat (2 + ?n))) slot = None" "idx ?h 0 = Some ?n"
    using buf(1,2) by (simp_all add: upd_def idx_def TptMTU_def del: of_nat_unat)
  then have "ping_mark p slot = None" using p(2) h by (simp add: ping_mark_def)
  then show ?thesis using p(1) here rt(1) slot by (simp add: handlePingPacket_def)
qed

theorem ping_position_panics_witness:
  "handlePingPacket ex_fcenv (ex_node_a :: nat Node) (ex_fc 1)
     (NewLowerPacket ((NewPacket (replicate 20 0 @ [14, 1] @ replicate (TptMTU - 22) 0))
        \<lparr>LowerSrc := NewPeerID \<lparr>pub_bytes = replicate 32 2\<rparr>\<rparr>)) = None"
  by (rule ping_position_panics [where prevrt = "NewRoute [1]"])
    (simp_all add: NewPacket_def TptMTU_def nth_append ex_node_a_def GetRoute_def AddRoute_def NewRouting_def)

section \<open>Checksum\<close>

text \<open>
  C30. Internet checksum. On messages of up to 131072 bytes icmpChecksum, with its 32-bit accumulator and two
  foldings of the carries, is the complement of the sum of the message's 16-bit words in one's
  complement arithmetic, computed without bounds; and a message whose checksum field, at an even
  position, was zero and is then overwritten with the checksum passes the receiver's test, which is that
  its checksum is zero.
\<close>

theorem internet_checksum:
  assumes "length (a @ [0, 0] @ b) \<le> 131072" and "even (length a)" and "c = icmpChecksum (a @ [0, 0] @ b)"
  shows "unat c = 65535 - ones_sum (word_sum (a @ [0, 0] @ b)) \<and>
    icmpChecksum (a @ [ucast c, ucast (drop_bit 8 c)] @ b) = 0"
  using icmpChecksum_eq [OF assms(1)] checksum_verifies [OF assms(2,1,3)] assms(3) by simp

theorem internet_checksum_witness:
  "unat (icmpChecksum ([1, 2] @ [0, 0] @ [3])) = 65535 - 516 \<and> icmpChecksum ([1, 2] @ [0xfb, 0xfd] @ [3]) = 0"
proof -
  have c: "icmpChecksum ([1, 2] @ [0, 0] @ [3]) = 0xfdfb" by (simp add: icmpChecksum_def Let_def)
  have b: "ucast (0xfdfb :: u16) = (0xfb :: byte)" "ucast (drop_bit 8 (0xfdfb :: u16)) = (0xfd :: byte)" by simp_all
  show ?thesis using internet_checksum [of "[1, 2]" "[3]" "0xfdfb", unfolded b] c by (simp add: ones_sum_def)
qed

end
