(* ===== verification/Dns.thy ===== *)
theory Dns
  imports Keys PeerIds Instances
begin

text \<open>
  \<^verbatim>\<open>fcnet/dns.go\<close>: the name service, which turns the textual form of a PeerID under the domain \<^verbatim>\<open>rovy.\<close>
  into the IPv6 address of the peer. The package \<^verbatim>\<open>dns\<close> is outside the repository; of its messages only the fields
  that the handler reads or sets are kept, and \<open>dns_ok\<close> states what \<^verbatim>\<open>SetReply\<close> and \<^verbatim>\<open>SetRcode\<close> document.
\<close>

section \<open>Messages\<close>

record dns_question =
  Qname :: string
  Qtype :: nat

record dns_AAAA =
  rr_Name :: string
  rr_Rrtype :: nat
  rr_Class :: nat
  rr_Ttl :: nat
  rr_AAAA :: bytes

record dns_Msg =
  Question :: "dns_question list"
  Rcode :: nat
  Answer :: "dns_AAAA list"

definition new_Msg :: dns_Msg where "new_Msg = \<lparr>Question = [], Rcode = 0, Answer = []\<rparr>"

definition TypeAAAA :: nat where "TypeAAAA = 28"
definition ClassINET :: nat where "ClassINET = 1"
definition RcodeSuccess :: nat where "RcodeSuccess = 0"
definition RcodeNameError :: nat where "RcodeNameError = 3"
definition RcodeBadName :: nat where "RcodeBadName = 20"

record dnslib =
  SetReply :: "dns_Msg \<Rightarrow> dns_Msg \<Rightarrow> dns_Msg"
  SetRcode :: "dns_Msg \<Rightarrow> dns_Msg \<Rightarrow> nat \<Rightarrow> dns_Msg"

definition dns_ok :: "dnslib \<Rightarrow> bool" where
  "dns_ok D \<longleftrightarrow>
     (\<forall>m r. Rcode (SetReply D m r) = RcodeSuccess \<and> Answer (SetReply D m r) = Answer m) \<and>
     (\<forall>m r c. Rcode (SetRcode D m r c) = c \<and> Answer (SetRcode D m r c) = Answer m)"

section \<open>The handler\<close>

definition HasPrefix :: "string \<Rightarrow> string \<Rightarrow> bool" where
  "HasPrefix s p \<longleftrightarrow> take (length p) s = p"

definition HasSuffix :: "string \<Rightarrow> string \<Rightarrow> bool" where
  "HasSuffix s p \<longleftrightarrow> length p \<le> length s \<and> drop (length s - length p) s = p"

definition TrimSuffix :: "string \<Rightarrow> string \<Rightarrow> string" where
  "TrimSuffix s p = (if HasSuffix s p then take (length s - length p) s else s)"

definition aaaa :: "crypto \<Rightarrow> string \<Rightarrow> PeerID \<Rightarrow> dns_AAAA" where
  "aaaa C qname pid =
     \<lparr>rr_Name = qname, rr_Rrtype = TypeAAAA, rr_Class = ClassINET, rr_Ttl = 0,
      rr_AAAA = AsSlice (PublicKey_IPAddr C (PeerID_PublicKey pid))\<rparr>"

text \<open>The message written is the result; a request without a question panics.\<close>

definition ServeDNS :: "crypto \<Rightarrow> 'cid cidlib \<Rightarrow> dnslib \<Rightarrow> PeerID \<Rightarrow> dns_Msg \<Rightarrow> dns_Msg option" where
  "ServeDNS C L D LocalPeerID r = do {
     q \<leftarrow> (case Question r of [] \<Rightarrow> None | q # _ \<Rightarrow> Some q);
     let qtype = Qtype q;
     let qname = Qname q;
     let m = SetReply D new_Msg r;
     if qname = ''localhost.rovy.'' then Some (m\<lparr>Answer := Answer m @ [aaaa C qname LocalPeerID]\<rparr>)
     else if qtype \<noteq> TypeAAAA \<or> \<not> HasPrefix qname ''bafzqai'' \<or> \<not> HasSuffix qname ''.rovy.''
     then Some (SetRcode D m r RcodeNameError)
     else case cid_Decode L (TrimSuffix qname ''.rovy.'') of
       Inl _ \<Rightarrow> Some (SetRcode D m r RcodeBadName)
     | Inr c \<Rightarrow>
         (case PeerIDFromCid L c of
            Inl _ \<Rightarrow> Some (SetRcode D m r RcodeBadName)
          | Inr pid \<Rightarrow> Some (m\<lparr>Answer := Answer m @ [aaaa C qname pid]\<rparr>)) }"

lemma suffix_app [simp]: "HasSuffix (s @ p) p" "TrimSuffix (s @ p) p = s"
  by (simp_all add: HasSuffix_def TrimSuffix_def)

lemma suffix_split:
  assumes "HasSuffix s p"
  shows "s = TrimSuffix s p @ p"
  using assms append_take_drop_id [of "length s - length p" s] by (simp add: HasSuffix_def TrimSuffix_def)

lemma prefix_app [simp]: "HasPrefix s p \<Longrightarrow> HasPrefix (s @ t) p"
  by (auto simp: HasPrefix_def dest: arg_cong [of _ _ length])

lemma ServeDNS_sound:
  assumes D: "dns_ok D" and run: "ServeDNS C L D me \<lparr>Question = q # qs, Rcode = rc, Answer = an\<rparr> = Some m"
  shows "(Answer m = [] \<and> Rcode m \<noteq> RcodeSuccess) \<or>
    (Rcode m = RcodeSuccess \<and>
      ((Qname q = ''localhost.rovy.'' \<and> Answer m = [aaaa C (Qname q) me]) \<or>
       (Qtype q = TypeAAAA \<and> (\<exists>s c p. Qname q = s @ ''.rovy.'' \<and> cid_Decode L s = Inr c \<and> PeerIDFromCid L c = Inr p \<and>
          Answer m = [aaaa C (Qname q) p]))))"
proof -
  define local dom where "local = ''localhost.rovy.''" and "dom = ''.rovy.''"
  let ?r = "\<lparr>Question = q # qs, Rcode = rc, Answer = an\<rparr>" and ?s = "TrimSuffix (Qname q) dom"
  let ?m = "SetReply D new_Msg ?r"
  have m: "Rcode ?m = RcodeSuccess" "Answer ?m = []" "Rcode (SetRcode D ?m ?r c) = c" "Answer (SetRcode D ?m ?r c) = []" for c
    using D by (simp_all add: dns_ok_def new_Msg_def)
  have codes: "RcodeNameError \<noteq> RcodeSuccess" "RcodeBadName \<noteq> RcodeSuccess"
    by (simp_all add: RcodeNameError_def RcodeBadName_def RcodeSuccess_def)
  consider (self) "Qname q = local" "m = ?m\<lparr>Answer := Answer ?m @ [aaaa C (Qname q) me]\<rparr>"
    | (refused) c where "m = SetRcode D ?m ?r c" "c \<noteq> RcodeSuccess"
    | (found) c p where "Qtype q = TypeAAAA" "HasSuffix (Qname q) dom" "cid_Decode L ?s = Inr c" "PeerIDFromCid L c = Inr p"
        "m = ?m\<lparr>Answer := Answer ?m @ [aaaa C (Qname q) p]\<rparr>"
    using run codes unfolding ServeDNS_def unfolding local_def [symmetric] unfolding dom_def [symmetric]
    by (auto simp: Let_def split: if_splits sum.splits)
  then show ?thesis
  proof cases
    case found
    then have "Answer m = [aaaa C (Qname q) p]" "Rcode m = RcodeSuccess" using m by simp_all
    with found(1,3,4) suffix_split [OF found(2)] show ?thesis unfolding dom_def by blast
  qed (use m in \<open>simp_all add: local_def\<close>)
qed

section \<open>Properties\<close>

text \<open>
  C21. Name service. A request for the AAAA record of the textual form of a PeerID under rovy. is answered with the
  IPv6 address of that peer; and whatever is asked, an answer is either the node's own address for
  the name localhost.rovy., or, for a request of type AAAA, the address of a PeerID that the name without
  its domain parses to; there is at most one answer, and none unless the code is success.
\<close>

theorem dns_answers:
  assumes L: "cid_ok L" and D: "dns_ok D"
    and text_form: "\<And>p. \<not> PeerID_Empty p \<Longrightarrow> HasPrefix (PeerID_String L p) ''bafzqai''"
    and pid: "\<not> PeerID_Empty pid"
  shows "(\<exists>m. ServeDNS C L D me \<lparr>Question = [\<lparr>Qname = PeerID_String L pid @ ''.rovy.'', Qtype = TypeAAAA\<rparr>], Rcode = rc, Answer = an\<rparr>
            = Some m \<and> Rcode m = RcodeSuccess \<and>
          Answer m = [aaaa C (PeerID_String L pid @ ''.rovy.'') pid]) \<and>
    (ServeDNS C L D me (\<lparr>Question = q # qs, Rcode = rc, Answer = an\<rparr>) = Some m \<longrightarrow>
       (Answer m = [] \<and> Rcode m \<noteq> RcodeSuccess) \<or>
       (Rcode m = RcodeSuccess \<and>
        ((Qname q = ''localhost.rovy.'' \<and> Answer m = [aaaa C (Qname q) me]) \<or>
         (Qtype q = TypeAAAA \<and> (\<exists>s c p. Qname q = s @ ''.rovy.'' \<and> cid_Decode L s = Inr c \<and> PeerIDFromCid L c = Inr p \<and>
            Answer m = [aaaa C (Qname q) p])))))"
proof -
  let ?n = "PeerID_String L pid"
  have str: "?n = cid_String L (PeerID_Cid L pid)" using pid by (simp add: PeerID_String_def)
  have parse: "cid_Decode L ?n = Inr (PeerID_Cid L pid)" using L by (simp add: str cid_ok_def)
  have back_id: "PeerIDFromCid L (PeerID_Cid L pid) = Inr pid" using PeerID_Cid_props [OF L, of pid]
    by (simp add: PeerIDFromCid_def PublicKeySize_def NewPublicKey_id)
  have "?n @ ''.rovy.'' \<noteq> ''localhost.rovy.''"
  proof
    assume "?n @ ''.rovy.'' = ''localhost.rovy.''"
    then have "?n = ''localhost''" using append_same_eq [of ?n "''.rovy.''" "''localhost''"] by simp
    with text_form [OF pid] show False by (simp add: HasPrefix_def)
  qed
  then have first: "\<exists>m. ServeDNS C L D me \<lparr>Question = [\<lparr>Qname = ?n @ ''.rovy.'', Qtype = TypeAAAA\<rparr>], Rcode = rc, Answer = an\<rparr>
            = Some m \<and> Rcode m = RcodeSuccess \<and> Answer m = [aaaa C (?n @ ''.rovy.'') pid]"
    using parse back_id text_form [OF pid] D by (simp add: ServeDNS_def dns_ok_def new_Msg_def Let_def)
  then show ?thesis using ServeDNS_sound [OF D] by blast
qed

definition ref_dns :: dnslib where
  "ref_dns = \<lparr>SetReply = (\<lambda>m r. m\<lparr>Question := take 1 (Question r), Rcode := 0\<rparr>),
     SetRcode = (\<lambda>m r c. m\<lparr>Question := take 1 (Question r), Rcode := c\<rparr>)\<rparr>"

definition text_cid :: "(u64 \<times> bytes) cidlib" where
  "text_cid = ref_cid\<lparr>cid_String := (\<lambda>c. ''bafzqai'' @ cid_String ref_cid c),
     cid_Decode := (\<lambda>s. if HasPrefix s ''bafzqai'' then cid_Decode ref_cid (drop 7 s) else Inl (ErrExternal ''cid'')),
     cid_Parse := (\<lambda>s. if HasPrefix s ''bafzqai'' then cid_Decode ref_cid (drop 7 s) else Inl (ErrExternal ''cid''))\<rparr>"

lemma text_cid_ok: "cid_ok text_cid"
  using ref_cid_ok by (auto simp: cid_ok_def text_cid_def HasPrefix_def)

theorem dns_answers_witness:
  "\<exists>m. ServeDNS ref_crypto text_cid ref_dns emptyPeerID
     \<lparr>Question = [\<lparr>Qname = PeerID_String text_cid \<lparr>b1 = 7, b2 = 0, b3 = 0, b4 = 0\<rparr> @ ''.rovy.'', Qtype = TypeAAAA\<rparr>], Rcode = 0, Answer = []\<rparr> = Some m \<and>
     Answer m = [aaaa ref_crypto (PeerID_String text_cid \<lparr>b1 = 7, b2 = 0, b3 = 0, b4 = 0\<rparr> @ ''.rovy.'') \<lparr>b1 = 7, b2 = 0, b3 = 0, b4 = 0\<rparr>]"
proof -
  have D: "dns_ok ref_dns" by (simp add: dns_ok_def ref_dns_def RcodeSuccess_def)
  have t: "HasPrefix (PeerID_String text_cid p) ''bafzqai''" if "\<not> PeerID_Empty p" for p
    using that by (simp add: PeerID_String_def text_cid_def HasPrefix_def)
  have p: "\<not> PeerID_Empty \<lparr>b1 = 7, b2 = 0, b3 = 0, b4 = 0\<rparr>" by (simp add: PeerID_Empty_def emptyPeerID_def)
  show ?thesis using dns_answers [OF text_cid_ok D t p, where C = ref_crypto] by blast
qed

end
