(* ===== verification/IdentityProperties.thy ===== *)
theory IdentityProperties
  imports Handshake Instances
begin

text \<open>
  Keys, identities, routes and addresses: the properties of the packages at the root of the
  repository and of the helpers of the handshake.
\<close>

section \<open>Keys\<close>

text \<open>
  C38. Key generation. GeneratePrivateKey skips draws whose address is outside fc00::/8 and returns
  the first other one: it fails exactly when the generator fails before that. The key it returns has 32
  bytes, its address starts with 0xfc, and it is the draw itself: the call of clamp, which has a value
  receiver, leaves it as it was drawn.
\<close>

theorem key_generation:
  assumes "\<And>r. r \<in> set rejected \<Longrightarrow> \<not> in_fc00 C r"
  shows "GeneratePrivateKey C (map Inr rejected @ Inl e # rest) = Some (Inl e) \<and>
    (in_fc00 C r \<longrightarrow>
       GeneratePrivateKey C (map Inr rejected @ Inr r # rest) = Some (Inr \<lparr>priv_bytes = to_array 32 r\<rparr>) \<and>
       wf_priv \<lparr>priv_bytes = to_array 32 r\<rparr> \<and>
       take 1 (As16 (PublicKey_IPAddr C (PrivateKey_PublicKey C \<lparr>priv_bytes = to_array 32 r\<rparr>))) = [0xfc])"
  by (auto simp: GeneratePrivateKey_skip [OF assms] GeneratePrivateKey_step wf_priv_def in_fc00_def)

theorem key_generation_witness:
  "GeneratePrivateKey ref_crypto (map Inr [] @ Inl (ErrExternal ''EIO'') # []) = Some (Inl (ErrExternal ''EIO'')) \<and>
   GeneratePrivateKey ref_crypto (map Inr [] @ Inr (replicate 32 0xff) # []) = Some (Inr \<lparr>priv_bytes = to_array 32 (replicate 32 0xff)\<rparr>)"
  using key_generation [of "[]" ref_crypto "ErrExternal ''EIO''" "[]" "replicate 32 0xff"]
  by (simp add: ref_in_fc00)

text \<open>
  Keys as text. When the multibase codec decodes what it encodes, parsing the text of a key
  gives the key back. A text that decodes to fewer than 32 bytes makes ParsePrivateKey panic
  instead of returning an error.
\<close>

theorem private_key_text:
  assumes "\<And>b. dec (enc b) = Inr b" and "wf_priv k" and "length short < 32"
  shows "ParsePrivateKey dec (PrivateKey_String enc k) = Some (Inr k) \<and> ParsePrivateKey dec (enc short) = None"
  using assms NewPrivateKey_Some [OF assms(2)]
  by (auto simp: ParsePrivateKey_def PrivateKey_String_def NewPrivateKey_def slice_of_def PrivateKeySize_def)

theorem private_key_text_witness:
  "ParsePrivateKey (\<lambda>s. Inr (str_bytes s)) (PrivateKey_String (map (\<lambda>b. char_of (unat b))) \<lparr>priv_bytes = replicate 32 1\<rparr>) =
     Some (Inr \<lparr>priv_bytes = replicate 32 1\<rparr>) \<and>
   ParsePrivateKey (\<lambda>s. Inr (str_bytes s)) (map (\<lambda>b. char_of (unat b)) [1, 2, 3 :: byte]) = None"
  using private_key_text [of "\<lambda>s. Inr (str_bytes s)" "map (\<lambda>b. char_of (unat b))" "\<lparr>priv_bytes = replicate 32 1\<rparr>" "[1, 2, 3]"]
  by (simp add: str_bytes_chars wf_priv_def)

section \<open>Identities\<close>

text \<open>
  C39. Identities determine keys. Packing a public key into a PeerID loses nothing, in both directions, and a
  PeerID survives the trip through its content identifier and through its binary form.
\<close>

theorem peerid_roundtrips:
  assumes "cid_ok L" and "wf_pub pk"
  shows "PeerID_PublicKey (NewPeerID pk) = pk \<and> NewPeerID (PeerID_PublicKey pid) = pid \<and>
    PeerIDFromCid L (PeerID_Cid L pid) = Inr pid \<and>
    (case PeerID_MarshalBinary L pid of Inl _ \<Rightarrow> False | Inr b \<Rightarrow> PeerID_UnmarshalBinary L b = Some (Inr pid))"
  using PeerID_Unmarshal_Marshal [OF assms(1), of pid] assms
  by (simp add: PeerIDFromCid_Cid PeerID_MarshalBinary_def)

theorem peerid_roundtrips_witness:
  "PeerID_PublicKey (NewPeerID \<lparr>pub_bytes = replicate 32 5\<rparr>) = \<lparr>pub_bytes = replicate 32 5\<rparr> \<and>
   PeerIDFromCid ref_cid (PeerID_Cid ref_cid emptyPeerID) = Inr emptyPeerID"
  using peerid_roundtrips [OF ref_cid_ok, of "\<lparr>pub_bytes = replicate 32 5\<rparr>" emptyPeerID] by (simp add: wf_pub_def)

section \<open>Routes\<close>

text \<open>
  Routes. Reversing a route twice gives the route, reversing a joined route joins the reversed
  parts in the opposite order, the textual form of a route determines it, and Equal is equality.
\<close>

theorem route_laws:
  "Route_Reverse (Route_Reverse r) = r \<and>
   Route_Reverse (Route_Join r s) = Route_Join (Route_Reverse s) (Route_Reverse r) \<and>
   Route_Len (Route_Join r s) = Route_Len r + Route_Len s \<and>
   (Route_String r = Route_String s \<longleftrightarrow> r = s) \<and> (Route_Equal r s \<longleftrightarrow> r = s)"
proof -
  have "Route_String r = Route_String s \<Longrightarrow> r = s"
    using Route_String_inject_hops [of "hops r" "hops s"] by (cases r; cases s) simp
  then have "Route_String r = Route_String s \<longleftrightarrow> r = s" by blast
  then show ?thesis by (simp add: Route_eq_iff [of "Route_Reverse _"] Route_Len_def Route_Equal_iff)
qed

section \<open>Padding\<close>

text \<open>
  Padding. For sizes and MTUs that are not negative, the padding added to a packet is between 0 and
  15 bytes, and it fills the last unit of the packet up to a multiple of 16 or, where that would
  exceed the MTU, up to the MTU.
\<close>

theorem padding_size:
  assumes "0 \<le> len" and "0 \<le> mtu"
    and "unit = (if mtu \<noteq> 0 \<and> len > mtu then len mod mtu else len)"
  shows "0 \<le> calculatePaddingSize len mtu \<and> calculatePaddingSize len mtu \<le> 15 \<and>
    (16 dvd unit + calculatePaddingSize len mtu \<or> unit + calculatePaddingSize len mtu = mtu) \<and>
    (mtu \<noteq> 0 \<longrightarrow> unit + calculatePaddingSize len mtu \<le> mtu)"
proof -
  have unit: "mtu \<noteq> 0 \<Longrightarrow> unit \<le> mtu" using assms by (auto intro: order.strict_implies_order pos_mod_bound)
  note pad = calculatePaddingSize_unit [OF assms] and b = round_up_16_bounds [of unit]
  show ?thesis unfolding pad using unit b assms(2) by (auto simp: min_def)
qed

theorem padding_size_witness:
  "0 \<le> calculatePaddingSize 1425 1420 \<and> calculatePaddingSize 1425 1420 \<le> 15"
  using padding_size [of 1425 1420 5] by simp

section \<open>Addresses\<close>

lemma upd_at: "i = int (length a) \<Longrightarrow> upd (a @ x # c) i v = Some (a @ v # c)"
  by (simp add: upd_def list_update_append)

lemma copy_in: "length m = length z \<Longrightarrow> i = int (length h) \<Longrightarrow> j = i + int (length m) \<Longrightarrow>
  copy_at (h @ z @ r) i j m = Some (h @ m @ r)"
  by (simp add: copy_at_def splice_def)

text \<open>The code and the bytes of an IP address, written at the start of the buffer.\<close>

lemma ip_bytes:
  assumes "n = int (length b)" and "k = length b"
  shows "(do { buf \<leftarrow> upd (replicate (k + 5) 0 @ r) 0 c;
               buf \<leftarrow> copy_at buf 1 (1 + n) b;
               Some (buf, 1 + n) }) = Some ((c # b) @ replicate 4 0 @ r, 1 + n)"
proof -
  have "replicate (k + 5) (0 :: byte) @ r = [] @ 0 # replicate k 0 @ replicate 4 0 @ r"
    by (simp add: replicate_add numeral_eq_Suc replicate_app_Cons_same)
  then have "upd (replicate (k + 5) 0 @ r) 0 c = Some ([c] @ replicate k 0 @ replicate 4 0 @ r)"
    using upd_at [of 0 "[]" 0 "replicate k 0 @ replicate 4 0 @ r" c] by simp
  moreover have "copy_at ([c] @ replicate k 0 @ replicate 4 0 @ r) 1 (1 + n) b = Some ([c] @ b @ replicate 4 0 @ r)"
    by (rule copy_in) (use assms in simp_all)
  ultimately show ?thesis by simp
qed

text \<open>The code of UDP and the port, behind them.\<close>

lemma port_bytes:
  assumes "n = int (length h)"
  shows "(do { buf \<leftarrow> upd (h @ replicate 4 0 @ r) (n + 0) x0;
               buf \<leftarrow> upd buf (n + 1) x1;
               buf \<leftarrow> upd buf (n + 2) x2;
               buf \<leftarrow> upd buf (n + 3) x3;
               Some (buf, n + 4) }) = Some (h @ [x0, x1, x2, x3] @ r, n + 4)"
proof -
  have "replicate 4 (0 :: byte) = [0, 0, 0, 0]" by (simp add: numeral_eq_Suc)
  then show ?thesis
    using assms upd_at [of "n + 0" h 0 "[0, 0, 0] @ r" x0] upd_at [of "n + 1" "h @ [x0]" 0 "[0, 0] @ r" x1]
      upd_at [of "n + 2" "h @ [x0, x1]" 0 "[0] @ r" x2] upd_at [of "n + 3" "h @ [x0, x1, x2]" 0 r x3]
    by simp
qed

text \<open>The rest of the address, last.\<close>

lemma more_bytes:
  assumes "n = int (length h)" and "xs = (case m of None \<Rightarrow> [] | Some mb \<Rightarrow> mb)"
  shows "(case m of
        None \<Rightarrow> Some (h @ replicate (length xs) 0, n)
      | Some mb \<Rightarrow> do {
          buf \<leftarrow> copy_at (h @ replicate (length xs) 0) n (n + int (length mb)) mb;
          Some (buf, n + int (length mb)) }) = Some (h @ xs, int (length (h @ xs)))"
  using assms copy_in [of xs "replicate (length xs) 0" n h "n + int (length xs)" "[]"]
  by (auto split: option.splits)

text \<open>The first part of \<^verbatim>\<open>Bytes\<close>, for either family.\<close>

lemma ip_stage:
  assumes wf: "wf_addr (IP ma)" and buf: "buf = replicate (length (ip_part ma) + k) 0"
  shows "(if IsValid (IP ma) then do {
      (buf, n) \<leftarrow>
        (if Is4 (IP ma) then do {
           buf \<leftarrow> upd buf 0 0x4; buf \<leftarrow> copy_at buf 1 5 (AsSlice (IP ma)); Some (buf, 5) }
         else do {
           buf \<leftarrow> upd buf 0 0x29; buf \<leftarrow> copy_at buf 1 17 (AsSlice (IP ma)); Some (buf, 17) });
      buf \<leftarrow> upd buf (n + 0) 0x91;
      buf \<leftarrow> upd buf (n + 1) 0x02;
      buf \<leftarrow> upd buf (n + 2) (ucast (drop_bit 8 (Port ma)));
      buf \<leftarrow> upd buf (n + 3) (ucast (Port ma));
      Some (buf, n + 4) }
    else Some (buf, 0)) = Some (ip_part ma @ replicate k 0, int (length (ip_part ma)))"
proof -
  have block: "(do { buf \<leftarrow> upd buf 0 c; buf \<leftarrow> copy_at buf 1 m b; Some (buf, m) }) =
      Some ((c # b) @ replicate 4 0 @ replicate k 0, m)" if "length (ip_part ma) = length b + 5" "m = 1 + int (length b)" for b c m
    unfolding buf that(2) that(1) replicate_add [of "length b + 5"] by (rule ip_bytes) simp_all
  show ?thesis
  proof (cases "IP ma")
    case AddrZero
    then show ?thesis by (simp add: buf ip_part_def)
  next
    case (Addr4 b)
    with wf have b: "length (ip_part ma) = length b + 5" "5 = 1 + int (length b)" by (simp_all add: ip_part_def)
    show ?thesis
      unfolding Addr4 IsValid.simps if_True Is4.simps AsSlice.simps block [OF b]
      using port_bytes [where n = 5 and h = "0x4 # b" and r = "replicate k 0"] b
      by (simp add: ip_part_def Addr4 be_bytes16_def)
  next
    case (Addr6 b z)
    with wf have b: "length (ip_part ma) = length b + 5" "17 = 1 + int (length b)" by (simp_all add: ip_part_def)
    show ?thesis
      unfolding Addr6 IsValid.simps if_True if_False Is4.simps AsSlice.simps block [OF b]
      using port_bytes [where n = 17 and h = "0x29 # b" and r = "replicate k 0"] b
      by (simp add: ip_part_def Addr6 be_bytes16_def)
  qed
qed

text \<open>
  Binary multiaddrs. The binary form of an address without a PeerID is the code and the
  bytes of the IP address, the code of UDP with the port in network byte order, and then the rest of
  the address. With a PeerID and nothing else behind the port, Bytes panics: it copies the bytes of
  the absent rest instead of those of the PeerID.
\<close>

theorem multiaddr_bytes:
  assumes "wf_addr (IP ma)"
  shows "(MaPeerID ma = emptyPeerID \<longrightarrow>
      Multiaddr_Bytes ma = Some (ip_part ma @ (case More ma of None \<Rightarrow> [] | Some mb \<Rightarrow> mb))) \<and>
    (MaPeerID ma \<noteq> emptyPeerID \<longrightarrow> More ma = None \<longrightarrow> Multiaddr_Bytes ma = None)"
proof (intro conjI impI)
  assume pid: "MaPeerID ma = emptyPeerID"
  define rest where "rest = (case More ma of None \<Rightarrow> [] | Some mb \<Rightarrow> mb)"
  have len: "Multiaddr_bytes_len ma = int (length (ip_part ma @ rest))"
    using pid assms by (cases "IP ma") (simp_all add: Multiaddr_bytes_len_def ip_part_def rest_def split: option.splits)
  then have "replicate (nat (Multiaddr_bytes_len ma)) 0 = replicate (length (ip_part ma) + length rest) 0" by simp
  note stage = ip_stage [OF assms this]
  have "Multiaddr_Bytes ma = slice_of (ip_part ma @ rest) 0 (int (length (ip_part ma @ rest)))"
    unfolding Multiaddr_Bytes_def Let_def stage Option.bind.simps prod.case more_bytes [OF refl rest_def]
    using pid len by simp
  then show "Multiaddr_Bytes ma = Some (ip_part ma @ (case More ma of None \<Rightarrow> [] | Some mb \<Rightarrow> mb))"
    by (simp add: rest_def slice_of_def)
next
  assume "MaPeerID ma \<noteq> emptyPeerID" "More ma = None"
  then show "Multiaddr_Bytes ma = None" by (rule Multiaddr_Bytes_nil_More)
qed

theorem multiaddr_bytes_witness:
  "Multiaddr_Bytes (FromAddrPort (Addr4 [127, 0, 0, 1], 0x0520)) = Some [4, 127, 0, 0, 1, 0x91, 2, 5, 0x20] \<and>
   Multiaddr_Bytes ((FromAddrPort (Addr4 [127, 0, 0, 1], 0x0520))\<lparr>MaPeerID := \<lparr>b1 = 1, b2 = 0, b3 = 0, b4 = 0\<rparr>\<rparr>) = None"
  using multiaddr_bytes [of "FromAddrPort (Addr4 [127, 0, 0, 1], 0x0520)"]
    multiaddr_bytes [of "(FromAddrPort (Addr4 [127, 0, 0, 1], 0x0520))\<lparr>MaPeerID := \<lparr>b1 = 1, b2 = 0, b3 = 0, b4 = 0\<rparr>\<rparr>"]
  by (simp add: FromAddrPort_def emptyMultiaddr_def emptyPeerID_def ip_part_def be_bytes16_def)

end
