(* ===== verification/Spec2Isabelle.thy ===== *)
theory Spec2Isabelle
  imports StartProperties PacketTypes RoutedProperties FcnetProperties Dns DiscoveryProperties NodeProperties SessionProperties IdentityProperties
begin

text \<open>
  A verification of Rovy, a peer-to-peer overlay network (\<^verbatim>\<open>go.rovy.net\<close>). A node has a
  key and an identity derived from it, keeps encrypted sessions with other nodes, and forwards
  packets along routes whose labels name the slot of the next hop at every node.

  \<^bold>\<open>Parts of the program and the theories that model them.\<close>

  \<^item> \<^verbatim>\<open>key.go\<close>, \<^verbatim>\<open>peerid.go\<close>, \<^verbatim>\<open>multiaddr.go\<close>, \<^verbatim>\<open>route.go\<close>, \<^verbatim>\<open>packet.go\<close>: theories \<open>Keys\<close>, \<open>PeerIds\<close>,
    \<open>Multiaddrs\<close>, \<open>Routes\<close>, \<open>Packets\<close>. Structs are records of the same names and fields, arrays are
    byte lists whose length is part of a well-formedness predicate (\<open>wf_priv\<close>, \<open>wf_pub\<close>,
    \<open>wf_addr\<close>), and the upper and lower view of a packet is a frame around the same buffer.
  \<^item> \<^verbatim>\<open>node/session/packet.go\<close>: theory \<open>SessionPackets\<close>, one getter and one setter per field of the
    four packet formats. The locales \<open>packet_field\<close> and \<open>packet_body\<close> state what a field promises
    (what was set is read back, other ranges keep their bytes); they are interpreted for every
    field of every format.
  \<^item> \<^verbatim>\<open>node/session/ikpsk2\<close>: theory \<open>Handshake\<close>, the key derivation and the messages of the handshake
    in the order the code computes them.
  \<^item> \<^verbatim>\<open>node/session/session.go\<close>, \<^verbatim>\<open>manager.go\<close>: theory \<open>Sessions\<close>. A nil pointer in the table is
    \<open>Some None\<close>, a missing entry \<open>None\<close>. \<open>SessionInvariants\<close> proves the invariant \<open>sm_inv\<close> for every
    operation; \<open>SessionRuns\<close> composes the operations into exchanges between two tables.
  \<^item> \<^verbatim>\<open>node/forwarder\<close>: theory \<open>Forwarder\<close>; \<open>Labels\<close> describes the route label as it travels, and
    \<open>Forwarding\<close> runs packets through a network of forwarders.
  \<^item> \<^verbatim>\<open>node/routing\<close>, \<^verbatim>\<open>node/util/ringbuf\<close>, \<^verbatim>\<open>node/transport.go\<close>: theories \<open>Routing\<close>, \<open>Ringbuf\<close>, \<open>Transport\<close>.
  \<^item> \<^verbatim>\<open>node/node.go\<close>, \<^verbatim>\<open>send.go\<close>, \<^verbatim>\<open>recv.go\<close>, \<^verbatim>\<open>peer.go\<close>: theory \<open>Node\<close>, the state of a node, its interface and
    its eight routines; \<open>NodeInvariants\<close> is the step relation of a node and its invariant;
    \<open>Delivery\<close> follows one packet through the queues of two nodes, \<open>Connecting\<close> the hello and the response.
    \<open>Relaying\<close> moves packets with a route along a chain of nodes, \<open>RoutedSessions\<close> has the steps of its two ends and \<open>RoutedRuns\<close> the
    whole exchanges between them. \<^verbatim>\<open>node/api.go\<close> and the types of \<^verbatim>\<open>api/interface.go\<close>
    are in \<open>NodeApi\<close>.
  \<^item> \<^verbatim>\<open>fcnet/fcnet.go\<close>, \<^verbatim>\<open>ping.go\<close>, \<^verbatim>\<open>dns.go\<close>: the IPv6 network over a node. \<open>PingPackets\<close> is the format of ping packets, \<open>Checksum\<close>
    the Internet checksum, \<open>Fcnet\<close> the state and the handlers, \<open>Dns\<close> the name service, \<open>Netip\<close> what is used of
    \<^verbatim>\<open>net/netip\<close>. \<open>FcnetRuns\<close> and \<open>PingRuns\<close> run the handlers on well-formed packets, \<open>Traceroute\<close> sends a ping through a
    network of nodes.
  \<^item> \<^verbatim>\<open>node/service\<close>, \<^verbatim>\<open>node/discovery\<close>, \<^verbatim>\<open>node/discovery.go\<close>: theory \<open>Discovery\<close>, the table of services, the link-local service with its two
    routines, and the calls that start and stop it; \<open>Cbor\<close> is an executable coder for announcements, \<open>DiscoveryProperties\<close> has the step relation.
  \<^item> The textual forms: \<open>NetipText\<close> is the parser and the printer of addresses of \<^verbatim>\<open>net/netip\<close>, \<open>AddrRoundTrip\<close> shows that they
    are inverse, \<open>MultiaddrText\<close> is the parser and the printer of \<^verbatim>\<open>multiaddr.go\<close>, \<open>Durations\<close> those of durations of \<^verbatim>\<open>time\<close>,
    and \<open>Json\<close> the JSON forms of the types of the interface.
  \<^item> \<^verbatim>\<open>api/server\<close>, \<^verbatim>\<open>api/client\<close>: theories \<open>ApiServer\<close> (the handlers and their table of routes, over the state of a node, its
    services and its network endpoint) and \<open>ApiClient\<close> (the calls, over the transport of requests); \<open>ApiRuns\<close> puts the client on top
    of the server.
  \<^item> \<^verbatim>\<open>fcnet/tun.go\<close>, \<^verbatim>\<open>tun_netlink.go\<close>, \<^verbatim>\<open>tun_nm.go\<close>: theory \<open>Tun\<close>, opening a device and making its connection, over the open descriptors and the connections of
    NetworkManager.
  \<^item> \<^verbatim>\<open>api/config\<close> and \<^verbatim>\<open>cmd/rovy\<close>: \<open>Filesystem\<close> (paths and files), \<open>Config\<close> (the key file and the
    configuration file), \<open>Commands\<close> (flags, paths, \<^verbatim>\<open>rovy init\<close>, reading the key, the socket) and \<open>StartCommand\<close> (configuring a node through the
    client, \<^verbatim>\<open>rovy start\<close>, and the commands that talk to a running node). \<open>ConfigInstances\<close> has concrete libraries for the witnesses.

  \<^bold>\<open>How the code is represented.\<close>

  \<^item> An operation that may panic returns an option, \<^const>\<open>None\<close> being the panic; an operation that
    may fail returns a sum, \<^const>\<open>Inl\<close> being the error. Errors of external packages are values of
    \<open>ErrExternal\<close>, formatted errors keep the constant start of their text. Index and slice
    expressions are \<open>idx\<close>, \<open>upd\<close>, \<open>slice_of\<close> and \<open>copy_at\<close> of \<open>Prelude\<close>, which are \<^const>\<open>None\<close> exactly where Go
    panics.
  \<^item> The Go code passes packets by value and shares the buffer. The model returns the changed
    packet, and a caller that goes on with its own header over the changed buffer takes the
    buffer from it (\<open>with_buf\<close>).
  \<^item> Integers of fixed width are words: bytes, indices of sessions (32 bits), nonces and
    codecs (64 bits). Offsets and lengths, which stay far below the limit of Go's int, are integers.
  \<^item> The generator of random bytes is a list of draws, each an error or bytes. A loop that
    repeats a draw consumes the list, and the value for a list that ends too early is \<^const>\<open>None\<close>;
    the theorems about these loops assume that a usable draw occurs. The order in which Go
    iterates over a map is an argument, and theorems hold for every order.
  \<^item> One iteration of a goroutine's loop is one step. Locks make every operation of the tables of sessions, slots and
    routes and of the waiters atomic, so that a run of a node is a sequence of such steps, in any order (\<open>node_step\<close>,
    \<open>node_reachable\<close>). Registering a handler, listening, starting and stopping have no lock, and are one step as well: a call of them that
    overlaps with another is not covered. The table of services has no lock either: what is proved about it holds for calls that do not overlap, with
    the routines of the services interleaved in any way (\<open>disco_run\<close>, \<open>disco_reachable\<close>). A receive from an empty channel and a send to a full one block: the value is
    \<^const>\<open>None\<close>, the step is not taken. A step that panics has no successor either;
    in \<open>disco_run\<close> the end of the process by a panic is a state of its own.
  \<^item> A handler that was registered for a codec runs in the mux routine that calls it. The step of that routine records the call
    (\<open>upper_calls\<close>, \<open>lower_calls\<close>); the handlers of \<^verbatim>\<open>fcnet\<close> are definitions of their own, and theorems that follow a packet beyond
    the mux apply them to what was recorded. A panic of a handler, which ends the process as well, is visible there only.
  \<^item> The number of forwarding steps in \<open>transit\<close> is bounded by its first argument; \<open>route_delivers\<close>
    shows that the number of hops is enough. The number of handler calls in \<open>ping_transit\<close> is bounded in the same way;
    \<open>traceroute\<close> shows that two calls for each hop are enough.
  \<^item> Devices, sockets and network interfaces belong to the operating system: what is read from them is
    an argument of the step that reads, what is written is kept in a list or returned. Files are a map
    from paths to bytes; a record of fault functions says which call on which path fails and how, so that theorems
    hold for every such failure. Descriptors are a list of those that are open.
  \<^item> A JSON text is represented by the value it denotes (\<open>json\<close>), with the cases of a missing body and of a text that is not JSON;
    the names of fields are compared as the decoder does, and strings pass through its replacement of invalid UTF-8.
  \<^item> Printed text that only a person reads (\<^verbatim>\<open>%#v\<close> of a status) and the texts of formatted errors behind their constant start
    are left out.
  \<^item> Code outside the repository is a parameter: the record \<open>crypto\<close> (curve25519, BLAKE2s, SHA-512,
    ChaCha20-Poly1305), \<open>varint\<close>, \<open>cidlib\<close>, and functions for multibase, multiaddr, CBOR, TOML, DNS messages, ICMP messages, the router of HTTP requests,
    NetworkManager, the expansion of home directories, the product of floating-point numbers in \<open>ParseDuration\<close>, and
    sockets. What the code relies on are the predicates \<open>crypto_ok\<close> (sizes, Diffie-Hellman
    commutes, opening inverts sealing), \<open>varint_ok\<close>, \<open>cid_ok\<close>, \<open>cid_text_ok\<close>, \<open>icmp_ok\<close>, \<open>dns_ok\<close>, \<open>toml_ok\<close>, \<open>multibase_ok\<close>, \<open>router_ok\<close>, \<open>float_ok\<close>, \<open>nm_ok\<close> and
    \<open>cli_ok\<close>; \<open>Instances\<close>, \<open>Cbor\<close> and \<open>ConfigInstances\<close> have concrete functions that satisfy them. Secrecy and unforgeability of the primitives are not stated.

  \<^bold>\<open>What is proved.\<close>

  \<^item> Sessions (\<open>SessionProperties\<close>): a hello and a response establish the two ends of one session;
    data sealed at one end is opened at the other, with the sender's identity; the
    identity that is reported is the authenticated one; the table invariant; no nonce repeats;
    the handlers return on packets that cover their header, and panic on a shorter hello.
  \<^item> Forwarding (\<open>Forwarding\<close>): a route of up to 13 hops delivers, the label it leaves
    leads back, the slot table is consistent, and the limits of the label are those the code has.
  \<^item> Connecting (\<open>ConnectProperties\<close>): from two nodes that never met, a call of \<^verbatim>\<open>Connect\<close> leads to a session, a route and a woken caller, and to messages that
    arrive in both directions, through the queues, routines and transports of both nodes.
  \<^item> Routed sessions (\<open>RoutedProperties\<close>): the same between the two ends of a line of 2 to 13 hops, with the nodes between passing on every packet
    with the sessions they share; the network is a list of nodes, and a datagram goes on only if it is sent to the address of the next one.
  \<^item> Node (\<open>NodeProperties\<close>): the invariant of all reachable nodes, delivery from \<^verbatim>\<open>Send\<close> to the handler
    at a neighbour, waiters, handlers, starting and stopping; \<open>PacketTypes\<close>: every queued packet has a buffer of the transport's
    size, and what follows for the routines up to the call of a handler. The locales \<open>startable\<close> (node,
    transport and discovery service), \<open>first_wins\<close> (routes and both handler tables), \<open>drop_oldest\<close> (queues) and \<open>index_table\<close>
    (sessions) hold the shared contracts.
  \<^item> Identities (\<open>IdentityProperties\<close>): key generation, textual and binary forms, laws of routes, padding; \<open>MultiaddrText\<close>: an address
    with a port, an identity or both is read back from its text.
  \<^item> Network (\<open>FcnetProperties\<close>, \<open>Dns\<close>): a packet read from one tunnel is written to the tunnel of the neighbour it is
    addressed to; the handler of upper packets writes nothing with a foreign source address, and panics exactly on packets without a
    payload (ping replies, whose sender is not authenticated, are another way to the tunnel); a packet whose hop limit ends on the way comes back as
    an ICMPv6 message with a valid checksum from the node where it ended; names are answered with the
    address of the identity they spell; a crafted position in a ping packet panics the node.
  \<^item> Discovery (\<open>DiscoveryProperties\<close>): calls made one after another refine a three-state contract as long as no
    service is started with an interval that is not positive, which can end the process; one service runs at a time; an announcement is
    received as the address it was made for; a restart can fail while the service counts as running; and two overlapping calls can leave two
    running services.

  \<^item> Interface (\<open>ApiProperties\<close>): a client that talks to the server of a node refines the node itself, for sequences of the calls
    of the interface that a node implements, with addresses that have a port and no further part; the status of the peers is the exception. The locale \<open>simulation\<close> lifts a step of two systems to runs; it is interpreted here and for the services.
  \<^item> Tunnel devices (\<open>TunProperties\<close>): the bounds of the request for a device, no descriptor left by a failing call, and a successful
    start leaves one active connection with the settings of the node.
  \<^item> Commands (\<open>CommandProperties\<close>, \<open>StartProperties\<close>): what \<^verbatim>\<open>rovy init\<close> writes \<^verbatim>\<open>rovy start\<close> reads, no existing file is changed, and
    \<^verbatim>\<open>rovy start\<close> leaves a running node that is configured as the files say, through the client, the server, the tunnel device, the network endpoint
    and the discovery service.

  \<^bold>\<open>What is not modelled.\<close> Log output, timers, the accessors that copy a field, and the programs under \<^verbatim>\<open>examples\<close>, which set up
  nodes for a demonstration. The methods of \<open>NMTUN\<close> that only return a constant have no definition.
\<close>

end
